(* ===== verification/Gateway_Prelude.thy ===== *)
theory Gateway_Prelude
  imports Complex_Main "HOL-Library.AList" "HOL-Library.Sublist" "HOL-Library.Char_ord"
    "HOL-Library.List_Lexorder"
begin

text \<open>
  Shared vocabulary of the development: the Python values the gateway handles (what
  \<open>json.loads\<close> and \<open>yaml.safe_load\<close> produce), Python's truth value, equality, hashing,
  \<open>str\<close> and \<open>repr\<close> on them, insertion-ordered dictionaries as association lists,
  exceptions as values, and the string operations the sources use.

  Conventions. A HOL \<^typ>\<open>char\<close> stands for one code point below 256. A finite float is its
  exact rational value; how Python prints a float is a parameter (\<open>float_repr\<close>). An exception
  is a value of type \<open>exn\<close>; a fallible operation returns \<open>exn + 'a\<close>.
\<close>

section \<open>Fact collections\<close>

named_theorems res_simps \<open>evaluation of fallible computations\<close>
named_theorems dict_simps \<open>insertion-ordered dictionaries\<close>
named_theorems frame_simps \<open>fields an operation leaves alone\<close>
named_theorems step_inv \<open>invariant preservation, one fact per operation\<close>

section \<open>Exceptions and results\<close>

datatype exn =
    PolicyError string
  | BundleError string
  | IdentityError string
  | ConnectorError string
  | ValueError string
  | TypeError
  | AttributeError
  | KeyError
  | AssertionError string
  | RedactionBudgetExceeded
  | OtherError string

text \<open>
  \<open>Beyond\<close> marks an input whose treatment lies outside the model; no handler of the model
  catches it, and no theorem concludes success from it.
\<close>

definition Beyond :: exn where "Beyond = OtherError ''outside the model''"

type_synonym 'a res = "exn + 'a"

definition ebind :: "'a res \<Rightarrow> ('a \<Rightarrow> 'b res) \<Rightarrow> 'b res" where
  "ebind m k = (case m of Inl e \<Rightarrow> Inl e | Inr x \<Rightarrow> k x)"

lemma ebind_simps [simp, res_simps]:
  "ebind (Inl e) k = Inl e"
  "ebind (Inr x) k = k x"
  by (simp_all add: ebind_def)

lemma ebind_cong [fundef_cong]:
  "m = m' \<Longrightarrow> (\<And>x. m' = Inr x \<Longrightarrow> k x = k' x) \<Longrightarrow> ebind m k = ebind m' k'"
  by (auto simp: ebind_def split: sum.splits)

lemma ebind_eq_Inr: "ebind m k = Inr y \<longleftrightarrow> (\<exists>x. m = Inr x \<and> k x = Inr y)"
  by (auto simp: ebind_def split: sum.splits)

lemma ebind_eq_Inl: "ebind m k = Inl e \<longleftrightarrow> m = Inl e \<or> (\<exists>x. m = Inr x \<and> k x = Inl e)"
  by (auto simp: ebind_def split: sum.splits)

definition isOk :: "'a res \<Rightarrow> bool" where
  "isOk m = (case m of Inl _ \<Rightarrow> False | Inr _ \<Rightarrow> True)"

lemma isOk_simps [simp, res_simps]: "isOk (Inr x)" "\<not> isOk (Inl e)"
  by (simp_all add: isOk_def)

text \<open>Running a check over a list stops at the first exception, as the Python loop does.\<close>

fun emap :: "('a \<Rightarrow> 'b res) \<Rightarrow> 'a list \<Rightarrow> ('b list) res" where
  "emap f [] = Inr []"
| "emap f (x # xs) = ebind (f x) (\<lambda>y. ebind (emap f xs) (\<lambda>ys. Inr (y # ys)))"

lemma emap_Inr_length: "emap f xs = Inr ys \<Longrightarrow> length ys = length xs"
  by (induction xs arbitrary: ys) (auto simp: ebind_eq_Inr)

lemma emap_Inr_nth: "emap f xs = Inr ys \<Longrightarrow> i < length xs \<Longrightarrow> f (xs ! i) = Inr (ys ! i)"
  by (induction xs arbitrary: ys i) (auto simp: ebind_eq_Inr nth_Cons split: nat.splits)

lemma emap_Inr_set: "emap f xs = Inr ys \<Longrightarrow> x \<in> set xs \<Longrightarrow> \<exists>y \<in> set ys. f x = Inr y"
  by (induction xs arbitrary: ys) (auto simp: ebind_eq_Inr)

lemma emap_Inr_set': "emap f xs = Inr ys \<Longrightarrow> y \<in> set ys \<Longrightarrow> \<exists>x \<in> set xs. f x = Inr y"
  by (induction xs arbitrary: ys) (auto simp: ebind_eq_Inr)

lemma emap_all_Inr: "(\<And>x. x \<in> set xs \<Longrightarrow> f x = Inr (g x)) \<Longrightarrow> emap f xs = Inr (map g xs)"
  by (induction xs) auto

lemma emap_Inl: "emap f xs = Inl e \<Longrightarrow> \<exists>x \<in> set xs. f x = Inl e"
  by (induction xs) (auto simp: ebind_eq_Inl)

lemma emap_cong [fundef_cong]:
  "xs = ys \<Longrightarrow> (\<And>x. x \<in> set ys \<Longrightarrow> f x = g x) \<Longrightarrow> emap f xs = emap g ys"
  by (induction xs arbitrary: ys) auto

section \<open>Python values\<close>

datatype pyval =
    PNone
  | PBool bool
  | PInt int
  | PFloat rat
  | PStr string
  | PList "pyval list"
  | PDict "(pyval \<times> pyval) list"

type_synonym pydict = "(pyval \<times> pyval) list"

lemma size_pair_PDict [termination_simp]:
  "(k, v) \<in> set d \<Longrightarrow> size k < Suc (size_list (size_prod size size) d)"
  "(k, v) \<in> set d \<Longrightarrow> size v < Suc (size_list (size_prod size size) d)"
  by (induction d) auto

definition is_str :: "pyval \<Rightarrow> bool" where
  "is_str v = (case v of PStr _ \<Rightarrow> True | _ \<Rightarrow> False)"

definition is_dict :: "pyval \<Rightarrow> bool" where
  "is_dict v = (case v of PDict _ \<Rightarrow> True | _ \<Rightarrow> False)"

definition is_list :: "pyval \<Rightarrow> bool" where
  "is_list v = (case v of PList _ \<Rightarrow> True | _ \<Rightarrow> False)"

definition is_bool :: "pyval \<Rightarrow> bool" where
  "is_bool v = (case v of PBool _ \<Rightarrow> True | _ \<Rightarrow> False)"

text \<open>\<open>isinstance(v, int)\<close> holds for booleans too: \<open>bool\<close> is a subclass of \<open>int\<close>.\<close>

definition is_int :: "pyval \<Rightarrow> bool" where
  "is_int v = (case v of PInt _ \<Rightarrow> True | PBool _ \<Rightarrow> True | _ \<Rightarrow> False)"

lemmas py_type_defs = is_str_def is_dict_def is_list_def is_bool_def is_int_def

text \<open>The truth value \<open>bool(v)\<close>.\<close>

fun truthy :: "pyval \<Rightarrow> bool" where
  "truthy PNone = False"
| "truthy (PBool b) = b"
| "truthy (PInt i) = (i \<noteq> 0)"
| "truthy (PFloat r) = (r \<noteq> 0)"
| "truthy (PStr s) = (s \<noteq> [])"
| "truthy (PList xs) = (xs \<noteq> [])"
| "truthy (PDict d) = (d \<noteq> [])"

text \<open>Numbers compare by value across \<open>bool\<close>, \<open>int\<close> and \<open>float\<close>.\<close>

fun num_of :: "pyval \<Rightarrow> rat option" where
  "num_of (PBool b) = Some (if b then 1 else 0)"
| "num_of (PInt i) = Some (of_int i)"
| "num_of (PFloat r) = Some r"
| "num_of _ = None"

function (sequential) py_eq :: "pyval \<Rightarrow> pyval \<Rightarrow> bool" where
  "py_eq (PList xs) (PList ys) =
     (length xs = length ys \<and> (\<forall>p \<in> set (zip xs ys). py_eq (fst p) (snd p)))"
| "py_eq (PDict d) (PDict e) =
     (length d = length e \<and>
      (\<forall>p \<in> set d. case map_of e (fst p) of None \<Rightarrow> False | Some w \<Rightarrow> py_eq (snd p) w))"
| "py_eq a b =
     (case num_of a of
        Some x \<Rightarrow> (case num_of b of Some y \<Rightarrow> x = y | None \<Rightarrow> False)
      | None \<Rightarrow> (case num_of b of Some y \<Rightarrow> False | None \<Rightarrow> a = b))"
  by pat_completeness auto

lemma size_zip_PList:
  "p \<in> set (zip xs ys) \<Longrightarrow> size (fst p) < Suc (size_list size xs)"
proof -
  assume "p \<in> set (zip xs ys)"
  then have "fst p \<in> set xs" by (metis in_set_zipE prod.collapse)
  then have "size (fst p) \<le> size_list size xs" by (rule size_list_estimation') simp
  then show ?thesis by simp
qed

termination py_eq
  by (relation "measure (size \<circ> fst)")
    (auto simp: size_zip_PList dest: size_pair_PDict(2))

declare py_eq.simps [simp del]

lemma py_eq_PStr [simp]: "py_eq v (PStr s) \<longleftrightarrow> v = PStr s"
  by (cases v) (auto simp: py_eq.simps)

lemma py_eq_PNone [simp]: "py_eq v PNone \<longleftrightarrow> v = PNone"
  by (cases v) (auto simp: py_eq.simps)

lemma py_eq_PInt [simp]: "py_eq v (PInt i) \<longleftrightarrow> num_of v = Some (of_int i)"
  by (cases v) (auto simp: py_eq.simps)

lemma py_eq_PBool [simp]: "py_eq v (PBool b) \<longleftrightarrow> num_of v = Some (if b then 1 else 0)"
  by (cases v) (auto simp: py_eq.simps)

text \<open>Hashing: lists and dictionaries are unhashable; equal numbers hash alike.\<close>

datatype pykey = KNone | KNum rat | KStr string

fun py_key :: "pyval \<Rightarrow> pykey option" where
  "py_key PNone = Some KNone"
| "py_key (PStr s) = Some (KStr s)"
| "py_key (PList xs) = None"
| "py_key (PDict d) = None"
| "py_key v = map_option KNum (num_of v)"

text \<open>\<open>v in frozenset_of_strings\<close> raises \<open>TypeError\<close> on an unhashable value.\<close>

definition in_strset :: "pyval \<Rightarrow> string list \<Rightarrow> bool res" where
  "in_strset v names =
     (case py_key v of
        None \<Rightarrow> Inl TypeError
      | Some k \<Rightarrow> Inr (\<exists>n \<in> set names. v = PStr n))"

section \<open>Insertion-ordered dictionaries\<close>

definition dget :: "pydict \<Rightarrow> string \<Rightarrow> pyval option" where
  "dget d k = map_of d (PStr k)"

text \<open>\<open>d.get(k)\<close> and \<open>d.get(k, x)\<close>: a present \<open>None\<close> is returned as it is.\<close>

definition dget_default :: "pydict \<Rightarrow> string \<Rightarrow> pyval \<Rightarrow> pyval" where
  "dget_default d k x = (case dget d k of None \<Rightarrow> x | Some v \<Rightarrow> v)"

definition dget_none :: "pydict \<Rightarrow> string \<Rightarrow> pyval" where
  "dget_none d k = dget_default d k PNone"

definition dhas :: "pydict \<Rightarrow> string \<Rightarrow> bool" where
  "dhas d k = (dget d k \<noteq> None)"

definition dput :: "string \<Rightarrow> pyval \<Rightarrow> pydict \<Rightarrow> pydict" where
  "dput k v d = AList.update (PStr k) v d"

text \<open>\<open>{**d, **e}\<close> and \<open>d.update(e)\<close>: a key of \<open>d\<close> keeps its place and takes the value of \<open>e\<close>.\<close>

definition al_merge :: "('k \<times> 'v) list \<Rightarrow> ('k \<times> 'v) list \<Rightarrow> ('k \<times> 'v) list" where
  "al_merge d e = fold (\<lambda>p acc. AList.update (fst p) (snd p) acc) e d"

definition dwithout :: "string \<Rightarrow> pydict \<Rightarrow> pydict" where
  "dwithout k d = filter (\<lambda>p. fst p \<noteq> PStr k) d"

definition unknown_fields :: "pydict \<Rightarrow> string list \<Rightarrow> pyval list" where
  "unknown_fields d allowed = filter (\<lambda>k. k \<notin> PStr ` set allowed) (map fst d)"

definition wf_dict :: "('k \<times> 'v) list \<Rightarrow> bool" where
  "wf_dict d = distinct (map fst d)"

lemma map_of_AList_update [simp, dict_simps]:
  "map_of (AList.update k v d) = (map_of d)(k \<mapsto> v)"
  by (rule update_conv')

lemma dget_dput [simp, dict_simps]:
  "dget (dput k v d) k' = (if k' = k then Some v else dget d k')"
  by (simp add: dget_def dput_def)

lemma dhas_dput [simp, dict_simps]: "dhas (dput k v d) k' \<longleftrightarrow> k' = k \<or> dhas d k'"
  by (simp add: dhas_def)

lemma map_of_al_merge [dict_simps]: "map_of (al_merge d e) = map_of d ++ map_of (rev e)"
proof (induction e arbitrary: d)
  case Nil
  then show ?case by (simp add: al_merge_def)
next
  case (Cons p e)
  have "map_of (al_merge d (p # e)) = map_of (al_merge (AList.update (fst p) (snd p) d) e)"
    by (simp add: al_merge_def)
  also have "\<dots> = (map_of d)(fst p \<mapsto> snd p) ++ map_of (rev e)"
    by (simp only: Cons.IH map_of_AList_update)
  finally show ?case by (cases p) (auto simp: map_add_def fun_eq_iff split: option.splits)
qed

lemma map_of_rev_wf: "wf_dict e \<Longrightarrow> map_of (rev e) = map_of e"
proof
  fix k
  assume "wf_dict e"
  then have "map_of (rev e) k = Some v \<longleftrightarrow> map_of e k = Some v" for v
    by (simp add: wf_dict_def map_of_eq_Some_iff flip: rev_map)
  then show "map_of (rev e) k = map_of e k" by (metis not_Some_eq)
qed

lemma wf_AList_update [simp]: "wf_dict (AList.update k v d) = wf_dict d"
  by (simp add: wf_dict_def update_keys)

lemma wf_al_merge [simp]: "wf_dict (al_merge d e) = wf_dict d"
  by (induction e arbitrary: d) (simp_all add: al_merge_def)

lemma dget_dwithout [simp, dict_simps]:
  "dget (dwithout k d) k' = (if k' = k then None else dget d k')"
  by (induction d) (auto simp: dget_def dwithout_def)

section \<open>Printing\<close>

fun show_nat :: "nat \<Rightarrow> string" where
  "show_nat n = (if n < 10 then [char_of (48 + n)] else show_nat (n div 10) @ [char_of (48 + n mod 10)])"

declare show_nat.simps [simp del]

definition show_int :: "int \<Rightarrow> string" where
  "show_int i = (if i < 0 then CHR ''-'' # show_nat (nat (- i)) else show_nat (nat i))"

fun join :: "string \<Rightarrow> string list \<Rightarrow> string" where
  "join sep [] = []"
| "join sep [x] = x"
| "join sep (x # y # xs) = x @ sep @ join sep (y # xs)"

abbreviation code_of :: "char \<Rightarrow> nat" where
  "code_of c \<equiv> of_char c"

definition hex_digit :: "nat \<Rightarrow> char" where
  "hex_digit n = (if n < 10 then char_of (48 + n) else char_of (87 + n))"

text \<open>\<open>repr\<close> of a string: single quotes unless only double quotes avoid an escape.\<close>

definition repr_char :: "char \<Rightarrow> char \<Rightarrow> string" where
  "repr_char q c =
     (let n = code_of c in
      if c = q \<or> c = CHR 92 then [CHR 92, c]
      else if n = 9 then [CHR 92, CHR ''t'']
      else if n = 10 then [CHR 92, CHR ''n'']
      else if n = 13 then [CHR 92, CHR ''r'']
      else if n < 32 \<or> (127 \<le> n \<and> n \<le> 160) \<or> n = 173
        then [CHR 92, CHR ''x'', hex_digit (n div 16), hex_digit (n mod 16)]
      else [c])"

definition repr_str :: "string \<Rightarrow> string" where
  "repr_str s =
     (let q = (if CHR 39 \<in> set s \<and> CHR 34 \<notin> set s then CHR 34 else CHR 39)
      in [q] @ concat (map (repr_char q) s) @ [q])"

fun py_repr :: "(rat \<Rightarrow> string) \<Rightarrow> pyval \<Rightarrow> string" where
  "py_repr fr PNone = ''None''"
| "py_repr fr (PBool b) = (if b then ''True'' else ''False'')"
| "py_repr fr (PInt i) = show_int i"
| "py_repr fr (PFloat r) = fr r"
| "py_repr fr (PStr s) = repr_str s"
| "py_repr fr (PList xs) = ''['' @ join '', '' (map (py_repr fr) xs) @ '']''"
| "py_repr fr (PDict d) =
     ''{'' @ join '', '' (map (\<lambda>p. py_repr fr (fst p) @ '': '' @ py_repr fr (snd p)) d) @ ''}''"

definition py_str :: "(rat \<Rightarrow> string) \<Rightarrow> pyval \<Rightarrow> string" where
  "py_str fr v = (case v of PStr s \<Rightarrow> s | _ \<Rightarrow> py_repr fr v)"

lemma py_str_PStr [simp]: "py_str fr (PStr s) = s"
  by (simp add: py_str_def)

section \<open>Characters\<close>

text \<open>The UTF-8 bytes of U+2014, which some fixed messages contain.\<close>

definition em_dash :: string where
  "em_dash = [CHR 0xE2, CHR 0x80, CHR 0x94]"

definition lower_char :: "char \<Rightarrow> char" where
  "lower_char c =
     (let n = code_of c in
      if (65 \<le> n \<and> n \<le> 90) \<or> (192 \<le> n \<and> n \<le> 222 \<and> n \<noteq> 215) then char_of (n + 32) else c)"

definition lower :: "string \<Rightarrow> string" where
  "lower s = map lower_char s"

definition is_space :: "char \<Rightarrow> bool" where
  "is_space c =
     (let n = code_of c in (9 \<le> n \<and> n \<le> 13) \<or> (28 \<le> n \<and> n \<le> 32) \<or> n = 133 \<or> n = 160)"

definition strip :: "string \<Rightarrow> string" where
  "strip s = rev (dropWhile is_space (rev (dropWhile is_space s)))"

definition is_decimal :: "char \<Rightarrow> bool" where
  "is_decimal c = (48 \<le> code_of c \<and> code_of c \<le> 57)"

definition is_alnum_ascii :: "char \<Rightarrow> bool" where
  "is_alnum_ascii c =
     (let n = code_of c in is_decimal c \<or> (65 \<le> n \<and> n \<le> 90) \<or> (97 \<le> n \<and> n \<le> 122))"

text \<open>Bytes of the UTF-8 encoding of a string over code points below 256.\<close>

definition utf8_len :: "string \<Rightarrow> nat" where
  "utf8_len s = sum_list (map (\<lambda>c. if code_of c < 128 then 1 else 2) s)"

end
