(* ===== verification/Policy_Rules.thy ===== *)
theory Policy_Rules
  imports Gateway_Prelude
begin

text \<open>
  Argument-level policy: \<open>policy/constraints\<close> (the constraint registry and the regex
  constraint) and the rewrite half of \<open>policy/actions/rewrite.py\<close>. Regular expressions are the
  standard library's \<open>re\<close>; the engine is the parameter \<^term>\<open>lib\<close>: which patterns compile and
  what \<open>search\<close> answers.
\<close>

record pylib =
  lib_compiles :: "string \<Rightarrow> bool \<Rightarrow> bool"
  lib_search :: "string \<Rightarrow> bool \<Rightarrow> string \<Rightarrow> bool"
  lib_float_repr :: "rat \<Rightarrow> string"
  lib_float :: "string \<Rightarrow> rat"

abbreviation pstr :: "pylib \<Rightarrow> pyval \<Rightarrow> string" where
  "pstr lib \<equiv> py_str (lib_float_repr lib)"

definition ensure :: "bool \<Rightarrow> exn \<Rightarrow> unit res" where
  "ensure b e = (if b then Inr () else Inl e)"

lemma ensure_simps [simp, res_simps]:
  "ensure True e = Inr ()"
  "ensure b e = Inr u \<longleftrightarrow> b"
  "ensure b e = Inl e' \<longleftrightarrow> \<not> b \<and> e' = e"
  by (auto simp: ensure_def)

section \<open>The regex constraint\<close>

type_synonym regex = "string \<times> bool"  \<comment> \<open>pattern text and the IGNORECASE flag\<close>

record regex_constraint =
  rc_arg :: string
  rc_must_match :: "regex option"
  rc_must_not_match :: "regex option"
  rc_reason :: pyval

definition CONSTRAINT_FIELDS :: "string list" where
  "CONSTRAINT_FIELDS = [''type'', ''arg'', ''must_match'', ''must_not_match'', ''flags'', ''reason'']"

definition flags_ok :: "pyval \<Rightarrow> bool" where
  "flags_ok v = (case v of PStr f \<Rightarrow> set f \<subseteq> {CHR ''i''} | _ \<Rightarrow> False)"

definition ignorecase :: "pyval \<Rightarrow> bool" where
  "ignorecase v = (case v of PStr f \<Rightarrow> CHR ''i'' \<in> set f | _ \<Rightarrow> False)"

definition nonempty_str :: "pyval \<Rightarrow> bool" where
  "nonempty_str v = (case v of PStr s \<Rightarrow> s \<noteq> [] | _ \<Rightarrow> False)"

definition the_str :: "pyval \<Rightarrow> string" where
  "the_str v = (case v of PStr s \<Rightarrow> s | _ \<Rightarrow> [])"

text \<open>\<open>compile_pattern\<close>: an absent key and an explicit \<open>null\<close> both give no pattern.\<close>

definition compile_pattern :: "pylib \<Rightarrow> pydict \<Rightarrow> string \<Rightarrow> bool \<Rightarrow> string \<Rightarrow> (regex option) res" where
  "compile_pattern lib config whr ic key =
     (case dget_none config key of
        PNone \<Rightarrow> Inr None
      | PStr raw \<Rightarrow>
          (if lib_compiles lib raw ic then Inr (Some (raw, ic))
           else Inl (PolicyError (whr @ '': invalid regex for '' @ key)))
      | _ \<Rightarrow> Inl (PolicyError (whr @ '': '' @ key @ '' must be a string'')))"

definition constraint_from_config :: "pylib \<Rightarrow> pydict \<Rightarrow> string \<Rightarrow> regex_constraint res" where
  "constraint_from_config lib config whr =
     ebind (ensure (unknown_fields config CONSTRAINT_FIELDS = [])
              (PolicyError (whr @ '': unknown constraint field(s)''))) (\<lambda>_.
     ebind (ensure (nonempty_str (dget_none config ''arg''))
              (PolicyError (whr @ '': constraint requires a non-empty arg''))) (\<lambda>_.
     ebind (ensure (dhas config ''must_match'' \<or> dhas config ''must_not_match'')
              (PolicyError (whr @ '': constraint requires must_match and/or must_not_match''))) (\<lambda>_.
     let flags_spec = dget_default config ''flags'' (PStr []) in
     ebind (ensure (flags_ok flags_spec) (PolicyError (whr @ '': flags supports only i''))) (\<lambda>_.
     let ic = ignorecase flags_spec in
     ebind (compile_pattern lib config whr ic ''must_match'') (\<lambda>mm.
     ebind (compile_pattern lib config whr ic ''must_not_match'') (\<lambda>mn.
     Inr \<lparr>rc_arg = the_str (dget_none config ''arg''), rc_must_match = mm,
          rc_must_not_match = mn, rc_reason = dget_none config ''reason''\<rparr>))))))"

definition build_constraint :: "pylib \<Rightarrow> pyval \<Rightarrow> string \<Rightarrow> regex_constraint res" where
  "build_constraint lib config whr =
     (case config of
        PDict d \<Rightarrow>
          (let type_name = dget_default d ''type'' (PStr ''regex'') in
           ebind (in_strset type_name [''regex'']) (\<lambda>known.
             if known then constraint_from_config lib d whr
             else Inl (PolicyError (whr @ '': unknown constraint type''))))
      | _ \<Rightarrow> Inl (PolicyError (whr @ '': constraint must be an object'')))"

definition re_search :: "pylib \<Rightarrow> regex \<Rightarrow> string \<Rightarrow> bool" where
  "re_search lib r value = lib_search lib (fst r) (snd r) value"

definition or_reason :: "pyval \<Rightarrow> string \<Rightarrow> pyval" where
  "or_reason reason text = (if truthy reason then reason else PStr text)"

definition constraint_check :: "pylib \<Rightarrow> regex_constraint \<Rightarrow> pydict \<Rightarrow> pyval option" where
  "constraint_check lib c arguments =
     (let value = pstr lib (dget_default arguments (rc_arg c) (PStr [])) in
      case rc_must_match c of
        Some mm \<Rightarrow>
          if \<not> re_search lib mm value
          then Some (or_reason (rc_reason c)
                 (''argument '' @ [CHR 39] @ rc_arg c @ [CHR 39] @
                  '' does not satisfy required pattern '' @ repr_str (fst mm)))
          else (case rc_must_not_match c of
                  Some mn \<Rightarrow> if re_search lib mn value
                    then Some (or_reason (rc_reason c)
                           (''argument '' @ [CHR 39] @ rc_arg c @ [CHR 39] @
                            '' matches forbidden pattern '' @ repr_str (fst mn)))
                    else None
                | None \<Rightarrow> None)
      | None \<Rightarrow>
          (case rc_must_not_match c of
             Some mn \<Rightarrow> if re_search lib mn value
               then Some (or_reason (rc_reason c)
                      (''argument '' @ [CHR 39] @ rc_arg c @ [CHR 39] @
                       '' matches forbidden pattern '' @ repr_str (fst mn)))
               else None
           | None \<Rightarrow> None))"

definition constraint_describe :: "regex_constraint \<Rightarrow> pydict" where
  "constraint_describe c =
     [(PStr ''type'', PStr ''regex''), (PStr ''arg'', PStr (rc_arg c))]
     @ (case rc_must_match c of None \<Rightarrow> [] | Some r \<Rightarrow> [(PStr ''must_match'', PStr (fst r))])
     @ (case rc_must_not_match c of None \<Rightarrow> [] | Some r \<Rightarrow> [(PStr ''must_not_match'', PStr (fst r))])
     @ (if truthy (rc_reason c) then [(PStr ''reason'', rc_reason c)] else [])"

lemma constraint_check_None_iff:
  "constraint_check lib c args = None \<longleftrightarrow>
     (\<forall>mm. rc_must_match c = Some mm \<longrightarrow>
        re_search lib mm (pstr lib (dget_default args (rc_arg c) (PStr [])))) \<and>
     (\<forall>mn. rc_must_not_match c = Some mn \<longrightarrow>
        \<not> re_search lib mn (pstr lib (dget_default args (rc_arg c) (PStr []))))"
  by (auto simp: constraint_check_def Let_def split: option.splits if_splits)

text \<open>The violation is never \<open>None\<close> the Python value: a falsy reason falls back to the message.\<close>

lemma constraint_check_reason: "constraint_check lib c args = Some v \<Longrightarrow> truthy v"
  by (auto simp: constraint_check_def or_reason_def Let_def split: option.splits if_splits)

section \<open>Rewrites\<close>

definition REWRITE_FIELDS :: "string list" where
  "REWRITE_FIELDS = [''arg'', ''set'', ''append'', ''unless_match'', ''flags'']"

definition validate_rewrite :: "pylib \<Rightarrow> pyval \<Rightarrow> string \<Rightarrow> unit res" where
  "validate_rewrite lib config whr =
     (case config of
        PDict d \<Rightarrow>
          ebind (ensure (unknown_fields d REWRITE_FIELDS = [])
                   (PolicyError (whr @ '': unknown rewrite field(s)''))) (\<lambda>_.
          ebind (ensure (nonempty_str (dget_none d ''arg''))
                   (PolicyError (whr @ '': rewrite requires a non-empty arg''))) (\<lambda>_.
          ebind (ensure (dhas d ''set'' \<noteq> dhas d ''append'')
                   (PolicyError (whr @ '': rewrite requires exactly one of set or append''))) (\<lambda>_.
          ebind (if dhas d ''unless_match'' then
                   ebind (ensure (dhas d ''append'')
                            (PolicyError (whr @ '': unless_match only applies to append''))) (\<lambda>_.
                   (case dget_none d ''unless_match'' of
                      PStr p \<Rightarrow> ensure (lib_compiles lib p False)
                                  (PolicyError (whr @ '': invalid unless_match regex''))
                    | _ \<Rightarrow> Inl TypeError))
                 else Inr ()) (\<lambda>_.
          ensure (flags_ok (dget_default d ''flags'' (PStr [])))
            (PolicyError (whr @ '': flags supports only i''))))))
      | _ \<Rightarrow> Inl (PolicyError (whr @ '': rewrite must be an object'')))"

text \<open>
  One iteration of \<open>apply_rewrites\<close> on \<open>(new_args, changes)\<close>. Appending a value that is not a
  string raises \<open>TypeError\<close>: the validator does not look at the type of \<open>append\<close>.
\<close>

definition apply_rewrite :: "pylib \<Rightarrow> pyval \<Rightarrow> pydict \<times> pyval list \<Rightarrow> (pydict \<times> pyval list) res" where
  "apply_rewrite lib rw st =
     (case rw of
        PDict r \<Rightarrow>
          (let new_args = fst st; changes = snd st; arg = the_str (dget_none r ''arg'') in
           case dget r ''set'' of
             Some v \<Rightarrow>
               (if \<not> py_eq (dget_none new_args arg) v
                then Inr (dput arg v new_args, changes @
                  [PDict [(PStr ''arg'', PStr arg), (PStr ''op'', PStr ''set''), (PStr ''to'', v)]])
                else Inr (new_args, changes))
           | None \<Rightarrow>
               (let value = pstr lib (dget_default new_args arg (PStr []));
                    guard = dget_none r ''unless_match'';
                    ic = ignorecase (dget_default r ''flags'' (PStr []))
                in if truthy guard \<and> lib_search lib (the_str guard) ic value
                   then Inr (new_args, changes)
                   else (case dget r ''append'' of
                           Some (PStr a) \<Rightarrow>
                             Inr (dput arg (PStr (value @ a)) new_args, changes @
                               [PDict [(PStr ''arg'', PStr arg), (PStr ''op'', PStr ''append''),
                                       (PStr ''added'', PStr a)]])
                         | Some _ \<Rightarrow> Inl TypeError
                         | None \<Rightarrow> Inl KeyError)))
      | _ \<Rightarrow> Inl TypeError)"

fun apply_rewrites_from :: "pylib \<Rightarrow> pyval list \<Rightarrow> pydict \<times> pyval list \<Rightarrow> (pydict \<times> pyval list) res" where
  "apply_rewrites_from lib [] st = Inr st"
| "apply_rewrites_from lib (r # rs) st =
     ebind (apply_rewrite lib r st) (apply_rewrites_from lib rs)"

definition apply_rewrites :: "pylib \<Rightarrow> pydict \<Rightarrow> pyval list \<Rightarrow> (pydict \<times> pyval list) res" where
  "apply_rewrites lib arguments rewrites = apply_rewrites_from lib rewrites (arguments, [])"

subsection \<open>What a rewrite touches\<close>

definition rewrite_args :: "pyval list \<Rightarrow> string set" where
  "rewrite_args rws = {the_str (dget_none r ''arg'') | r. PDict r \<in> set rws}"

lemma apply_rewrite_frame:
  "apply_rewrite lib rw st = Inr st' \<Longrightarrow> (\<And>r. rw = PDict r \<Longrightarrow> k \<noteq> the_str (dget_none r ''arg'')) \<Longrightarrow>
     dget (fst st') k = dget (fst st) k"
  by (auto simp: apply_rewrite_def Let_def split: pyval.splits option.splits if_splits)

text \<open>Arguments no rewrite names reach the server as the agent sent them.\<close>

lemma apply_rewrites_frame:
  assumes "apply_rewrites lib args rws = Inr (args', ch)" and "k \<notin> rewrite_args rws"
  shows "dget args' k = dget args k"
proof -
  have "dget (fst st') k = dget (fst st) k"
    if "apply_rewrites_from lib rws st = Inr st'" and "k \<notin> rewrite_args rws" for st st'
    using that
  proof (induction rws arbitrary: st)
    case (Cons r rws)
    from Cons.prems obtain st1 where s1: "apply_rewrite lib r st = Inr st1"
      and s2: "apply_rewrites_from lib rws st1 = Inr st'" by (auto simp: ebind_eq_Inr)
    have "dget (fst st1) k = dget (fst st) k"
      using s1 Cons.prems(2) by (rule_tac apply_rewrite_frame) (auto simp: rewrite_args_def)
    moreover have "k \<notin> rewrite_args rws" using Cons.prems(2) by (auto simp: rewrite_args_def)
    ultimately show ?case using Cons.IH [OF s2] by simp
  qed simp
  with assms show ?thesis by (fastforce simp: apply_rewrites_def)
qed

lemma apply_rewrite_changes:
  "apply_rewrite lib rw st = Inr st' \<Longrightarrow> fst st' = fst st \<and> snd st' = snd st \<or> snd st' \<noteq> []"
  by (auto simp: apply_rewrite_def Let_def split: pyval.splits option.splits if_splits)

lemma apply_rewrite_changes_mono:
  "apply_rewrite lib rw st = Inr st' \<Longrightarrow> snd st \<noteq> [] \<Longrightarrow> snd st' \<noteq> []"
  by (auto simp: apply_rewrite_def Let_def split: pyval.splits option.splits if_splits)

lemma apply_rewrites_from_changes:
  "apply_rewrites_from lib rws st = Inr st' \<Longrightarrow> (fst st' = fst st \<and> snd st' = snd st) \<or> snd st' \<noteq> []"
proof (induction rws arbitrary: st)
  case (Cons r rws)
  from Cons.prems obtain st1 where s1: "apply_rewrite lib r st = Inr st1"
    and s2: "apply_rewrites_from lib rws st1 = Inr st'" by (auto simp: ebind_eq_Inr)
  have mono: "snd u \<noteq> [] \<Longrightarrow> apply_rewrites_from lib ws u = Inr u' \<Longrightarrow> snd u' \<noteq> []" for ws u u'
    by (induction ws arbitrary: u) (auto simp: ebind_eq_Inr dest: apply_rewrite_changes_mono)
  from apply_rewrite_changes [OF s1] Cons.IH [OF s2] mono [OF _ s2] show ?case by auto
qed simp

text \<open>An empty change list means the arguments are the ones the agent sent.\<close>

lemma apply_rewrites_no_change: "apply_rewrites lib args rws = Inr (args', []) \<Longrightarrow> args' = args"
  by (auto simp: apply_rewrites_def dest!: apply_rewrites_from_changes)

end
