(* ===== verification/Policy_Loader.thy ===== *)
theory Policy_Loader
  imports Policy_Rules
begin

text \<open>
  \<open>policy/loader.py\<close>: structural validation of one policy document (already parsed from
  YAML or JSON into a Python value). Error messages keep their location and fixed text; the
  offending values the code interpolates are left out.
\<close>

definition SCHEMA_VERSION :: int where "SCHEMA_VERSION = 1"

definition ACTION_VOCABULARY :: "string list" where
  "ACTION_VOCABULARY =
     [''allow'', ''block'', ''redact'', ''rewrite'', ''quarantine'', ''require_approval'']"

definition PROFILE_NAMES :: "string list" where
  "PROFILE_NAMES = [''secrets-only'', ''standard'', ''strict'', ''reversible'']"

definition TOP_LEVEL_FIELDS :: "string list" where
  "TOP_LEVEL_FIELDS =
     [''schema_version'', ''name'', ''default_action'', ''tools'', ''taint_sources'', ''taint_sinks'',
      ''sequence_rules'', ''risk'', ''on_failure'']"

definition RISK_FIELDS :: "string list" where
  "RISK_FIELDS = [''weights'', ''elevated_at'', ''suspend_at'']"

definition FAILURE_FIELDS :: "string list" where
  "FAILURE_FIELDS = [''default'', ''pipeline'', ''redaction'', ''approval'']"

definition FAIL_MODES :: "string list" where
  "FAIL_MODES = [''open'', ''closed'']"

definition OVERLAY_FIELDS :: "string list" where
  "OVERLAY_FIELDS = [''action'', ''reason'', ''constraints'', ''rewrites'', ''redaction'', ''then'']"

definition RULE_FIELDS :: "string list" where
  "RULE_FIELDS = OVERLAY_FIELDS @ [''roles'', ''replace'']"

definition REDACTION_FIELDS :: "string list" where
  "REDACTION_FIELDS = [''profile'', ''exclude_keys'', ''allowlist'', ''denylist'', ''context_words'']"

record policy_layer =
  pl_name :: string
  pl_source :: string
  pl_default_action :: "string option"
  pl_rules :: "(string \<times> pydict) list"
  pl_taint_sources :: "string list"
  pl_taint_sinks :: "string list"
  pl_sequence_rules :: "pyval list"
  pl_risk :: "pydict option"
  pl_on_failure :: pyval

section \<open>Field validators\<close>

definition validate_on_failure :: "pyval \<Rightarrow> string \<Rightarrow> pyval res" where
  "validate_on_failure value source =
     (case value of
        PNone \<Rightarrow> Inr PNone
      | PStr s \<Rightarrow>
          (if s \<in> set FAIL_MODES then Inr value
           else Inl (PolicyError (source @ '': on_failure must be open or closed'')))
      | PDict d \<Rightarrow>
          ebind (ensure (unknown_fields d FAILURE_FIELDS = [])
                   (PolicyError (source @ '': unknown on_failure field(s)''))) (\<lambda>_.
          ebind (emap (\<lambda>p. ebind (in_strset (snd p) FAIL_MODES) (\<lambda>ok.
                   ensure ok (PolicyError (source @ '': on_failure mode must be open or closed'')))) d) (\<lambda>_.
          Inr value))
      | _ \<Rightarrow> Inl (PolicyError (source @ '': on_failure must be a string or a mapping'')))"

definition validate_str_list :: "pyval \<Rightarrow> string \<Rightarrow> string \<Rightarrow> (string list) res" where
  "validate_str_list value source field_name =
     (let err = Inl (PolicyError (source @ '': '' @ field_name @ '' must be a list of strings'')) in
      case value of
        PNone \<Rightarrow> Inr []
      | PList xs \<Rightarrow> (if list_all is_str xs then Inr (map the_str xs) else err)
      | _ \<Rightarrow> err)"

definition validate_sequence_rule :: "string \<Rightarrow> pyval \<Rightarrow> pyval res" where
  "validate_sequence_rule whr rule =
     (case rule of
        PDict d \<Rightarrow>
          ebind (ensure (unknown_fields d [''after'', ''forbid'', ''reason''] = [])
                   (PolicyError (whr @ '': unknown field(s)''))) (\<lambda>_.
          ebind (ensure (nonempty_str (dget_none d ''after''))
                   (PolicyError (whr @ '': after must be a non-empty string''))) (\<lambda>_.
          ebind (ensure (nonempty_str (dget_none d ''forbid''))
                   (PolicyError (whr @ '': forbid must be a non-empty string''))) (\<lambda>_.
          Inr rule)))
      | _ \<Rightarrow> Inl (PolicyError (whr @ '': must be a mapping'')))"

definition indexed :: "string \<Rightarrow> 'a list \<Rightarrow> (string \<times> 'a) list" where
  "indexed loc xs = zip (map (\<lambda>i. loc @ ''['' @ show_nat i @ '']'') [0..<length xs]) xs"

definition validate_sequence_rules :: "pyval \<Rightarrow> string \<Rightarrow> (pyval list) res" where
  "validate_sequence_rules value source =
     (case value of
        PNone \<Rightarrow> Inr []
      | PList xs \<Rightarrow> emap (\<lambda>p. validate_sequence_rule (fst p) (snd p))
          (indexed (source @ '': sequence_rules'') xs)
      | _ \<Rightarrow> Inl (PolicyError (source @ '': sequence_rules must be a list'')))"

definition weights_ok :: "pyval \<Rightarrow> bool" where
  "weights_ok v = (case v of PDict d \<Rightarrow> list_all (\<lambda>p. is_str (fst p) \<and> is_int (snd p)) d | _ \<Rightarrow> False)"

definition validate_risk :: "pyval \<Rightarrow> string \<Rightarrow> (pydict option) res" where
  "validate_risk value source =
     (case value of
        PNone \<Rightarrow> Inr None
      | PDict d \<Rightarrow>
          ebind (ensure (unknown_fields d RISK_FIELDS = [])
                   (PolicyError (source @ '': unknown risk field(s)''))) (\<lambda>_.
          ebind (ensure (dget_none d ''weights'' = PNone \<or> weights_ok (dget_none d ''weights''))
                   (PolicyError (source @ '': risk.weights must map event names to integers''))) (\<lambda>_.
          ebind (emap (\<lambda>t. ensure (\<not> dhas d t \<or> is_int (dget_none d t))
                   (PolicyError (source @ '': risk.'' @ t @ '' must be an integer'')))
                   [''elevated_at'', ''suspend_at'']) (\<lambda>_.
          Inr (Some d))))
      | _ \<Rightarrow> Inl (PolicyError (source @ '': risk must be a mapping'')))"

definition str_list_or_none :: "pyval \<Rightarrow> bool" where
  "str_list_or_none v =
     (case v of PNone \<Rightarrow> True | PList xs \<Rightarrow> list_all is_str xs | _ \<Rightarrow> False)"

definition validate_redaction :: "pyval \<Rightarrow> string \<Rightarrow> unit res" where
  "validate_redaction config whr =
     ebind
       (case config of
          PStr s \<Rightarrow> Inr s
        | PDict d \<Rightarrow>
            (let profile = dget_default d ''profile'' (PStr ''standard'') in
             ebind (ensure (unknown_fields d REDACTION_FIELDS = [])
                      (PolicyError (whr @ '': unknown redaction field(s)''))) (\<lambda>_.
             ebind (ensure (is_str profile) (PolicyError (whr @ '': profile must be a string''))) (\<lambda>_.
             ebind (emap (\<lambda>f. ensure (str_list_or_none (dget_none d f))
                      (PolicyError (whr @ '': '' @ f @ '' must be a list of strings'')))
                      [''exclude_keys'', ''allowlist'', ''denylist'', ''context_words'']) (\<lambda>_.
             Inr (the_str profile)))))
        | _ \<Rightarrow> Inl (PolicyError (whr @ '': must be a profile name or a mapping'')))
       (\<lambda>profile. ensure (profile \<in> set PROFILE_NAMES)
          (PolicyError (whr @ '': unknown redaction profile'')))"

section \<open>Rules\<close>

definition validate_action_field :: "pydict \<Rightarrow> string \<Rightarrow> string \<Rightarrow> string \<Rightarrow> unit res" where
  "validate_action_field rule key whr msg =
     (let v = dget_none rule key in
      if v = PNone then Inr ()
      else ebind (in_strset v ACTION_VOCABULARY) (\<lambda>ok. ensure ok (PolicyError (whr @ msg))))"

definition validate_list_field ::
  "pydict \<Rightarrow> string \<Rightarrow> string \<Rightarrow> (pyval \<Rightarrow> string \<Rightarrow> 'a res) \<Rightarrow> unit res" where
  "validate_list_field rule key whr chk =
     (case dget_none rule key of
        PNone \<Rightarrow> Inr ()
      | PList xs \<Rightarrow> ebind (emap (\<lambda>p. chk (snd p) (fst p)) (indexed (whr @ ''.'' @ key) xs)) (\<lambda>_. Inr ())
      | _ \<Rightarrow> Inl (PolicyError (whr @ '': '' @ key @ '' must be a list'')))"

text \<open>Everything \<open>_validate_rule\<close> checks before it looks at \<open>roles\<close>.\<close>

definition validate_rule_head :: "pylib \<Rightarrow> pydict \<Rightarrow> string \<Rightarrow> string list \<Rightarrow> unit res" where
  "validate_rule_head lib d whr allowed =
     ebind (ensure (unknown_fields d allowed = []) (PolicyError (whr @ '': unknown field(s)''))) (\<lambda>_.
     ebind (validate_action_field d ''action'' whr '': invalid action'') (\<lambda>_.
     ebind (ensure (\<not> dhas d ''reason'' \<or> is_str (dget_none d ''reason''))
              (PolicyError (whr @ '': reason must be a string''))) (\<lambda>_.
     ebind (ensure (\<not> dhas d ''replace'' \<or> is_bool (dget_none d ''replace''))
              (PolicyError (whr @ '': replace must be a boolean''))) (\<lambda>_.
     ebind (validate_action_field d ''then'' whr '': invalid then action'') (\<lambda>_.
     ebind (validate_list_field d ''constraints'' whr (build_constraint lib)) (\<lambda>_.
     ebind (validate_list_field d ''rewrites'' whr (validate_rewrite lib)) (\<lambda>_.
     if dhas d ''redaction''
     then validate_redaction (dget_none d ''redaction'') (whr @ ''.redaction'')
     else Inr ())))))))"

lemma dget_size: "dget d k = Some v \<Longrightarrow> size v < Suc (size_list (size_prod size size) d)"
  unfolding dget_def by (drule map_of_SomeD) (rule size_pair_PDict(2))

lemma size_pair_snd [termination_simp]:
  "p \<in> set d \<Longrightarrow> size (snd p) < Suc (size_list (size_prod size size) (d :: pydict))"
  by (cases p) (auto dest: size_pair_PDict(2))

function (sequential) validate_rule :: "pylib \<Rightarrow> pyval \<Rightarrow> string \<Rightarrow> string list \<Rightarrow> pydict res" where
  "validate_rule lib (PDict d) whr allowed =
     ebind (validate_rule_head lib d whr allowed) (\<lambda>_.
     ebind (case dget d ''roles'' of
              None \<Rightarrow> Inr []
            | Some PNone \<Rightarrow> Inr []
            | Some (PDict rs) \<Rightarrow>
                emap (\<lambda>p. ebind (ensure (nonempty_str (fst p))
                            (PolicyError (whr @ '': role names must be non-empty strings''))) (\<lambda>_.
                          validate_rule lib (snd p) (whr @ ''.roles['' @ repr_str (the_str (fst p)) @ '']'')
                            OVERLAY_FIELDS)) rs
            | Some _ \<Rightarrow> Inl (PolicyError (whr @ '': roles must be a mapping''))) (\<lambda>_.
     Inr d))"
| "validate_rule lib _ whr allowed = Inl (PolicyError (whr @ '': rule must be a mapping''))"
  by pat_completeness auto

lemma dget_PDict_size:
  assumes "dget d k = Some (PDict rs)" and "p \<in> set rs"
  shows "size (snd p) < Suc (size_list (size_prod size size) d)"
proof -
  have "size (snd p) < size (PDict rs)" using size_pair_snd [OF assms(2)] by simp
  also have "\<dots> < Suc (size_list (size_prod size size) d)" using dget_size [OF assms(1)] by simp
  finally show ?thesis .
qed

termination validate_rule
  by (relation "measure (\<lambda>(lib, v, whr, allowed). size v)") (auto intro: dget_PDict_size)

section \<open>Documents\<close>

definition validate_tool_entry :: "pylib \<Rightarrow> string \<Rightarrow> pyval \<times> pyval \<Rightarrow> (string \<times> pydict) res" where
  "validate_tool_entry lib source entry =
     ebind (ensure (nonempty_str (fst entry))
              (PolicyError (source @ '': tool pattern must be a non-empty string''))) (\<lambda>_.
     ebind (validate_rule lib (snd entry)
              (source @ '': tools['' @ repr_str (the_str (fst entry)) @ '']'') RULE_FIELDS) (\<lambda>r.
     Inr (the_str (fst entry), r)))"

definition default_action_ok :: "pyval \<Rightarrow> bool" where
  "default_action_ok v = (v = PNone \<or> v = PStr ''allow'' \<or> v = PStr ''block'')"

definition parse_document :: "pylib \<Rightarrow> pyval \<Rightarrow> string \<Rightarrow> string \<Rightarrow> policy_layer res" where
  "parse_document lib document source fallback_name =
     (case document of
        PDict d \<Rightarrow>
          (let version = dget_none d ''schema_version'' in
           ebind (ensure (version \<noteq> PNone) (PolicyError (source @ '': missing schema_version''))) (\<lambda>_.
           ebind (ensure (py_eq version (PInt SCHEMA_VERSION))
                    (PolicyError (source @ '': unsupported schema_version''))) (\<lambda>_.
           ebind (ensure (unknown_fields d TOP_LEVEL_FIELDS = [])
                    (PolicyError (source @ '': unknown top-level field(s)''))) (\<lambda>_.
           let default_action = dget_none d ''default_action'' in
           ebind (ensure (default_action_ok default_action)
                    (PolicyError (source @ '': default_action must be allow or block''))) (\<lambda>_.
           let name = dget_default d ''name'' (PStr fallback_name) in
           ebind (ensure (nonempty_str name)
                    (PolicyError (source @ '': name must be a non-empty string''))) (\<lambda>_.
           ebind (case dget_default d ''tools'' (PDict []) of
                    PDict tools \<Rightarrow> Inr tools
                  | _ \<Rightarrow> Inl (PolicyError (source @ '': tools must be a mapping''))) (\<lambda>tools.
           ebind (emap (validate_tool_entry lib source) tools) (\<lambda>rules.
           ebind (validate_str_list (dget_none d ''taint_sources'') source ''taint_sources'') (\<lambda>srcs.
           ebind (validate_str_list (dget_none d ''taint_sinks'') source ''taint_sinks'') (\<lambda>sinks.
           ebind (validate_sequence_rules (dget_none d ''sequence_rules'') source) (\<lambda>seqs.
           ebind (validate_risk (dget_none d ''risk'') source) (\<lambda>risk.
           ebind (validate_on_failure (dget_none d ''on_failure'') source) (\<lambda>onf.
           Inr \<lparr>pl_name = the_str name, pl_source = source,
                pl_default_action = (if default_action = PNone then None else Some (the_str default_action)),
                pl_rules = rules, pl_taint_sources = srcs, pl_taint_sinks = sinks,
                pl_sequence_rules = seqs, pl_risk = risk, pl_on_failure = onf\<rparr>)))))))))))))
      | _ \<Rightarrow> Inl (PolicyError (source @ '': policy document must be a mapping'')))"

section \<open>What validation guarantees\<close>

text \<open>
  The shape of a rule mapping that passed \<open>_validate_rule\<close>: known fields only, a known (or
  null) action and then-action, well-formed constraints and rewrites.
\<close>

definition action_field_ok :: "pydict \<Rightarrow> string \<Rightarrow> bool" where
  "action_field_ok d key = (\<forall>v. dget d key = Some v \<longrightarrow> v = PNone \<or> (\<exists>a \<in> set ACTION_VOCABULARY. v = PStr a))"

definition rule_ok :: "pylib \<Rightarrow> string list \<Rightarrow> pydict \<Rightarrow> bool" where
  "rule_ok lib allowed d \<longleftrightarrow>
     (\<forall>k \<in> set (map fst d). k \<in> PStr ` set allowed) \<and>
     action_field_ok d ''action'' \<and> action_field_ok d ''then'' \<and>
     (\<forall>v. dget d ''reason'' = Some v \<longrightarrow> is_str v) \<and>
     (\<forall>v. dget d ''constraints'' = Some v \<longrightarrow> v = PNone \<or>
        (\<exists>cs. v = PList cs \<and> (\<forall>c \<in> set cs. \<exists>whr. isOk (build_constraint lib c whr)))) \<and>
     (\<forall>v. dget d ''rewrites'' = Some v \<longrightarrow> v = PNone \<or>
        (\<exists>rs. v = PList rs \<and> (\<forall>r \<in> set rs. \<exists>whr. validate_rewrite lib r whr = Inr ()))) \<and>
     (\<forall>v. dget d ''redaction'' = Some v \<longrightarrow> (\<exists>whr. validate_redaction v whr = Inr ()))"

lemma unknown_fields_Nil: "unknown_fields d allowed = [] \<longleftrightarrow> (\<forall>k \<in> set (map fst d). k \<in> PStr ` set allowed)"
  by (auto simp: unknown_fields_def filter_empty_conv)

lemma validate_action_field_ok: "validate_action_field d key whr msg = Inr u \<Longrightarrow> action_field_ok d key"
  by (auto simp: validate_action_field_def action_field_ok_def Let_def dget_none_def dget_default_def
      ebind_eq_Inr in_strset_def split: if_splits option.splits)

lemma set_indexed_snd: "snd ` set (indexed pre xs) = set xs"
proof -
  have "map snd (indexed pre xs) = xs" by (simp add: indexed_def)
  then show ?thesis by (metis set_map)
qed

lemma validate_list_field_ok:
  assumes "validate_list_field d key whr chk = Inr u" and "dget d key = Some v" and "v \<noteq> PNone"
  shows "\<exists>xs. v = PList xs \<and> (\<forall>x \<in> set xs. \<exists>w y. chk x w = Inr y)"
proof -
  from assms obtain xs ys where v: "v = PList xs"
    and m: "emap (\<lambda>p. chk (snd p) (fst p)) (indexed (whr @ ''.'' @ key) xs) = Inr ys"
    by (auto simp: validate_list_field_def dget_none_def dget_default_def ebind_eq_Inr
        split: pyval.splits)
  have "\<exists>w y. chk x w = Inr y" if "x \<in> set xs" for x
  proof -
    from that obtain p where "p \<in> set (indexed (whr @ ''.'' @ key) xs)" "snd p = x"
      using set_indexed_snd [of "whr @ ''.'' @ key" xs] by (metis imageE)
    with emap_Inr_set [OF m] show ?thesis by blast
  qed
  with v show ?thesis by blast
qed

lemma validate_rule_head_ok:
  assumes "validate_rule_head lib d whr allowed = Inr u"
  shows "rule_ok lib allowed d"
proof -
  from assms have h:
    "unknown_fields d allowed = []"
    "\<exists>u. validate_action_field d ''action'' whr '': invalid action'' = Inr u"
    "\<not> dhas d ''reason'' \<or> is_str (dget_none d ''reason'')"
    "\<exists>u. validate_action_field d ''then'' whr '': invalid then action'' = Inr u"
    "\<exists>u. validate_list_field d ''constraints'' whr (build_constraint lib) = Inr u"
    "\<exists>u. validate_list_field d ''rewrites'' whr (validate_rewrite lib) = Inr u"
    "dhas d ''redaction'' \<Longrightarrow> validate_redaction (dget_none d ''redaction'') (whr @ ''.redaction'') = Inr ()"
    by (auto simp: validate_rule_head_def ebind_eq_Inr split: if_splits)
  show ?thesis
    unfolding rule_ok_def
  proof (intro conjI)
    show "\<forall>v. dget d ''constraints'' = Some v \<longrightarrow> v = PNone \<or>
        (\<exists>cs. v = PList cs \<and> (\<forall>c \<in> set cs. \<exists>whr. isOk (build_constraint lib c whr)))"
      using h(5) by (metis validate_list_field_ok isOk_simps(1))
    show "\<forall>v. dget d ''rewrites'' = Some v \<longrightarrow> v = PNone \<or>
        (\<exists>rs. v = PList rs \<and> (\<forall>r \<in> set rs. \<exists>whr. validate_rewrite lib r whr = Inr ()))"
      using h(6) by (metis validate_list_field_ok old.unit.exhaust)
  qed (use h in \<open>auto simp: unknown_fields_Nil dhas_def dget_none_def dget_default_def
      dest: validate_action_field_ok\<close>)
qed

text \<open>The document's rules as a whole: each rule, and each of its role overlays, is well formed.\<close>

definition overlays_ok :: "pylib \<Rightarrow> pydict \<Rightarrow> bool" where
  "overlays_ok lib d \<longleftrightarrow>
     (\<forall>v. dget d ''roles'' = Some v \<longrightarrow> v = PNone \<or>
       (\<exists>rs. v = PDict rs \<and> (\<forall>p \<in> set rs. nonempty_str (fst p) \<and>
          (\<exists>ov. snd p = PDict ov \<and> rule_ok lib OVERLAY_FIELDS ov))))"

lemma validate_rule_Inr:
  assumes "validate_rule lib v whr allowed = Inr d"
  shows "v = PDict d \<and> rule_ok lib allowed d"
  using assms by (cases v) (auto simp: ebind_eq_Inr intro: validate_rule_head_ok)

lemma validate_rule_overlays:
  assumes "validate_rule lib v whr allowed = Inr d"
  shows "overlays_ok lib d"
proof -
  have v: "v = PDict d" using validate_rule_Inr [OF assms] by simp
  show ?thesis
  proof (cases "dget d ''roles''")
    case (Some r)
    from assms v Some obtain ys where ys: "r = PNone \<or> (\<exists>rs. r = PDict rs \<and>
        emap (\<lambda>p. ebind (ensure (nonempty_str (fst p))
               (PolicyError (whr @ '': role names must be non-empty strings''))) (\<lambda>_.
             validate_rule lib (snd p) (whr @ ''.roles['' @ repr_str (the_str (fst p)) @ '']'')
               OVERLAY_FIELDS)) rs = Inr ys)"
      by (cases r) (auto simp: ebind_eq_Inr)
    have "nonempty_str (fst p) \<and> (\<exists>ov. snd p = PDict ov \<and> rule_ok lib OVERLAY_FIELDS ov)"
      if "r = PDict rs" "p \<in> set rs" for rs p
    proof -
      from ys that obtain y where "nonempty_str (fst p)"
        "validate_rule lib (snd p) (whr @ ''.roles['' @ repr_str (the_str (fst p)) @ '']'') OVERLAY_FIELDS = Inr y"
        by (auto simp: ebind_eq_Inr dest!: emap_Inr_set)
      then show ?thesis by (blast dest: validate_rule_Inr)
    qed
    with ys Some show ?thesis unfolding overlays_ok_def by auto
  qed (simp add: overlays_ok_def)
qed

definition layer_ok :: "pylib \<Rightarrow> policy_layer \<Rightarrow> bool" where
  "layer_ok lib l \<longleftrightarrow>
     pl_name l \<noteq> [] \<and> pl_default_action l \<in> {None, Some ''allow'', Some ''block''} \<and>
     (\<forall>p \<in> set (pl_rules l). fst p \<noteq> [] \<and> rule_ok lib RULE_FIELDS (snd p) \<and> overlays_ok lib (snd p))"

lemma validate_tool_entry_ok:
  "validate_tool_entry lib source entry = Inr (pat, r) \<Longrightarrow>
     pat \<noteq> [] \<and> rule_ok lib RULE_FIELDS r \<and> overlays_ok lib r"
  by (cases "fst entry")
    (auto simp: validate_tool_entry_def ebind_eq_Inr nonempty_str_def the_str_def
      dest: validate_rule_Inr validate_rule_overlays)

lemma parse_document_ok:
  assumes "parse_document lib document source fallback_name = Inr l"
  shows "layer_ok lib l"
proof -
  from assms obtain d tools where
    doc: "document = PDict d"
    and da: "default_action_ok (dget_none d ''default_action'')"
    and nm: "nonempty_str (dget_default d ''name'' (PStr fallback_name))"
    and rules: "emap (validate_tool_entry lib source) tools = Inr (pl_rules l)"
    and l: "pl_name l = the_str (dget_default d ''name'' (PStr fallback_name))"
      "pl_default_action l = (if dget_none d ''default_action'' = PNone then None
         else Some (the_str (dget_none d ''default_action'')))"
    by (cases document) (auto simp: parse_document_def Let_def ebind_eq_Inr)
  have "fst p \<noteq> [] \<and> rule_ok lib RULE_FIELDS (snd p) \<and> overlays_ok lib (snd p)"
    if "p \<in> set (pl_rules l)" for p
    using emap_Inr_set' [OF rules that] by (cases p) (auto dest: validate_tool_entry_ok)
  moreover have "pl_name l \<noteq> []"
    using nm l(1) by (auto simp: nonempty_str_def the_str_def split: pyval.splits)
  ultimately show ?thesis using da l(2) by (auto simp: layer_ok_def default_action_ok_def the_str_def)
qed

end
