(* ===== verification/Rule_Matcher.thy ===== *)
theory Rule_Matcher
  imports Gateway_Prelude
begin

text \<open>
  Tool-name matching: the glob language of Python's \<open>fnmatch\<close> (the part of the standard
  library that \<open>policy/matcher.py\<close>, \<open>sequence/policy.py\<close> and \<open>policy/diff.py\<close> use) and the
  \<open>RuleMatcher\<close> of \<open>policy/matcher.py\<close>: exact beats glob, the more specific glob beats the
  less specific one, the later one wins a tie.
\<close>

section \<open>Globs\<close>

datatype glob_tok = GStar | GAny | GLit char | GSet bool "(char \<times> char) list"

text \<open>
  The body of a bracket expression: \<open>a-z\<close> is a range, a \<open>-\<close> at either end is a literal.
  An empty range (\<open>z-a\<close>) admits no character.
\<close>

fun set_ranges :: "string \<Rightarrow> (char \<times> char) list" where
  "set_ranges [] = []"
| "set_ranges (a # m # b # cs) =
     (if m = CHR ''-'' then (a, b) # set_ranges cs else (a, a) # set_ranges (m # b # cs))"
| "set_ranges (a # cs) = (a, a) # set_ranges cs"

text \<open>
  The closing bracket: a leading \<open>!\<close> and a \<open>]\<close> in first position belong to the body. Without
  a closing bracket the \<open>[\<close> is an ordinary character.
\<close>

fun take_upto_close :: "string \<Rightarrow> (string \<times> string) option" where
  "take_upto_close [] = None"
| "take_upto_close (c # cs) =
     (if c = CHR '']'' then Some ([], cs)
      else map_option (\<lambda>p. (c # fst p, snd p)) (take_upto_close cs))"

definition bracket_body :: "string \<Rightarrow> (bool \<times> string \<times> string) option" where
  "bracket_body s =
     (let neg = (case s of c # _ \<Rightarrow> c = CHR ''!'' | [] \<Rightarrow> False);
          s1 = (if neg then tl s else s)
      in case s1 of
           [] \<Rightarrow> None
         | c # cs \<Rightarrow>
             (if c = CHR '']''
              then map_option (\<lambda>p. (neg, c # fst p, snd p)) (take_upto_close cs)
              else map_option (\<lambda>p. (neg, fst p, snd p)) (take_upto_close s1)))"

lemma take_upto_close_length:
  "take_upto_close s = Some (b, r) \<Longrightarrow> length r < length s"
  by (induction s arbitrary: b) (auto split: if_splits)

lemma bracket_body_length:
  "bracket_body s = Some (n, b, r) \<Longrightarrow> length r < length s"
  by (cases s)
    (auto simp: bracket_body_def Let_def split: if_splits list.splits dest!: take_upto_close_length)

function (sequential) glob_toks :: "string \<Rightarrow> glob_tok list" where
  "glob_toks [] = []"
| "glob_toks (c # cs) =
     (if c = CHR ''*'' then GStar # glob_toks cs
      else if c = CHR ''?'' then GAny # glob_toks cs
      else if c = CHR ''['' then
        (case bracket_body cs of
           None \<Rightarrow> GLit c # glob_toks cs
         | Some (neg, body, rest) \<Rightarrow> GSet neg (set_ranges body) # glob_toks rest)
      else GLit c # glob_toks cs)"
  by pat_completeness auto
termination
  by (relation "measure length") (auto dest: bracket_body_length)

definition in_ranges :: "char \<Rightarrow> (char \<times> char) list \<Rightarrow> bool" where
  "in_ranges c rs = (\<exists>r \<in> set rs. code_of (fst r) \<le> (code_of c :: nat) \<and> code_of c \<le> (code_of (snd r) :: nat))"

fun tok_char :: "glob_tok \<Rightarrow> char \<Rightarrow> bool" where
  "tok_char GStar c = True"
| "tok_char GAny c = True"
| "tok_char (GLit l) c = (c = l)"
| "tok_char (GSet neg rs) c = (in_ranges c rs \<noteq> neg)"

fun toks_match :: "glob_tok list \<Rightarrow> string \<Rightarrow> bool" where
  "toks_match [] s = (s = [])"
| "toks_match (GStar # ts) [] = toks_match ts []"
| "toks_match (GStar # ts) (c # cs) = (toks_match ts (c # cs) \<or> toks_match (GStar # ts) cs)"
| "toks_match (t # ts) [] = False"
| "toks_match (t # ts) (c # cs) = (tok_char t c \<and> toks_match ts cs)"

text \<open>\<open>fnmatch.fnmatch(name, pat)\<close> on a POSIX system (\<open>normcase\<close> is the identity).\<close>

definition fnmatch :: "string \<Rightarrow> string \<Rightarrow> bool" where
  "fnmatch name pat = toks_match (glob_toks pat) name"

section \<open>The rule matcher\<close>

definition wildcard :: "char \<Rightarrow> bool" where
  "wildcard c = (c = CHR ''*'' \<or> c = CHR ''?'' \<or> c = CHR ''['')"

definition is_glob :: "string \<Rightarrow> bool" where
  "is_glob pattern = (\<exists>c \<in> set pattern. wildcard c)"

definition specificity :: "string \<Rightarrow> nat" where
  "specificity pattern = length (filter (\<lambda>c. \<not> wildcard c) pattern)"

record rule_matcher =
  rm_exact :: "string list"
  rm_globs :: "(string \<times> nat \<times> nat) list"

fun add_pattern :: "nat \<times> string \<Rightarrow> rule_matcher \<Rightarrow> rule_matcher" where
  "add_pattern (index, pattern) m =
     (if is_glob pattern
      then m\<lparr>rm_globs := rm_globs m @ [(pattern, specificity pattern, index)]\<rparr>
      else m\<lparr>rm_exact := rm_exact m @ [pattern]\<rparr>)"

definition build_matcher :: "string list \<Rightarrow> rule_matcher" where
  "build_matcher patterns =
     fold add_pattern (zip [0..<length patterns] patterns) \<lparr>rm_exact = [], rm_globs = []\<rparr>"

text \<open>The loop over the globs: keep the pair (specificity, index) that is largest so far.\<close>

definition better :: "nat \<times> nat \<Rightarrow> (nat \<times> nat \<times> string) option \<Rightarrow> bool" where
  "better k best =
     (case best of None \<Rightarrow> True
      | Some (s, i, _) \<Rightarrow> fst k > s \<or> (fst k = s \<and> snd k > i))"

fun best_glob :: "string \<Rightarrow> (string \<times> nat \<times> nat) list \<Rightarrow> (nat \<times> nat \<times> string) option
    \<Rightarrow> (nat \<times> nat \<times> string) option" where
  "best_glob tool [] best = best"
| "best_glob tool ((pattern, spec, index) # gs) best =
     best_glob tool gs
       (if fnmatch tool pattern \<and> better (spec, index) best
        then Some (spec, index, pattern) else best)"

definition match_rule :: "rule_matcher \<Rightarrow> string \<Rightarrow> string option" where
  "match_rule m tool =
     (if tool \<in> set (rm_exact m) then Some tool
      else map_option (\<lambda>b. snd (snd b)) (best_glob tool (rm_globs m) None))"

section \<open>Facts about globs\<close>

lemma toks_match_star [simp]: "toks_match [GStar] s"
  by (induction s) auto

lemma fnmatch_star: "fnmatch s ''*''"
  by (simp add: fnmatch_def)

lemma toks_match_GStar_iff:
  "toks_match (GStar # ts) s \<longleftrightarrow> (\<exists>u v. s = u @ v \<and> toks_match ts v)"
proof (induction s)
  case (Cons c s)
  have "(\<exists>u v. c # s = u @ v \<and> toks_match ts v) \<longleftrightarrow>
      toks_match ts (c # s) \<or> (\<exists>u v. s = u @ v \<and> toks_match ts v)"
    by (auto simp: Cons_eq_append_conv)
  with Cons show ?case by simp
qed simp

lemma toks_match_GLits: "toks_match (map GLit p @ ts) s \<longleftrightarrow> (\<exists>r. s = p @ r \<and> toks_match ts r)"
proof (induction p arbitrary: s)
  case (Cons c p)
  then show ?case by (cases s) auto
qed simp

lemma glob_toks_literal: "\<not> is_glob p \<Longrightarrow> glob_toks (p @ q) = map GLit p @ glob_toks q"
  by (induction p) (auto simp: is_glob_def wildcard_def)

lemma fnmatch_literal: "\<not> is_glob p \<Longrightarrow> fnmatch s p \<longleftrightarrow> s = p"
  using glob_toks_literal [of p "[]"] toks_match_GLits [of p "[]" s] by (simp add: fnmatch_def)

text \<open>A literal prefix followed by a star matches exactly the names with that prefix.\<close>

lemma fnmatch_prefix_star: "\<not> is_glob p \<Longrightarrow> fnmatch s (p @ ''*'') \<longleftrightarrow> prefix p s"
  by (auto simp: fnmatch_def glob_toks_literal toks_match_GLits prefix_def
      toks_match_GStar_iff)

section \<open>Facts about the matcher\<close>

lemma fold_add_pattern:
  "rm_exact (fold add_pattern ps m) = rm_exact m @ filter (\<lambda>p. \<not> is_glob p) (map snd ps)"
  "rm_globs (fold add_pattern ps m) =
     rm_globs m @ map (\<lambda>(i, p). (p, specificity p, i)) (filter (\<lambda>(i, p). is_glob p) ps)"
  by (induction ps arbitrary: m) auto

lemma build_matcher_exact: "rm_exact (build_matcher ps) = filter (\<lambda>p. \<not> is_glob p) ps"
  by (simp add: build_matcher_def fold_add_pattern)

lemma build_matcher_globs:
  "rm_globs (build_matcher ps) =
     map (\<lambda>(i, p). (p, specificity p, i)) (filter (\<lambda>(i, p). is_glob p) (zip [0..<length ps] ps))"
  by (simp add: build_matcher_def fold_add_pattern)

lemma best_glob_None_iff:
  "best_glob tool gs best = None \<longleftrightarrow> best = None \<and> (\<forall>g \<in> set gs. \<not> fnmatch tool (fst g))"
  by (induction tool gs best rule: best_glob.induct) (auto simp: better_def)

definition rank_le :: "nat \<times> nat \<Rightarrow> nat \<times> nat \<Rightarrow> bool" where
  "rank_le a b = (fst a < fst b \<or> (fst a = fst b \<and> snd a \<le> snd b))"

lemma rank_le_trans: "rank_le a b \<Longrightarrow> rank_le b c \<Longrightarrow> rank_le a c"
  by (auto simp: rank_le_def)

lemma rank_le_refl [simp]: "rank_le a a"
  by (simp add: rank_le_def)

lemma not_better_rank: "\<not> better k (Some (s, i, p)) \<Longrightarrow> rank_le k (s, i)"
  by (auto simp: better_def rank_le_def)

lemma better_rank: "better k (Some (s, i, p)) \<Longrightarrow> rank_le (s, i) k"
  by (auto simp: better_def rank_le_def)

text \<open>The result of the loop is the old best or a matching glob, and dominates both.\<close>

lemma best_glob_max:
  assumes "best_glob tool gs best = Some (s, i, p)"
  shows "(best = Some (s, i, p) \<or> ((p, s, i) \<in> set gs \<and> fnmatch tool p)) \<and>
    (\<forall>s' i' p'. best = Some (s', i', p') \<longrightarrow> rank_le (s', i') (s, i)) \<and>
    (\<forall>p' s' i'. (p', s', i') \<in> set gs \<and> fnmatch tool p' \<longrightarrow> rank_le (s', i') (s, i))"
  using assms
proof (induction tool gs best rule: best_glob.induct)
  case (2 tool pattern spec index gs best)
  show ?case
  proof (cases "fnmatch tool pattern \<and> better (spec, index) best")
    case True
    with 2 show ?thesis
      by (auto dest: better_rank intro: rank_le_trans)
  next
    case False
    with 2 obtain IH: "best = Some (s, i, p) \<or> ((p, s, i) \<in> set gs \<and> fnmatch tool p)"
      "\<And>s' i' p'. best = Some (s', i', p') \<Longrightarrow> rank_le (s', i') (s, i)"
      "\<And>p' s' i'. (p', s', i') \<in> set gs \<Longrightarrow> fnmatch tool p' \<Longrightarrow> rank_le (s', i') (s, i)"
      by auto
    have "rank_le (spec, index) (s, i)" if "fnmatch tool pattern"
    proof -
      from that False have nb: "\<not> better (spec, index) best" by simp
      then obtain s' i' p' where b: "best = Some (s', i', p')"
        by (cases best) (auto simp: better_def)
      show ?thesis using nb IH(2) [OF b] unfolding b by (blast dest: not_better_rank intro: rank_le_trans)
    qed
    with IH show ?thesis by auto
  qed
qed auto

lemma in_zip_upt: "(i, p) \<in> set (zip [0..<length ps] ps) \<longleftrightarrow> i < length ps \<and> ps ! i = p"
  by (auto simp: in_set_conv_nth)

text \<open>
  The specification of a match over the pattern list alone: an exact pattern wins; failing
  that, a matching glob that no matching glob outranks.
\<close>

definition glob_winner :: "string list \<Rightarrow> string \<Rightarrow> string \<Rightarrow> bool" where
  "glob_winner ps tool p \<longleftrightarrow>
     (\<exists>i < length ps. ps ! i = p \<and> is_glob p \<and> fnmatch tool p \<and>
        (\<forall>j < length ps. is_glob (ps ! j) \<and> fnmatch tool (ps ! j) \<longrightarrow>
           rank_le (specificity (ps ! j), j) (specificity p, i)))"

lemma build_matcher_globs_mem:
  "(p, s, i) \<in> set (rm_globs (build_matcher ps)) \<longleftrightarrow>
     i < length ps \<and> ps ! i = p \<and> is_glob p \<and> s = specificity p"
  by (auto simp: build_matcher_globs in_zip_upt image_iff) 

lemma match_rule_Some_glob:
  assumes "match_rule (build_matcher ps) tool = Some p" and "\<not> (tool \<in> set ps \<and> \<not> is_glob tool)"
  shows "glob_winner ps tool p"
proof -
  from assms obtain s i where b: "best_glob tool (rm_globs (build_matcher ps)) None = Some (s, i, p)"
    by (auto simp: match_rule_def build_matcher_exact split: if_splits)
  from best_glob_max [OF b]
  have mem: "(p, s, i) \<in> set (rm_globs (build_matcher ps))" and m: "fnmatch tool p"
    and mx: "\<And>p' s' i'. (p', s', i') \<in> set (rm_globs (build_matcher ps)) \<Longrightarrow> fnmatch tool p'
      \<Longrightarrow> rank_le (s', i') (s, i)" by auto
  from mem m mx show ?thesis
    unfolding glob_winner_def build_matcher_globs_mem by blast
qed

lemma match_rule_None_iff:
  "match_rule (build_matcher ps) tool = None \<longleftrightarrow>
     \<not> (tool \<in> set ps \<and> \<not> is_glob tool) \<and> (\<forall>p \<in> set ps. is_glob p \<longrightarrow> \<not> fnmatch tool p)"
proof -
  have eq: "fst ` set (rm_globs (build_matcher ps)) = {p \<in> set ps. is_glob p}"
  proof (rule set_eqI)
    fix p
    have "p \<in> fst ` set (rm_globs (build_matcher ps)) \<longleftrightarrow>
        (\<exists>s i. (p, s, i) \<in> set (rm_globs (build_matcher ps)))" by force
    also have "\<dots> \<longleftrightarrow> p \<in> {p \<in> set ps. is_glob p}"
      by (auto simp: build_matcher_globs_mem in_set_conv_nth [of _ ps])
    finally show "p \<in> fst ` set (rm_globs (build_matcher ps)) \<longleftrightarrow> p \<in> {p \<in> set ps. is_glob p}" .
  qed
  have "(\<forall>g \<in> set (rm_globs (build_matcher ps)). \<not> fnmatch tool (fst g)) \<longleftrightarrow>
      (\<forall>p \<in> fst ` set (rm_globs (build_matcher ps)). \<not> fnmatch tool p)" by auto
  then show ?thesis by (auto simp: match_rule_def build_matcher_exact best_glob_None_iff eq)
qed

lemma match_rule_in_patterns: "match_rule (build_matcher ps) tool = Some p \<Longrightarrow> p \<in> set ps"
  using match_rule_Some_glob [of ps tool p]
  by (cases "tool \<in> set ps \<and> \<not> is_glob tool")
    (auto simp: match_rule_def build_matcher_exact glob_winner_def)

text \<open>A winner is unique: two matching globs of the same rank have the same index.\<close>

lemma glob_winner_unique: "glob_winner ps tool p \<Longrightarrow> glob_winner ps tool q \<Longrightarrow> p = q"
  unfolding glob_winner_def rank_le_def by (metis fst_conv snd_conv less_imp_not_less le_antisym less_irrefl)

lemma match_rule_exact:
  "tool \<in> set ps \<Longrightarrow> \<not> is_glob tool \<Longrightarrow> match_rule (build_matcher ps) tool = Some tool"
  by (simp add: match_rule_def build_matcher_exact)

text \<open>
  The matcher is deterministic in exactly the way \<open>policy/matcher.py\<close> documents: the
  result is \<open>None\<close> when nothing matches, the tool itself when a literal rule names it, and
  otherwise the top-ranked matching glob.
\<close>

lemma match_rule_spec:
  "match_rule (build_matcher ps) tool = Some p \<longleftrightarrow>
     (if tool \<in> set ps \<and> \<not> is_glob tool then p = tool else glob_winner ps tool p)"
proof (cases "tool \<in> set ps \<and> \<not> is_glob tool")
  case True
  then show ?thesis by (auto simp: match_rule_exact)
next
  case False
  have "match_rule (build_matcher ps) tool = Some p" if w: "glob_winner ps tool p"
  proof -
    from w have "match_rule (build_matcher ps) tool \<noteq> None"
      unfolding match_rule_None_iff glob_winner_def by (metis nth_mem)
    then obtain q where q: "match_rule (build_matcher ps) tool = Some q" by blast
    then have "glob_winner ps tool q" using False by (rule match_rule_Some_glob)
    with w q show ?thesis using glob_winner_unique by blast
  qed
  with False show ?thesis using match_rule_Some_glob by auto
qed

end
