(* ===== verification/Session_State.thy ===== *)
theory Session_State
  imports Gateway_Prelude
begin

text \<open>
  Per-session state: \<open>core/session.py\<close> (the \<open>Session\<close> and \<open>PendingCall\<close> classes with every
  method), \<open>redaction/spec.py\<close> (the \<open>RedactionSpec\<close> a pending call carries) and
  \<open>core/failure.py\<close> (the failure posture). The wall-clock fields (\<open>started\<close>,
  \<open>elapsed_ms\<close>) only feed durations in audit events and are left out.
\<close>

section \<open>Redaction specifications\<close>

definition DEFAULT_PROFILE :: string where
  "DEFAULT_PROFILE = ''standard''"

record redaction_spec =
  rs_profile :: string
  rs_exclude_keys :: "string list"
  rs_allowlist :: "string list"
  rs_denylist :: "string list"
  rs_context_words :: "string list"

definition default_spec :: redaction_spec where
  "default_spec =
     \<lparr>rs_profile = DEFAULT_PROFILE, rs_exclude_keys = [], rs_allowlist = [],
      rs_denylist = [], rs_context_words = []\<rparr>"

text \<open>
  \<open>frozenset(value)\<close> on a list of strings; \<open>frozenset(None)\<close> is a \<open>TypeError\<close>. Other shapes
  never get past \<open>_validate_redaction\<close>.
\<close>

definition str_of_val :: "pyval \<Rightarrow> string res" where
  "str_of_val v = (case v of PStr s \<Rightarrow> Inr s | _ \<Rightarrow> Inl TypeError)"

definition frozenset_of :: "pyval \<Rightarrow> (string list) res" where
  "frozenset_of v = (case v of PList xs \<Rightarrow> emap str_of_val xs | _ \<Rightarrow> Inl TypeError)"

definition spec_from_config :: "pyval \<Rightarrow> redaction_spec res" where
  "spec_from_config config =
     (case config of
        PNone \<Rightarrow> Inr default_spec
      | PStr p \<Rightarrow> Inr (default_spec\<lparr>rs_profile := p\<rparr>)
      | PDict d \<Rightarrow>
          ebind (str_of_val (dget_default d ''profile'' (PStr DEFAULT_PROFILE))) (\<lambda>profile.
          ebind (frozenset_of (dget_default d ''exclude_keys'' (PList []))) (\<lambda>ek.
          ebind (frozenset_of (dget_default d ''allowlist'' (PList []))) (\<lambda>al.
          ebind (frozenset_of (dget_default d ''denylist'' (PList []))) (\<lambda>dl.
          ebind (frozenset_of (dget_default d ''context_words'' (PList []))) (\<lambda>cw.
          Inr \<lparr>rs_profile = profile, rs_exclude_keys = ek, rs_allowlist = al,
               rs_denylist = dl, rs_context_words = cw\<rparr>)))))
      | _ \<Rightarrow> Inl AttributeError)"

definition describe_set :: "string \<Rightarrow> string list \<Rightarrow> pydict" where
  "describe_set key xs =
     (if xs = [] then [] else [(PStr key, PList (map PStr (sort (remdups xs))))])"

definition spec_describe :: "redaction_spec \<Rightarrow> pydict" where
  "spec_describe rs =
     [(PStr ''profile'', PStr (rs_profile rs))]
     @ describe_set ''exclude_keys'' (rs_exclude_keys rs)
     @ describe_set ''allowlist'' (rs_allowlist rs)
     @ describe_set ''denylist'' (rs_denylist rs)
     @ describe_set ''context_words'' (rs_context_words rs)"

section \<open>Failure posture\<close>

datatype fail_mode = CLOSED | OPEN

record failure_posture =
  fp_pipeline :: fail_mode
  fp_redaction :: fail_mode
  fp_approval :: fail_mode

definition default_posture :: failure_posture where
  "default_posture = \<lparr>fp_pipeline = CLOSED, fp_redaction = CLOSED, fp_approval = CLOSED\<rparr>"

definition fail_mode_of :: "pyval \<Rightarrow> fail_mode res" where
  "fail_mode_of v =
     (if v = PStr ''closed'' then Inr CLOSED
      else if v = PStr ''open'' then Inr OPEN
      else Inl (ValueError ''not a valid FailMode''))"

definition posture_from_config :: "pyval \<Rightarrow> failure_posture res" where
  "posture_from_config config =
     (case config of
        PNone \<Rightarrow> Inr default_posture
      | PStr s \<Rightarrow> ebind (fail_mode_of (PStr s)) (\<lambda>m.
          Inr \<lparr>fp_pipeline = m, fp_redaction = m, fp_approval = m\<rparr>)
      | PDict d \<Rightarrow>
          (let default = dget_default d ''default'' (PStr ''closed'') in
           ebind (fail_mode_of default) (\<lambda>_.
           ebind (fail_mode_of (dget_default d ''pipeline'' default)) (\<lambda>p.
           ebind (fail_mode_of (dget_default d ''redaction'' default)) (\<lambda>r.
           ebind (fail_mode_of (dget_default d ''approval'' default)) (\<lambda>a.
           Inr \<lparr>fp_pipeline = p, fp_redaction = r, fp_approval = a\<rparr>)))))
      | _ \<Rightarrow> Inl AttributeError)"

definition any_open :: "failure_posture \<Rightarrow> bool" where
  "any_open p = (fp_pipeline p = OPEN \<or> fp_redaction p = OPEN \<or> fp_approval p = OPEN)"

definition open_categories :: "failure_posture \<Rightarrow> string list" where
  "open_categories p =
     (if fp_pipeline p = OPEN then [''pipeline''] else [])
     @ (if fp_redaction p = OPEN then [''redaction''] else [])
     @ (if fp_approval p = OPEN then [''approval''] else [])"

definition fail_mode_str :: "fail_mode \<Rightarrow> string" where
  "fail_mode_str m = (case m of CLOSED \<Rightarrow> ''closed'' | OPEN \<Rightarrow> ''open'')"

definition posture_describe :: "failure_posture \<Rightarrow> pydict" where
  "posture_describe p =
     [(PStr ''pipeline'', PStr (fail_mode_str (fp_pipeline p))),
      (PStr ''redaction'', PStr (fail_mode_str (fp_redaction p))),
      (PStr ''approval'', PStr (fail_mode_str (fp_approval p)))]"

lemma any_open_iff: "any_open p \<longleftrightarrow> open_categories p \<noteq> []"
  by (auto simp: any_open_def open_categories_def)

lemma posture_default_closed: "\<not> any_open default_posture"
  by (simp add: any_open_def default_posture_def)

text \<open>Nothing but an explicit \<open>open\<close> in the configuration opens a category.\<close>

lemma fail_mode_of_OPEN: "fail_mode_of v = Inr OPEN \<longleftrightarrow> v = PStr ''open''"
  by (auto simp: fail_mode_of_def split: if_splits)

lemma posture_open_explicit:
  assumes "posture_from_config config = Inr p" and "any_open p"
  shows "config = PStr ''open'' \<or>
    (\<exists>d. config = PDict d \<and> (\<exists>k \<in> {''default'', ''pipeline'', ''redaction'', ''approval''}.
       dget d k = Some (PStr ''open'')))"
proof (cases config)
  case (PDict d)
  have default: "dget d k = Some (PStr ''open'') \<or> dget d ''default'' = Some (PStr ''open'')"
    if "dget_default d k (dget_default d ''default'' (PStr ''closed'')) = PStr ''open''" for k
    using that by (auto simp: dget_default_def split: option.splits)
  from assms PDict show ?thesis
    by (auto simp: posture_from_config_def Let_def ebind_eq_Inr any_open_def fail_mode_of_OPEN
        dest!: default)
qed (use assms in \<open>auto simp: posture_from_config_def default_posture_def any_open_def
    ebind_eq_Inr fail_mode_of_OPEN\<close>)

section \<open>Sessions\<close>

datatype disposition = DNone | DQuarantine | DRedact

record pending_call =
  pc_tool :: string
  pc_action :: pyval
  pc_disposition :: disposition
  pc_redaction :: "redaction_spec option"

record risk_event =
  re_event :: string
  re_weight :: int
  re_detail :: string

record session =
  s_id :: string
  s_started_at :: string
  s_suspended :: bool
  s_history :: "string list"
  s_pending :: "pykey \<rightharpoonup> pending_call"
  s_tainted :: bool
  s_taint_origin :: "string option"
  s_risk_score :: int
  s_risk_events :: "risk_event list"

text \<open>\<open>Session.new\<close>: the id the caller chose (or drew at random) and the clock's reading.\<close>

definition session_new :: "string \<Rightarrow> string \<Rightarrow> session" where
  "session_new sid now =
     \<lparr>s_id = sid, s_started_at = now, s_suspended = False, s_history = [], s_pending = Map.empty,
      s_tainted = False, s_taint_origin = None, s_risk_score = 0, s_risk_events = []\<rparr>"

definition record_call :: "string \<Rightarrow> session \<Rightarrow> session" where
  "record_call tool s = s\<lparr>s_history := s_history s @ [tool]\<rparr>"

definition mark_tainted :: "string \<Rightarrow> session \<Rightarrow> bool \<times> session" where
  "mark_tainted origin s =
     (if s_tainted s then (False, s)
      else (True, s\<lparr>s_tainted := True, s_taint_origin := Some origin\<rparr>))"

text \<open>A request id is any JSON value; a list or an object is unhashable as a dictionary key.\<close>

definition track_pending ::
  "pyval \<Rightarrow> string \<Rightarrow> pyval \<Rightarrow> disposition \<Rightarrow> redaction_spec option \<Rightarrow> session \<Rightarrow> session res" where
  "track_pending request_id tool action disp redaction s =
     (case py_key request_id of
        None \<Rightarrow> Inl TypeError
      | Some k \<Rightarrow> Inr (s\<lparr>s_pending := (s_pending s)(k \<mapsto>
          \<lparr>pc_tool = tool, pc_action = action, pc_disposition = disp, pc_redaction = redaction\<rparr>)\<rparr>))"

definition resolve_pending :: "pyval \<Rightarrow> session \<Rightarrow> (pending_call option \<times> session) res" where
  "resolve_pending request_id s =
     (case py_key request_id of
        None \<Rightarrow> Inl TypeError
      | Some k \<Rightarrow> Inr (s_pending s k, s\<lparr>s_pending := (s_pending s)(k := None)\<rparr>))"

subsection \<open>The durable view of a session\<close>

definition risk_event_to_val :: "risk_event \<Rightarrow> pyval" where
  "risk_event_to_val e =
     PDict [(PStr ''event'', PStr (re_event e)), (PStr ''weight'', PInt (re_weight e)),
            (PStr ''detail'', PStr (re_detail e))]"

definition opt_str :: "string option \<Rightarrow> pyval" where
  "opt_str x = (case x of None \<Rightarrow> PNone | Some s \<Rightarrow> PStr s)"

definition session_to_dict :: "session \<Rightarrow> pydict" where
  "session_to_dict s =
     [(PStr ''id'', PStr (s_id s)),
      (PStr ''started_at'', PStr (s_started_at s)),
      (PStr ''suspended'', PBool (s_suspended s)),
      (PStr ''history'', PList (map PStr (s_history s))),
      (PStr ''tainted'', PBool (s_tainted s)),
      (PStr ''taint_origin'', opt_str (s_taint_origin s)),
      (PStr ''risk_score'', PInt (s_risk_score s)),
      (PStr ''risk_events'', PList (map risk_event_to_val (s_risk_events s)))]"

text \<open>
  Reading a stored session. \<open>list(...)\<close> and \<open>int(...)\<close> convert and raise as Python does; a
  field that Python would store with a type the gateway never gives it (a number as \<open>id\<close>, say)
  and a string given to \<open>int\<close> read as \<open>Beyond\<close>.
\<close>

definition blob_str :: "pyval \<Rightarrow> string res" where
  "blob_str v = (case v of PStr s \<Rightarrow> Inr s | _ \<Rightarrow> Inl Beyond)"

definition blob_list :: "pyval \<Rightarrow> (pyval list) res" where
  "blob_list v =
     (case v of
        PList xs \<Rightarrow> Inr xs
      | PStr s \<Rightarrow> Inr (map (\<lambda>c. PStr [c]) s)
      | PDict d \<Rightarrow> Inr (map fst d)
      | _ \<Rightarrow> Inl TypeError)"

definition blob_int :: "pyval \<Rightarrow> int res" where
  "blob_int v =
     (case v of
        PInt i \<Rightarrow> Inr i
      | PBool b \<Rightarrow> Inr (if b then 1 else 0)
      | PFloat r \<Rightarrow> Inr (if r < 0 then \<lceil>r\<rceil> else \<lfloor>r\<rfloor>)
      | PStr _ \<Rightarrow> Inl Beyond
      | _ \<Rightarrow> Inl TypeError)"

definition risk_event_of_val :: "pyval \<Rightarrow> risk_event res" where
  "risk_event_of_val v =
     (case v of
        PDict d \<Rightarrow>
          (case (dget d ''event'', dget d ''weight'', dget d ''detail'') of
             (Some (PStr e), Some (PInt w), Some (PStr t)) \<Rightarrow>
               Inr \<lparr>re_event = e, re_weight = w, re_detail = t\<rparr>
           | _ \<Rightarrow> Inl Beyond)
      | _ \<Rightarrow> Inl Beyond)"

definition list_of_val :: "pyval \<Rightarrow> (pyval list) res" where
  "list_of_val v = (case v of PList xs \<Rightarrow> Inr xs | _ \<Rightarrow> Inl TypeError)"

definition opt_str_of_val :: "pyval \<Rightarrow> (string option) res" where
  "opt_str_of_val v =
     (case v of PNone \<Rightarrow> Inr None | PStr s \<Rightarrow> Inr (Some s) | _ \<Rightarrow> Inl Beyond)"

definition int_of_val :: "pyval \<Rightarrow> int res" where
  "int_of_val v =
     (case v of PInt i \<Rightarrow> Inr i | PBool b \<Rightarrow> Inr (if b then 1 else 0) | _ \<Rightarrow> Inl TypeError)"

definition session_from_dict :: "pydict \<Rightarrow> session res" where
  "session_from_dict d =
     (case dget d ''id'' of
        None \<Rightarrow> Inl KeyError
      | Some i \<Rightarrow>
          ebind (blob_str i) (\<lambda>sid.
          ebind (blob_str (dget_default d ''started_at'' (PStr []))) (\<lambda>started.
          ebind (ebind (blob_list (dget_default d ''history'' (PList []))) (emap blob_str)) (\<lambda>hist.
          ebind (opt_str_of_val (dget_none d ''taint_origin'')) (\<lambda>origin.
          ebind (blob_int (dget_default d ''risk_score'' (PInt 0))) (\<lambda>score.
          ebind (ebind (blob_list (dget_default d ''risk_events'' (PList [])))
                   (emap risk_event_of_val)) (\<lambda>evs.
          Inr \<lparr>s_id = sid, s_started_at = started,
               s_suspended = truthy (dget_default d ''suspended'' (PBool False)),
               s_history = hist, s_pending = Map.empty,
               s_tainted = truthy (dget_default d ''tainted'' (PBool False)),
               s_taint_origin = origin, s_risk_score = score, s_risk_events = evs\<rparr>)))))))"

section \<open>Facts about sessions\<close>

lemma session_fields [simp, frame_simps]:
  "s_suspended (record_call t s) = s_suspended s"
  "s_tainted (record_call t s) = s_tainted s"
  "s_risk_score (record_call t s) = s_risk_score s"
  "s_risk_events (record_call t s) = s_risk_events s"
  "s_pending (record_call t s) = s_pending s"
  "s_history (record_call t s) = s_history s @ [t]"
  by (simp_all add: record_call_def)

lemma mark_tainted_fields [simp, frame_simps]:
  "s_suspended (snd (mark_tainted t s)) = s_suspended s"
  "s_tainted (snd (mark_tainted t s))"
  "s_history (snd (mark_tainted t s)) = s_history s"
  "s_risk_score (snd (mark_tainted t s)) = s_risk_score s"
  "s_risk_events (snd (mark_tainted t s)) = s_risk_events s"
  "s_pending (snd (mark_tainted t s)) = s_pending s"
  "fst (mark_tainted t s) = (\<not> s_tainted s)"
  by (simp_all add: mark_tainted_def)

lemma mark_tainted_origin:
  "s_taint_origin (snd (mark_tainted t s)) = (if s_tainted s then s_taint_origin s else Some t)"
  by (simp add: mark_tainted_def)

lemma track_pending_Inr:
  "track_pending i t a d r s = Inr s' \<Longrightarrow>
     \<exists>k. py_key i = Some k \<and> s' = s\<lparr>s_pending := (s_pending s)(k \<mapsto>
       \<lparr>pc_tool = t, pc_action = a, pc_disposition = d, pc_redaction = r\<rparr>)\<rparr>"
  by (auto simp: track_pending_def split: option.splits)

text \<open>A tracked call is resolved once, with the disposition it was tracked with.\<close>

lemma resolve_after_track:
  assumes "track_pending i t a d r s = Inr s'"
  shows "resolve_pending i s' =
    Inr (Some \<lparr>pc_tool = t, pc_action = a, pc_disposition = d, pc_redaction = r\<rparr>,
      s'\<lparr>s_pending := (s_pending s')(the (py_key i) := None)\<rparr>)"
  using assms by (auto simp: resolve_pending_def dest!: track_pending_Inr)

lemma resolve_resolve:
  "resolve_pending i s = Inr (p, s') \<Longrightarrow> \<exists>s''. resolve_pending i s' = Inr (None, s'')"
  by (auto simp: resolve_pending_def split: option.splits)

lemma emap_str_map [simp]:
  "emap str_of_val (map PStr xs) = Inr xs"
  "emap blob_str (map PStr xs) = Inr xs"
  by (induction xs) (simp_all add: str_of_val_def blob_str_def)

lemma emap_risk_event_roundtrip [simp]:
  "emap risk_event_of_val (map risk_event_to_val es) = Inr es"
  by (induction es) (simp_all add: risk_event_of_val_def risk_event_to_val_def dget_def)

text \<open>Storing and reading back a session loses nothing but the in-flight calls.\<close>

lemma session_dict_roundtrip:
  "session_from_dict (session_to_dict s) = Inr (s\<lparr>s_pending := Map.empty\<rparr>)"
  by (cases "s_taint_origin s")
    (simp_all add: session_from_dict_def session_to_dict_def dget_def dget_default_def dget_none_def
      blob_str_def blob_list_def opt_str_of_val_def opt_str_def blob_int_def)

end
