(* ===== verification/Risk_Engine.thy ===== *)
theory Risk_Engine
  imports Session_State
begin

text \<open>
  \<open>risk/scoring.py\<close>: weighted risk events accumulate on the session; crossing the suspend
  threshold flips the session to suspended, once and for good.
\<close>

definition BLOCKED_TOOL :: string where "BLOCKED_TOOL = ''blocked_tool''"
definition CONSTRAINT_VIOLATION :: string where "CONSTRAINT_VIOLATION = ''constraint_violation''"
definition SEQUENCE_VIOLATION :: string where "SEQUENCE_VIOLATION = ''sequence_violation''"
definition APPROVAL_DENIED :: string where "APPROVAL_DENIED = ''approval_denied''"
definition HEAVY_REDACTION :: string where "HEAVY_REDACTION = ''heavy_redaction''"
definition ANOMALY_LOW :: string where "ANOMALY_LOW = ''anomaly_low''"
definition ANOMALY_MEDIUM :: string where "ANOMALY_MEDIUM = ''anomaly_medium''"
definition ANOMALY_HIGH :: string where "ANOMALY_HIGH = ''anomaly_high''"

lemmas risk_event_names = BLOCKED_TOOL_def CONSTRAINT_VIOLATION_def SEQUENCE_VIOLATION_def
  APPROVAL_DENIED_def HEAVY_REDACTION_def ANOMALY_LOW_def ANOMALY_MEDIUM_def ANOMALY_HIGH_def

definition DEFAULT_WEIGHTS :: "(string \<times> int) list" where
  "DEFAULT_WEIGHTS =
     [(BLOCKED_TOOL, 25), (CONSTRAINT_VIOLATION, 20), (SEQUENCE_VIOLATION, 30),
      (APPROVAL_DENIED, 25), (HEAVY_REDACTION, 5), (ANOMALY_LOW, 10), (ANOMALY_MEDIUM, 25),
      (ANOMALY_HIGH, 45)]"

definition DEFAULT_ELEVATED_AT :: int where "DEFAULT_ELEVATED_AT = 50"
definition DEFAULT_SUSPEND_AT :: int where "DEFAULT_SUSPEND_AT = 80"

datatype risk_level = NORMAL | ELEVATED | SUSPENDED

record risk_engine =
  rk_weights :: "(string \<times> int) list"
  rk_elevated_at :: int
  rk_suspend_at :: int

definition make_risk_engine :: "(string \<times> int) list \<Rightarrow> int \<Rightarrow> int \<Rightarrow> risk_engine" where
  "make_risk_engine weights elevated_at suspend_at =
     \<lparr>rk_weights = al_merge DEFAULT_WEIGHTS weights, rk_elevated_at = elevated_at,
      rk_suspend_at = suspend_at\<rparr>"

definition default_risk_engine :: risk_engine where
  "default_risk_engine = make_risk_engine [] DEFAULT_ELEVATED_AT DEFAULT_SUSPEND_AT"

definition risk_level_of :: "risk_engine \<Rightarrow> int \<Rightarrow> risk_level" where
  "risk_level_of rk score =
     (if score \<ge> rk_suspend_at rk then SUSPENDED
      else if score \<ge> rk_elevated_at rk then ELEVATED
      else NORMAL)"

definition level_str :: "risk_level \<Rightarrow> string" where
  "level_str l = (case l of NORMAL \<Rightarrow> ''normal'' | ELEVATED \<Rightarrow> ''elevated'' | SUSPENDED \<Rightarrow> ''suspended'')"

record risk_update =
  ru_event :: string
  ru_weight :: int
  ru_score :: int
  ru_level :: risk_level
  ru_suspended_now :: bool

definition risk_audit_fields :: "risk_update \<Rightarrow> pydict" where
  "risk_audit_fields u =
     [(PStr ''risk_event'', PStr (ru_event u)), (PStr ''risk_delta'', PInt (ru_weight u)),
      (PStr ''session_score'', PInt (ru_score u)), (PStr ''session_level'', PStr (level_str (ru_level u)))]"

definition event_weight :: "risk_engine \<Rightarrow> string \<Rightarrow> int" where
  "event_weight rk event = (case map_of (rk_weights rk) event of None \<Rightarrow> 0 | Some w \<Rightarrow> w)"

definition risk_record :: "risk_engine \<Rightarrow> string \<Rightarrow> string \<Rightarrow> session \<Rightarrow> risk_update \<times> session" where
  "risk_record rk event detail s =
     (let weight = event_weight rk event;
          was_suspended = s_suspended s;
          s1 = s\<lparr>s_risk_score := s_risk_score s + weight,
                 s_risk_events := s_risk_events s @
                   [\<lparr>re_event = event, re_weight = weight, re_detail = detail\<rparr>]\<rparr>;
          level = risk_level_of rk (s_risk_score s1);
          newly_suspended = (level = SUSPENDED \<and> \<not> was_suspended);
          s2 = (if newly_suspended then s1\<lparr>s_suspended := True\<rparr> else s1)
      in (\<lparr>ru_event = event, ru_weight = weight, ru_score = s_risk_score s1, ru_level = level,
           ru_suspended_now = newly_suspended\<rparr>, s2))"

section \<open>What recording does\<close>

lemma risk_record_fields [simp, frame_simps]:
  "s_history (snd (risk_record rk e d s)) = s_history s"
  "s_pending (snd (risk_record rk e d s)) = s_pending s"
  "s_tainted (snd (risk_record rk e d s)) = s_tainted s"
  "s_taint_origin (snd (risk_record rk e d s)) = s_taint_origin s"
  "s_id (snd (risk_record rk e d s)) = s_id s"
  "s_risk_score (snd (risk_record rk e d s)) = s_risk_score s + event_weight rk e"
  "s_risk_events (snd (risk_record rk e d s)) =
     s_risk_events s @ [\<lparr>re_event = e, re_weight = event_weight rk e, re_detail = d\<rparr>]"
  by (simp_all add: risk_record_def Let_def)

lemma risk_record_suspended [simp]:
  "s_suspended (snd (risk_record rk e d s)) \<longleftrightarrow>
     s_suspended s \<or> s_risk_score s + event_weight rk e \<ge> rk_suspend_at rk"
  by (simp add: risk_record_def Let_def risk_level_of_def)

lemma risk_record_suspended_now [simp]:
  "ru_suspended_now (fst (risk_record rk e d s)) \<longleftrightarrow>
     \<not> s_suspended s \<and> s_suspended (snd (risk_record rk e d s))"
  by (simp add: risk_record_def Let_def risk_level_of_def)

section \<open>The score is the sum of the recorded weights\<close>

definition risk_inv :: "risk_engine \<Rightarrow> session \<Rightarrow> bool" where
  "risk_inv rk s \<longleftrightarrow>
     s_risk_score s = sum_list (map re_weight (s_risk_events s)) \<and>
     (\<forall>e \<in> set (s_risk_events s). re_weight e = event_weight rk (re_event e)) \<and>
     (s_risk_events s \<noteq> [] \<and> s_risk_score s \<ge> rk_suspend_at rk \<longrightarrow> s_suspended s)"

lemma risk_inv_new: "risk_inv rk (session_new sid now)"
  by (simp add: risk_inv_def session_new_def)

lemma risk_inv_record [step_inv]: "risk_inv rk s \<Longrightarrow> risk_inv rk (snd (risk_record rk e d s))"
  by (auto simp: risk_inv_def)

lemma risk_inv_record_call [step_inv]: "risk_inv rk s \<Longrightarrow> risk_inv rk (record_call t s)"
  by (simp add: risk_inv_def)

lemma risk_inv_mark_tainted [step_inv]: "risk_inv rk s \<Longrightarrow> risk_inv rk (snd (mark_tainted t s))"
  by (simp add: risk_inv_def)

lemma risk_inv_pending [step_inv]: "risk_inv rk s \<Longrightarrow> risk_inv rk (s\<lparr>s_pending := m\<rparr>)"
  by (simp add: risk_inv_def)

section \<open>A bound on refused calls\<close>

definition denial_events :: "string list" where
  "denial_events = [BLOCKED_TOOL, CONSTRAINT_VIOLATION, SEQUENCE_VIOLATION, APPROVAL_DENIED]"

definition denial_count :: "session \<Rightarrow> nat" where
  "denial_count s = length (filter (\<lambda>e. re_event e \<in> set denial_events) (s_risk_events s))"

lemma default_event_weight_nonneg: "0 \<le> event_weight default_risk_engine e"
  by (simp add: event_weight_def default_risk_engine_def make_risk_engine_def al_merge_def
      DEFAULT_WEIGHTS_def split: option.splits)

lemma default_denial_weight: "e \<in> set denial_events \<Longrightarrow> 20 \<le> event_weight default_risk_engine e"
  by (auto simp: event_weight_def default_risk_engine_def make_risk_engine_def al_merge_def
      DEFAULT_WEIGHTS_def denial_events_def risk_event_names)

lemma score_lower_bound:
  assumes "\<forall>e \<in> set es. re_weight e = event_weight default_risk_engine (re_event e)"
  shows "20 * int (length (filter (\<lambda>e. re_event e \<in> set denial_events) es))
    \<le> sum_list (map re_weight es)"
  using assms
proof (induction es)
  case (Cons e es)
  then show ?case
    using default_denial_weight [of "re_event e"] default_event_weight_nonneg [of "re_event e"]
    by auto
qed simp

text \<open>Four refused calls of any kind suspend a session under the default weights.\<close>

lemma four_denials_suspend:
  assumes "risk_inv default_risk_engine s" and "4 \<le> denial_count s"
  shows "s_suspended s"
proof -
  have "80 \<le> 20 * int (denial_count s)" using assms(2) by simp
  also have "\<dots> \<le> s_risk_score s"
    using assms(1) score_lower_bound [of "s_risk_events s"] by (simp add: risk_inv_def denial_count_def)
  finally have "rk_suspend_at default_risk_engine \<le> s_risk_score s"
    by (simp add: default_risk_engine_def make_risk_engine_def DEFAULT_SUSPEND_AT_def)
  moreover have "s_risk_events s \<noteq> []" using assms(2) by (auto simp: denial_count_def)
  ultimately show ?thesis using assms(1) by (simp add: risk_inv_def)
qed

end
