(* ===== verification/Sequence_Policy.thy ===== *)
theory Sequence_Policy
  imports Rule_Matcher Session_State
begin

text \<open>
  \<open>sequence/policy.py\<close>: taint tracking (after a taint source ran, taint sinks are refused)
  and ordered sequence rules over the session's call history.
\<close>

record sequence_rule =
  sr_after :: string
  sr_forbid :: string
  sr_reason :: pyval

record sequence_policy =
  sp_taint_sources :: "string list"
  sp_taint_sinks :: "string list"
  sp_rules :: "sequence_rule list"

definition matches_any :: "string \<Rightarrow> string list \<Rightarrow> bool" where
  "matches_any tool patterns = (\<exists>p \<in> set patterns. fnmatch tool p)"

definition empty_sequence_policy :: sequence_policy where
  "empty_sequence_policy = \<lparr>sp_taint_sources = [], sp_taint_sinks = [], sp_rules = []\<rparr>"

text \<open>\<open>SequencePolicy.__init__\<close> on the validated rule mappings (\<open>r["after"]\<close>, \<open>r["forbid"]\<close>).\<close>

definition sequence_rule_of :: "pyval \<Rightarrow> sequence_rule res" where
  "sequence_rule_of v =
     (case v of
        PDict d \<Rightarrow>
          (case (dget d ''after'', dget d ''forbid'') of
             (Some (PStr a), Some (PStr f)) \<Rightarrow>
               Inr \<lparr>sr_after = a, sr_forbid = f, sr_reason = dget_default d ''reason'' (PStr [])\<rparr>
           | _ \<Rightarrow> Inl KeyError)
      | _ \<Rightarrow> Inl TypeError)"

definition make_sequence_policy ::
  "string list \<Rightarrow> string list \<Rightarrow> pyval list \<Rightarrow> sequence_policy res" where
  "make_sequence_policy sources sinks rules =
     ebind (emap sequence_rule_of rules) (\<lambda>rs.
       Inr \<lparr>sp_taint_sources = sources, sp_taint_sinks = sinks, sp_rules = rs\<rparr>)"

definition sequence_active :: "sequence_policy \<Rightarrow> bool" where
  "sequence_active sp = (sp_taint_sources sp \<noteq> [] \<or> sp_taint_sinks sp \<noteq> [] \<or> sp_rules sp \<noteq> [])"

definition is_taint_source :: "sequence_policy \<Rightarrow> string \<Rightarrow> bool" where
  "is_taint_source sp tool = matches_any tool (sp_taint_sources sp)"

definition str_or_None :: "string option \<Rightarrow> string" where
  "str_or_None x = (case x of None \<Rightarrow> ''None'' | Some s \<Rightarrow> s)"

definition taint_reason :: "string \<Rightarrow> session \<Rightarrow> string" where
  "taint_reason tool s =
     ''outbound/mutating tool '' @ [CHR 39] @ tool @ [CHR 39] @
     '' blocked: session is tainted (untrusted content ingested via '' @ [CHR 39] @
     str_or_None (s_taint_origin s) @ [CHR 39] @ ''); a human must clear the session''"

text \<open>The loader does not check the type of \<open>reason\<close>: any truthy value is used as it is.\<close>

definition rule_reason :: "string \<Rightarrow> sequence_rule \<Rightarrow> pyval" where
  "rule_reason tool r =
     (if truthy (sr_reason r) then sr_reason r
      else PStr ([CHR 39] @ tool @ [CHR 39] @ '' is forbidden after '' @ [CHR 39] @ sr_after r @
        [CHR 39] @ '' in the same session''))"

definition rule_applies :: "string \<Rightarrow> session \<Rightarrow> sequence_rule \<Rightarrow> bool" where
  "rule_applies tool s r =
     (fnmatch tool (sr_forbid r) \<and> (\<exists>prev \<in> set (s_history s). fnmatch prev (sr_after r)))"

fun first_rule :: "string \<Rightarrow> session \<Rightarrow> sequence_rule list \<Rightarrow> pyval option" where
  "first_rule tool s [] = None"
| "first_rule tool s (r # rs) =
     (if rule_applies tool s r then Some (rule_reason tool r) else first_rule tool s rs)"

definition sequence_check :: "sequence_policy \<Rightarrow> string \<Rightarrow> session \<Rightarrow> pyval option" where
  "sequence_check sp tool s =
     (if s_tainted s \<and> matches_any tool (sp_taint_sinks sp) then Some (PStr (taint_reason tool s))
      else first_rule tool s (sp_rules sp))"

section \<open>When the gate refuses\<close>

lemma first_rule_None_iff: "first_rule tool s rs = None \<longleftrightarrow> (\<forall>r \<in> set rs. \<not> rule_applies tool s r)"
  by (induction rs) auto

lemma sequence_check_None_iff:
  "sequence_check sp tool s = None \<longleftrightarrow>
     \<not> (s_tainted s \<and> matches_any tool (sp_taint_sinks sp)) \<and>
     (\<forall>r \<in> set (sp_rules sp). \<not> rule_applies tool s r)"
  by (simp add: sequence_check_def first_rule_None_iff)

lemma rule_applies_mono:
  "set (s_history s) \<subseteq> set (s_history s') \<Longrightarrow> rule_applies tool s r \<Longrightarrow> rule_applies tool s' r"
  by (auto simp: rule_applies_def)

text \<open>
  The gate only tightens while a session grows: a call it refuses stays refused as long as
  taint is kept and history only gains entries.
\<close>

lemma sequence_check_mono:
  assumes "sequence_check sp tool s \<noteq> None"
    and "s_tainted s \<longrightarrow> s_tainted s'" and "set (s_history s) \<subseteq> set (s_history s')"
  shows "sequence_check sp tool s' \<noteq> None"
  using assms rule_applies_mono [OF assms(3)] unfolding sequence_check_None_iff by blast

lemma sequence_inactive: "\<not> sequence_active sp \<Longrightarrow> sequence_check sp tool s = None"
  by (simp add: sequence_active_def sequence_check_None_iff matches_any_def)

end
