(* ===== verification/Policy_Engine.thy ===== *)
theory Policy_Engine
  imports Policy_Loader Rule_Matcher Risk_Engine Sequence_Policy
begin

text \<open>
  \<open>policy/merge.py\<close> (folding the layers into one policy) and \<open>policy/engine.py\<close> (compiling
  the merged rules and evaluating calls). Evaluation is a match and a table lookup; it decides
  what the policy says and performs no action.
\<close>

section \<open>Merging layers\<close>

record merged_policy =
  mp_default_action :: string
  mp_rules :: "(string \<times> pydict) list"
  mp_provenance :: "(string \<times> string list) list"
  mp_layer_names :: "string list"
  mp_taint_sources :: "string list"
  mp_taint_sinks :: "string list"
  mp_sequence_rules :: "pyval list"
  mp_risk :: pydict
  mp_on_failure :: pyval

definition empty_merged :: merged_policy where
  "empty_merged =
     \<lparr>mp_default_action = ''block'', mp_rules = [], mp_provenance = [], mp_layer_names = [],
      mp_taint_sources = [], mp_taint_sinks = [], mp_sequence_rules = [], mp_risk = [],
      mp_on_failure = PNone\<rparr>"

text \<open>\<open>dict.setdefault\<close> on an ordered set: first occurrence keeps its place.\<close>

definition add_ordered :: "string list \<Rightarrow> string list \<Rightarrow> string list" where
  "add_ordered acc xs = fold (\<lambda>x a. if x \<in> set a then a else a @ [x]) xs acc"

definition dict_of_val :: "pyval \<Rightarrow> pydict res" where
  "dict_of_val v = (case v of PDict d \<Rightarrow> Inr d | _ \<Rightarrow> Inl TypeError)"

definition merge_risk :: "pydict \<Rightarrow> pydict option \<Rightarrow> pydict res" where
  "merge_risk merged layer_risk =
     (case layer_risk of
        None \<Rightarrow> Inr merged
      | Some [] \<Rightarrow> Inr merged
      | Some r \<Rightarrow>
          ebind (dict_of_val (dget_default merged ''weights'' (PDict []))) (\<lambda>w1.
          ebind (dict_of_val (dget_default r ''weights'' (PDict []))) (\<lambda>w2.
          let weights = al_merge w1 w2; m = al_merge merged r in
          Inr (if weights = [] then m else dput ''weights'' (PDict weights) m))))"

text \<open>
  One pattern of one layer. A fresh or replacing rule starts over; otherwise the later
  layer's fields overwrite field by field, and \<open>roles\<close> merge role by role.
\<close>

definition merge_fields :: "pydict \<Rightarrow> pydict \<Rightarrow> pydict res" where
  "merge_fields existing incoming =
     (let roles = dget_none incoming ''roles'';
          ex1 = al_merge existing (dwithout ''roles'' incoming)
      in case roles of
           PNone \<Rightarrow> Inr ex1
         | PDict rs \<Rightarrow>
             (case dget_default ex1 ''roles'' (PDict []) of
                PDict ers \<Rightarrow> Inr (dput ''roles'' (PDict (al_merge ers rs)) ex1)
              | _ \<Rightarrow> Inl AttributeError)
         | _ \<Rightarrow> Inl TypeError)"

definition merge_rule :: "string \<Rightarrow> string \<times> pydict \<Rightarrow> merged_policy \<Rightarrow> merged_policy res" where
  "merge_rule layer_name entry m =
     (let pattern = fst entry; rule = snd entry; incoming = dwithout ''replace'' rule in
      case map_of (mp_rules m) pattern of
        Some existing \<Rightarrow>
          if truthy (dget_none rule ''replace'')
          then Inr (m\<lparr>mp_rules := AList.update pattern incoming (mp_rules m),
                      mp_provenance := AList.update pattern [layer_name] (mp_provenance m)\<rparr>)
          else ebind (merge_fields existing incoming) (\<lambda>merged.
            Inr (m\<lparr>mp_rules := AList.update pattern merged (mp_rules m),
                   mp_provenance := AList.update pattern
                     ((case map_of (mp_provenance m) pattern of None \<Rightarrow> [] | Some p \<Rightarrow> p) @ [layer_name])
                     (mp_provenance m)\<rparr>))
      | None \<Rightarrow>
          Inr (m\<lparr>mp_rules := AList.update pattern incoming (mp_rules m),
                 mp_provenance := AList.update pattern [layer_name] (mp_provenance m)\<rparr>))"

fun merge_rules :: "string \<Rightarrow> (string \<times> pydict) list \<Rightarrow> merged_policy \<Rightarrow> merged_policy res" where
  "merge_rules name [] m = Inr m"
| "merge_rules name (e # es) m = ebind (merge_rule name e m) (merge_rules name es)"

definition merge_layer :: "policy_layer \<Rightarrow> merged_policy \<Rightarrow> merged_policy res" where
  "merge_layer layer m =
     ebind (merge_risk (mp_risk m) (pl_risk layer)) (\<lambda>risk.
     merge_rules (pl_name layer) (pl_rules layer)
       (m\<lparr>mp_layer_names := mp_layer_names m @ [pl_name layer],
          mp_default_action := (case pl_default_action layer of None \<Rightarrow> mp_default_action m | Some a \<Rightarrow> a),
          mp_taint_sources := add_ordered (mp_taint_sources m) (pl_taint_sources layer),
          mp_taint_sinks := add_ordered (mp_taint_sinks m) (pl_taint_sinks layer),
          mp_sequence_rules := mp_sequence_rules m @ pl_sequence_rules layer,
          mp_risk := risk,
          mp_on_failure := (if pl_on_failure layer = PNone then mp_on_failure m else pl_on_failure layer)\<rparr>))"

fun merge_layers_from :: "policy_layer list \<Rightarrow> merged_policy \<Rightarrow> merged_policy res" where
  "merge_layers_from [] m = Inr m"
| "merge_layers_from (l # ls) m = ebind (merge_layer l m) (merge_layers_from ls)"

definition merge_layers :: "policy_layer list \<Rightarrow> merged_policy res" where
  "merge_layers layers = merge_layers_from layers empty_merged"

section \<open>Compilation\<close>

record effective_rule =
  er_action :: pyval
  er_reason :: pyval
  er_source :: string
  er_constraints :: "regex_constraint list"
  er_rewrites :: "pyval list"
  er_redaction :: "redaction_spec option"
  er_then_action :: pyval

record compiled_rule =
  cr_pattern :: string
  cr_base :: effective_rule
  cr_overlays :: "(string \<times> effective_rule) list"

definition for_role :: "compiled_rule \<Rightarrow> string option \<Rightarrow> effective_rule" where
  "for_role c role =
     (case role of
        None \<Rightarrow> cr_base c
      | Some r \<Rightarrow> (case map_of (cr_overlays c) r of None \<Rightarrow> cr_base c | Some e \<Rightarrow> e))"

text \<open>\<open>fields_["action"]\<close> raises \<open>KeyError\<close>; iterating an explicit \<open>null\<close> raises \<open>TypeError\<close>.\<close>

definition compile_fields :: "pylib \<Rightarrow> pydict \<Rightarrow> string \<Rightarrow> string \<Rightarrow> effective_rule res" where
  "compile_fields lib flds source whr =
     ebind (if dget_none flds ''action'' = PStr ''redact'' \<or> dhas flds ''redaction''
            then ebind (spec_from_config (dget_none flds ''redaction'')) (\<lambda>s. Inr (Some s))
            else Inr None) (\<lambda>redaction.
     case dget flds ''action'' of
       None \<Rightarrow> Inl KeyError
     | Some action \<Rightarrow>
         ebind (ebind (list_of_val (dget_default flds ''constraints'' (PList []))) (\<lambda>cs.
                emap (\<lambda>p. build_constraint lib (snd p) (fst p)) (indexed (whr @ ''.constraints'') cs))) (\<lambda>cons.
         ebind (list_of_val (dget_default flds ''rewrites'' (PList []))) (\<lambda>rws.
         Inr \<lparr>er_action = action,
              er_reason = dget_default flds ''reason'' (PStr ''explicit tool rule''),
              er_source = source, er_constraints = cons, er_rewrites = rws, er_redaction = redaction,
              er_then_action = dget_default flds ''then'' (PStr ''allow'')\<rparr>)))"

definition compile_overlay ::
  "pylib \<Rightarrow> pydict \<Rightarrow> string \<Rightarrow> string \<Rightarrow> string \<Rightarrow> pyval \<times> pyval \<Rightarrow> (string \<times> effective_rule) res" where
  "compile_overlay lib raw prov pattern whr p =
     ebind (str_of_val (fst p)) (\<lambda>role.
     ebind (dict_of_val (snd p)) (\<lambda>overlay.
     ebind (compile_fields lib (al_merge (dwithout ''roles'' raw) overlay)
              (prov @ '':'' @ pattern @ ''+role:'' @ role) (whr @ ''.roles['' @ repr_str role @ '']'')) (\<lambda>e.
     Inr (role, e))))"

definition compile_rule :: "pylib \<Rightarrow> string list option \<Rightarrow> string \<Rightarrow> pydict \<Rightarrow> compiled_rule res" where
  "compile_rule lib provenance pattern raw =
     (let prov = join ''+'' (case provenance of None \<Rightarrow> [''?''] | Some p \<Rightarrow> p);
          whr = prov @ '': tools['' @ repr_str pattern @ '']''
      in if \<not> dhas raw ''action''
         then Inl (PolicyError (whr @ '': no action after merging all layers''))
         else
           ebind (compile_fields lib raw (prov @ '':'' @ pattern) whr) (\<lambda>base.
           case dget_default raw ''roles'' (PDict []) of
             PDict roles \<Rightarrow>
               ebind (emap (compile_overlay lib raw prov pattern whr) roles) (\<lambda>overlays.
               Inr \<lparr>cr_pattern = pattern, cr_base = base, cr_overlays = overlays\<rparr>)
           | _ \<Rightarrow> Inl AttributeError))"

record policy_engine =
  pe_default_action :: string
  pe_layer_names :: "string list"
  pe_taint_sources :: "string list"
  pe_taint_sinks :: "string list"
  pe_sequence_rules :: "pyval list"
  pe_risk :: pydict
  pe_posture :: failure_posture
  pe_rules :: "(string \<times> compiled_rule) list"
  pe_matcher :: rule_matcher

definition make_engine :: "pylib \<Rightarrow> policy_layer list \<Rightarrow> policy_engine res" where
  "make_engine lib layers =
     (if layers = [] then Inl (PolicyError ''at least one policy layer is required'')
      else
        ebind (merge_layers layers) (\<lambda>m.
        ebind (posture_from_config (mp_on_failure m)) (\<lambda>posture.
        ebind (emap (\<lambda>p. ebind (compile_rule lib (map_of (mp_provenance m) (fst p)) (fst p) (snd p))
                           (\<lambda>c. Inr (fst p, c))) (mp_rules m)) (\<lambda>rules.
        Inr \<lparr>pe_default_action = mp_default_action m, pe_layer_names = mp_layer_names m,
             pe_taint_sources = mp_taint_sources m, pe_taint_sinks = mp_taint_sinks m,
             pe_sequence_rules = mp_sequence_rules m, pe_risk = mp_risk m, pe_posture = posture,
             pe_rules = rules, pe_matcher = build_matcher (map fst rules)\<rparr>))))"

text \<open>\<open>PolicyEngine.from_documents\<close>: parse every document, then build.\<close>

definition engine_from_documents :: "pylib \<Rightarrow> (pyval \<times> string) list \<Rightarrow> policy_engine res" where
  "engine_from_documents lib docs =
     ebind (emap (\<lambda>d. parse_document lib (fst d) (snd d) (snd d)) docs) (make_engine lib)"

section \<open>Evaluation\<close>

record decision =
  d_action :: pyval
  d_tool :: string
  d_reason :: pyval
  d_rule :: string
  d_role :: "string option"
  d_constraints :: "regex_constraint list"
  d_rewrites :: "pyval list"
  d_redaction :: "redaction_spec option"
  d_then_action :: pyval

definition default_decision :: "policy_engine \<Rightarrow> string \<Rightarrow> string option \<Rightarrow> decision" where
  "default_decision pe tool role =
     \<lparr>d_action = PStr (pe_default_action pe), d_tool = tool,
      d_reason = PStr ''no rule for this tool; default policy applied'', d_rule = ''default'',
      d_role = role, d_constraints = [], d_rewrites = [], d_redaction = None,
      d_then_action = PStr ''allow''\<rparr>"

definition decision_of :: "effective_rule \<Rightarrow> string \<Rightarrow> string option \<Rightarrow> decision" where
  "decision_of e tool role =
     \<lparr>d_action = er_action e, d_tool = tool, d_reason = er_reason e, d_rule = er_source e,
      d_role = role, d_constraints = er_constraints e, d_rewrites = er_rewrites e,
      d_redaction = er_redaction e, d_then_action = er_then_action e\<rparr>"

definition evaluate :: "policy_engine \<Rightarrow> string \<Rightarrow> string option \<Rightarrow> decision res" where
  "evaluate pe tool role =
     (case match_rule (pe_matcher pe) tool of
        None \<Rightarrow> Inr (default_decision pe tool role)
      | Some pattern \<Rightarrow>
          (case map_of (pe_rules pe) pattern of
             None \<Rightarrow> Inl KeyError
           | Some c \<Rightarrow> Inr (decision_of (for_role c role) tool role)))"

definition build_sequence_policy :: "policy_engine \<Rightarrow> sequence_policy res" where
  "build_sequence_policy pe =
     make_sequence_policy (pe_taint_sources pe) (pe_taint_sinks pe) (pe_sequence_rules pe)"

definition weight_entry :: "pyval \<times> pyval \<Rightarrow> (string \<times> int) res" where
  "weight_entry p = ebind (str_of_val (fst p)) (\<lambda>k. ebind (int_of_val (snd p)) (\<lambda>w. Inr (k, w)))"

definition weights_of :: "pyval \<Rightarrow> ((string \<times> int) list) res" where
  "weights_of v =
     (case v of PNone \<Rightarrow> Inr [] | PDict d \<Rightarrow> emap weight_entry d | _ \<Rightarrow> Inl TypeError)"

definition build_risk_engine :: "policy_engine \<Rightarrow> risk_engine res" where
  "build_risk_engine pe =
     ebind (weights_of (dget_none (pe_risk pe) ''weights'')) (\<lambda>w.
     ebind (int_of_val (dget_default (pe_risk pe) ''elevated_at'' (PInt DEFAULT_ELEVATED_AT))) (\<lambda>el.
     ebind (int_of_val (dget_default (pe_risk pe) ''suspend_at'' (PInt DEFAULT_SUSPEND_AT))) (\<lambda>su.
     Inr (make_risk_engine w el su))))"

definition is_visible :: "policy_engine \<Rightarrow> string list \<Rightarrow> string \<Rightarrow> string option \<Rightarrow> bool res" where
  "is_visible pe deny_set tool role =
     ebind (evaluate pe tool role) (\<lambda>d. ebind (in_strset (d_action d) deny_set) (\<lambda>b. Inr (\<not> b)))"

definition describe_rule :: "string \<times> compiled_rule \<Rightarrow> pyval" where
  "describe_rule p =
     (let c = snd p; b = cr_base c in
      PDict ([(PStr ''pattern'', PStr (fst p)), (PStr ''action'', er_action b),
              (PStr ''reason'', er_reason b), (PStr ''source'', PStr (er_source b))]
        @ (if er_constraints b = [] then [] else
             [(PStr ''constraints'', PList (map (\<lambda>k. PDict (constraint_describe k)) (er_constraints b)))])
        @ (if er_rewrites b = [] then [] else [(PStr ''rewrites'', PList (er_rewrites b))])
        @ (case er_redaction b of None \<Rightarrow> [] | Some s \<Rightarrow> [(PStr ''redaction'', PDict (spec_describe s))])
        @ (if er_action b = PStr ''require_approval'' then [(PStr ''then'', er_then_action b)] else [])
        @ (if cr_overlays c = [] then [] else
             [(PStr ''roles'', PDict (map (\<lambda>q. (PStr (fst q),
                 PDict [(PStr ''action'', er_action (snd q)), (PStr ''reason'', er_reason (snd q))]))
               (cr_overlays c)))])))"

definition engine_describe :: "policy_engine \<Rightarrow> pydict" where
  "engine_describe pe =
     [(PStr ''layers'', PList (map PStr (pe_layer_names pe))),
      (PStr ''default_action'', PStr (pe_default_action pe)),
      (PStr ''rules'', PList (map describe_rule (pe_rules pe)))]"

section \<open>Facts about merging\<close>

lemma map_of_rev_SomeD: "map_of (rev e) k = Some v \<Longrightarrow> (k, v) \<in> set e"
  by (auto dest: map_of_SomeD)

lemma map_of_rev_None: "map_of (rev e) k = None \<longleftrightarrow> map_of e k = None"
  by (simp add: map_of_eq_None_iff)

lemma dget_al_merge_other: "\<not> dhas e k \<Longrightarrow> dget (al_merge d e) k = dget d k"
  using map_of_rev_None [of e "PStr k"]
  by (simp add: dget_def dhas_def map_of_al_merge map_add_def)

lemma dget_al_merge_new: "wf_dict e \<Longrightarrow> dget e k = Some v \<Longrightarrow> dget (al_merge d e) k = Some v"
  by (simp add: dget_def map_of_al_merge map_of_rev_wf map_add_def)

lemma dhas_dwithout [simp]: "dhas (dwithout k d) k' \<longleftrightarrow> k' \<noteq> k \<and> dhas d k'"
  by (simp add: dhas_def)

lemma wf_dwithout: "wf_dict d \<Longrightarrow> wf_dict (dwithout k d)"
  by (auto simp: wf_dict_def dwithout_def intro: distinct_map_filter)

text \<open>A field the later layer does not name keeps the earlier layer's value.\<close>

lemma merge_fields_keep:
  assumes "merge_fields existing incoming = Inr m" and "\<not> dhas incoming k" and "k \<noteq> ''roles''"
  shows "dget m k = dget existing k"
  using assms by (auto simp: merge_fields_def Let_def dget_al_merge_other split: pyval.splits)

lemma merge_fields_override:
  assumes "merge_fields existing incoming = Inr m" and "wf_dict incoming"
    and "dget incoming k = Some v" and "k \<noteq> ''roles''"
  shows "dget m k = Some v"
  using assms wf_dwithout [OF assms(2), of "''roles''"]
  by (auto simp: merge_fields_def Let_def dget_al_merge_new split: pyval.splits)

text \<open>Roles merge per role: named roles are replaced, the others survive.\<close>

lemma merge_fields_roles:
  assumes "merge_fields existing incoming = Inr m"
    and "dget incoming ''roles'' = Some (PDict rs)" and "dget existing ''roles'' = Some (PDict ers)"
  shows "\<exists>mrs. dget m ''roles'' = Some (PDict mrs) \<and> map_of mrs = map_of ers ++ map_of (rev rs)"
proof -
  have "dget (al_merge existing (dwithout ''roles'' incoming)) ''roles'' = Some (PDict ers)"
    using assms(3) by (simp add: dget_al_merge_other)
  with assms show ?thesis
    by (auto simp: merge_fields_def Let_def dget_none_def dget_default_def map_of_al_merge)
qed

lemma merge_rule_other:
  "merge_rule n e m = Inr m' \<Longrightarrow> p \<noteq> fst e \<Longrightarrow> map_of (mp_rules m') p = map_of (mp_rules m) p"
  by (auto simp: merge_rule_def Let_def ebind_eq_Inr split: option.splits if_splits)

lemma merge_rules_other:
  "merge_rules n es m = Inr m' \<Longrightarrow> p \<notin> fst ` set es \<Longrightarrow> map_of (mp_rules m') p = map_of (mp_rules m) p"
proof (induction es arbitrary: m)
  case (Cons e es)
  from Cons.prems(1) obtain m1 where m1: "merge_rule n e m = Inr m1" "merge_rules n es m1 = Inr m'"
    by (auto simp: ebind_eq_Inr)
  from Cons.prems(2) have "p \<noteq> fst e" "p \<notin> fst ` set es" by auto
  with Cons.IH [OF m1(2)] merge_rule_other [OF m1(1)] show ?case by simp
qed simp

lemma merge_rules_append:
  "merge_rules n (es @ fs) m = ebind (merge_rules n es m) (merge_rules n fs)"
  by (induction es arbitrary: m) (auto simp: ebind_def split: sum.splits)

lemma merge_layers_from_append:
  "merge_layers_from (ls @ ks) m = ebind (merge_layers_from ls m) (merge_layers_from ks)"
  by (induction ls arbitrary: m) (auto simp: ebind_def split: sum.splits)

lemma merge_layers_snoc:
  "merge_layers (ls @ [l]) = ebind (merge_layers ls) (merge_layer l)"
  by (auto simp: merge_layers_def merge_layers_from_append ebind_def split: sum.splits)

lemma merge_layer_rules:
  "merge_layer l m = Inr m' \<Longrightarrow>
     \<exists>m0. merge_rules (pl_name l) (pl_rules l) m0 = Inr m' \<and> mp_rules m0 = mp_rules m \<and>
       mp_provenance m0 = mp_provenance m"
  unfolding merge_layer_def ebind_eq_Inr
  by (elim exE conjE, rule exI, rule conjI, assumption) simp

lemma merge_rules_entry:
  assumes "merge_rules n es m = Inr m'" and "wf_dict es" and "map_of es p = Some r"
  shows "\<exists>m1 m2. map_of (mp_rules m1) p = map_of (mp_rules m) p \<and> merge_rule n (p, r) m1 = Inr m2 \<and>
    map_of (mp_rules m') p = map_of (mp_rules m2) p"
proof -
  from assms(3) have "(p, r) \<in> set es" by (rule map_of_SomeD)
  then obtain xs ys where es: "es = xs @ (p, r) # ys" by (meson split_list)
  with assms(2) have nx: "p \<notin> fst ` set xs" and ny: "p \<notin> fst ` set ys"
    by (auto simp: wf_dict_def)
  from assms(1) es obtain m1 m2 where s: "merge_rules n xs m = Inr m1" "merge_rule n (p, r) m1 = Inr m2"
    "merge_rules n ys m2 = Inr m'" by (auto simp: merge_rules_append ebind_eq_Inr)
  from merge_rules_other [OF s(1) nx] merge_rules_other [OF s(3) ny] s(2) show ?thesis by blast
qed

text \<open>
  Overriding is field-level through the whole stack of layers: a last layer that restates a
  rule without \<open>replace\<close> leaves every field it does not name as the layers below set it.
\<close>

lemma merge_layers_override_keeps:
  assumes "merge_layers ls = Inr m" and "merge_layers (ls @ [l]) = Inr m'"
    and "wf_dict (pl_rules l)" and "map_of (pl_rules l) p = Some r" and "map_of (mp_rules m) p = Some e"
    and "\<not> truthy (dget_none r ''replace'')" and "\<not> dhas r k" and "k \<noteq> ''roles''"
  shows "\<exists>e'. map_of (mp_rules m') p = Some e' \<and> dget e' k = dget e k"
proof -
  from assms(1,2) have "merge_layer l m = Inr m'" by (simp add: merge_layers_snoc)
  then obtain m0 where m0: "mp_rules m0 = mp_rules m" "merge_rules (pl_name l) (pl_rules l) m0 = Inr m'"
    using merge_layer_rules by blast
  from merge_rules_entry [OF m0(2) assms(3,4)] obtain m1 m2 where
    s: "map_of (mp_rules m1) p = Some e" "merge_rule (pl_name l) (p, r) m1 = Inr m2"
      "map_of (mp_rules m') p = map_of (mp_rules m2) p" using m0(1) assms(5) by auto
  from s(1,2) assms(6) obtain mf where mf: "merge_fields e (dwithout ''replace'' r) = Inr mf"
    "map_of (mp_rules m2) p = Some mf"
    by (auto simp: merge_rule_def Let_def ebind_eq_Inr)
  have "dget mf k = dget e k" using merge_fields_keep [OF mf(1), of k] assms(7,8) by simp
  with s(3) mf(2) show ?thesis by simp
qed

lemma merge_rules_default:
  "merge_rules n es m = Inr m' \<Longrightarrow> mp_default_action m' = mp_default_action m"
proof (induction es arbitrary: m)
  case (Cons e es)
  from Cons.prems obtain m1 where m1: "merge_rule n e m = Inr m1" "merge_rules n es m1 = Inr m'"
    by (auto simp: ebind_eq_Inr)
  from m1(1) have "mp_default_action m1 = mp_default_action m"
    by (auto simp: merge_rule_def Let_def ebind_eq_Inr split: option.splits if_splits)
  with Cons.IH [OF m1(2)] show ?case by simp
qed simp

lemma merge_layer_default:
  "merge_layer l m = Inr m' \<Longrightarrow>
     mp_default_action m' = (case pl_default_action l of None \<Rightarrow> mp_default_action m | Some a \<Rightarrow> a)"
  by (auto simp: merge_layer_def ebind_eq_Inr dest!: merge_rules_default)

text \<open>Default-deny: unless some layer says otherwise, the default action is \<open>block\<close>.\<close>

lemma merge_layers_default:
  assumes "merge_layers ls = Inr m"
  shows "mp_default_action m = ''block'' \<or> (\<exists>l \<in> set ls. pl_default_action l = Some (mp_default_action m))"
  using assms
proof (induction ls arbitrary: m rule: rev_induct)
  case Nil
  then show ?case by (auto simp: merge_layers_def empty_merged_def)
next
  case (snoc l ls)
  then obtain m0 where m0: "merge_layers ls = Inr m0" "merge_layer l m0 = Inr m"
    by (auto simp: merge_layers_snoc ebind_eq_Inr)
  from snoc.IH [OF m0(1)] merge_layer_default [OF m0(2)] show ?case
    by (cases "pl_default_action l") auto
qed

section \<open>Facts about compilation and evaluation\<close>

lemma make_engine_Inr:
  assumes "make_engine lib ls = Inr pe"
  obtains m where "merge_layers ls = Inr m" "pe_default_action pe = mp_default_action m"
    "posture_from_config (mp_on_failure m) = Inr (pe_posture pe)"
    "pe_matcher pe = build_matcher (map fst (pe_rules pe))"
    "emap (\<lambda>p. ebind (compile_rule lib (map_of (mp_provenance m) (fst p)) (fst p) (snd p))
       (\<lambda>c. Inr (fst p, c))) (mp_rules m) = Inr (pe_rules pe)"
    "pe_taint_sources pe = mp_taint_sources m" "pe_taint_sinks pe = mp_taint_sinks m"
    "pe_sequence_rules pe = mp_sequence_rules m"
  using assms by (auto simp: make_engine_def ebind_eq_Inr split: if_splits)

text \<open>Evaluation never fails on an engine that was built: every pattern has its rule.\<close>

lemma evaluate_total:
  assumes "make_engine lib ls = Inr pe"
  shows "\<exists>d. evaluate pe tool role = Inr d"
proof (cases "match_rule (pe_matcher pe) tool")
  case None
  then show ?thesis by (simp add: evaluate_def)
next
  case (Some p)
  from assms have "pe_matcher pe = build_matcher (map fst (pe_rules pe))" by (rule make_engine_Inr)
  with Some have "p \<in> set (map fst (pe_rules pe))" by (auto dest: match_rule_in_patterns)
  then have "map_of (pe_rules pe) p \<noteq> None" by (simp add: map_of_eq_None_iff)
  then obtain c where "map_of (pe_rules pe) p = Some c" by blast
  with Some show ?thesis by (simp add: evaluate_def)
qed

lemma compile_pattern_where:
  "compile_pattern lib d w i key = Inr r \<Longrightarrow> compile_pattern lib d w' i key = Inr r"
  by (cases "dget_none d key") (auto simp: compile_pattern_def split: if_splits)

lemma constraint_from_config_where:
  assumes "constraint_from_config lib d w = Inr k"
  shows "constraint_from_config lib d w' = Inr k"
proof -
  let ?ic = "ignorecase (dget_default d ''flags'' (PStr []))"
  from assms obtain mm mn where
    p: "compile_pattern lib d w ?ic ''must_match'' = Inr mm"
      "compile_pattern lib d w ?ic ''must_not_match'' = Inr mn"
    by (auto simp: constraint_from_config_def Let_def ebind_eq_Inr)
  note p' = p [THEN compile_pattern_where [where w' = w']]
  from assms show ?thesis
    unfolding constraint_from_config_def Let_def p p' by (simp add: ebind_eq_Inr)
qed

lemma build_constraint_where:
  "build_constraint lib c w = Inr k \<Longrightarrow> build_constraint lib c w' = Inr k"
  by (cases c)
    (auto simp: build_constraint_def Let_def ebind_eq_Inr split: if_splits
      dest: constraint_from_config_where [where w' = w'])

lemma emap_indexed_where:
  assumes "\<And>x w w' y. f x w = Inr y \<Longrightarrow> f x w' = Inr y"
    and "emap (\<lambda>p. f (snd p) (fst p)) (indexed a xs) = Inr ys"
  shows "emap (\<lambda>p. f (snd p) (fst p)) (indexed b xs) = Inr ys"
proof -
  let ?g = "\<lambda>p. f (snd p) (fst p)"
  have len: "length (indexed a xs) = length xs" "length (indexed b xs) = length xs"
    by (simp_all add: indexed_def)
  have nth: "?g (indexed b xs ! i) = Inr (ys ! i)" if "i < length xs" for i
  proof -
    have "?g (indexed a xs ! i) = Inr (ys ! i)" using emap_Inr_nth [OF assms(2)] that len by simp
    moreover have "snd (indexed a xs ! i) = snd (indexed b xs ! i)" using that by (simp add: indexed_def)
    ultimately show ?thesis using assms(1) by metis
  qed
  have gen: "length zs = length us \<Longrightarrow> (\<forall>i < length zs. ?g (zs ! i) = Inr (us ! i)) \<Longrightarrow> emap ?g zs = Inr us"
    for zs us
  proof (induction zs arbitrary: us)
    case (Cons z zs)
    then obtain u us' where u: "us = u # us'" by (cases us) auto
    from Cons.prems(2) u have "?g z = Inr u" by (metis length_greater_0_conv list.discI nth_Cons_0)
    moreover have "emap ?g zs = Inr us'" using Cons u by (auto simp: nth_Cons split: nat.splits)
    ultimately show ?case using u by simp
  qed simp
  show ?thesis using gen nth len emap_Inr_length [OF assms(2)] by simp
qed

lemma compile_fields_constraints:
  assumes "compile_fields lib flds src whr = Inr e"
  shows "\<exists>xs. list_of_val (dget_default flds ''constraints'' (PList [])) = Inr xs \<and>
    emap (\<lambda>p. build_constraint lib (snd p) (fst p)) (indexed (whr @ ''.constraints'') xs) = Inr (er_constraints e)"
proof -
  from assms obtain a where "dget flds ''action'' = Some a"
    by (cases "dget flds ''action''") (simp_all add: compile_fields_def ebind_eq_Inr)
  with assms show ?thesis unfolding compile_fields_def by (auto simp: ebind_eq_Inr)
qed

lemma compile_rule_Inr:
  assumes "compile_rule lib prov pattern raw = Inr c"
  obtains pr whr roles where
    "compile_fields lib raw (pr @ '':'' @ pattern) whr = Inr (cr_base c)"
    "dget_default raw ''roles'' (PDict []) = PDict roles"
    "emap (compile_overlay lib raw pr pattern whr) roles = Inr (cr_overlays c)"
proof -
  from assms obtain roles where r: "dget_default raw ''roles'' (PDict []) = PDict roles"
    by (cases "dget_default raw ''roles'' (PDict [])")
      (simp_all add: compile_rule_def Let_def ebind_eq_Inr split: if_splits)
  show ?thesis
    by (rule that [OF _ r]) (use assms r in \<open>auto simp: compile_rule_def Let_def ebind_eq_Inr split: if_splits\<close>)
qed

lemma compile_overlay_Inr:
  "compile_overlay lib raw pr pattern whr p = Inr (role, ov) \<Longrightarrow>
     \<exists>d src w. p = (PStr role, PDict d) \<and> compile_fields lib (al_merge (dwithout ''roles'' raw) d) src w = Inr ov"
  by (cases p) (auto simp: compile_overlay_def ebind_eq_Inr str_of_val_def dict_of_val_def split: pyval.splits)

text \<open>A role overlay that does not restate \<open>constraints\<close> is compiled with those of the base rule.\<close>

lemma overlay_keeps_constraints:
  assumes c: "compile_rule lib prov pattern raw = Inr c"
    and ov: "map_of (cr_overlays c) role = Some ov"
    and roles: "dget raw ''roles'' = Some (PDict roles)"
    and no: "\<And>d. (PStr role, PDict d) \<in> set roles \<Longrightarrow> \<not> dhas d ''constraints''"
  shows "er_constraints ov = er_constraints (cr_base c)"
proof -
  from c roles obtain pr whr where base: "compile_fields lib raw (pr @ '':'' @ pattern) whr = Inr (cr_base c)"
    and ovs: "emap (compile_overlay lib raw pr pattern whr) roles = Inr (cr_overlays c)"
    by (auto elim!: compile_rule_Inr simp: dget_default_def)
  from emap_Inr_set' [OF ovs map_of_SomeD [OF ov]] obtain d src w where d: "(PStr role, PDict d) \<in> set roles"
    "compile_fields lib (al_merge (dwithout ''roles'' raw) d) src w = Inr ov"
    by (blast dest: compile_overlay_Inr)
  have "dget_default (al_merge (dwithout ''roles'' raw) d) ''constraints'' (PList []) =
      dget_default raw ''constraints'' (PList [])"
    using no [OF d(1)] by (simp add: dget_default_def dget_al_merge_other)
  with compile_fields_constraints [OF base] compile_fields_constraints [OF d(2)]
  obtain xs where xs:
    "emap (\<lambda>p. build_constraint lib (snd p) (fst p)) (indexed (whr @ ''.constraints'') xs) = Inr (er_constraints (cr_base c))"
    "emap (\<lambda>p. build_constraint lib (snd p) (fst p)) (indexed (w @ ''.constraints'') xs) = Inr (er_constraints ov)"
    by auto
  have "emap (\<lambda>p. build_constraint lib (snd p) (fst p)) (indexed (w @ ''.constraints'') xs) = Inr (er_constraints (cr_base c))"
    by (rule emap_indexed_where [of "build_constraint lib", OF build_constraint_where xs(1)])
  with xs(2) show ?thesis by simp
qed

end
