(* ===== verification/Redaction_Spans.thy ===== *)
theory Redaction_Spans
  imports Gateway_Prelude "HOL-Library.Product_Lexorder"
begin

text \<open>
  \<open>redaction/spans.py\<close>: detected spans and overlap resolution. Confidences are exact
  rationals where the code has floats.
\<close>

record span =
  sp_entity :: string
  sp_start :: nat
  sp_end :: nat
  sp_confidence :: rat
  sp_detector :: string
  sp_text :: string

text \<open>\<open>Span.__post_init__\<close>; a negative start cannot be written down as a \<^typ>\<open>nat\<close>.\<close>

definition make_span :: "string \<Rightarrow> nat \<Rightarrow> nat \<Rightarrow> rat \<Rightarrow> string \<Rightarrow> string \<Rightarrow> span res" where
  "make_span entity start stop confidence detector txt =
     (if stop < start then Inl (ValueError ''invalid span bounds'')
      else if \<not> (0 \<le> confidence \<and> confidence \<le> 1) then Inl (ValueError ''confidence out of range'')
      else Inr \<lparr>sp_entity = entity, sp_start = start, sp_end = stop, sp_confidence = confidence,
                sp_detector = detector, sp_text = txt\<rparr>)"

definition sp_length :: "span \<Rightarrow> nat" where
  "sp_length s = sp_end s - sp_start s"

definition overlaps :: "span \<Rightarrow> span \<Rightarrow> bool" where
  "overlaps a b = (sp_start a < sp_end b \<and> sp_start b < sp_end a)"

definition span_key :: "span \<Rightarrow> rat \<times> int \<times> nat" where
  "span_key s = (- sp_confidence s, - int (sp_length s), sp_start s)"

fun pick_spans :: "span list \<Rightarrow> span list \<Rightarrow> span list" where
  "pick_spans [] chosen = chosen"
| "pick_spans (s # ss) chosen =
     pick_spans ss (if \<exists>k \<in> set chosen. overlaps s k then chosen else chosen @ [s])"

definition resolve_overlaps :: "span list \<Rightarrow> span list" where
  "resolve_overlaps spans =
     (if length spans \<le> 1 then spans
      else sort_key sp_start (pick_spans (sort_key span_key spans) []))"

section \<open>The result is a non-overlapping subset in document order\<close>

definition non_overlapping :: "span list \<Rightarrow> bool" where
  "non_overlapping ss = sorted_wrt (\<lambda>a b. \<not> overlaps a b) ss"

lemma overlaps_sym: "overlaps a b = overlaps b a"
  by (auto simp: overlaps_def)

lemma non_overlapping_snoc:
  "non_overlapping (ss @ [s]) \<longleftrightarrow> non_overlapping ss \<and> (\<forall>k \<in> set ss. \<not> overlaps k s)"
  by (simp add: non_overlapping_def sorted_wrt_append)

lemma pick_spans_non_overlapping:
  "non_overlapping chosen \<Longrightarrow> non_overlapping (pick_spans ss chosen)"
  by (induction ss chosen rule: pick_spans.induct) (auto simp: non_overlapping_snoc overlaps_sym)

lemma pick_spans_chosen: "set chosen \<subseteq> set (pick_spans ss chosen)"
  by (induction ss chosen rule: pick_spans.induct) (auto split: if_splits)

lemma pick_spans_subset: "set (pick_spans ss chosen) \<subseteq> set chosen \<union> set ss"
  by (induction ss chosen rule: pick_spans.induct) (auto split: if_splits)

lemma non_overlapping_insort: "non_overlapping (insort_key f x xs) \<longleftrightarrow> non_overlapping (x # xs)"
  by (induction xs) (auto simp: non_overlapping_def overlaps_sym set_insort_key)

lemma non_overlapping_sort: "non_overlapping (sort_key f xs) \<longleftrightarrow> non_overlapping xs"
proof (induction xs)
  case (Cons x xs)
  then show ?case by (simp add: non_overlapping_insort) (simp add: non_overlapping_def)
qed simp

lemma resolve_overlaps_non_overlapping: "non_overlapping (resolve_overlaps ss)"
proof (cases "length ss \<le> 1")
  case True
  then show ?thesis by (cases ss) (auto simp: resolve_overlaps_def non_overlapping_def)
next
  case False
  have "non_overlapping (pick_spans (sort_key span_key ss) [])"
    by (rule pick_spans_non_overlapping) (simp add: non_overlapping_def)
  with False show ?thesis by (simp add: resolve_overlaps_def non_overlapping_sort)
qed

lemma resolve_overlaps_subset: "set (resolve_overlaps ss) \<subseteq> set ss"
  using pick_spans_subset [of "sort_key span_key ss" "[]"] by (auto simp: resolve_overlaps_def)

lemma resolve_overlaps_sorted: "sorted (map sp_start (resolve_overlaps ss))"
proof (cases "length ss \<le> 1")
  case True
  then show ?thesis by (cases ss) (auto simp: resolve_overlaps_def)
qed (simp add: resolve_overlaps_def)

text \<open>
  No claim is dropped for nothing: a span that is not chosen overlaps a chosen span of at
  least its own priority (higher confidence, then longer, then earlier).
\<close>

lemma pick_spans_covers:
  assumes "sorted (map span_key ss)" and "s \<in> set ss"
    and "\<forall>c \<in> set chosen. \<forall>x \<in> set ss. span_key c \<le> span_key x"
  shows "s \<in> set (pick_spans ss chosen) \<or>
    (\<exists>k \<in> set (pick_spans ss chosen). overlaps s k \<and> span_key k \<le> span_key s)"
  using assms
proof (induction ss chosen rule: pick_spans.induct)
  case (2 x xs chosen)
  let ?c = "if \<exists>k \<in> set chosen. overlaps x k then chosen else chosen @ [x]"
  show ?case
  proof (cases "s = x")
    case True
    show ?thesis
    proof (cases "\<exists>k \<in> set chosen. overlaps x k")
      case t: True
      then obtain k where "k \<in> set chosen" "overlaps x k" by blast
      with True t "2.prems"(3) pick_spans_chosen [of chosen xs] show ?thesis by auto
    next
      case False
      with True pick_spans_chosen [of ?c xs] show ?thesis by auto
    qed
  next
    case False
    have "\<forall>c \<in> set ?c. \<forall>y \<in> set xs. span_key c \<le> span_key y"
      using "2.prems"(1,3) by (auto split: if_splits)
    with 2 False show ?thesis by (auto split: if_splits)
  qed
qed simp

lemma resolve_overlaps_covers:
  assumes "s \<in> set ss"
  shows "s \<in> set (resolve_overlaps ss) \<or>
    (\<exists>k \<in> set (resolve_overlaps ss). overlaps s k \<and> span_key k \<le> span_key s)"
proof (cases "length ss \<le> 1")
  case True
  with assms show ?thesis by (simp add: resolve_overlaps_def)
next
  case False
  have "s \<in> set (pick_spans (sort_key span_key ss) []) \<or>
      (\<exists>k \<in> set (pick_spans (sort_key span_key ss) []). overlaps s k \<and> span_key k \<le> span_key s)"
    by (rule pick_spans_covers) (use assms in \<open>simp_all\<close>)
  with False show ?thesis by (simp add: resolve_overlaps_def)
qed

text \<open>In document order a non-empty span ends before the next one starts.\<close>

lemma resolved_disjoint:
  assumes "non_overlapping ss" and "sorted (map sp_start ss)" and "i < j" and "j < length ss"
    and "sp_start (ss ! j) < sp_end (ss ! j)"
  shows "sp_end (ss ! i) \<le> sp_start (ss ! j)"
proof -
  have "\<not> overlaps (ss ! i) (ss ! j)"
    using assms(1,3,4) by (simp add: non_overlapping_def sorted_wrt_iff_nth_less)
  moreover have "sp_start (ss ! i) \<le> sp_start (ss ! j)"
    using sorted_nth_mono [OF assms(2), of i j] assms(3,4) by simp
  ultimately show ?thesis using assms(5) by (auto simp: overlaps_def)
qed

end
