(* ===== verification/Redaction_Vault.thy ===== *)
theory Redaction_Vault
  imports Redaction_Spans
begin

text \<open>
  \<open>redaction/vault.py\<close>: the two token vaults, and \<open>redaction/operators\<close>: what a detected
  span becomes. The cryptographic primitives (keyed MACs, HKDF, AES-GCM) and the source of
  randomness are parameters; the one law relied on, that decryption inverts encryption under
  the same key, nonce and associated data, is stated where it is used.
\<close>

section \<open>The interface of a vault\<close>

fun tokenize_all :: "('v \<Rightarrow> string \<Rightarrow> string \<Rightarrow> string \<times> 'v) \<Rightarrow> 'v \<Rightarrow> (string \<times> string) list \<Rightarrow> 'v" where
  "tokenize_all tok v [] = v"
| "tokenize_all tok v (p # ps) = tokenize_all tok (snd (tok v (fst p) (snd p))) ps"

locale token_vault =
  fixes tokenize :: "'v \<Rightarrow> string \<Rightarrow> string \<Rightarrow> string \<times> 'v"
    and detokenize :: "'v \<Rightarrow> string \<Rightarrow> (string option) res"
    and invar :: "'v \<Rightarrow> bool"
  assumes invar_tokenize: "invar v \<Longrightarrow> invar (snd (tokenize v e x))"
    and token_stable: "invar v \<Longrightarrow> fst (tokenize (snd (tokenize v e' x')) e x) = fst (tokenize v e x)"
    and known_kept: "invar v \<Longrightarrow> detokenize v t = Inr (Some y) \<Longrightarrow>
      detokenize (snd (tokenize v e x)) t = Inr (Some y)"
    and fresh_stored: "invar v \<Longrightarrow> detokenize v (fst (tokenize v e x)) = Inr None \<Longrightarrow>
      detokenize (snd (tokenize v e x)) (fst (tokenize v e x)) = Inr (Some x)"
    and others_kept: "invar v \<Longrightarrow> t \<noteq> fst (tokenize v e x) \<Longrightarrow>
      detokenize (snd (tokenize v e x)) t = detokenize v t"
begin

lemma invar_tokenize_all: "invar v \<Longrightarrow> invar (tokenize_all tokenize v ps)"
  by (induction ps arbitrary: v) (auto intro: invar_tokenize)

lemma token_stable_all: "invar v \<Longrightarrow> fst (tokenize (tokenize_all tokenize v ps) e x) = fst (tokenize v e x)"
  by (induction ps arbitrary: v) (auto simp: token_stable invar_tokenize)

lemma known_kept_all:
  "invar v \<Longrightarrow> detokenize v t = Inr (Some y) \<Longrightarrow> detokenize (tokenize_all tokenize v ps) t = Inr (Some y)"
  by (induction ps arbitrary: v) (auto intro: known_kept invar_tokenize)

lemma others_kept_all:
  "invar v \<Longrightarrow> (\<forall>p \<in> set ps. t \<noteq> fst (tokenize v (fst p) (snd p))) \<Longrightarrow>
     detokenize (tokenize_all tokenize v ps) t = detokenize v t"
  by (induction ps arbitrary: v) (auto simp: others_kept invar_tokenize token_stable)

text \<open>
  Reversibility over a whole run: when the tokens of the run are unused at the start and two
  values of the run share a token only if they are equal, each token reads back its value.
\<close>

lemma run_reversible:
  assumes "invar v"
    and "\<forall>p \<in> set ps. detokenize v (fst (tokenize v (fst p) (snd p))) = Inr None"
    and "\<forall>p \<in> set ps. \<forall>q \<in> set ps.
      fst (tokenize v (fst p) (snd p)) = fst (tokenize v (fst q) (snd q)) \<longrightarrow> snd p = snd q"
    and "q \<in> set ps"
  shows "detokenize (tokenize_all tokenize v ps) (fst (tokenize v (fst q) (snd q))) = Inr (Some (snd q))"
proof -
  let ?t = "fst (tokenize v (fst q) (snd q))"
  obtain p xs ys where ps: "ps = xs @ p # ys" and p: "fst (tokenize v (fst p) (snd p)) = ?t"
    and first: "\<forall>r \<in> set xs. fst (tokenize v (fst r) (snd r)) \<noteq> ?t"
    using split_list_first_prop [of ps "\<lambda>r. fst (tokenize v (fst r) (snd r)) = ?t"] assms(4) by blast
  let ?v = "tokenize_all tokenize v xs"
  have iv: "invar ?v" using assms(1) by (rule invar_tokenize_all)
  have app: "tokenize_all tokenize v (as @ bs) = tokenize_all tokenize (tokenize_all tokenize v as) bs" for v as bs
    by (induction as arbitrary: v) auto
  have "detokenize ?v ?t = Inr None"
    using others_kept_all [OF assms(1), of xs ?t] first assms(2,4) by metis
  moreover have tp: "fst (tokenize ?v (fst p) (snd p)) = ?t" using token_stable_all [OF assms(1)] p by simp
  ultimately have "detokenize (snd (tokenize ?v (fst p) (snd p))) ?t = Inr (Some (snd p))"
    using fresh_stored [OF iv, of "fst p" "snd p"] by simp
  then have "detokenize (tokenize_all tokenize v ps) ?t = Inr (Some (snd p))"
    unfolding ps app using known_kept_all [OF invar_tokenize [OF iv]] by simp
  moreover have "snd p = snd q" using assms(3,4) p ps by auto
  ultimately show ?thesis by simp
qed

end

section \<open>The in-memory vault\<close>

definition TOKEN_LEN :: nat where "TOKEN_LEN = 12"

definition token_string :: "string \<Rightarrow> string \<Rightarrow> string" where
  "token_string entity mac_hex = ''['' @ entity @ '':tok_'' @ take TOKEN_LEN mac_hex @ '']''"

record mem_vault =
  mv_mac :: "string \<Rightarrow> string"
  mv_by_token :: "string \<rightharpoonup> string"

definition mem_tokenize :: "mem_vault \<Rightarrow> string \<Rightarrow> string \<Rightarrow> string \<times> mem_vault" where
  "mem_tokenize v entity value =
     (let token = token_string entity (mv_mac v value) in
      (token,
       case mv_by_token v token of
         Some _ \<Rightarrow> v
       | None \<Rightarrow> v\<lparr>mv_by_token := (mv_by_token v)(token \<mapsto> value)\<rparr>))"

definition mem_detokenize :: "mem_vault \<Rightarrow> string \<Rightarrow> (string option) res" where
  "mem_detokenize v token = Inr (mv_by_token v token)"

definition new_mem_vault :: "(string \<Rightarrow> string) \<Rightarrow> mem_vault" where
  "new_mem_vault mac = \<lparr>mv_mac = mac, mv_by_token = Map.empty\<rparr>"

interpretation mem: token_vault mem_tokenize mem_detokenize "\<lambda>_. True"
  by unfold_locales (auto simp: mem_tokenize_def mem_detokenize_def Let_def split: option.splits)

section \<open>The encrypted vault\<close>

record crypto =
  cx_hkdf :: "string \<Rightarrow> string"
  cx_mac :: "string \<Rightarrow> string \<Rightarrow> string"
  cx_encrypt :: "string \<Rightarrow> string \<Rightarrow> string \<Rightarrow> string \<Rightarrow> string"
  cx_decrypt :: "string \<Rightarrow> string \<Rightarrow> string \<Rightarrow> string \<Rightarrow> string option"

text \<open>The database file: the \<open>meta\<close> and \<open>tokens\<close> tables.\<close>

record vault_db =
  db_meta :: "string \<rightharpoonup> string"
  db_tokens :: "string \<rightharpoonup> string \<times> string"

text \<open>An open vault; \<open>ev_random\<close> is the sequence \<open>os.urandom\<close> yields and \<open>ev_drawn\<close> how much was used.\<close>

record enc_vault =
  ev_crypto :: crypto
  ev_mac_key :: string
  ev_dek :: string
  ev_db :: vault_db
  ev_random :: "nat \<Rightarrow> string"
  ev_drawn :: nat

definition open_vault :: "crypto \<Rightarrow> (nat \<Rightarrow> string) \<Rightarrow> vault_db \<Rightarrow> string \<Rightarrow> enc_vault res" where
  "open_vault cx rnd db kek =
     (if length kek < 32 then Inl (ValueError ''KEK must be at least 32 bytes'')
      else
        (let mac_key = cx_hkdf cx kek in
         case db_meta db ''wrapped_dek'' of
           Some blob \<Rightarrow>
             (case cx_decrypt cx kek (take 12 blob) (drop 12 blob) ''dek'' of
                None \<Rightarrow> Inl (OtherError ''InvalidTag'')
              | Some dek \<Rightarrow>
                  Inr \<lparr>ev_crypto = cx, ev_mac_key = mac_key, ev_dek = dek, ev_db = db,
                       ev_random = rnd, ev_drawn = 0\<rparr>)
         | None \<Rightarrow>
             (let dek = rnd 0; nonce = rnd 1; wrapped = cx_encrypt cx kek nonce dek ''dek'' in
              Inr \<lparr>ev_crypto = cx, ev_mac_key = mac_key, ev_dek = dek,
                   ev_db = db\<lparr>db_meta := (db_meta db)(''wrapped_dek'' \<mapsto> nonce @ wrapped)\<rparr>,
                   ev_random = rnd, ev_drawn = 2\<rparr>)))"

definition enc_tokenize :: "enc_vault \<Rightarrow> string \<Rightarrow> string \<Rightarrow> string \<times> enc_vault" where
  "enc_tokenize v entity value =
     (let token = token_string entity (cx_mac (ev_crypto v) (ev_mac_key v) value) in
      (token,
       case db_tokens (ev_db v) token of
         Some _ \<Rightarrow> v
       | None \<Rightarrow>
           (let nonce = ev_random v (ev_drawn v);
                ct = cx_encrypt (ev_crypto v) (ev_dek v) nonce value ''val''
            in v\<lparr>ev_db := (ev_db v)\<lparr>db_tokens := (db_tokens (ev_db v))(token \<mapsto> (nonce, ct))\<rparr>,
                 ev_drawn := Suc (ev_drawn v)\<rparr>)))"

definition enc_detokenize :: "enc_vault \<Rightarrow> string \<Rightarrow> (string option) res" where
  "enc_detokenize v token =
     (case db_tokens (ev_db v) token of
        None \<Rightarrow> Inr None
      | Some row \<Rightarrow>
          (case cx_decrypt (ev_crypto v) (ev_dek v) (fst row) (snd row) ''val'' of
             None \<Rightarrow> Inl (OtherError ''InvalidTag'')
           | Some value \<Rightarrow> Inr (Some value)))"

text \<open>AES-GCM: decryption inverts encryption.\<close>

definition aead_law :: "crypto \<Rightarrow> bool" where
  "aead_law cx \<longleftrightarrow> (\<forall>k n p a. cx_decrypt cx k n (cx_encrypt cx k n p a) a = Some p)"

interpretation enc: token_vault enc_tokenize enc_detokenize "\<lambda>v. aead_law (ev_crypto v)"
  by unfold_locales
    (auto simp: enc_tokenize_def enc_detokenize_def aead_law_def Let_def split: option.splits)

text \<open>Closing and reopening the file under the same key: every stored token still reads back.\<close>

lemma reopen_same_dek:
  assumes "aead_law cx" and "open_vault cx rnd db kek = Inr v" and "db_meta db ''wrapped_dek'' = None"
    and "length (rnd 1) = 12" and "db_meta db' = db_meta (ev_db v)"
  shows "\<exists>v'. open_vault cx rnd' db' kek = Inr v' \<and> ev_dek v' = ev_dek v \<and>
    ev_mac_key v' = ev_mac_key v \<and> ev_db v' = db' \<and> ev_crypto v' = cx"
  using assms by (auto simp: open_vault_def aead_law_def Let_def split: if_splits)

section \<open>Operators\<close>

datatype operator = OpMask | OpPartialMask nat char | OpHash nat | OpDrop | OpTokenize

datatype vault = MemVault mem_vault | EncVault enc_vault

fun vault_tokenize :: "vault \<Rightarrow> string \<Rightarrow> string \<Rightarrow> string \<times> vault" where
  "vault_tokenize (MemVault v) e x = map_prod id MemVault (mem_tokenize v e x)"
| "vault_tokenize (EncVault v) e x = map_prod id EncVault (enc_tokenize v e x)"

fun vault_detokenize :: "vault \<Rightarrow> string \<Rightarrow> (string option) res" where
  "vault_detokenize (MemVault v) t = mem_detokenize v t"
| "vault_detokenize (EncVault v) t = enc_detokenize v t"

fun vault_ok :: "vault \<Rightarrow> bool" where
  "vault_ok (MemVault v) = True"
| "vault_ok (EncVault v) = aead_law (ev_crypto v)"

interpretation vlt: token_vault vault_tokenize vault_detokenize vault_ok
proof unfold_locales
  fix v e x e' x' t y
  show "vault_ok v \<Longrightarrow> vault_ok (snd (vault_tokenize v e x))"
    by (cases v) (simp_all add: enc.invar_tokenize)
  show "vault_ok v \<Longrightarrow> fst (vault_tokenize (snd (vault_tokenize v e' x')) e x) = fst (vault_tokenize v e x)"
    by (cases v) (simp_all add: mem.token_stable enc.token_stable)
  show "vault_ok v \<Longrightarrow> vault_detokenize v t = Inr (Some y) \<Longrightarrow>
      vault_detokenize (snd (vault_tokenize v e x)) t = Inr (Some y)"
    by (cases v) (simp_all add: mem.known_kept enc.known_kept)
  show "vault_ok v \<Longrightarrow> vault_detokenize v (fst (vault_tokenize v e x)) = Inr None \<Longrightarrow>
      vault_detokenize (snd (vault_tokenize v e x)) (fst (vault_tokenize v e x)) = Inr (Some x)"
    by (cases v) (simp_all add: mem.fresh_stored enc.fresh_stored)
  show "vault_ok v \<Longrightarrow> t \<noteq> fst (vault_tokenize v e x) \<Longrightarrow>
      vault_detokenize (snd (vault_tokenize v e x)) t = vault_detokenize v t"
    by (cases v) (simp_all add: mem.others_kept enc.others_kept)
qed

definition mask_text :: "string \<Rightarrow> string" where
  "mask_text entity = ''[REDACTED:'' @ entity @ '']''"

text \<open>The UTF-8 bytes of U+2588, which the drop operator writes three times.\<close>

definition full_block :: string where
  "full_block = [CHR 0xE2, CHR 0x96, CHR 0x88]"

text \<open>\<open>Operator.apply\<close>; \<open>hmac\<close> is the keyed hash of the hash operator (hex digest).\<close>

fun op_apply :: "(string \<Rightarrow> string) \<Rightarrow> operator \<Rightarrow> span \<Rightarrow> vault \<Rightarrow> string \<times> vault" where
  "op_apply hmac OpMask s v = (mask_text (sp_entity s), v)"
| "op_apply hmac (OpPartialMask keep_last mask_char) s v =
     (let value = sp_text s in
      ((if length value \<le> keep_last * 2 then mask_text (sp_entity s)
        else replicate (length value - keep_last) mask_char @ drop (length value - keep_last) value), v))"
| "op_apply hmac (OpHash len) s v =
     (''['' @ sp_entity s @ '':'' @ take len (hmac (sp_text s)) @ '']'', v)"
| "op_apply hmac OpDrop s v = (concat (replicate 3 full_block), v)"
| "op_apply hmac OpTokenize s v = vault_tokenize v (sp_entity s) (sp_text s)"

definition op_name :: "operator \<Rightarrow> string" where
  "op_name op = (case op of OpMask \<Rightarrow> ''mask'' | OpPartialMask _ _ \<Rightarrow> ''partial_mask'' | OpHash _ \<Rightarrow> ''hash''
     | OpDrop \<Rightarrow> ''drop'' | OpTokenize \<Rightarrow> ''tokenize'')"

definition OPERATORS :: "operator list" where
  "OPERATORS = [OpMask, OpPartialMask 4 CHR ''*'', OpHash 8, OpDrop, OpTokenize]"

definition get_operator :: "string \<Rightarrow> operator option" where
  "get_operator name = map_of (map (\<lambda>op. (op_name op, op)) OPERATORS) name"

lemma op_apply_vault_ok: "vault_ok v \<Longrightarrow> vault_ok (snd (op_apply h op s v))"
  by (cases op) (simp_all add: Let_def vlt.invar_tokenize)

text \<open>The mask operator never emits anything that depends on the value.\<close>

lemma mask_value_independent:
  "sp_entity s = sp_entity s' \<Longrightarrow> fst (op_apply h OpMask s v) = fst (op_apply h OpMask s' v)"
  by simp

text \<open>A partial mask reveals at most the last \<open>keep_last\<close> characters, less than half of the value.\<close>

lemma partial_mask_hides:
  assumes "keep_last * 2 < length (sp_text s)"
    and "drop (length (sp_text s) - keep_last) (sp_text s) = drop (length (sp_text s') - keep_last) (sp_text s')"
    and "length (sp_text s) = length (sp_text s')" and "sp_entity s = sp_entity s'"
  shows "op_apply h (OpPartialMask keep_last c) s v = op_apply h (OpPartialMask keep_last c) s' v"
  using assms by (simp add: Let_def)

lemma partial_mask_length:
  "keep_last * 2 < length (sp_text s) \<Longrightarrow>
     length (fst (op_apply h (OpPartialMask keep_last c) s v)) = length (sp_text s)"
  by (simp add: Let_def)

end
