(* ===== verification/Redaction_Engine.thy ===== *)
theory Redaction_Engine
  imports Redaction_Vault Session_State
begin

text \<open>
  The redaction subsystem: \<open>redaction/structured.py\<close>, \<open>redaction/report.py\<close>,
  \<open>redaction/engine.py\<close>, \<open>redaction/profiles.py\<close> and \<open>redaction/service.py\<close>. Detectors are
  values of a record (name, availability, detect function); the regex-based ones are in
  their own theory. The vault is threaded through a scan because tokenizing stores values.
\<close>

section \<open>Key-aware redaction\<close>

definition DEFAULT_SENSITIVE_TOKENS :: "string list" where
  "DEFAULT_SENSITIVE_TOKENS =
     [''password'', ''passwd'', ''pwd'', ''secret'', ''apikey'', ''credential'', ''credentials'',
      ''authorization'', ''passphrase'']"

definition DEFAULT_SENSITIVE_JOINED :: "string list" where
  "DEFAULT_SENSITIVE_JOINED =
     [''apikey'', ''accesskey'', ''secretkey'', ''privatekey'', ''clientsecret'', ''accesstoken'',
      ''refreshtoken'', ''sessiontoken'', ''authtoken'', ''secretaccesskey'']"

record structured_policy =
  st_exclude_keys :: "string list"
  st_sensitive_tokens :: "string list"
  st_sensitive_joined :: "string list"

definition make_structured :: "string list \<Rightarrow> structured_policy" where
  "make_structured exclude =
     \<lparr>st_exclude_keys = exclude, st_sensitive_tokens = DEFAULT_SENSITIVE_TOKENS,
      st_sensitive_joined = DEFAULT_SENSITIVE_JOINED\<rparr>"

definition is_upper_ascii :: "char \<Rightarrow> bool" where
  "is_upper_ascii c = (65 \<le> code_of c \<and> code_of c \<le> (90::nat))"

text \<open>
  \<open>_SPLIT.split\<close>: cut at every run of characters other than letters and digits, and between
  a lower-case letter or digit and an upper-case letter; empty pieces are dropped.
\<close>

fun split_key :: "string \<Rightarrow> string \<Rightarrow> string list" where
  "split_key acc [] = (if acc = [] then [] else [acc])"
| "split_key acc (c # cs) =
     (if \<not> is_alnum_ascii c then (if acc = [] then [] else [acc]) @ split_key [] cs
      else if acc \<noteq> [] \<and> is_upper_ascii c \<and> \<not> is_upper_ascii (last acc)
        then acc # split_key [c] cs
      else split_key (acc @ [c]) cs)"

definition key_tokens :: "string \<Rightarrow> string list" where
  "key_tokens key = map lower (split_key [] key)"

definition key_is_excluded :: "structured_policy \<Rightarrow> string \<Rightarrow> bool" where
  "key_is_excluded st key = (lower key \<in> lower ` set (st_exclude_keys st))"

definition key_is_sensitive :: "structured_policy \<Rightarrow> string \<Rightarrow> bool" where
  "key_is_sensitive st key =
     ((\<exists>t \<in> set (key_tokens key). t \<in> set (st_sensitive_tokens st)) \<or>
      concat (key_tokens key) \<in> set (st_sensitive_joined st))"

section \<open>Reports\<close>

record finding =
  fi_entity :: string
  fi_detector :: string
  fi_operator :: string
  fi_confidence :: rat

type_synonym report = "finding list"

definition count_into :: "string \<Rightarrow> (pyval \<times> pyval) list \<Rightarrow> (pyval \<times> pyval) list" where
  "count_into k out = dput k (case dget out k of Some (PInt n) \<Rightarrow> PInt (n + 1) | _ \<Rightarrow> PInt 1) out"

definition counts_by_entity :: "report \<Rightarrow> pydict" where
  "counts_by_entity r = fold (\<lambda>f out. count_into (fi_entity f) out) r []"

definition counts_by_detector :: "report \<Rightarrow> pydict" where
  "counts_by_detector r = fold (\<lambda>f out. count_into (fi_detector f) out) r []"

definition report_total :: "report \<Rightarrow> nat" where
  "report_total r = length r"

definition report_summary :: "report \<Rightarrow> pydict" where
  "report_summary r =
     [(PStr ''total'', PInt (int (report_total r))),
      (PStr ''by_entity'', PDict (counts_by_entity r)),
      (PStr ''by_detector'', PDict (counts_by_detector r))]"

section \<open>Detection\<close>

record detection_context =
  dc_allowlist :: "string list"
  dc_denylist :: "string list"
  dc_context_words :: "string list"
  dc_context_boost :: rat
  dc_context_window :: nat

definition make_context :: "string list \<Rightarrow> string list \<Rightarrow> string list \<Rightarrow> detection_context" where
  "make_context allow deny words =
     \<lparr>dc_allowlist = allow, dc_denylist = deny, dc_context_words = words,
      dc_context_boost = 3 / 10, dc_context_window = 40\<rparr>"

record detector =
  det_name :: string
  det_available :: bool
  det_detect :: "string \<Rightarrow> detection_context \<Rightarrow> (span list) res"

record redaction_engine =
  en_detectors :: "detector list"
  en_operator_by_entity :: "(string \<times> operator) list"
  en_default_operator :: operator
  en_min_confidence :: rat
  en_max_bytes :: nat
  en_hmac :: "string \<Rightarrow> string"

definition SENSITIVE_FIELD :: string where "SENSITIVE_FIELD = ''SENSITIVE_FIELD''"
definition CUSTOM_TERM :: string where "CUSTOM_TERM = ''CUSTOM_TERM''"

definition contains :: "string \<Rightarrow> string \<Rightarrow> bool" where
  "contains w s = (\<exists>i \<in> set [0..<Suc (length s)]. prefix w (drop i s))"

definition context_boost :: "string \<Rightarrow> detection_context \<Rightarrow> span \<Rightarrow> span" where
  "context_boost text ctx s =
     (let lo = sp_start s - dc_context_window ctx;
          window = lower (take (sp_start s - lo) (drop lo text))
      in if \<exists>w \<in> set (dc_context_words ctx). contains (lower w) window
         then s\<lparr>sp_confidence := min 1 (sp_confidence s + dc_context_boost ctx)\<rparr>
         else s)"

text \<open>\<open>text.find(term, start)\<close>.\<close>

definition find_from :: "string \<Rightarrow> string \<Rightarrow> nat \<Rightarrow> nat option" where
  "find_from text term start = List.find (\<lambda>i. prefix term (drop i text)) [start..<Suc (length text)]"

lemma find_from_Some:
  assumes "find_from text term start = Some i"
  shows "start \<le> i \<and> i \<le> length text \<and> prefix term (drop i text)"
proof -
  have "prefix term (drop i text)" and "i \<in> set [start..<Suc (length text)]"
    using assms unfolding find_from_def find_Some_iff by (blast, metis nth_mem)
  then show ?thesis by (auto split: if_splits)
qed

function deny_occurrences :: "string \<Rightarrow> string \<Rightarrow> nat \<Rightarrow> nat list" where
  "deny_occurrences text term start =
     (if term = [] then []
      else case find_from text term start of
             None \<Rightarrow> []
           | Some i \<Rightarrow> i # deny_occurrences text term (i + length term))"
  by pat_completeness auto
termination
  by (relation "measure (\<lambda>(text, term, start). Suc (length text) - start)")
    (auto dest!: find_from_Some simp flip: length_greater_0_conv)

declare deny_occurrences.simps [simp del]

definition denylist_spans :: "string \<Rightarrow> string list \<Rightarrow> span list" where
  "denylist_spans text denylist =
     concat (map (\<lambda>term. map (\<lambda>i.
       \<lparr>sp_entity = CUSTOM_TERM, sp_start = i, sp_end = i + length term, sp_confidence = 1,
        sp_detector = ''denylist'', sp_text = term\<rparr>) (deny_occurrences text term 0)) denylist)"

fun run_detectors :: "detector list \<Rightarrow> string \<Rightarrow> detection_context \<Rightarrow> (span list) res" where
  "run_detectors [] text ctx = Inr []"
| "run_detectors (d # ds) text ctx =
     ebind (if det_available d then det_detect d text ctx else Inr []) (\<lambda>ss.
     ebind (run_detectors ds text ctx) (\<lambda>rest. Inr (ss @ rest)))"

definition detect_spans :: "redaction_engine \<Rightarrow> string \<Rightarrow> detection_context \<Rightarrow> (span list) res" where
  "detect_spans en text ctx =
     (if text = [] then Inr []
      else if length text > en_max_bytes en then Inl RedactionBudgetExceeded
      else
        ebind (run_detectors (en_detectors en) text ctx) (\<lambda>spans0.
        let spans1 = (if dc_context_words ctx = [] then spans0 else map (context_boost text ctx) spans0);
            spans2 = filter (\<lambda>s. sp_confidence s \<ge> en_min_confidence en) spans1
        in Inr (resolve_overlaps (spans2 @ denylist_spans text (dc_denylist ctx)))))"

section \<open>Applying operators\<close>

definition operator_for :: "redaction_engine \<Rightarrow> string \<Rightarrow> operator" where
  "operator_for en entity =
     (case map_of (en_operator_by_entity en) entity of None \<Rightarrow> en_default_operator en | Some op \<Rightarrow> op)"

definition finding_of :: "redaction_engine \<Rightarrow> span \<Rightarrow> finding" where
  "finding_of en s =
     \<lparr>fi_entity = sp_entity s, fi_detector = sp_detector s,
      fi_operator = op_name (operator_for en (sp_entity s)), fi_confidence = sp_confidence s\<rparr>"

definition splice :: "nat \<Rightarrow> nat \<Rightarrow> string \<Rightarrow> string \<Rightarrow> string" where
  "splice a b r out = take a out @ r @ drop b out"

fun apply_spans :: "redaction_engine \<Rightarrow> span list \<Rightarrow> string \<Rightarrow> vault \<Rightarrow> string \<times> vault" where
  "apply_spans en [] out v = (out, v)"
| "apply_spans en (s # ss) out v =
     (let (r, v') = op_apply (en_hmac en) (operator_for en (sp_entity s)) s v
      in apply_spans en ss (splice (sp_start s) (sp_end s) r out) v')"

text \<open>\<open>sorted(chosen, key=start, reverse=True)\<close>: descending, equal keys in their original order.\<close>

definition right_to_left :: "span list \<Rightarrow> span list" where
  "right_to_left chosen = rev (sort_key sp_start (rev chosen))"

definition redact_text ::
  "redaction_engine \<Rightarrow> string \<Rightarrow> detection_context \<Rightarrow> vault \<Rightarrow> (string \<times> report) res \<times> vault" where
  "redact_text en text ctx v =
     (case detect_spans en text ctx of
        Inl e \<Rightarrow> (Inl e, v)
      | Inr chosen \<Rightarrow>
          (let order = right_to_left chosen; (out, v') = apply_spans en order text v
           in (Inr (out, map (finding_of en) order), v')))"

section \<open>Walking a JSON value\<close>

type_synonym 'a scan = "report \<times> vault \<Rightarrow> 'a res \<times> report \<times> vault"

definition sret :: "'a \<Rightarrow> 'a scan" where
  "sret x st = (Inr x, st)"

definition sbind :: "'a scan \<Rightarrow> ('a \<Rightarrow> 'b scan) \<Rightarrow> 'b scan" where
  "sbind m k st = (case m st of (Inl e, st') \<Rightarrow> (Inl e, st') | (Inr x, st') \<Rightarrow> k x st')"

definition walk_str :: "redaction_engine \<Rightarrow> detection_context \<Rightarrow> string \<Rightarrow> pyval scan" where
  "walk_str en ctx s st =
     (case redact_text en s ctx (snd st) of
        (Inl e, v') \<Rightarrow> (Inl e, fst st, v')
      | (Inr (out, sub), v') \<Rightarrow> (Inr (PStr out), fst st @ sub, v'))"

definition walk_sensitive :: "redaction_engine \<Rightarrow> string \<Rightarrow> pyval scan" where
  "walk_sensitive en value st =
     (let op = operator_for en SENSITIVE_FIELD;
          s = \<lparr>sp_entity = SENSITIVE_FIELD, sp_start = 0, sp_end = length value, sp_confidence = 1,
               sp_detector = ''structured'', sp_text = value\<rparr>;
          f = \<lparr>fi_entity = SENSITIVE_FIELD, fi_detector = ''structured'', fi_operator = op_name op,
               fi_confidence = 1\<rparr>;
          (r, v') = op_apply (en_hmac en) op s (snd st)
      in (Inr (PStr r), fst st @ [f], v'))"

datatype field_rule = Protect | Whole string | Descend

text \<open>What \<open>_walk_field\<close> decides from the key: leave alone, redact whole, or descend.\<close>

definition field_rule_of :: "structured_policy option \<Rightarrow> pyval \<Rightarrow> pyval \<Rightarrow> field_rule" where
  "field_rule_of structured key value =
     (case (structured, key) of
        (Some st, PStr k) \<Rightarrow>
          (if key_is_excluded st k then Protect
           else (case value of
                   PStr s \<Rightarrow> if key_is_sensitive st k \<and> s \<noteq> [] then Whole s else Descend
                 | _ \<Rightarrow> Descend))
      | _ \<Rightarrow> Descend)"

fun walk :: "redaction_engine \<Rightarrow> detection_context \<Rightarrow> structured_policy option \<Rightarrow> pyval \<Rightarrow> pyval scan"
  and walk_list :: "redaction_engine \<Rightarrow> detection_context \<Rightarrow> structured_policy option \<Rightarrow> pyval list
    \<Rightarrow> (pyval list) scan"
  and walk_items :: "redaction_engine \<Rightarrow> detection_context \<Rightarrow> structured_policy option \<Rightarrow> pydict
    \<Rightarrow> pydict scan" where
  "walk en ctx st (PStr s) = walk_str en ctx s"
| "walk en ctx st (PList xs) = sbind (walk_list en ctx st xs) (\<lambda>ys. sret (PList ys))"
| "walk en ctx st (PDict d) = sbind (walk_items en ctx st d) (\<lambda>e. sret (PDict e))"
| "walk en ctx st v = sret v"
| "walk_list en ctx st [] = sret []"
| "walk_list en ctx st (x # xs) =
     sbind (walk en ctx st x) (\<lambda>y. sbind (walk_list en ctx st xs) (\<lambda>ys. sret (y # ys)))"
| "walk_items en ctx st [] = sret []"
| "walk_items en ctx st ((k, v) # d) =
     sbind (case field_rule_of st k v of
              Protect \<Rightarrow> sret v
            | Whole s \<Rightarrow> walk_sensitive en s
            | Descend \<Rightarrow> walk en ctx st v) (\<lambda>w.
     sbind (walk_items en ctx st d) (\<lambda>e. sret ((k, w) # e)))"

definition redact_json ::
  "redaction_engine \<Rightarrow> pyval \<Rightarrow> detection_context \<Rightarrow> structured_policy option \<Rightarrow> vault
    \<Rightarrow> (pyval \<times> report) res \<times> vault" where
  "redact_json en value ctx structured v =
     (case walk en ctx structured value ([], v) of
        (Inl e, _, v') \<Rightarrow> (Inl e, v')
      | (Inr x, r, v') \<Rightarrow> (Inr (x, r), v'))"

section \<open>Profiles\<close>

record profile =
  pr_name :: string
  pr_detectors :: "string list"
  pr_default_operator :: string
  pr_operator_by_entity :: "(string \<times> string) list"
  pr_min_confidence :: rat

definition PROFILES :: "profile list" where
  "PROFILES =
     [\<lparr>pr_name = ''secrets-only'', pr_detectors = [''secrets''], pr_default_operator = ''mask'',
       pr_operator_by_entity = [], pr_min_confidence = 6 / 10\<rparr>,
      \<lparr>pr_name = ''standard'', pr_detectors = [''regex_pii'', ''secrets''], pr_default_operator = ''mask'',
       pr_operator_by_entity = [], pr_min_confidence = 6 / 10\<rparr>,
      \<lparr>pr_name = ''strict'', pr_detectors = [''regex_pii'', ''secrets''], pr_default_operator = ''mask'',
       pr_operator_by_entity = [(''CREDIT_CARD'', ''partial_mask'')], pr_min_confidence = 4 / 10\<rparr>,
      \<lparr>pr_name = ''reversible'', pr_detectors = [''regex_pii'', ''secrets''], pr_default_operator = ''hash'',
       pr_operator_by_entity = [(''EMAIL'', ''tokenize''), (''PHONE'', ''tokenize''), (''SSN'', ''tokenize''),
         (''CREDIT_CARD'', ''tokenize''), (''IP_ADDRESS'', ''tokenize'')],
       pr_min_confidence = 6 / 10\<rparr>]"

definition get_profile :: "string \<Rightarrow> profile option" where
  "get_profile name = List.find (\<lambda>p. pr_name p = name) PROFILES"

definition make_redaction_engine ::
  "detector list \<Rightarrow> (string \<times> string) list \<Rightarrow> string \<Rightarrow> rat \<Rightarrow> nat \<Rightarrow> (string \<Rightarrow> string) \<Rightarrow> redaction_engine res" where
  "make_redaction_engine detectors by_entity default_op min_conf max_bytes hmac =
     ebind (emap (\<lambda>p. case get_operator (snd p) of
              None \<Rightarrow> Inl (ValueError ''unknown operator'')
            | Some op \<Rightarrow> Inr (fst p, op)) by_entity) (\<lambda>ops.
     Inr \<lparr>en_detectors = detectors, en_operator_by_entity = ops,
          en_default_operator = (case get_operator default_op of None \<Rightarrow> OpMask | Some op \<Rightarrow> op),
          en_min_confidence = min_conf, en_max_bytes = max_bytes, en_hmac = hmac\<rparr>)"

definition DEFAULT_MAX_BYTES :: nat where
  "DEFAULT_MAX_BYTES = 4 * 1024 * 1024"

text \<open>\<open>build_engine\<close>; the registry maps detector names to instances (\<open>None\<close>: not registered).\<close>

definition build_redaction_engine ::
  "(string \<Rightarrow> detector option) \<Rightarrow> (string \<Rightarrow> string) \<Rightarrow> string \<Rightarrow> detector list \<Rightarrow> redaction_engine res" where
  "build_redaction_engine registry hmac name extra =
     (case get_profile name of
        None \<Rightarrow> Inl (ValueError ''unknown redaction profile'')
      | Some p \<Rightarrow>
          (let base = List.map_filter registry (pr_detectors p);
               ner = (if name = ''strict''
                      then (case registry ''presidio'' of
                              Some d \<Rightarrow> if det_available d then [d] else []
                            | None \<Rightarrow> [])
                      else [])
           in make_redaction_engine (base @ ner @ extra) (pr_operator_by_entity p)
                (pr_default_operator p) (pr_min_confidence p) DEFAULT_MAX_BYTES hmac))"

section \<open>The service\<close>

record redaction_service =
  rv_vault :: vault
  rv_registry :: "string \<Rightarrow> detector option"
  rv_custom :: "detector list"
  rv_hmac :: "string \<Rightarrow> string"

text \<open>\<open>engine_for\<close> caches engines per profile; building one is a pure function of the profile.\<close>

definition engine_for :: "redaction_service \<Rightarrow> string \<Rightarrow> redaction_engine res" where
  "engine_for sv profile =
     build_redaction_engine (rv_registry sv) (rv_hmac sv) profile (rv_custom sv)"

definition service_redact ::
  "redaction_service \<Rightarrow> pyval \<Rightarrow> redaction_spec \<Rightarrow> (pyval \<times> report) res \<times> redaction_service" where
  "service_redact sv value rs =
     (case engine_for sv (rs_profile rs) of
        Inl e \<Rightarrow> (Inl e, sv)
      | Inr en \<Rightarrow>
          (let ctx = make_context (rs_allowlist rs) (rs_denylist rs) (rs_context_words rs);
               (r, v') = redact_json en value ctx (Some (make_structured (rs_exclude_keys rs))) (rv_vault sv)
           in (r, sv\<lparr>rv_vault := v'\<rparr>)))"

definition service_detokenize :: "redaction_service \<Rightarrow> string \<Rightarrow> (string option) res" where
  "service_detokenize sv token = vault_detokenize (rv_vault sv) token"

section \<open>Right-to-left splicing is one left-to-right pass\<close>

text \<open>
  The reference: copy the text between the spans, writing each replacement in place of its
  span. It mentions each position of the input at most once, and none inside a span.
\<close>

fun stitch :: "nat \<Rightarrow> (span \<times> string) list \<Rightarrow> string \<Rightarrow> string" where
  "stitch pos [] text = drop pos text"
| "stitch pos ((s, r) # ps) text =
     take (sp_start s - pos) (drop pos text) @ r @ stitch (sp_end s) ps text"

fun span_chain :: "nat \<Rightarrow> span list \<Rightarrow> nat \<Rightarrow> bool" where
  "span_chain pos [] n = (pos \<le> n)"
| "span_chain pos (s # ss) n =
     (pos \<le> sp_start s \<and> sp_start s \<le> sp_end s \<and> span_chain (sp_end s) ss n)"

text \<open>The replacements the operators produce, in the order they are asked for.\<close>

fun replacements :: "redaction_engine \<Rightarrow> span list \<Rightarrow> vault \<Rightarrow> string list" where
  "replacements en [] v = []"
| "replacements en (s # ss) v =
     (let (r, v') = op_apply (en_hmac en) (operator_for en (sp_entity s)) s v
      in r # replacements en ss v')"

lemma length_replacements [simp]: "length (replacements en ss v) = length ss"
  by (induction en ss v rule: replacements.induct) (simp_all split: prod.splits)

definition splice_pair :: "span \<times> string \<Rightarrow> string \<Rightarrow> string" where
  "splice_pair p out = splice (sp_start (fst p)) (sp_end (fst p)) (snd p) out"

lemma apply_spans_fold:
  "fst (apply_spans en ss out v) = fold splice_pair (zip ss (replacements en ss v)) out"
  by (induction en ss out v rule: apply_spans.induct) (simp_all add: splice_pair_def split: prod.splits)

lemma span_chain_le: "span_chain pos ss n \<Longrightarrow> pos \<le> n"
  by (induction pos ss n rule: span_chain.induct) auto

lemma foldr_splice_stitch:
  "span_chain pos (map fst ps) (length text) \<Longrightarrow>
     foldr splice_pair ps text = take pos text @ stitch pos ps text"
proof (induction ps arbitrary: pos)
  case (Cons p ps)
  obtain s r where p: "p = (s, r)" by (cases p)
  from Cons.prems p have le: "pos \<le> sp_start s" "sp_start s \<le> sp_end s"
    and ch: "span_chain (sp_end s) (map fst ps) (length text)" by auto
  have n: "sp_end s \<le> length text" using ch by (rule span_chain_le)
  have "foldr splice_pair (p # ps) text
      = splice (sp_start s) (sp_end s) r (take (sp_end s) text @ stitch (sp_end s) ps text)"
    using Cons.IH [OF ch] p splice_pair_def [of p] by simp
  also have "\<dots> = take (sp_start s) text @ r @ stitch (sp_end s) ps text"
    using le n by (simp add: splice_def min_absorb1)
  also have "take (sp_start s) text = take pos text @ take (sp_start s - pos) (drop pos text)"
    using le by (metis le_add_diff_inverse take_add)
  finally show ?case using p by simp
qed simp

definition spans_in :: "string \<Rightarrow> span list \<Rightarrow> bool" where
  "spans_in text ss = (\<forall>s \<in> set ss. sp_start s < sp_end s \<and> sp_end s \<le> length text)"

lemma resolved_chain:
  assumes "non_overlapping ss" and "sorted (map sp_start ss)" and "spans_in text ss"
    and "\<forall>s \<in> set ss. pos \<le> sp_start s" and "pos \<le> length text"
  shows "span_chain pos ss (length text)"
  using assms
proof (induction ss arbitrary: pos)
  case (Cons s ss)
  have "sp_end s \<le> sp_start k" if k: "k \<in> set ss" for k
  proof -
    have "\<not> overlaps s k" using Cons.prems(1) k by (simp add: non_overlapping_def)
    moreover have "sp_start s \<le> sp_start k" using Cons.prems(2) k by simp
    moreover have "sp_start k < sp_end k" using Cons.prems(3) k by (simp add: spans_in_def)
    ultimately show ?thesis by (simp add: overlaps_def)
  qed
  with Cons show ?case by (auto simp: non_overlapping_def spans_in_def)
qed simp

lemma resolved_distinct_starts:
  assumes "non_overlapping ss" and "spans_in text ss"
  shows "distinct (map sp_start ss)"
  using assms
proof (induction ss)
  case (Cons s ss)
  have "sp_start k \<noteq> sp_start s" if k: "k \<in> set ss" for k
  proof -
    have "\<not> overlaps s k" using Cons.prems(1) k by (simp add: non_overlapping_def)
    moreover have "sp_start k < sp_end k" "sp_start s < sp_end s"
      using Cons.prems(2) k by (simp_all add: spans_in_def)
    ultimately show ?thesis by (auto simp: overlaps_def)
  qed
  then have "sp_start s \<notin> sp_start ` set ss" by (metis imageE)
  with Cons show ?case by (simp add: non_overlapping_def spans_in_def)
qed simp

lemma right_to_left_rev:
  assumes "non_overlapping ss" and "sorted (map sp_start ss)" and "spans_in text ss"
  shows "right_to_left ss = rev ss"
proof -
  have d: "distinct (map sp_start ss)" using assms(1,3) by (rule resolved_distinct_starts)
  have "sort_key sp_start (rev ss) = ss"
  proof (rule map_sorted_distinct_set_unique)
    show "inj_on sp_start (set (sort_key sp_start (rev ss)) \<union> set ss)"
      using d by (simp add: distinct_map)
    show "distinct (map sp_start (sort_key sp_start (rev ss)))"
      using d by (simp add: distinct_map)
  qed (use assms d in simp_all)
  then show ?thesis by (simp add: right_to_left_def)
qed

lemma detect_spans_resolved:
  assumes "detect_spans en text ctx = Inr chosen"
  shows "non_overlapping chosen" and "sorted (map sp_start chosen)"
proof -
  have "chosen = [] \<or> (\<exists>ss. chosen = resolve_overlaps ss)"
    using assms by (auto simp: detect_spans_def ebind_eq_Inr Let_def split: if_splits)
  then show "non_overlapping chosen" and "sorted (map sp_start chosen)"
    using resolve_overlaps_non_overlapping resolve_overlaps_sorted by (auto simp: non_overlapping_def)
qed

lemma redact_text_stitch:
  assumes "detect_spans en text ctx = Inr chosen" and "spans_in text chosen"
  shows "fst (redact_text en text ctx v) =
    Inr (stitch 0 (zip chosen (rev (replacements en (rev chosen) v))) text,
         map (finding_of en) (rev chosen))"
proof -
  note resolved = detect_spans_resolved [OF assms(1)]
  let ?rs = "replacements en (rev chosen) v"
  have "fst (apply_spans en (rev chosen) text v) = fold splice_pair (zip (rev chosen) ?rs) text"
    by (rule apply_spans_fold)
  also have "zip (rev chosen) ?rs = rev (zip chosen (rev ?rs))"
    by (simp add: zip_rev [symmetric])
  also have "fold splice_pair (rev (zip chosen (rev ?rs))) text = foldr splice_pair (zip chosen (rev ?rs)) text"
    by (simp add: foldr_conv_fold)
  also have "\<dots> = stitch 0 (zip chosen (rev ?rs)) text"
    using foldr_splice_stitch [of 0 "zip chosen (rev ?rs)" "text"]
      resolved_chain [OF resolved assms(2), of 0] by simp
  finally show ?thesis
    using assms(1) right_to_left_rev [OF resolved assms(2)]
    by (simp add: redact_text_def Let_def case_prod_unfold)
qed

text \<open>What is outside the spans decides the stitched text: nothing inside one is looked at.\<close>

definition outside :: "span list \<Rightarrow> nat \<Rightarrow> bool" where
  "outside ss i = (\<forall>s \<in> set ss. i < sp_start s \<or> sp_end s \<le> i)"

definition agree_outside :: "span list \<Rightarrow> string \<Rightarrow> string \<Rightarrow> bool" where
  "agree_outside ss a b = (length a = length b \<and> (\<forall>i \<in> set [0..<length a]. outside ss i \<longrightarrow> a ! i = b ! i))"

lemma span_chain_starts: "span_chain pos ss n \<Longrightarrow> s \<in> set ss \<Longrightarrow> pos \<le> sp_start s"
proof (induction pos ss n arbitrary: s rule: span_chain.induct)
  case (2 pos x xs n)
  then show ?case by fastforce
qed simp

lemma stitch_agree:
  assumes "length a = length b" and "span_chain pos (map fst ps) (length a)"
    and "\<forall>i < length a. pos \<le> i \<longrightarrow> outside (map fst ps) i \<longrightarrow> a ! i = b ! i"
  shows "stitch pos ps a = stitch pos ps b"
  using assms(2,3)
proof (induction ps arbitrary: pos)
  case Nil
  then show ?case using assms(1) by (auto simp: outside_def intro!: nth_equalityI)
next
  case (Cons p ps)
  obtain s r where p: "p = (s, r)" by (cases p)
  from Cons.prems p have le: "pos \<le> sp_start s" "sp_start s \<le> sp_end s"
    and ch: "span_chain (sp_end s) (map fst ps) (length a)" by auto
  have n: "sp_end s \<le> length a" using ch by (rule span_chain_le)
  have before: "outside (map fst (p # ps)) i" if "i < sp_start s" for i
    using that le p span_chain_starts [OF ch] by (fastforce simp: outside_def)
  have "take (sp_start s - pos) (drop pos a) = take (sp_start s - pos) (drop pos b)"
    by (rule nth_equalityI) (use assms(1) Cons.prems(2) before n le in auto)
  moreover have "stitch (sp_end s) ps a = stitch (sp_end s) ps b"
    by (rule Cons.IH [OF ch]) (use Cons.prems(2) p le in \<open>auto simp: outside_def\<close>)
  ultimately show ?case using p by simp
qed

section \<open>Spans of the denylist\<close>

lemma prefix_drop_range:
  assumes "prefix w (drop i s)" and "i \<le> length s"
  shows "i + length w \<le> length s" and "take (length w) (drop i s) = w"
  using assms prefix_length_le [OF assms(1)] by (auto simp: prefix_def)

lemma deny_occurrences_Nil [simp]: "deny_occurrences text [] start = []"
  by (simp add: deny_occurrences.simps)

lemma deny_occurrences_cases:
  assumes "i \<in> set (deny_occurrences text term start)"
  obtains j where "term \<noteq> []" and "find_from text term start = Some j"
    and "i = j \<or> i \<in> set (deny_occurrences text term (j + length term))"
proof -
  have "deny_occurrences text term start = (if term = [] then [] else case find_from text term start of
      None \<Rightarrow> [] | Some j \<Rightarrow> j # deny_occurrences text term (j + length term))"
    by (rule deny_occurrences.simps)
  with assms that show thesis by (auto split: if_splits option.splits)
qed

lemma deny_occurrences_sound:
  "i \<in> set (deny_occurrences text term start) \<Longrightarrow>
     term \<noteq> [] \<and> i + length term \<le> length text \<and> take (length term) (drop i text) = term"
proof (induction "text" "term" start rule: deny_occurrences.induct)
  case (1 "text" "term" start)
  from "1.prems" obtain j where ne: "term \<noteq> []" and j: "find_from text term start = Some j"
    and i: "i = j \<or> i \<in> set (deny_occurrences text term (j + length term))"
    by (rule deny_occurrences_cases)
  from i show ?case
  proof
    assume "i = j"
    then show ?thesis using find_from_Some [OF j] ne prefix_drop_range by blast
  next
    assume "i \<in> set (deny_occurrences text term (j + length term))"
    then show ?thesis using "1.IH" [OF ne j] by blast
  qed
qed

lemma denylist_spans_in: "spans_in text (denylist_spans text dl)"
proof (unfold spans_in_def, intro ballI)
  fix s assume "s \<in> set (denylist_spans text dl)"
  then obtain w i where "i \<in> set (deny_occurrences text w 0)" and "sp_start s = i" "sp_end s = i + length w"
    by (auto simp: denylist_spans_def)
  then show "sp_start s < sp_end s \<and> sp_end s \<le> length text" using deny_occurrences_sound by fastforce
qed

text \<open>A detector is well behaved when every span it reports is non-empty and inside the text.\<close>

definition detector_ok :: "detector \<Rightarrow> bool" where
  "detector_ok d = (\<forall>t ctx ss. det_detect d t ctx = Inr ss \<longrightarrow> spans_in t ss)"

lemma run_detectors_in:
  "\<forall>d \<in> set ds. detector_ok d \<Longrightarrow> run_detectors ds text ctx = Inr ss \<Longrightarrow> spans_in text ss"
proof (induction ds arbitrary: ss)
  case (Cons d ds)
  then obtain a b where "(if det_available d then det_detect d text ctx else Inr []) = Inr a"
    and "run_detectors ds text ctx = Inr b" and "ss = a @ b" by (auto simp: ebind_eq_Inr)
  moreover have "spans_in text a"
    using calculation(1) Cons.prems(1) by (auto simp: detector_ok_def spans_in_def split: if_splits)
  moreover have "spans_in text b" using Cons.IH calculation(2) Cons.prems(1) by simp
  ultimately show ?case by (auto simp: spans_in_def)
qed (simp add: spans_in_def)

lemma context_boost_range [simp]:
  "sp_start (context_boost text ctx s) = sp_start s" "sp_end (context_boost text ctx s) = sp_end s"
  "sp_entity (context_boost text ctx s) = sp_entity s" "sp_text (context_boost text ctx s) = sp_text s"
  by (simp_all add: context_boost_def Let_def)

lemma detect_spans_in:
  assumes "\<forall>d \<in> set (en_detectors en). detector_ok d" and "detect_spans en text ctx = Inr chosen"
  shows "spans_in text chosen"
proof (cases "text = []")
  case True
  with assms(2) show ?thesis by (simp add: detect_spans_def spans_in_def)
next
  case False
  with assms(2) obtain raw where raw: "run_detectors (en_detectors en) text ctx = Inr raw"
    and "chosen = resolve_overlaps (filter (\<lambda>s. en_min_confidence en \<le> sp_confidence s)
        (if dc_context_words ctx = [] then raw else map (context_boost text ctx) raw)
      @ denylist_spans text (dc_denylist ctx))"
    by (auto simp: detect_spans_def ebind_eq_Inr Let_def split: if_splits)
  then have "set chosen \<subseteq> set raw \<union> context_boost text ctx ` set raw
      \<union> set (denylist_spans text (dc_denylist ctx))"
    using resolve_overlaps_subset by (fastforce split: if_splits)
  moreover have "spans_in text raw" using run_detectors_in [OF assms(1) raw] .
  moreover have "spans_in text (denylist_spans text (dc_denylist ctx))" by (rule denylist_spans_in)
  ultimately show ?thesis by (fastforce simp: spans_in_def)
qed

section \<open>The shape of a walked value\<close>

text \<open>
  A walk keeps the shape: same list lengths, same keys in the same order, every leaf that is
  not a string unchanged, strings replaced by strings, and a protected field untouched.
\<close>

fun same_shape :: "structured_policy option \<Rightarrow> pyval \<Rightarrow> pyval \<Rightarrow> bool"
  and same_shape_list :: "structured_policy option \<Rightarrow> pyval list \<Rightarrow> pyval list \<Rightarrow> bool"
  and same_shape_items :: "structured_policy option \<Rightarrow> pydict \<Rightarrow> pydict \<Rightarrow> bool" where
  "same_shape st (PStr s) w = is_str w"
| "same_shape st (PList xs) w = (case w of PList ys \<Rightarrow> same_shape_list st xs ys | _ \<Rightarrow> False)"
| "same_shape st (PDict d) w = (case w of PDict e \<Rightarrow> same_shape_items st d e | _ \<Rightarrow> False)"
| "same_shape st v w = (w = v)"
| "same_shape_list st [] ys = (ys = [])"
| "same_shape_list st (x # xs) ys =
     (case ys of [] \<Rightarrow> False | y # ys' \<Rightarrow> same_shape st x y \<and> same_shape_list st xs ys')"
| "same_shape_items st [] e = (e = [])"
| "same_shape_items st ((k, v) # d) e =
     (case e of [] \<Rightarrow> False
      | (k', w) # e' \<Rightarrow> k' = k \<and> same_shape_items st d e' \<and>
          (if field_rule_of st k v = Protect then w = v else same_shape st v w))"

lemma sbind_Inr: "fst (sbind m k st) = Inr y \<longleftrightarrow>
    (\<exists>x. fst (m st) = Inr x \<and> fst (k x (snd (m st))) = Inr y)"
  by (cases "m st"; cases "fst (m st)") (auto simp: sbind_def)

lemma sret_fst [simp]: "fst (sret x st) = Inr x" by (simp add: sret_def)

lemma walk_str_is_str: "fst (walk_str en ctx s st) = Inr w \<Longrightarrow> is_str w"
  by (auto simp: walk_str_def is_str_def split: prod.splits sum.splits)

lemma walk_sensitive_is_str: "fst (walk_sensitive en s st) = Inr w \<Longrightarrow> is_str w"
  by (auto simp: walk_sensitive_def is_str_def Let_def split: prod.splits)

lemma field_rule_Whole: "field_rule_of st k v = Whole s \<Longrightarrow> v = PStr s \<and> s \<noteq> []"
  by (auto simp: field_rule_of_def split: option.splits pyval.splits if_splits)

lemma walk_shape:
  "fst (walk en ctx st v acc) = Inr w \<Longrightarrow> same_shape st v w"
  "fst (walk_list en ctx st xs acc) = Inr ys \<Longrightarrow> same_shape_list st xs ys"
  "fst (walk_items en ctx st d acc) = Inr e \<Longrightarrow> same_shape_items st d e"
proof (induction en ctx st v and en ctx st xs and en ctx st d
    arbitrary: w acc and ys acc and e acc rule: walk_walk_list_walk_items.induct)
  case (6 en ctx st x xs)
  from "6.prems" obtain y zs where y: "fst (walk en ctx st x acc) = Inr y"
    and zs: "fst (walk_list en ctx st xs (snd (walk en ctx st x acc))) = Inr zs" and ys: "ys = y # zs"
    by (simp add: sbind_Inr) blast
  from "6.IH"(1) [OF y] "6.IH"(2) [OF zs] ys show ?case by simp
next
  case (8 en ctx st k v d)
  let ?m = "case field_rule_of st k v of Protect \<Rightarrow> sret v
            | Whole s \<Rightarrow> walk_sensitive en s | Descend \<Rightarrow> walk en ctx st v"
  have "fst (sbind ?m (\<lambda>w. sbind (walk_items en ctx st d) (\<lambda>e. sret ((k, w) # e))) acc) = Inr e"
    using "8.prems" by simp
  then obtain w e' where w: "fst (?m acc) = Inr w"
    and e': "fst (walk_items en ctx st d (snd (?m acc))) = Inr e'" and e: "e = (k, w) # e'"
    unfolding sbind_Inr by auto
  have "if field_rule_of st k v = Protect then w = v else same_shape st v w"
  proof (cases "field_rule_of st k v")
    case (Whole s)
    then have "v = PStr s" using field_rule_Whole by blast
    with w Whole show ?thesis by (simp add: walk_sensitive_is_str)
  qed (use w 8(1) in auto)
  with 8(2) [OF e'] e show ?case by auto
qed (auto simp: sbind_Inr walk_str_is_str)

section \<open>Masking hides the detected text\<close>

definition masks_everything :: "redaction_engine \<Rightarrow> bool" where
  "masks_everything en = (en_default_operator en = OpMask \<and> (\<forall>p \<in> set (en_operator_by_entity en). snd p = OpMask))"

lemma masks_everything_operator: "masks_everything en \<Longrightarrow> operator_for en e = OpMask"
  by (auto simp: masks_everything_def operator_for_def dest!: map_of_SomeD split: option.splits)

lemma mask_replacements: "masks_everything en \<Longrightarrow> replacements en ss v = map (mask_text \<circ> sp_entity) ss"
  by (induction en ss v rule: replacements.induct) (simp_all add: masks_everything_operator)

lemma stitch_same_places:
  assumes "map sp_start xs = map sp_start ys" and "map sp_end xs = map sp_end ys"
  shows "stitch pos (zip xs rs) t = stitch pos (zip ys rs) t"
proof -
  have "length xs = length ys" using assms(1) by (metis length_map)
  then show ?thesis using assms
  proof (induction xs ys arbitrary: pos rs rule: list_induct2)
    case (Cons x xs y ys)
    then show ?case by (cases rs) simp_all
  qed simp
qed

text \<open>
  Two texts with the same detections in the same places that agree everywhere else become the
  same masked text: what was inside a detected span cannot be told from the output.
\<close>

lemma mask_noninterference:
  assumes "masks_everything en"
    and "detect_spans en a ctx = Inr ca" and "detect_spans en b ctx = Inr cb"
    and "spans_in a ca" and "spans_in b cb"
    and "map sp_start ca = map sp_start cb" and "map sp_end ca = map sp_end cb"
    and "map sp_entity ca = map sp_entity cb" and "agree_outside ca a b"
  shows "\<exists>out ra rb. fst (redact_text en a ctx v) = Inr (out, ra) \<and> fst (redact_text en b ctx w) = Inr (out, rb)"
proof -
  let ?rs = "map (mask_text \<circ> sp_entity) ca"
  have rs: "map (mask_text \<circ> sp_entity) cb = ?rs" using assms(8) by (metis map_map)
  have len: "length a = length b" using assms(9) by (simp add: agree_outside_def)
  have ch: "span_chain 0 (map fst (zip ca ?rs)) (length a)"
    using resolved_chain [OF detect_spans_resolved [OF assms(2)] assms(4), of 0] by simp
  have "stitch 0 (zip ca ?rs) a = stitch 0 (zip ca ?rs) b"
    by (rule stitch_agree [OF len ch]) (use assms(9) in \<open>simp add: agree_outside_def\<close>)
  also have "\<dots> = stitch 0 (zip cb ?rs) b" by (rule stitch_same_places [OF assms(6,7)])
  finally have same: "stitch 0 (zip ca ?rs) a = stitch 0 (zip cb ?rs) b" .
  have "fst (redact_text en a ctx v) = Inr (stitch 0 (zip ca ?rs) a, map (finding_of en) (rev ca))"
    using redact_text_stitch [OF assms(2,4), of v] by (simp add: mask_replacements [OF assms(1)] rev_map)
  moreover have "fst (redact_text en b ctx w) = Inr (stitch 0 (zip cb ?rs) b, map (finding_of en) (rev cb))"
    using redact_text_stitch [OF assms(3,5), of w] rs by (simp add: mask_replacements [OF assms(1)] rev_map)
  ultimately show ?thesis using same by auto
qed

end
