(* ===== verification/Json_Codec.thy ===== *)
theory Json_Codec
  imports Policy_Rules
begin

text \<open>
  The JSON text format as the gateway uses it: Python's \<open>json.loads\<close> (\<open>json_loads\<close>), and
  \<open>json.dumps\<close> with the separators and the \<open>ensure_ascii=False\<close> of
  \<open>protocol/jsonrpc.py: encode\<close> (\<open>json_dumps\<close>). Reading a float literal and printing a float
  are parameters of the model (\<open>lib_float\<close>, \<open>lib_float_repr\<close>). A text that denotes a value
  outside the model (a code point above 255, \<open>NaN\<close> or an infinity) reads as \<open>Beyond\<close>.
\<close>

section \<open>Tokens\<close>

definition JsonError :: exn where "JsonError = ValueError ''JSONDecodeError''"

definition is_ws :: "char \<Rightarrow> bool" where
  "is_ws c = (c = CHR '' '' \<or> c = CHR 9 \<or> c = CHR 10 \<or> c = CHR 13)"

definition skip_ws :: "string \<Rightarrow> string" where
  "skip_ws s = dropWhile is_ws s"

definition digits_val :: "string \<Rightarrow> nat" where
  "digits_val s = foldl (\<lambda>n c. 10 * n + (code_of c - 48)) 0 s"

definition int_val :: "string \<Rightarrow> int" where
  "int_val s = (case s of
       [] \<Rightarrow> 0
     | c # cs \<Rightarrow> if c = CHR ''-'' then - int (digits_val cs) else int (digits_val s))"

text \<open>The number token \<open>(-?(?:0|[1-9][0-9]*))(\.[0-9]+)?([eE][-+]?[0-9]+)?\<close>.\<close>

definition scan_nat :: "string \<Rightarrow> (string \<times> string) option" where
  "scan_nat s = (case s of
       [] \<Rightarrow> None
     | c # cs \<Rightarrow>
         if c = CHR ''0'' then Some ([c], cs)
         else if is_decimal c then Some (takeWhile is_decimal s, dropWhile is_decimal s)
         else None)"

definition scan_int :: "string \<Rightarrow> (string \<times> string) option" where
  "scan_int s = (case s of
       [] \<Rightarrow> None
     | c # cs \<Rightarrow>
         if c = CHR ''-'' then map_option (\<lambda>p. (c # fst p, snd p)) (scan_nat cs)
         else scan_nat s)"

definition scan_frac :: "string \<Rightarrow> string \<times> string" where
  "scan_frac s = (case s of
       [] \<Rightarrow> ([], s)
     | c # cs \<Rightarrow>
         if c = CHR ''.'' \<and> takeWhile is_decimal cs \<noteq> []
         then (c # takeWhile is_decimal cs, dropWhile is_decimal cs) else ([], s))"

definition scan_exp :: "string \<Rightarrow> string \<times> string" where
  "scan_exp s = (case s of
       [] \<Rightarrow> ([], s)
     | c # cs \<Rightarrow>
         if c = CHR ''e'' \<or> c = CHR ''E'' then
           (let sg = (case cs of [] \<Rightarrow> [] | d # _ \<Rightarrow> if d = CHR ''+'' \<or> d = CHR ''-'' then [d] else []);
                r = drop (length sg) cs
            in if takeWhile is_decimal r \<noteq> [] then (c # sg @ takeWhile is_decimal r, dropWhile is_decimal r)
               else ([], s))
         else ([], s))"

definition scan_number :: "pylib \<Rightarrow> string \<Rightarrow> (pyval \<times> string) option" where
  "scan_number lib s =
     (case scan_int s of
        None \<Rightarrow> None
      | Some (i, r1) \<Rightarrow>
          (let (f, r2) = scan_frac r1; (e, r3) = scan_exp r2
           in Some (if f = [] \<and> e = [] then PInt (int_val i) else PFloat (lib_float lib (i @ f @ e)), r3)))"

definition hex_val :: "char \<Rightarrow> nat option" where
  "hex_val c =
     (let n = code_of c in
      if 48 \<le> n \<and> n \<le> 57 then Some (n - 48)
      else if 97 \<le> n \<and> n \<le> 102 then Some (n - 87)
      else if 65 \<le> n \<and> n \<le> 70 then Some (n - 55)
      else None)"

definition hex4 :: "string \<Rightarrow> nat option" where
  "hex4 s =
     (if length s < 4 \<or> (\<exists>c \<in> set (take 4 s). hex_val c = None) then None
      else Some (foldl (\<lambda>n c. 16 * n + the (hex_val c)) 0 (take 4 s)))"

definition unescape :: "char \<Rightarrow> char option" where
  "unescape c =
     map_of [(CHR 34, CHR 34), (CHR 92, CHR 92), (CHR ''/'', CHR ''/''), (CHR ''b'', CHR 8),
             (CHR ''f'', CHR 12), (CHR ''n'', CHR 10), (CHR ''r'', CHR 13), (CHR ''t'', CHR 9)] c"

text \<open>A string literal after its opening quote.\<close>

definition push :: "char \<Rightarrow> (string \<times> string) res \<Rightarrow> (string \<times> string) res" where
  "push c m = ebind m (\<lambda>p. Inr (c # fst p, snd p))"

fun scan_string :: "string \<Rightarrow> (string \<times> string) res" where
  "scan_string [] = Inl JsonError"
| "scan_string (c # cs) =
     (if c = CHR 34 then Inr ([], cs)
      else if c = CHR 92 then
        (case cs of
           [] \<Rightarrow> Inl JsonError
         | e # cs' \<Rightarrow>
             if e = CHR ''u'' then
               (case hex4 cs' of
                  None \<Rightarrow> Inl JsonError
                | Some n \<Rightarrow> if n < 256 then push (char_of n) (scan_string (drop 4 cs')) else Inl Beyond)
             else (case unescape e of
                     None \<Rightarrow> Inl JsonError
                   | Some d \<Rightarrow> push d (scan_string cs')))
      else if code_of c < (32::nat) then Inl JsonError
      else push c (scan_string cs))"

lemma skip_ws_length: "length (skip_ws s) \<le> length s"
  by (simp add: skip_ws_def length_dropWhile_le)

lemma push_Inr: "push c m = Inr p \<longleftrightarrow> (\<exists>t r. m = Inr (t, r) \<and> p = (c # t, r))"
  by (cases p) (auto simp: push_def ebind_eq_Inr)

lemma scan_string_length: "scan_string s = Inr p \<Longrightarrow> length (snd p) < length s"
proof (induction s arbitrary: p rule: scan_string.induct)
  case (2 c cs)
  then show ?case
    by (cases p) (force simp: push_Inr split: if_splits list.splits option.splits)
qed simp

section \<open>Values\<close>

text \<open>
  The recursive descent. The guards \<open>length r < length s\<close> hold at every call (a value takes at
  least one character); they make the recursion visibly well founded.
\<close>

function parse_value :: "pylib \<Rightarrow> string \<Rightarrow> (pyval \<times> string) res"
  and parse_members :: "pylib \<Rightarrow> string \<Rightarrow> (pydict \<times> string) res"
  and parse_elements :: "pylib \<Rightarrow> string \<Rightarrow> (pyval list \<times> string) res" where
  "parse_value lib s =
     (if s = [] then Inl JsonError
      else if hd s = CHR 34 then ebind (scan_string (tl s)) (\<lambda>p. Inr (PStr (fst p), snd p))
      else if hd s = CHR ''{'' then
        (let t = skip_ws (tl s) in
         if t \<noteq> [] \<and> hd t = CHR ''}'' then Inr (PDict [], tl t)
         else ebind (parse_members lib t) (\<lambda>p. Inr (PDict (al_merge [] (fst p)), snd p)))
      else if hd s = CHR ''['' then
        (let t = skip_ws (tl s) in
         if t \<noteq> [] \<and> hd t = CHR '']'' then Inr (PList [], tl t)
         else ebind (parse_elements lib t) (\<lambda>p. Inr (PList (fst p), snd p)))
      else if take 4 s = ''null'' then Inr (PNone, drop 4 s)
      else if take 4 s = ''true'' then Inr (PBool True, drop 4 s)
      else if take 5 s = ''false'' then Inr (PBool False, drop 5 s)
      else (case scan_number lib s of
              Some p \<Rightarrow> Inr p
            | None \<Rightarrow>
                if take 3 s = ''NaN'' \<or> take 8 s = ''Infinity'' \<or> take 9 s = ''-Infinity''
                then Inl Beyond else Inl JsonError))"
| "parse_members lib s =
     (if s = [] \<or> hd s \<noteq> CHR 34 then Inl JsonError
      else ebind (scan_string (tl s)) (\<lambda>k.
        let r = skip_ws (snd k) in
        if r = [] \<or> hd r \<noteq> CHR '':'' then Inl JsonError
        else ebind (parse_value lib (skip_ws (tl r))) (\<lambda>v.
          let q = skip_ws (snd v) in
          if q = [] then Inl JsonError
          else if hd q = CHR ''}'' then Inr ([(PStr (fst k), fst v)], tl q)
          else if hd q = CHR '','' \<and> length q < length s then
            ebind (parse_members lib (skip_ws (tl q))) (\<lambda>ps. Inr ((PStr (fst k), fst v) # fst ps, snd ps))
          else Inl JsonError)))"
| "parse_elements lib s =
     ebind (parse_value lib s) (\<lambda>v.
       let q = skip_ws (snd v) in
       if q = [] then Inl JsonError
       else if hd q = CHR '']'' then Inr ([fst v], tl q)
       else if hd q = CHR '','' \<and> length q < length s then
         ebind (parse_elements lib (skip_ws (tl q))) (\<lambda>vs. Inr (fst v # fst vs, snd vs))
       else Inl JsonError)"
  by pat_completeness auto

lemma tl_skip_less: "q \<noteq> [] \<Longrightarrow> length q \<le> n \<Longrightarrow> length (skip_ws (tl q)) < n"
  by (cases q) (auto intro: le_less_trans [OF skip_ws_length])

termination parse_value
proof (relation "measure (\<lambda>x. case x of Inl (_, s) \<Rightarrow> 2 * length s
    | Inr (Inl (_, s)) \<Rightarrow> 2 * length s | Inr (Inr (_, s)) \<Rightarrow> 2 * length s + 1)", goal_cases)
  case (4 lib s k r)
  have "length r \<le> length (snd k)" using 4(3) by (simp add: skip_ws_length)
  also have "\<dots> < length s" using scan_string_length [OF 4(2)] by simp
  finally have "length (skip_ws (tl r)) < length s" using 4(4) tl_skip_less [of r] by auto
  then show ?case by simp
qed (use tl_skip_less in \<open>fastforce+\<close>)

declare parse_value.simps [simp del] parse_members.simps [simp del] parse_elements.simps [simp del]

definition json_loads :: "pylib \<Rightarrow> string \<Rightarrow> pyval res" where
  "json_loads lib s =
     ebind (parse_value lib (skip_ws s)) (\<lambda>p.
       if skip_ws (snd p) = [] then Inr (fst p) else Inl JsonError)"

section \<open>Printing\<close>

text \<open>
  The styles of \<open>json.dumps\<close> the package uses: compact separators with or without \<open>ensure_ascii\<close>
  (with it every character outside the printable ASCII range is escaped), and Python's default,
  which escapes too and puts a blank after each comma and colon.
\<close>

datatype json_style = CompactUtf8 | CompactAscii | SpacedAscii

definition ensure_ascii :: "json_style \<Rightarrow> bool" where
  "ensure_ascii ea = (case ea of CompactUtf8 \<Rightarrow> False | CompactAscii \<Rightarrow> True | SpacedAscii \<Rightarrow> True)"

definition json_sep :: "json_style \<Rightarrow> char \<Rightarrow> string" where
  "json_sep ea c = (case ea of SpacedAscii \<Rightarrow> [c, CHR 32] | _ \<Rightarrow> [c])"

definition json_char :: "json_style \<Rightarrow> char \<Rightarrow> string" where
  "json_char ea c =
     (let n = code_of c in
      if c = CHR 34 \<or> c = CHR 92 then [CHR 92, c]
      else if n = 10 then [CHR 92, CHR ''n'']
      else if n = 13 then [CHR 92, CHR ''r'']
      else if n = 9 then [CHR 92, CHR ''t'']
      else if n = 12 then [CHR 92, CHR ''f'']
      else if n = 8 then [CHR 92, CHR ''b'']
      else if n < 32 \<or> (ensure_ascii ea \<and> 127 \<le> n) then [CHR 92, CHR ''u'', CHR ''0'', CHR ''0'', hex_digit (n div 16), hex_digit (n mod 16)]
      else [c])"

definition json_str :: "json_style \<Rightarrow> string \<Rightarrow> string" where
  "json_str ea s = [CHR 34] @ concat (map (json_char ea) s) @ [CHR 34]"

definition json_key :: "pylib \<Rightarrow> pyval \<Rightarrow> string" where
  "json_key lib k = (case k of
       PStr s \<Rightarrow> s
     | PBool b \<Rightarrow> if b then ''true'' else ''false''
     | PNone \<Rightarrow> ''null''
     | PInt i \<Rightarrow> show_int i
     | PFloat r \<Rightarrow> lib_float_repr lib r
     | _ \<Rightarrow> [])"

fun json_text :: "json_style \<Rightarrow> pylib \<Rightarrow> pyval \<Rightarrow> string" where
  "json_text ea lib PNone = ''null''"
| "json_text ea lib (PBool b) = (if b then ''true'' else ''false'')"
| "json_text ea lib (PInt i) = show_int i"
| "json_text ea lib (PFloat r) = lib_float_repr lib r"
| "json_text ea lib (PStr s) = json_str ea s"
| "json_text ea lib (PList xs) = ''['' @ join (json_sep ea (CHR '','')) (map (json_text ea lib) xs) @ '']''"
| "json_text ea lib (PDict d) =
     ''{'' @ join (json_sep ea (CHR '','')) (map (\<lambda>p. json_str ea (json_key lib (fst p)) @ json_sep ea (CHR '':'') @ json_text ea lib (snd p)) d) @ ''}''"

abbreviation json_dumps :: "pylib \<Rightarrow> pyval \<Rightarrow> string" where
  "json_dumps \<equiv> json_text CompactUtf8"

abbreviation json_dumps_ascii :: "pylib \<Rightarrow> pyval \<Rightarrow> string" where
  "json_dumps_ascii \<equiv> json_text CompactAscii"

section \<open>Reading back what was printed\<close>

subsection \<open>Strings\<close>

lemma hex_val_digit: "k < 16 \<Longrightarrow> hex_val (hex_digit k) = Some k"
  by (auto simp: hex_val_def hex_digit_def Let_def)

lemma code_eq_iff: "code_of c = code_of d \<longleftrightarrow> c = d"
  by (rule of_char_eq_iff)

lemma control_chars:
  "code_of c = 8 \<longleftrightarrow> c = CHR 8" "code_of c = 9 \<longleftrightarrow> c = CHR 9" "code_of c = 10 \<longleftrightarrow> c = CHR 10"
  "code_of c = 12 \<longleftrightarrow> c = CHR 12" "code_of c = 13 \<longleftrightarrow> c = CHR 13"
  using code_eq_iff [of c "CHR 8"] code_eq_iff [of c "CHR 9"] code_eq_iff [of c "CHR 10"]
    code_eq_iff [of c "CHR 12"] code_eq_iff [of c "CHR 13"] by simp_all

lemma scan_json_char: "scan_string (json_char ea c @ t) = push c (scan_string t)"
proof -
  have n: "code_of c div 16 < 16" by (simp add: less_mult_imp_div_less)
  have z: "hex_val CHR ''0'' = Some 0" by (simp add: hex_val_def)
  have "char_of (16 * (of_char c div 16) + of_char c mod (16::nat)) = c" by simp
  with n z show ?thesis
    by (auto simp: json_char_def Let_def unescape_def hex4_def hex_val_digit control_chars)
qed

lemma scan_string_concat:
  "scan_string (concat (map (json_char ea) s) @ CHR 34 # rest) = Inr (s, rest)"
  by (induction s) (simp_all add: scan_json_char push_def)

subsection \<open>Numbers\<close>

definition boundary :: "string \<Rightarrow> bool" where
  "boundary r = (r = [] \<or> hd r = CHR '','' \<or> hd r = CHR '']'' \<or> hd r = CHR ''}'')"

lemma boundary_decimals:
  assumes "boundary r"
  shows "takeWhile is_decimal (s @ r) = takeWhile is_decimal s"
    and "dropWhile is_decimal (s @ r) = dropWhile is_decimal s @ r"
  using assms by (induction s; cases r; auto simp: boundary_def is_decimal_def)+

lemma scan_nat_append: "boundary r \<Longrightarrow> scan_nat s = Some p \<Longrightarrow> scan_nat (s @ r) = Some (fst p, snd p @ r)"
  using boundary_decimals [of r s] by (cases s) (auto simp: scan_nat_def split: if_splits)

lemma scan_int_append:
  assumes "boundary r" and "scan_int s = Some p"
  shows "scan_int (s @ r) = Some (fst p, snd p @ r)"
proof (cases s)
  case (Cons c cs)
  show ?thesis
  proof (cases "c = CHR ''-''")
    case True
    with assms Cons obtain q where "scan_nat cs = Some q" and "p = (c # fst q, snd q)"
      by (auto simp: scan_int_def)
    with True Cons assms(1) show ?thesis by (simp add: scan_int_def scan_nat_append)
  next
    case False
    with assms Cons have "scan_nat (s @ r) = Some (fst p, snd p @ r)"
      by (intro scan_nat_append) (simp_all add: scan_int_def)
    with False Cons show ?thesis by (simp add: scan_int_def)
  qed
qed (use assms in \<open>simp add: scan_int_def\<close>)

lemma scan_frac_append: "boundary r \<Longrightarrow> scan_frac (s @ r) = (fst (scan_frac s), snd (scan_frac s) @ r)"
  using boundary_decimals by (cases s; cases r) (auto simp: scan_frac_def boundary_def)

lemma scan_exp_append: "boundary r \<Longrightarrow> scan_exp (s @ r) = (fst (scan_exp s), snd (scan_exp s) @ r)"
proof (cases s)
  case (Cons c cs)
  assume b: "boundary r"
  show ?thesis
  proof (cases cs)
    case Nil
    with Cons b show ?thesis by (cases r) (auto simp: scan_exp_def boundary_def is_decimal_def)
  next
    case (Cons d ds)
    with \<open>s = c # cs\<close> show ?thesis
      using boundary_decimals [OF b, of ds] boundary_decimals [OF b, of cs]
      by (auto simp: scan_exp_def Let_def simp del: takeWhile.simps dropWhile.simps)
  qed
qed (auto simp: scan_exp_def boundary_def split: list.splits)

lemma scan_number_append:
  assumes "boundary r" and "scan_number lib s = Some p"
  shows "scan_number lib (s @ r) = Some (fst p, snd p @ r)"
proof -
  from assms(2) obtain i q where i: "scan_int s = Some (i, q)"
    by (auto simp: scan_number_def split: option.splits)
  with assms show ?thesis
    by (auto simp: scan_number_def scan_int_append [OF assms(1) i] scan_frac_append scan_exp_append
        case_prod_unfold Let_def)
qed

lemma scan_number_first:
  assumes "scan_number lib s = Some p"
  shows "s \<noteq> [] \<and> (hd s = CHR ''-'' \<or> is_decimal (hd s))"
  using assms
  by (auto simp: scan_number_def scan_int_def scan_nat_def is_decimal_def split: option.splits list.splits if_splits)

lemma show_nat_decimals: "set (show_nat n) \<subseteq> Collect is_decimal"
  by (induction n rule: show_nat.induct) (subst show_nat.simps, auto simp: is_decimal_def)

lemma show_nat_nonempty [simp]: "show_nat n \<noteq> []"
  by (subst show_nat.simps) simp

lemma digits_val_snoc: "digits_val (s @ [c]) = 10 * digits_val s + (code_of c - 48)"
  by (simp add: digits_val_def)

lemma digits_val_show_nat: "digits_val (show_nat n) = n"
proof (induction n rule: show_nat.induct)
  case (1 n)
  show ?case
  proof (cases "n < 10")
    case True
    then show ?thesis by (subst show_nat.simps) (simp add: digits_val_def)
  next
    case False
    then have "show_nat n = show_nat (n div 10) @ [char_of (48 + n mod 10)]"
      by (subst show_nat.simps) simp
    with 1 False show ?thesis by (simp add: digits_val_snoc)
  qed
qed

lemma show_nat_hd: "0 < n \<Longrightarrow> hd (show_nat n) \<noteq> CHR ''0''"
proof (induction n rule: show_nat.induct)
  case (1 n)
  show ?case
  proof (cases "n < 10")
    case True
    have "char_of (48 + n) = CHR ''0'' \<longleftrightarrow> (48 + n) mod 256 = 48"
      by (simp add: char_of_eq_iff take_bit_eq_mod)
    with True "1.prems" show ?thesis by (subst show_nat.simps) simp
  next
    case False
    then have "show_nat n = show_nat (n div 10) @ [char_of (48 + n mod 10)]"
      by (subst show_nat.simps) simp
    with 1 False show ?thesis by simp
  qed
qed

lemma scan_nat_show: "scan_nat (show_nat n) = Some (show_nat n, [])"
proof (cases "n = 0")
  case True
  then have "show_nat n = [CHR ''0'']" by (subst show_nat.simps) (simp add: char_of_eq_iff)
  then show ?thesis by (simp add: scan_nat_def)
next
  case False
  then have "takeWhile is_decimal (show_nat n) = show_nat n" "dropWhile is_decimal (show_nat n) = []"
    using show_nat_decimals [of n] by (auto simp: takeWhile_eq_all_conv dropWhile_eq_Nil_conv)
  moreover have "is_decimal (hd (show_nat n))" using show_nat_decimals [of n] by (auto simp: subset_eq)
  ultimately show ?thesis using False show_nat_hd [of n] by (cases "show_nat n") (auto simp: scan_nat_def)
qed

lemma show_nat_not_minus: "hd (show_nat n) \<noteq> CHR ''-''"
proof -
  have "is_decimal (hd (show_nat n))" using show_nat_decimals [of n] by (auto simp: subset_eq)
  then show ?thesis by (auto simp: is_decimal_def)
qed

lemma show_int_scan: "scan_number lib (show_int i) = Some (PInt i, [])"
proof -
  have "scan_int (show_int i) = Some (show_int i, [])"
    using show_nat_not_minus [of "nat i"] scan_nat_show [of "nat i"]
    by (cases "show_nat (nat i)") (auto simp: scan_int_def show_int_def scan_nat_show)
  moreover have "int_val (show_int i) = i"
    using show_nat_not_minus [of "nat i"] digits_val_show_nat [of "nat i"]
    by (cases "show_nat (nat i)") (auto simp: int_val_def show_int_def digits_val_show_nat)
  ultimately show ?thesis by (simp add: scan_number_def scan_frac_def scan_exp_def)
qed

subsection \<open>Values\<close>

text \<open>
  The values a JSON text can denote: string keys, no key twice, and floats whose printed form
  is a JSON float literal that reads back as the same float (as Python's \<open>repr\<close> guarantees).
\<close>

definition float_ok :: "pylib \<Rightarrow> rat \<Rightarrow> bool" where
  "float_ok lib r = (scan_number lib (lib_float_repr lib r) = Some (PFloat r, []))"

fun json_ok :: "pylib \<Rightarrow> pyval \<Rightarrow> bool" where
  "json_ok lib (PFloat r) = float_ok lib r"
| "json_ok lib (PList xs) = (\<forall>x \<in> set xs. json_ok lib x)"
| "json_ok lib (PDict d) =
     (wf_dict d \<and> (\<forall>p \<in> set d. is_str (fst p)) \<and> (\<forall>p \<in> set d. json_ok lib (snd p)))"
| "json_ok lib v = True"

lemma skip_ws_first [simp]: "\<not> is_ws c \<Longrightarrow> skip_ws (c # cs) = c # cs"
  by (simp add: skip_ws_def)

lemma number_first:
  assumes "scan_number lib s = Some p"
  obtains c cs where "s = c # cs" "\<not> is_ws c" "c \<noteq> CHR 34" "c \<noteq> CHR ''{''" "c \<noteq> CHR ''}''" "c \<noteq> CHR ''[''"
    "c \<noteq> CHR '']''" "c \<noteq> CHR ''n''" "c \<noteq> CHR ''t''" "c \<noteq> CHR ''f''"
proof -
  obtain c cs where s: "s = c # cs" and c: "c = CHR ''-'' \<or> is_decimal c"
    using scan_number_first [OF assms] by (cases s) auto
  from c show thesis by (intro that [OF s]) (auto simp: is_ws_def is_decimal_def)
qed

lemma parse_number:
  assumes "scan_number lib s = Some (v, [])" and "boundary r"
  shows "parse_value lib (s @ r) = Inr (v, r)"
  using assms(1)
proof (rule number_first)
  fix c cs
  assume "s = c # cs" "c \<noteq> CHR 34" "c \<noteq> CHR ''{''" "c \<noteq> CHR ''[''" "c \<noteq> CHR ''n''" "c \<noteq> CHR ''t''"
    "c \<noteq> CHR ''f''"
  with scan_number_append [OF assms(2,1)] show ?thesis by (subst parse_value.simps) simp
qed

text \<open>The text of a value starts with a character that is no white space and no closing bracket.\<close>

lemma json_dumps_first:
  assumes "json_ok lib v"
  shows "\<exists>c cs. json_text ea lib v = c # cs \<and> \<not> is_ws c \<and> c \<noteq> CHR '']'' \<and> c \<noteq> CHR ''}''"
proof (cases v)
  case (PInt i)
  then show ?thesis by (metis number_first [OF show_int_scan] json_text.simps(3))
next
  case (PFloat r)
  then have "scan_number lib (lib_float_repr lib r) = Some (PFloat r, [])"
    using assms by (simp add: float_ok_def)
  then show ?thesis by (rule number_first) (simp add: PFloat)
qed (auto simp: json_str_def is_ws_def)

definition reads_back :: "json_style \<Rightarrow> pylib \<Rightarrow> pyval \<Rightarrow> bool" where
  "reads_back ea lib v = (\<forall>r. boundary r \<longrightarrow> parse_value lib (json_text ea lib v @ r) = Inr (v, r))"

lemma boundary_simps [simp]:
  "boundary (CHR '','' # r)" "boundary (CHR '']'' # r)" "boundary (CHR ''}'' # r)" "boundary []"
  by (simp_all add: boundary_def)

lemma is_ws_simps [simp]: "\<not> is_ws CHR '',''" "\<not> is_ws CHR '']''" "\<not> is_ws CHR ''}''" "\<not> is_ws CHR '':''"
  "\<not> is_ws CHR 34"
  by (simp_all add: is_ws_def)

text \<open>A separator is its character and white space, which the parser skips.\<close>

lemma json_sep_append:
  obtains b where "\<And>s. json_sep ea c @ s = c # b @ s" "\<And>s. skip_ws (b @ s) = skip_ws s"
  by (cases ea) (force simp: json_sep_def skip_ws_def is_ws_def)+

lemma parse_elements_join:
  assumes "xs \<noteq> []" and "\<forall>x \<in> set xs. reads_back ea lib x \<and> json_ok lib x"
  shows "parse_elements lib (join (json_sep ea (CHR '','')) (map (json_text ea lib) xs) @ CHR '']'' # r) = Inr (xs, r)"
  using assms
proof (induction xs)
  case (Cons x xs)
  show ?case
  proof (cases xs)
    case Nil
    with Cons.prems show ?thesis by (subst parse_elements.simps) (simp add: reads_back_def)
  next
    case (Cons y ys)
    let ?rest = "join (json_sep ea (CHR '','')) (map (json_text ea lib) xs) @ CHR '']'' # r"
    obtain b where b: "\<And>s. json_sep ea (CHR '','') @ s = CHR '','' # b @ s" "\<And>s. skip_ws (b @ s) = skip_ws s"
      using json_sep_append [of ea "CHR '',''"] by blast
    have ih: "parse_elements lib ?rest = Inr (xs, r)" using Cons.IH Cons.prems Cons by simp
    obtain c cs where "json_text ea lib y = c # cs" "\<not> is_ws c"
      using json_dumps_first Cons.prems(2) Cons by (metis list.set_intros(1,2))
    then have ws: "skip_ws (b @ ?rest) = ?rest" using Cons b(2) by (cases ys) simp_all
    have "parse_value lib (json_text ea lib x @ CHR '','' # b @ ?rest) = Inr (x, CHR '','' # b @ ?rest)"
      using Cons.prems(2) by (simp add: reads_back_def)
    moreover obtain d ds where "json_text ea lib x = d # ds"
      using json_dumps_first Cons.prems(2) by (metis list.set_intros(1))
    moreover have "join (json_sep ea (CHR '','')) (map (json_text ea lib) (x # xs)) @ CHR '']'' # r =
        json_text ea lib x @ CHR '','' # b @ ?rest" using Cons b(1) by simp
    ultimately show ?thesis using ih ws by (subst parse_elements.simps) simp
  qed
qed simp

definition json_member :: "json_style \<Rightarrow> pylib \<Rightarrow> pyval \<times> pyval \<Rightarrow> string" where
  "json_member ea lib p = json_str ea (json_key lib (fst p)) @ json_sep ea (CHR '':'') @ json_text ea lib (snd p)"

lemma json_dumps_PDict: "json_text ea lib (PDict d) = ''{'' @ join (json_sep ea (CHR '','')) (map (json_member ea lib) d) @ ''}''"
  by (simp add: json_member_def [abs_def])

lemma scan_json_str: "json_str ea s @ r = CHR 34 # t \<Longrightarrow> scan_string t = Inr (s, r)"
  using scan_string_concat [of ea s r] by (auto simp: json_str_def)

lemma parse_member:
  assumes "reads_back ea lib v" and "json_ok lib v" and "boundary r"
  shows "\<exists>t u. json_member ea lib (PStr k, v) @ r = CHR 34 # t \<and>
    scan_string t = Inr (k, CHR '':'' # u) \<and> parse_value lib (skip_ws u) = Inr (v, r)"
proof -
  obtain b where b: "\<And>s. json_sep ea (CHR '':'') @ s = CHR '':'' # b @ s" "\<And>s. skip_ws (b @ s) = skip_ws s"
    using json_sep_append [of ea "CHR '':''"] by blast
  obtain c cs where "json_text ea lib v = c # cs" "\<not> is_ws c" using json_dumps_first [OF assms(2)] by blast
  then have "skip_ws (b @ json_text ea lib v @ r) = json_text ea lib v @ r" using b(2) by simp
  moreover have "parse_value lib (json_text ea lib v @ r) = Inr (v, r)"
    using assms(1,3) by (simp add: reads_back_def)
  ultimately show ?thesis
    by (intro exI [of _ "concat (map (json_char ea) k) @ CHR 34 # CHR '':'' # b @ json_text ea lib v @ r"]
        exI [of _ "b @ json_text ea lib v @ r"])
      (simp add: json_member_def json_key_def json_str_def scan_string_concat b(1))
qed

lemma parse_members_join:
  assumes "d \<noteq> []" and "\<forall>p \<in> set d. is_str (fst p) \<and> reads_back ea lib (snd p) \<and> json_ok lib (snd p)"
  shows "parse_members lib (join (json_sep ea (CHR '','')) (map (json_member ea lib) d) @ CHR ''}'' # r) = Inr (d, r)"
  using assms
proof (induction d)
  case (Cons p d)
  obtain k v where p: "p = (PStr k, v)" using Cons.prems(2) by (cases p) (auto simp: is_str_def split: pyval.splits)
  have v: "reads_back ea lib v" "json_ok lib v" using Cons.prems(2) p by auto
  show ?case
  proof (cases d)
    case Nil
    then show ?thesis using parse_member [OF v, of "CHR ''}'' # r" k] p
      by (subst parse_members.simps) auto
  next
    case (Cons q ds)
    let ?rest = "join (json_sep ea (CHR '','')) (map (json_member ea lib) d) @ CHR ''}'' # r"
    obtain b where b: "\<And>s. json_sep ea (CHR '','') @ s = CHR '','' # b @ s" "\<And>s. skip_ws (b @ s) = skip_ws s"
      using json_sep_append [of ea "CHR '',''"] by blast
    have ih: "parse_members lib ?rest = Inr (d, r)" using Cons.IH Cons.prems(2) Cons by simp
    have ws: "skip_ws (b @ ?rest) = ?rest" using Cons b(2) by (cases ds) (simp_all add: json_member_def json_str_def)
    obtain t u where t: "json_member ea lib p @ CHR '','' # b @ ?rest = CHR 34 # t"
      "scan_string t = Inr (k, CHR '':'' # u)" "parse_value lib (skip_ws u) = Inr (v, CHR '','' # b @ ?rest)"
      using parse_member [OF v, of "CHR '','' # b @ ?rest" k] p by auto
    have "length (CHR '','' # b @ ?rest) < length (CHR 34 # t)"
      unfolding t(1) [symmetric] by (simp add: json_member_def json_str_def)
    moreover have "join (json_sep ea (CHR '','')) (map (json_member ea lib) (p # d)) @ CHR ''}'' # r = CHR 34 # t"
      using t(1) Cons b(1) by simp
    ultimately show ?thesis using t(2,3) ih ws p by (subst parse_members.simps) simp
  qed
qed simp

lemma al_merge_Nil: "wf_dict e \<Longrightarrow> al_merge [] e = e"
proof (induction e rule: rev_induct)
  case (snoc p e)
  then have e: "al_merge [] e = e" and p: "fst p \<notin> fst ` set e" by (auto simp: wf_dict_def)
  have "AList.update (fst p) (snd p) xs = xs @ [p]" if "fst p \<notin> fst ` set xs" for xs
    using that by (induction xs) auto
  with e p show ?case by (simp add: al_merge_def)
qed (simp add: al_merge_def)

lemma json_reads_back: "json_ok lib v \<Longrightarrow> reads_back ea lib v"
proof (induction lib v rule: json_ok.induct)
  case (1 lib r)
  then show ?case by (simp add: reads_back_def float_ok_def parse_number)
next
  case (2 lib xs)
  show ?case
  proof (cases xs)
    case Nil
    then show ?thesis by (auto simp: reads_back_def parse_value.simps Let_def)
  next
    case (Cons x ys)
    obtain c cs where c: "json_text ea lib x = c # cs" "\<not> is_ws c" "c \<noteq> CHR '']''"
      using json_dumps_first 2 Cons by (metis json_ok.simps(2) list.set_intros(1))
    have first: "\<exists>u. join (json_sep ea (CHR '','')) (map (json_text ea lib) xs) = c # u" using c(1) Cons by (cases ys) auto
    have "parse_elements lib (join (json_sep ea (CHR '','')) (map (json_text ea lib) xs) @ CHR '']'' # r) = Inr (xs, r)" for r
      using parse_elements_join [of xs ea lib r] 2 Cons by auto
    then show ?thesis using first c Cons
      by (auto simp: reads_back_def parse_value.simps Let_def simp del: map_eq_Cons_conv)
  qed
next
  case (3 lib d)
  show ?case
  proof (cases d)
    case Nil
    then show ?thesis by (auto simp: reads_back_def parse_value.simps Let_def)
  next
    case (Cons p e)
    have first: "\<exists>u. join (json_sep ea (CHR '','')) (map (json_member ea lib) d) = CHR 34 # u"
      using Cons by (cases e) (auto simp: json_member_def json_str_def)
    have "parse_members lib (join (json_sep ea (CHR '','')) (map (json_member ea lib) d) @ CHR ''}'' # r) = Inr (d, r)" for r
      using parse_members_join [of d ea lib r] 3 Cons by auto
    moreover have "al_merge [] d = d" using 3 by (simp add: al_merge_Nil)
    ultimately show ?thesis using first
      by (auto simp: reads_back_def parse_value.simps Let_def json_dumps_PDict simp del: json_text.simps)
  qed
next
  case "4_3"
  show ?case using parse_number [OF show_int_scan] by (simp add: reads_back_def)
next
  case "4_4"
  show ?case by (simp add: reads_back_def parse_value.simps json_str_def scan_string_concat)
qed (simp_all add: reads_back_def parse_value.simps)

text \<open>Decoding the encoding of a message gives the message back.\<close>

lemma json_roundtrip: "json_ok lib v \<Longrightarrow> json_loads lib (json_text ea lib v) = Inr v"
proof -
  assume ok: "json_ok lib v"
  obtain c cs where "json_text ea lib v = c # cs" "\<not> is_ws c" using json_dumps_first [OF ok] by blast
  then have "skip_ws (json_text ea lib v) = json_text ea lib v" by simp
  moreover have "parse_value lib (json_text ea lib v @ []) = Inr (v, [])"
    using json_reads_back [OF ok] by (simp add: reads_back_def boundary_def)
  ultimately show ?thesis by (simp add: json_loads_def skip_ws_def)
qed

subsection \<open>Framing\<close>

lemma set_join: "set (join sep xs) \<subseteq> set sep \<union> \<Union> (set ` set xs)"
  by (induction sep xs rule: join.induct) auto

lemma json_char_no_newline: "CHR 10 \<notin> set (json_char ea c)"
proof -
  have "hex_digit k \<noteq> CHR 10" if "k < 16" for k
    using that by (auto simp: hex_digit_def char_of_eq_iff take_bit_eq_mod)
  moreover have "code_of c div 16 < 16" by (simp add: less_mult_imp_div_less)
  moreover have "of_char c mod 16 < (16::nat)" by simp
  ultimately show ?thesis by (auto simp: json_char_def Let_def control_chars dest!: sym [of "CHR 10"])
qed

lemma json_str_no_newline: "CHR 10 \<notin> set (json_str ea s)"
  using json_char_no_newline by (auto simp: json_str_def)

lemma show_int_no_newline: "CHR 10 \<notin> set (show_int i)"
proof -
  have "CHR 10 \<notin> set (show_nat n)" for n
    using show_nat_decimals [of n] by (auto simp: is_decimal_def subset_eq)
  then show ?thesis by (simp add: show_int_def)
qed

lemma json_sep_no_newline: "CHR 10 \<notin> set (json_sep ea (CHR '',''))" "CHR 10 \<notin> set (json_sep ea (CHR '':''))"
  by (cases ea; simp add: json_sep_def)+

text \<open>The encoding is a single line, so one message is one frame.\<close>

lemma json_dumps_no_newline:
  assumes "\<forall>r. CHR 10 \<notin> set (lib_float_repr lib r)"
  shows "CHR 10 \<notin> set (json_text ea lib v)"
  using assms
proof (induction ea lib v rule: json_text.induct)
  case (6 ea lib xs)
  then show ?case using set_join [of "json_sep ea (CHR '','')" "map (json_text ea lib) xs"] json_sep_no_newline [of ea] by auto
next
  case (7 ea lib d)
  have "CHR 10 \<notin> set (json_member ea lib p)" if "p \<in> set d" for p
    using 7 that json_str_no_newline json_sep_no_newline by (simp add: json_member_def)
  then have "CHR 10 \<notin> set (join (json_sep ea (CHR '','')) (map (json_member ea lib) d))"
    using set_join [of "json_sep ea (CHR '','')" "map (json_member ea lib) d"] json_sep_no_newline [of ea] by auto
  then show ?case by (simp add: json_dumps_PDict del: json_text.simps)
qed (use json_str_no_newline show_int_no_newline in simp_all)

end
