(* ===== verification/Jsonrpc.thy ===== *)
theory Jsonrpc
  imports Json_Codec
begin

text \<open>
  \<open>protocol/jsonrpc.py\<close> and \<open>protocol/mcp.py\<close>: classification of a decoded message, the
  decoder and encoder of one wire line, the error a denied client sees, and what the gateway
  reads from a tools/call request and from a result. A message is its raw dictionary.
\<close>

section \<open>Messages\<close>

type_synonym message = pydict

definition msg_id :: "message \<Rightarrow> pyval" where
  "msg_id raw = dget_none raw ''id''"

definition msg_method :: "message \<Rightarrow> string option" where
  "msg_method raw = (case dget_none raw ''method'' of PStr m \<Rightarrow> Some m | _ \<Rightarrow> None)"

definition msg_params :: "message \<Rightarrow> pydict" where
  "msg_params raw = (case dget_none raw ''params'' of PDict p \<Rightarrow> p | _ \<Rightarrow> [])"

definition is_request :: "message \<Rightarrow> bool" where
  "is_request raw = (msg_method raw \<noteq> None \<and> msg_id raw \<noteq> PNone)"

definition is_notification :: "message \<Rightarrow> bool" where
  "is_notification raw = (msg_method raw \<noteq> None \<and> msg_id raw = PNone)"

definition is_response :: "message \<Rightarrow> bool" where
  "is_response raw = (msg_method raw = None \<and> (dhas raw ''result'' \<or> dhas raw ''error''))"

text \<open>\<open>decode_line\<close>: \<open>None\<close> for whatever is not a JSON object.\<close>

definition decode_line :: "pylib \<Rightarrow> string \<Rightarrow> (message option) res" where
  "decode_line lib line =
     (case json_loads lib line of
        Inl (ValueError _) \<Rightarrow> Inr None
      | Inl e \<Rightarrow> Inl e
      | Inr (PDict d) \<Rightarrow> Inr (Some d)
      | Inr _ \<Rightarrow> Inr None)"

definition encode :: "pylib \<Rightarrow> pydict \<Rightarrow> string" where
  "encode lib payload = json_dumps lib (PDict payload)"

definition ERROR_POLICY_DENIED :: int where "ERROR_POLICY_DENIED = - 32001"

definition error_response :: "pyval \<Rightarrow> int \<Rightarrow> string \<Rightarrow> pydict" where
  "error_response request_id code message =
     [(PStr ''jsonrpc'', PStr ''2.0''), (PStr ''id'', request_id),
      (PStr ''error'', PDict [(PStr ''code'', PInt code), (PStr ''message'', PStr message)])]"

definition quoted :: "string \<Rightarrow> string" where
  "quoted s = [CHR 39] @ s @ [CHR 39]"

definition denied_response :: "pylib \<Rightarrow> pyval \<Rightarrow> string \<Rightarrow> pyval \<Rightarrow> pydict" where
  "denied_response lib request_id tool reason =
     error_response request_id ERROR_POLICY_DENIED
       (''Tool call '' @ quoted tool @ '' denied by security gateway policy ('' @ pstr lib reason @
        ''). The request never reached the upstream server.'')"

section \<open>MCP\<close>

definition METHOD_TOOLS_LIST :: string where "METHOD_TOOLS_LIST = ''tools/list''"
definition METHOD_TOOLS_CALL :: string where "METHOD_TOOLS_CALL = ''tools/call''"

definition is_tool_call :: "message \<Rightarrow> bool" where
  "is_tool_call raw = (msg_method raw = Some METHOD_TOOLS_CALL \<and> is_request raw)"

definition tool_call_parts :: "message \<Rightarrow> string \<times> pydict" where
  "tool_call_parts raw =
     ((case dget_none (msg_params raw) ''name'' of
         PStr n \<Rightarrow> if n \<noteq> [] then n else ''<unknown>''
       | _ \<Rightarrow> ''<unknown>''),
      (case dget_none (msg_params raw) ''arguments'' of PDict a \<Rightarrow> a | _ \<Rightarrow> []))"

definition result_is_error :: "message \<Rightarrow> bool" where
  "result_is_error raw =
     (dhas raw ''error'' \<or>
      (case dget_none raw ''result'' of PDict r \<Rightarrow> dget_none r ''isError'' = PBool True | _ \<Rightarrow> False))"

definition result_size_bytes :: "pylib \<Rightarrow> message \<Rightarrow> nat" where
  "result_size_bytes lib raw =
     (case dget_default raw ''result'' (dget_none raw ''error'') of
        PNone \<Rightarrow> 0
      | body \<Rightarrow> utf8_len (json_dumps lib body))"

section \<open>Facts\<close>

text \<open>Every decoded message is exactly one of request, notification, response or other.\<close>

lemma message_kinds_exclusive:
  "\<not> (is_request raw \<and> is_notification raw)"
  "\<not> (is_request raw \<and> is_response raw)"
  "\<not> (is_notification raw \<and> is_response raw)"
  by (auto simp: is_request_def is_notification_def is_response_def)

text \<open>The receiver of an encoded message reads the message the gateway encoded.\<close>

lemma decode_encode: "json_ok lib (PDict m) \<Longrightarrow> decode_line lib (encode lib m) = Inr (Some m)"
  using json_roundtrip [of lib "PDict m"] by (simp add: decode_line_def encode_def)

lemma encode_one_line:
  "\<forall>r. CHR 10 \<notin> set (lib_float_repr lib r) \<Longrightarrow> CHR 10 \<notin> set (encode lib m)"
  unfolding encode_def by (rule json_dumps_no_newline)

lemma msg_id_put [simp]:
  "k \<noteq> ''id'' \<Longrightarrow> msg_id (dput k v raw) = msg_id raw"
  by (simp add: msg_id_def dget_none_def dget_default_def)

lemma denied_response_id [simp]: "msg_id (denied_response lib i tool reason) = i"
  by (simp add: msg_id_def denied_response_def error_response_def dget_none_def dget_default_def dget_def)

end
