(* ===== verification/Approvals.thy ===== *)
theory Approvals
  imports Policy_Rules
begin

text \<open>
  \<open>approvals/\<close>: the request and resolution values, the deny, allow and HTTP channels, and the
  broker that turns a timeout or a failure of a channel into a resolution. The HTTP exchange
  (\<open>HttpChannel._post\<close>) is a parameter: the \<open>n\<close>-th exchange with an approver yields some JSON
  value, exceeds the deadline, or raises.
\<close>

section \<open>Values\<close>

record approval_request =
  ar_request_id :: pyval
  ar_session_id :: string
  ar_tool :: string
  ar_arguments :: pydict
  ar_principal :: string
  ar_reason :: pyval

definition to_wire :: "approval_request \<Rightarrow> pydict" where
  "to_wire r =
     [(PStr ''request_id'', ar_request_id r), (PStr ''session_id'', PStr (ar_session_id r)),
      (PStr ''tool'', PStr (ar_tool r)), (PStr ''arguments'', PDict (ar_arguments r)),
      (PStr ''principal'', PStr (ar_principal r)), (PStr ''reason'', ar_reason r)]"

record resolution =
  rn_approved :: bool
  rn_approver :: string
  rn_note :: string

definition fail_closed :: "string \<Rightarrow> resolution" where
  "fail_closed note = \<lparr>rn_approved = False, rn_approver = ''system'', rn_note = ''fail-closed: '' @ note\<rparr>"

section \<open>Channels\<close>

datatype post_result = Posted pyval | PostTimeout | PostError string

type_synonym http_post = "nat \<Rightarrow> string \<Rightarrow> pydict \<Rightarrow> post_result"

datatype channel = DenyChannel | AllowChannel | HttpChannel string

definition channel_name :: "channel \<Rightarrow> string" where
  "channel_name c = (case c of DenyChannel \<Rightarrow> ''deny'' | AllowChannel \<Rightarrow> ''allow'' | HttpChannel _ \<Rightarrow> ''http'')"

definition channel_can_approve :: "channel \<Rightarrow> bool" where
  "channel_can_approve c = (c \<noteq> DenyChannel)"

text \<open>What awaiting a channel comes to: an answer, the deadline, or an exception of some class.\<close>

datatype channel_outcome = Answer resolution | TimedOut | Raised string

definition make_http_channel :: "string \<Rightarrow> channel" where
  "make_http_channel url = HttpChannel (rev (dropWhile (\<lambda>c. c = CHR ''/'') (rev url)) @ ''/api/approvals'')"

text \<open>\<open>Resolution(bool(data["approved"]), str(data.get("approver", ...)), ...)\<close>.\<close>

definition read_answer :: "pylib \<Rightarrow> pyval \<Rightarrow> channel_outcome" where
  "read_answer lib data =
     (case data of
        PDict d \<Rightarrow>
          (case dget d ''approved'' of
             None \<Rightarrow> Raised ''KeyError''
           | Some a \<Rightarrow>
               Answer \<lparr>rn_approved = truthy a,
                       rn_approver = pstr lib (dget_default d ''approver'' (PStr ''console'')),
                       rn_note = pstr lib (dget_default d ''note'' (PStr []))\<rparr>)
      | _ \<Rightarrow> Raised ''TypeError'')"

definition channel_request ::
  "pylib \<Rightarrow> http_post \<Rightarrow> nat \<Rightarrow> channel \<Rightarrow> approval_request \<Rightarrow> channel_outcome" where
  "channel_request lib post n c req =
     (case c of
        DenyChannel \<Rightarrow>
          Answer \<lparr>rn_approved = False, rn_approver = ''policy'',
                  rn_note = ''no approver configured; fail-closed deny''\<rparr>
      | AllowChannel \<Rightarrow>
          Answer \<lparr>rn_approved = True, rn_approver = ''auto'', rn_note = ''auto-approved (dev mode)''\<rparr>
      | HttpChannel url \<Rightarrow>
          (case post n url (to_wire req) of
             Posted data \<Rightarrow> read_answer lib data
           | PostTimeout \<Rightarrow> TimedOut
           | PostError cls \<Rightarrow> Raised cls))"

section \<open>The broker\<close>

record broker =
  br_channel :: channel
  br_deadline :: rat
  br_fail_open :: bool

text \<open>\<open>f"{x:.0f}"\<close>: to the nearest integer, ties to even.\<close>

definition round_half_even :: "rat \<Rightarrow> int" where
  "round_half_even x =
     (let f = floor x; r = x - of_int f in
      if r < 1 / 2 then f else if r > 1 / 2 then f + 1 else if even f then f else f + 1)"

definition on_error :: "broker \<Rightarrow> string \<Rightarrow> resolution" where
  "on_error b note =
     (if br_fail_open b
      then \<lparr>rn_approved = True, rn_approver = ''system'',
            rn_note = ''fail-open: '' @ note @ '' (posture=open)''\<rparr>
      else fail_closed note)"

definition broker_request :: "pylib \<Rightarrow> http_post \<Rightarrow> nat \<Rightarrow> broker \<Rightarrow> approval_request \<Rightarrow> resolution" where
  "broker_request lib post n b req =
     (case channel_request lib post n (br_channel b) req of
        Answer r \<Rightarrow> r
      | TimedOut \<Rightarrow> on_error b (''no decision within '' @ show_int (round_half_even (br_deadline b)) @ ''s'')
      | Raised cls \<Rightarrow> on_error b (''approver unavailable ('' @ cls @ '')''))"

definition broker_can_approve :: "broker \<Rightarrow> bool" where
  "broker_can_approve b = channel_can_approve (br_channel b)"

definition build_broker :: "string \<Rightarrow> string option \<Rightarrow> rat \<Rightarrow> bool \<Rightarrow> broker res" where
  "build_broker mode url deadline fail_open =
     (if mode = ''deny'' then
        Inr \<lparr>br_channel = DenyChannel, br_deadline = deadline, br_fail_open = fail_open\<rparr>
      else if mode = ''allow'' then
        Inr \<lparr>br_channel = AllowChannel, br_deadline = deadline, br_fail_open = fail_open\<rparr>
      else if mode = ''http'' then
        (case url of
           None \<Rightarrow> Inl (ValueError ''--approvals http requires --approvals-url'')
         | Some u \<Rightarrow>
             if u = [] then Inl (ValueError ''--approvals http requires --approvals-url'')
             else Inr \<lparr>br_channel = make_http_channel u, br_deadline = deadline, br_fail_open = fail_open\<rparr>)
      else Inl (ValueError ''unknown approvals mode''))"

section \<open>The broker fails closed\<close>

lemma on_error_approved [simp]: "rn_approved (on_error b note) = br_fail_open b"
  by (simp add: on_error_def fail_closed_def)

text \<open>
  With \<open>fail_open\<close> off, an approval always comes from an answer of the channel that says so:
  the development-only allow channel, or an approver that replied with a true \<open>approved\<close> field.
\<close>

lemma broker_approves:
  assumes "rn_approved (broker_request lib post n b req)" and "\<not> br_fail_open b"
  shows "br_channel b = AllowChannel \<or>
    (\<exists>url d a. br_channel b = HttpChannel url \<and> post n url (to_wire req) = Posted (PDict d) \<and>
       dget d ''approved'' = Some a \<and> truthy a)"
  using assms
  by (auto simp: broker_request_def channel_request_def read_answer_def
      split: channel.splits channel_outcome.splits post_result.splits pyval.splits option.splits)

lemma broker_unavailable:
  assumes "br_channel b = HttpChannel url"
    and "post n url (to_wire req) = PostTimeout \<or> (\<exists>c. post n url (to_wire req) = PostError c)"
  shows "rn_approved (broker_request lib post n b req) = br_fail_open b"
  using assms by (auto simp: broker_request_def channel_request_def)

lemma broker_deny_channel: "br_channel b = DenyChannel \<Longrightarrow> \<not> rn_approved (broker_request lib post n b req)"
  by (simp add: broker_request_def channel_request_def)

end
