(* ===== verification/Anomaly.thy ===== *)
theory Anomaly
  imports Policy_Rules
begin

text \<open>
  \<open>anomaly/\<close>: the session trace shown to a backend, the local heuristic backend, the wrapper
  around the model-backed one (whose answer to the \<open>n\<close>-th question is a parameter), and the
  debounced monitor.
\<close>

record session_trace =
  tr_history :: "string list"
  tr_last_tool :: string
  tr_tainted :: bool
  tr_blocked_count :: nat

record verdict =
  vd_anomalous :: bool
  vd_severity :: pyval
  vd_rationale :: pyval

definition to_prompt_json :: "session_trace \<Rightarrow> pydict" where
  "to_prompt_json t =
     [(PStr ''tool_call_history'', PList (map PStr (tr_history t))),
      (PStr ''most_recent_call'', PStr (tr_last_tool t)),
      (PStr ''session_tainted_by_untrusted_content'', PBool (tr_tainted t)),
      (PStr ''policy_blocks_so_far'', PInt (int (tr_blocked_count t)))]"

section \<open>Backends\<close>

definition SENSITIVE_READS :: "string list" where
  "SENSITIVE_READS =
     [''crm.get_customer'', ''db.execute_sql'', ''secrets.dump'', ''files.read_any'', ''logs.tail'',
      ''vault.read'', ''get_file_contents'']"

definition OUTBOUND :: "string list" where
  "OUTBOUND = [''http.post'', ''email.send'', ''web.fetch'', ''create_gist'', ''push_files'']"

definition heuristic_assess :: "session_trace \<Rightarrow> verdict option" where
  "heuristic_assess t =
     (if (\<exists>x \<in> set (tr_history t). x \<in> set SENSITIVE_READS) \<and> tr_last_tool t \<in> set OUTBOUND then
        Some \<lparr>vd_anomalous = True, vd_severity = PStr (if tr_tainted t then ''high'' else ''medium''),
              vd_rationale = PStr (''sensitive data was read earlier this session and the agent is now calling ''
                @ [CHR 39] @ tr_last_tool t @ [CHR 39] @ '', an outbound tool '' @ em_dash @ '' classic exfiltration shape'')\<rparr>
      else if tr_blocked_count t \<ge> 2 \<and> length (remdups (tr_history t)) \<ge> 3 then
        Some \<lparr>vd_anomalous = True, vd_severity = PStr ''medium'',
              vd_rationale = PStr (''the agent is touching many distinct tools and accumulating blocks (''
                @ show_nat (tr_blocked_count t) @ '') '' @ em_dash @ '' looks like it is probing for what it can reach'')\<rparr>
      else None)"

text \<open>
  \<open>ClaudeBackend\<close>: no client, an API failure or an empty answer abstain; a field missing from
  the answer is a \<open>KeyError\<close>.
\<close>

type_synonym model_call = "nat \<Rightarrow> pydict \<Rightarrow> (pydict option) res"

datatype backend = Heuristic | Claude bool

definition backend_name :: "backend \<Rightarrow> string" where
  "backend_name b = (case b of Heuristic \<Rightarrow> ''heuristic'' | Claude _ \<Rightarrow> ''claude'')"

definition claude_assess :: "model_call \<Rightarrow> nat \<Rightarrow> bool \<Rightarrow> session_trace \<Rightarrow> (verdict option) res" where
  "claude_assess call n has_client t =
     (if \<not> has_client then Inr None
      else (case call n (to_prompt_json t) of
              Inl _ \<Rightarrow> Inr None
            | Inr None \<Rightarrow> Inr None
            | Inr (Some d) \<Rightarrow>
                (case (dget d ''anomalous'', dget d ''severity'', dget d ''rationale'') of
                   (Some a, Some s, Some r) \<Rightarrow>
                     Inr (Some \<lparr>vd_anomalous = truthy a, vd_severity = s, vd_rationale = r\<rparr>)
                 | _ \<Rightarrow> Inl KeyError)))"

definition assess :: "model_call \<Rightarrow> nat \<Rightarrow> backend \<Rightarrow> session_trace \<Rightarrow> (verdict option) res" where
  "assess call n b t =
     (case b of Heuristic \<Rightarrow> Inr (heuristic_assess t) | Claude c \<Rightarrow> claude_assess call n c t)"

section \<open>The monitor\<close>

record monitor =
  mo_backend :: backend
  mo_debounce :: nat
  mo_since_last :: nat

definition make_monitor :: "backend \<Rightarrow> int \<Rightarrow> monitor" where
  "make_monitor b debounce = \<lparr>mo_backend = b, mo_debounce = nat (max 1 debounce), mo_since_last = 0\<rparr>"

definition observe ::
  "model_call \<Rightarrow> nat \<Rightarrow> session_trace \<Rightarrow> bool \<Rightarrow> monitor \<Rightarrow> (verdict option) res \<times> monitor" where
  "observe call n t force m =
     (let since = Suc (mo_since_last m) in
      if \<not> force \<and> since < mo_debounce m then (Inr None, m\<lparr>mo_since_last := since\<rparr>)
      else (assess call n (mo_backend m) t, m\<lparr>mo_since_last := 0\<rparr>))"

text \<open>\<open>build_monitor\<close>; \<open>claude_available\<close>: the extra is installed and a key is set.\<close>

definition build_monitor :: "bool \<Rightarrow> string \<Rightarrow> int \<Rightarrow> (monitor option) res" where
  "build_monitor claude_available mode debounce =
     (if mode = ''off'' then Inr None
      else if mode = ''heuristic'' then Inr (Some (make_monitor Heuristic debounce))
      else if mode = ''claude'' then
        Inr (Some (make_monitor (if claude_available then Claude True else Heuristic) debounce))
      else Inl (ValueError ''unknown anomaly mode''))"

section \<open>Debouncing\<close>

definition monitor_inv :: "monitor \<Rightarrow> bool" where
  "monitor_inv m = (0 < mo_debounce m \<and> mo_since_last m < mo_debounce m)"

lemma monitor_inv_make: "monitor_inv (make_monitor b k)"
  by (simp add: monitor_inv_def make_monitor_def)

lemma monitor_inv_observe [step_inv]: "monitor_inv m \<Longrightarrow> monitor_inv (snd (observe call n t f m))"
  by (auto simp: monitor_inv_def observe_def Let_def)

text \<open>A forced look always consults the backend.\<close>

lemma observe_forced: "fst (observe call n t True m) = assess call n (mo_backend m) t"
  by (simp add: observe_def Let_def)

fun observe_run :: "model_call \<Rightarrow> (nat \<times> session_trace) list \<Rightarrow> monitor \<Rightarrow> monitor" where
  "observe_run call [] m = m"
| "observe_run call (p # ps) m = observe_run call ps (snd (observe call (fst p) (snd p) False m))"

lemma observe_debounce [simp]:
  "mo_debounce (snd (observe call n t f m)) = mo_debounce m"
  "mo_backend (snd (observe call n t f m)) = mo_backend m"
  by (simp_all add: observe_def Let_def)

text \<open>Unforced, the backend is consulted exactly once per \<open>debounce\<close> observations.\<close>

lemma observe_run_since:
  "monitor_inv m \<Longrightarrow> mo_since_last (observe_run call ps m) = (mo_since_last m + length ps) mod mo_debounce m"
proof (induction ps arbitrary: m)
  case (Cons p ps)
  let ?m = "snd (observe call (fst p) (snd p) False m)"
  have "mo_since_last ?m = Suc (mo_since_last m) mod mo_debounce m"
  proof (cases "Suc (mo_since_last m) < mo_debounce m")
    case False
    then have "Suc (mo_since_last m) = mo_debounce m" using Cons.prems by (simp add: monitor_inv_def)
    then show ?thesis by (simp add: observe_def Let_def)
  qed (simp add: observe_def Let_def)
  then have "(mo_since_last ?m + length ps) mod mo_debounce m = (Suc (mo_since_last m) + length ps) mod mo_debounce m"
    by (simp add: mod_add_left_eq)
  with Cons.IH [OF monitor_inv_observe [OF Cons.prems]] show ?case by simp
qed (simp add: monitor_inv_def)

end
