(* ===== verification/Pipeline.thy ===== *)
theory Pipeline
  imports Policy_Engine Redaction_Engine Jsonrpc Approvals Anomaly
begin

text \<open>
  \<open>core/outcome.py\<close>, \<open>core/context.py\<close>, \<open>policy/actions/\<close> and \<open>core/pipeline.py\<close>: the call
  context, the action handlers, the five stages in their canonical order and the runner that
  turns a crash of any stage into a denial. A stage is a name and a function, so the facts
  about the runner hold for every pipeline, not only the default one.

  What a stage may change besides its context is the \<open>world\<close>: the redaction service (its vault)
  and the number of questions put to an approver or to the anomaly model so far. What stays
  fixed is the \<open>env\<close>: the standard library parameters, the approver and the model.
  Stage timings are wall-clock readings and are left out.
\<close>

section \<open>Outcomes and contexts\<close>

datatype pverdict = CONTINUE | DENY

record outcome =
  oc_verdict :: pverdict
  oc_reason :: pyval
  oc_stage :: string
  oc_risk_event :: string
  oc_internal_error :: bool

definition denied :: "outcome \<Rightarrow> bool" where
  "denied oc = (oc_verdict oc = DENY)"

definition proceed :: outcome where
  "proceed =
     \<lparr>oc_verdict = CONTINUE, oc_reason = PStr [], oc_stage = [], oc_risk_event = [],
      oc_internal_error = False\<rparr>"

definition deny :: "pyval \<Rightarrow> string \<Rightarrow> outcome" where
  "deny reason risk_event =
     \<lparr>oc_verdict = DENY, oc_reason = reason, oc_stage = [], oc_risk_event = risk_event,
      oc_internal_error = False\<rparr>"

lemma outcome_simps [simp]:
  "\<not> denied proceed" "denied (deny r e)" "\<not> oc_internal_error (deny r e)"
  "\<not> oc_internal_error proceed" "oc_risk_event (deny r e) = e" "oc_reason (deny r e) = r"
  "oc_risk_event proceed = []"
  by (simp_all add: denied_def proceed_def deny_def)

record principal =
  pn_id :: string
  pn_roles :: "string list"

definition default_principal :: principal where
  "default_principal = \<lparr>pn_id = ''local'', pn_roles = []\<rparr>"

definition first_role :: "principal \<Rightarrow> string option" where
  "first_role p = (case pn_roles p of [] \<Rightarrow> None | r # _ \<Rightarrow> Some r)"

record call_context =
  cx_session :: session
  cx_message :: message
  cx_tool :: string
  cx_arguments :: pydict
  cx_principal :: principal
  cx_decision :: "decision option"
  cx_effective_arguments :: "pydict option"
  cx_argument_changes :: "pyval list"
  cx_argument_redactions :: "pydict option"
  cx_disposition :: disposition
  cx_redaction_spec :: "redaction_spec option"
  cx_approval :: "resolution option"

definition make_call_context :: "session \<Rightarrow> message \<Rightarrow> string \<Rightarrow> pydict \<Rightarrow> principal \<Rightarrow> call_context" where
  "make_call_context s raw tool args p =
     \<lparr>cx_session = s, cx_message = raw, cx_tool = tool, cx_arguments = args, cx_principal = p,
      cx_decision = None, cx_effective_arguments = None, cx_argument_changes = [],
      cx_argument_redactions = None, cx_disposition = DNone, cx_redaction_spec = None,
      cx_approval = None\<rparr>"

definition outbound_arguments :: "call_context \<Rightarrow> pydict" where
  "outbound_arguments ctx =
     (case cx_effective_arguments ctx of Some a \<Rightarrow> a | None \<Rightarrow> cx_arguments ctx)"

record env =
  e_lib :: pylib
  e_post :: http_post
  e_model :: model_call

record world =
  w_service :: redaction_service
  w_asked :: nat

type_synonym 'a act = "call_context \<Rightarrow> world \<Rightarrow> 'a res \<times> call_context \<times> world"

text \<open>\<open>str(exc)\<close>; the messages of built-in exceptions are not modelled, their class is shown.\<close>

definition exn_str :: "exn \<Rightarrow> string" where
  "exn_str e = (case e of
       PolicyError s \<Rightarrow> s | BundleError s \<Rightarrow> s | IdentityError s \<Rightarrow> s | ConnectorError s \<Rightarrow> s | ValueError s \<Rightarrow> s
     | TypeError \<Rightarrow> ''TypeError'' | AttributeError \<Rightarrow> ''AttributeError'' | KeyError \<Rightarrow> ''KeyError''
     | AssertionError s \<Rightarrow> s | RedactionBudgetExceeded \<Rightarrow> ''exceeds redaction budget'' | OtherError s \<Rightarrow> s)"

section \<open>Action handlers\<close>

datatype simple_handler = HAllow | HBlock | HRedact bool | HRewrite | HQuarantine

datatype handler = Simple simple_handler | RequireApproval "broker option"

definition allow_on_request :: "outcome act" where
  "allow_on_request ctx w = (Inr proceed, ctx, w)"

definition block_on_request :: "decision \<Rightarrow> outcome act" where
  "block_on_request d ctx w = (Inr (deny (d_reason d) []), ctx, w)"

definition rewrite_on_request :: "env \<Rightarrow> decision \<Rightarrow> outcome act" where
  "rewrite_on_request ev d ctx w =
     (case apply_rewrites (e_lib ev) (cx_arguments ctx) (d_rewrites d) of
        Inl e \<Rightarrow> (Inl e, ctx, w)
      | Inr (new_args, changes) \<Rightarrow>
          (Inr proceed,
           if changes \<noteq> []
           then ctx\<lparr>cx_effective_arguments := Some new_args, cx_argument_changes := changes\<rparr> else ctx,
           w))"

definition quarantine_on_request :: "outcome act" where
  "quarantine_on_request ctx w = (Inr proceed, ctx\<lparr>cx_disposition := DQuarantine\<rparr>, w)"

definition the_dict :: "pyval \<Rightarrow> pydict" where
  "the_dict v = (case v of PDict d \<Rightarrow> d | _ \<Rightarrow> [])"

definition redact_on_request :: "bool \<Rightarrow> decision \<Rightarrow> outcome act" where
  "redact_on_request has_service d ctx w =
     (if \<not> has_service then
        (Inr (deny (PStr ''action 'redact' requires the redaction engine to be enabled; failing closed'') []), ctx, w)
      else
        (let sp = (case d_redaction d of Some s \<Rightarrow> s | None \<Rightarrow> default_spec) in
         case service_redact (w_service w) (PDict (cx_arguments ctx)) sp of
           (Inl e, sv) \<Rightarrow>
             (Inr (deny (PStr (''argument redaction failed ('' @ exn_str e @ ''); failing closed'')) []),
              ctx, w\<lparr>w_service := sv\<rparr>)
         | (Inr (scrubbed, report), sv) \<Rightarrow>
             (let ctx1 = (if report_total report \<noteq> 0
                          then ctx\<lparr>cx_effective_arguments := Some (the_dict scrubbed),
                                   cx_argument_redactions := Some (report_summary report)\<rparr>
                          else ctx)
              in (Inr proceed, ctx1\<lparr>cx_disposition := DRedact, cx_redaction_spec := Some sp\<rparr>,
                  w\<lparr>w_service := sv\<rparr>))))"

definition simple_on_request :: "env \<Rightarrow> simple_handler \<Rightarrow> decision \<Rightarrow> outcome act" where
  "simple_on_request ev h d =
     (case h of
        HAllow \<Rightarrow> allow_on_request
      | HBlock \<Rightarrow> block_on_request d
      | HRedact svc \<Rightarrow> redact_on_request svc d
      | HRewrite \<Rightarrow> rewrite_on_request ev d
      | HQuarantine \<Rightarrow> quarantine_on_request)"

text \<open>
  The handler set of a gateway (\<open>build_action_handlers\<close>): the registry's handlers, the redact
  handler with or without its service, and the approval handler with or without its broker.
\<close>

type_synonym handlers = "(string \<times> handler) list"

definition build_action_handlers :: "bool \<Rightarrow> broker option \<Rightarrow> handlers" where
  "build_action_handlers has_redaction br =
     [(''allow'', Simple HAllow), (''block'', Simple HBlock), (''redact'', Simple (HRedact has_redaction)),
      (''rewrite'', Simple HRewrite), (''quarantine'', Simple HQuarantine),
      (''require_approval'', RequireApproval br)]"

definition terminal_deny :: "handler \<Rightarrow> bool" where
  "terminal_deny h =
     (case h of
        Simple HBlock \<Rightarrow> True
      | Simple (HRedact svc) \<Rightarrow> \<not> svc
      | RequireApproval br \<Rightarrow> (case br of None \<Rightarrow> True | Some b \<Rightarrow> \<not> broker_can_approve b)
      | _ \<Rightarrow> False)"

definition denying_actions :: "handlers \<Rightarrow> string list" where
  "denying_actions hs = map fst (filter (\<lambda>p. terminal_deny (snd p)) hs)"

definition find_handler :: "handlers \<Rightarrow> pyval \<Rightarrow> (handler option) res" where
  "find_handler hs name =
     (case name of
        PStr n \<Rightarrow> Inr (map_of hs n)
      | _ \<Rightarrow> (case py_key name of None \<Rightarrow> Inl TypeError | Some _ \<Rightarrow> Inr None))"

definition approval_request_of :: "call_context \<Rightarrow> decision \<Rightarrow> approval_request" where
  "approval_request_of ctx d =
     \<lparr>ar_request_id = msg_id (cx_message ctx), ar_session_id = s_id (cx_session ctx),
      ar_tool = cx_tool ctx, ar_arguments = cx_arguments ctx,
      ar_principal = pn_id (cx_principal ctx), ar_reason = d_reason d\<rparr>"

text \<open>
  \<open>RequireApprovalHandler.on_request\<close>. Only the approval handler itself is registered under
  \<open>require_approval\<close>, so the check \<open>then == self.name\<close> is the lookup finding it.
\<close>

definition approval_on_request :: "env \<Rightarrow> handlers \<Rightarrow> broker option \<Rightarrow> decision \<Rightarrow> outcome act" where
  "approval_on_request ev hs br d ctx w =
     (case br of
        None \<Rightarrow>
          (Inr (deny (PStr ''action 'require_approval' requires an approval broker; failing closed'') []), ctx, w)
      | Some b \<Rightarrow>
          (let r = broker_request (e_lib ev) (e_post ev) (w_asked w) b (approval_request_of ctx d);
               ctx1 = ctx\<lparr>cx_approval := Some r\<rparr>;
               w1 = w\<lparr>w_asked := Suc (w_asked w)\<rparr>
           in if \<not> rn_approved r then
                (Inr (deny (PStr (''human approval denied ('' @ rn_note r @ '')'')) APPROVAL_DENIED), ctx1, w1)
              else
                (case find_handler hs (d_then_action d) of
                   Inl e \<Rightarrow> (Inl e, ctx1, w1)
                 | Inr (Some (RequireApproval _)) \<Rightarrow>
                     (Inr (deny (PStr ''misconfigured rule: then=require_approval; failing closed'') []), ctx1, w1)
                 | Inr None \<Rightarrow>
                     (Inr (deny (PStr (''no handler for then action '' @
                        py_repr (lib_float_repr (e_lib ev)) (d_then_action d) @ ''; failing closed'')) []), ctx1, w1)
                 | Inr (Some (Simple h)) \<Rightarrow> simple_on_request ev h d ctx1 w1)))"

definition on_request :: "env \<Rightarrow> handlers \<Rightarrow> handler \<Rightarrow> decision \<Rightarrow> outcome act" where
  "on_request ev hs h d =
     (case h of
        Simple s \<Rightarrow> simple_on_request ev s d
      | RequireApproval br \<Rightarrow> approval_on_request ev hs br d)"

section \<open>Stages\<close>

definition session_gate_handle :: "outcome act" where
  "session_gate_handle ctx w =
     (Inr (if s_suspended (cx_session ctx)
           then deny (PStr ''session suspended by risk engine; all tool calls refused'') []
           else proceed), ctx, w)"

definition policy_handle :: "policy_engine \<Rightarrow> outcome act" where
  "policy_handle pe ctx w =
     (case evaluate pe (cx_tool ctx) (first_role (cx_principal ctx)) of
        Inl e \<Rightarrow> (Inl e, ctx, w)
      | Inr d \<Rightarrow> (Inr proceed, ctx\<lparr>cx_decision := Some d\<rparr>, w))"

fun check_constraints :: "pylib \<Rightarrow> regex_constraint list \<Rightarrow> pydict \<Rightarrow> pyval option" where
  "check_constraints lib [] args = None"
| "check_constraints lib (c # cs) args =
     (case constraint_check lib c args of Some v \<Rightarrow> Some v | None \<Rightarrow> check_constraints lib cs args)"

definition constraints_handle :: "env \<Rightarrow> outcome act" where
  "constraints_handle ev ctx w =
     (case cx_decision ctx of
        None \<Rightarrow> (Inl (AssertionError ''constraints stage requires a decision''), ctx, w)
      | Some d \<Rightarrow>
          (Inr (case check_constraints (e_lib ev) (d_constraints d) (cx_arguments ctx) of
                  Some v \<Rightarrow> deny v CONSTRAINT_VIOLATION
                | None \<Rightarrow> proceed), ctx, w))"

definition sequence_handle :: "sequence_policy \<Rightarrow> outcome act" where
  "sequence_handle sq ctx w =
     (Inr (case sequence_check sq (cx_tool ctx) (cx_session ctx) of
             Some reason \<Rightarrow> deny reason SEQUENCE_VIOLATION
           | None \<Rightarrow> proceed), ctx, w)"

definition score_denial :: "outcome \<Rightarrow> outcome" where
  "score_denial oc =
     (if denied oc \<and> oc_risk_event oc = [] then oc\<lparr>oc_risk_event := BLOCKED_TOOL\<rparr> else oc)"

definition action_handle :: "env \<Rightarrow> handlers \<Rightarrow> outcome act" where
  "action_handle ev hs ctx w =
     (case cx_decision ctx of
        None \<Rightarrow> (Inl (AssertionError ''action stage requires a decision''), ctx, w)
      | Some d \<Rightarrow>
          (case find_handler hs (d_action d) of
             Inl e \<Rightarrow> (Inl e, ctx, w)
           | Inr None \<Rightarrow>
               (Inr (deny (PStr (''no handler registered for action '' @
                  py_repr (lib_float_repr (e_lib ev)) (d_action d))) BLOCKED_TOOL), ctx, w)
           | Inr (Some h) \<Rightarrow>
               (case on_request ev hs h d ctx w of
                  (Inl e, ctx', w') \<Rightarrow> (Inl e, ctx', w')
                | (Inr oc, ctx', w') \<Rightarrow> (Inr (score_denial oc), ctx', w'))))"

section \<open>The runner\<close>

type_synonym stage = "string \<times> outcome act"

definition stage_crash :: "string \<Rightarrow> exn \<Rightarrow> outcome" where
  "stage_crash name e =
     (deny (PStr (''internal error in stage '' @ quoted name @ '': '' @ exn_str e)) [])
       \<lparr>oc_internal_error := True\<rparr>"

definition settle :: "string \<Rightarrow> outcome res \<Rightarrow> outcome" where
  "settle name r = (case r of Inl e \<Rightarrow> stage_crash name e | Inr oc \<Rightarrow> oc)"

fun run_stages :: "stage list \<Rightarrow> call_context \<Rightarrow> world \<Rightarrow> outcome \<times> call_context \<times> world" where
  "run_stages [] ctx w = (proceed, ctx, w)"
| "run_stages (st # sts) ctx w =
     (let (r, ctx', w') = snd st ctx w; oc = settle (fst st) r
      in if denied oc then (oc\<lparr>oc_stage := fst st\<rparr>, ctx', w') else run_stages sts ctx' w')"

definition make_pipeline :: "stage list \<Rightarrow> (stage list) res" where
  "make_pipeline sts = (if sts = [] then Inl (ValueError ''pipeline requires at least one stage'') else Inr sts)"

text \<open>\<open>default_pipeline\<close>: the canonical order.\<close>

definition default_stages :: "env \<Rightarrow> policy_engine \<Rightarrow> sequence_policy \<Rightarrow> handlers \<Rightarrow> stage list" where
  "default_stages ev pe sq hs =
     [(''session_gate'', session_gate_handle), (''policy'', policy_handle pe),
      (''constraints'', constraints_handle ev), (''sequence'', sequence_handle sq),
      (''action'', action_handle ev hs)]"

definition default_pipeline :: "env \<Rightarrow> policy_engine \<Rightarrow> bool \<Rightarrow> broker option \<Rightarrow> (stage list) res" where
  "default_pipeline ev pe has_redaction br =
     ebind (build_sequence_policy pe) (\<lambda>sq.
       make_pipeline (default_stages ev pe sq (build_action_handlers has_redaction br)))"

section \<open>The runner fails closed\<close>

lemma settle_simps [simp]:
  "settle n (Inr oc) = oc" "denied (settle n (Inl e))" "oc_internal_error (settle n (Inl e))"
  by (simp_all add: settle_def stage_crash_def denied_def deny_def)

lemma denied_stage [simp]: "denied (oc\<lparr>oc_stage := n\<rparr>) = denied oc"
  by (simp add: denied_def)

text \<open>Stages compose: the first denial wins and the rest of the pipeline never runs.\<close>

lemma run_stages_append:
  "run_stages (a @ b) ctx w =
     (let (oc, ctx', w') = run_stages a ctx w
      in if denied oc then (oc, ctx', w') else run_stages b ctx' w')"
  by (induction a ctx w rule: run_stages.induct) (auto simp: Let_def split: prod.splits)

lemma run_stages_first_denial:
  assumes "run_stages pre ctx w = (oc0, ctx1, w1)" and "\<not> denied oc0"
    and "snd st ctx1 w1 = (r, ctx2, w2)" and "denied (settle (fst st) r)"
  shows "run_stages (pre @ st # post) ctx w = ((settle (fst st) r)\<lparr>oc_stage := fst st\<rparr>, ctx2, w2)"
  using assms by (simp add: run_stages_append Let_def)

text \<open>A pipeline lets a call through only if every stage ran, returned normally and did not deny.\<close>

fun all_passed :: "stage list \<Rightarrow> call_context \<Rightarrow> world \<Rightarrow> bool" where
  "all_passed [] ctx w = True"
| "all_passed (st # sts) ctx w =
     (case snd st ctx w of
        (Inl e, ctx', w') \<Rightarrow> False
      | (Inr oc, ctx', w') \<Rightarrow> \<not> denied oc \<and> all_passed sts ctx' w')"

lemma run_stages_passes_iff: "\<not> denied (fst (run_stages sts ctx w)) \<longleftrightarrow> all_passed sts ctx w"
  by (induction sts ctx w rule: run_stages.induct)
    (auto simp: Let_def split: prod.splits sum.splits)

lemma run_stages_denied_stage:
  assumes "run_stages sts ctx w = (oc, ctx', w')" and "denied oc"
  shows "oc_stage oc \<in> fst ` set sts"
  using assms by (induction sts ctx w rule: run_stages.induct) (auto simp: Let_def split: prod.splits if_splits)

section \<open>What a handler may touch\<close>

definition same_call :: "call_context \<Rightarrow> call_context \<Rightarrow> bool" where
  "same_call a b =
     (cx_session a = cx_session b \<and> cx_message a = cx_message b \<and> cx_tool a = cx_tool b \<and>
      cx_arguments a = cx_arguments b \<and> cx_principal a = cx_principal b \<and> cx_decision a = cx_decision b)"

lemma simple_same_call: "simple_on_request ev h d ctx w = (r, ctx', w') \<Longrightarrow> same_call ctx' ctx"
  by (auto simp: simple_on_request_def allow_on_request_def block_on_request_def redact_on_request_def
      rewrite_on_request_def quarantine_on_request_def same_call_def Let_def
      split: simple_handler.splits if_splits prod.splits sum.splits)

lemma approval_same_call:
  assumes "approval_on_request ev hs br d ctx w = (r, ctx', w')"
  shows "same_call ctx' ctx"
proof -
  have "same_call c' ctx" if "simple_on_request ev h d (ctx\<lparr>cx_approval := a\<rparr>) w1 = (q, c', w2)" for a h w1 q c' w2
    using simple_same_call [OF that] by (simp add: same_call_def)
  with assms show ?thesis
    by (auto simp: approval_on_request_def Let_def same_call_def
        split: option.splits if_splits sum.splits handler.splits)
qed

lemma on_request_same_call: "on_request ev hs h d ctx w = (r, ctx', w') \<Longrightarrow> same_call ctx' ctx"
  by (auto simp: on_request_def simple_same_call approval_same_call split: handler.splits)

lemma action_same_call: "action_handle ev hs ctx w = (r, ctx', w') \<Longrightarrow> same_call ctx' ctx"
  by (auto simp: action_handle_def same_call_def
      dest!: on_request_same_call split: option.splits sum.splits prod.splits)

section \<open>The default pipeline\<close>

text \<open>What it takes to get through: every gate in turn, each on the arguments as they were sent.\<close>

definition call_passes :: "env \<Rightarrow> policy_engine \<Rightarrow> sequence_policy \<Rightarrow> handlers \<Rightarrow> call_context \<Rightarrow> world
    \<Rightarrow> decision \<Rightarrow> handler \<Rightarrow> bool" where
  "call_passes ev pe sq hs ctx w d h =
     (\<not> s_suspended (cx_session ctx) \<and>
      evaluate pe (cx_tool ctx) (first_role (cx_principal ctx)) = Inr d \<and>
      check_constraints (e_lib ev) (d_constraints d) (cx_arguments ctx) = None \<and>
      sequence_check sq (cx_tool ctx) (cx_session ctx) = None \<and>
      find_handler hs (d_action d) = Inr (Some h) \<and>
      (\<exists>oc. fst (on_request ev hs h d (ctx\<lparr>cx_decision := Some d\<rparr>) w) = Inr oc \<and> \<not> denied oc))"

lemma score_denial_denied [simp]: "denied (score_denial oc) = denied oc"
  by (simp add: score_denial_def denied_def)

lemma default_pass:
  assumes "run_stages (default_stages ev pe sq hs) ctx w = (oc, ctx', w')" and "\<not> denied oc"
  shows "\<exists>d h. call_passes ev pe sq hs ctx w d h \<and> cx_decision ctx' = Some d \<and>
    snd (on_request ev hs h d (ctx\<lparr>cx_decision := Some d\<rparr>) w) = (ctx', w') \<and>
    cx_session ctx' = cx_session ctx"
  using assms
  by (auto simp: default_stages_def session_gate_handle_def policy_handle_def constraints_handle_def
      sequence_handle_def action_handle_def call_passes_def same_call_def Let_def
      dest!: on_request_same_call split: if_splits sum.splits option.splits prod.splits)

lemma default_same_session:
  assumes "run_stages (default_stages ev pe sq hs) ctx w = (oc, ctx', w')"
  shows "cx_session ctx' = cx_session ctx"
  using assms
  by (auto simp: default_stages_def session_gate_handle_def policy_handle_def constraints_handle_def
      sequence_handle_def Let_def same_call_def dest!: action_same_call
      split: if_splits sum.splits option.splits prod.splits)

lemma check_constraints_None_iff:
  "check_constraints lib cs args = None \<longleftrightarrow> (\<forall>c \<in> set cs. constraint_check lib c args = None)"
  by (induction cs) (auto split: option.splits)

lemma suspended_denied:
  assumes "s_suspended (cx_session ctx)"
  shows "run_stages (default_stages ev pe sq hs) ctx w =
    ((deny (PStr ''session suspended by risk engine; all tool calls refused'') [])
       \<lparr>oc_stage := ''session_gate''\<rparr>, ctx, w)"
  using assms by (simp add: default_stages_def session_gate_handle_def)

section \<open>Visibility agrees with enforcement\<close>

text \<open>An action listed as deny-only is denied by its handler on every call.\<close>

lemma terminal_deny_denies:
  assumes "terminal_deny h" and "on_request ev hs h d ctx w = (r, ctx', w')"
  shows "\<exists>oc. r = Inr oc \<and> denied oc"
  using assms
  by (auto simp: terminal_deny_def on_request_def simple_on_request_def block_on_request_def
      redact_on_request_def approval_on_request_def broker_can_approve_def channel_can_approve_def
      broker_deny_channel Let_def
      split: handler.splits simple_handler.splits option.splits if_splits)

lemma denying_actions_terminal:
  assumes "a \<in> set (denying_actions hs)" and "wf_dict hs"
  shows "\<exists>h. map_of hs a = Some h \<and> terminal_deny h"
  using assms by (auto simp: denying_actions_def wf_dict_def)

lemma wf_handlers: "wf_dict (build_action_handlers r br)"
  by (simp add: wf_dict_def build_action_handlers_def)

lemma denying_action_denied:
  assumes "d_action d = PStr a" and "a \<in> set (denying_actions hs)" and "wf_dict hs"
    and "cx_decision ctx = Some d"
  shows "denied (settle ''action'' (fst (action_handle ev hs ctx w)))"
proof -
  obtain h where h: "map_of hs a = Some h" "terminal_deny h" using denying_actions_terminal [OF assms(2,3)] by blast
  obtain r ctx' w' where o: "on_request ev hs h d ctx w = (r, ctx', w')" by (metis prod_cases3)
  from terminal_deny_denies [OF h(2) o] h o assms(1,4) show ?thesis
    by (auto simp: action_handle_def find_handler_def)
qed

section \<open>Approval\<close>

lemma approval_needed:
  assumes "on_request ev hs (RequireApproval br) d ctx w = (Inr oc, ctx', w')" and "\<not> denied oc"
  shows "\<exists>b r. br = Some b \<and> cx_approval ctx' = Some r \<and> rn_approved r \<and>
    r = broker_request (e_lib ev) (e_post ev) (w_asked w) b (approval_request_of ctx d)"
proof -
  have keep: "cx_approval c' = cx_approval c" if "simple_on_request ev h d c w1 = (q, c', w2)" for c h w1 q c' w2
    using that
    by (auto simp: simple_on_request_def allow_on_request_def block_on_request_def redact_on_request_def
        rewrite_on_request_def quarantine_on_request_def Let_def
        split: simple_handler.splits if_splits prod.splits sum.splits)
  from assms show ?thesis
    by (auto simp: on_request_def approval_on_request_def Let_def dest!: keep
        split: option.splits if_splits sum.splits handler.splits)
qed

end
