(* ===== verification/Gateway.thy ===== *)
theory Gateway
  imports Pipeline Risk_Engine
begin

text \<open>
  \<open>core/gateway.py\<close>: the orchestrator. Its state is a record; handling one line of client or
  upstream traffic is a function from the state to a possible exception, the new state and
  the effects in order: lines sent to the client, lines sent upstream, audit events and
  writes of the session to its store. One handler runs to completion before the next starts.
  Audit fields that hold durations (\<open>duration_ms\<close>, \<open>stage_timings_ms\<close>) are left out.
\<close>

section \<open>State and effects\<close>

datatype effect =
    ToClient string
  | ToUpstream string
  | Audit string pydict
  | Persist

record pipeline =
  pl_stages :: "stage list"
  pl_handlers :: "handlers option"

record gateway =
  g_env :: env
  g_pipeline :: pipeline
  g_principal :: principal
  g_policy :: "policy_engine option"
  g_redaction :: bool
  g_risk :: risk_engine
  g_sequence :: sequence_policy
  g_posture :: failure_posture
  g_anomaly :: "monitor option"
  g_session :: session
  g_pending_tools_list :: "pykey list"
  g_world :: world

type_synonym gact = "gateway \<Rightarrow> exn option \<times> gateway \<times> effect list"

definition gskip :: gact where "gskip g = (None, g, [])"
definition graise :: "exn \<Rightarrow> gact" where "graise e g = (Some e, g, [])"
definition gemit :: "effect list \<Rightarrow> gact" where "gemit es g = (None, g, es)"

text \<open>Sequential composition; an exception ends the handler.\<close>

definition gseq :: "gact \<Rightarrow> gact \<Rightarrow> gact" where
  "gseq a b g =
     (case a g of
        (Some e, g', es) \<Rightarrow> (Some e, g', es)
      | (None, g', es) \<Rightarrow> (case b g' of (r, g'', fs) \<Rightarrow> (r, g'', es @ fs)))"

text \<open>Which of the default handlers' actions can only deny (\<open>RequestPipeline.denying_actions\<close>).\<close>

definition pipeline_denying :: "pipeline \<Rightarrow> string list" where
  "pipeline_denying pl =
     (case pl_handlers pl of
        Some hs \<Rightarrow> denying_actions hs
      | None \<Rightarrow> denying_actions (build_action_handlers False None))"

definition make_gateway ::
  "env \<Rightarrow> pipeline \<Rightarrow> principal \<Rightarrow> policy_engine option \<Rightarrow> bool \<Rightarrow> session \<Rightarrow> monitor option \<Rightarrow> world \<Rightarrow> gateway res" where
  "make_gateway ev pl p policy has_redaction s anomaly w =
     ebind (case policy of None \<Rightarrow> Inr default_risk_engine | Some pe \<Rightarrow> build_risk_engine pe) (\<lambda>rk.
     ebind (case policy of None \<Rightarrow> Inr empty_sequence_policy | Some pe \<Rightarrow> build_sequence_policy pe) (\<lambda>sq.
     Inr \<lparr>g_env = ev, g_pipeline = pl, g_principal = p, g_policy = policy, g_redaction = has_redaction,
          g_risk = rk, g_sequence = sq,
          g_posture = (case policy of None \<Rightarrow> default_posture | Some pe \<Rightarrow> pe_posture pe),
          g_anomaly = anomaly, g_session = s, g_pending_tools_list = [], g_world = w\<rparr>))"

section \<open>Lifecycle\<close>

definition on_start :: "string list \<Rightarrow> gact" where
  "on_start upstream_cmd g =
     (let open_cats = join '', '' (open_categories (g_posture g)) in
      gemit ([Audit ''gateway_start''
                [(PStr ''upstream'', PStr (join '' '' upstream_cmd)),
                 (PStr ''principal'', PStr (pn_id (g_principal g))),
                 (PStr ''roles'', PList (map PStr (pn_roles (g_principal g)))),
                 (PStr ''failure_posture'', PDict (posture_describe (g_posture g)))]]
             @ (if any_open (g_posture g)
                then [Audit ''fail_open_enabled'' [(PStr ''categories'', PStr open_cats)]] else [])) g)"

definition on_upstream_exit :: "pyval \<Rightarrow> gact" where
  "on_upstream_exit returncode = gemit [Audit ''upstream_exit'' [(PStr ''returncode'', returncode)]]"

definition on_stop :: gact where
  "on_stop = gemit [Audit ''gateway_stop'' []]"

section \<open>Scoring and the behavioural monitor\<close>

definition audit_suspended :: "session \<Rightarrow> effect" where
  "audit_suspended s =
     Audit ''session_suspended''
       [(PStr ''session_score'', PInt (s_risk_score s)),
        (PStr ''events'', PList (map risk_event_to_val (s_risk_events s)))]"

definition suspended_events :: "risk_update \<Rightarrow> session \<Rightarrow> effect list" where
  "suspended_events u s = (if ru_suspended_now u then [audit_suspended s] else [])"

definition blocked_count :: "session \<Rightarrow> nat" where
  "blocked_count s = length (filter (\<lambda>e. re_event e \<in> set denial_events) (s_risk_events s))"

definition trace_of :: "session \<Rightarrow> string \<Rightarrow> session_trace" where
  "trace_of s last_tool =
     \<lparr>tr_history = s_history s, tr_last_tool = last_tool, tr_tainted = s_tainted s,
      tr_blocked_count = blocked_count s\<rparr>"

definition run_anomaly :: "string \<Rightarrow> bool \<Rightarrow> gact" where
  "run_anomaly last_tool force g =
     (case g_anomaly g of
        None \<Rightarrow> gskip g
      | Some m \<Rightarrow>
          (let (r, m') = observe (e_model (g_env g)) (w_asked (g_world g))
                           (trace_of (g_session g) last_tool) force m;
               g1 = g\<lparr>g_anomaly := Some m', g_world := (g_world g)\<lparr>w_asked := Suc (w_asked (g_world g))\<rparr>\<rparr>
           in case r of
                Inl e \<Rightarrow> graise e g1
              | Inr None \<Rightarrow> gskip g1
              | Inr (Some v) \<Rightarrow>
                  if \<not> vd_anomalous v then gskip g1
                  else
                    (let (u, s') = risk_record (g_risk g1)
                           (''anomaly_'' @ pstr (e_lib (g_env g)) (vd_severity v)) last_tool (g_session g1)
                     in gemit ([Audit ''anomaly_detected''
                                  ([(PStr ''tool'', PStr last_tool), (PStr ''severity'', vd_severity v),
                                    (PStr ''rationale'', vd_rationale v),
                                    (PStr ''backend'', PStr (backend_name (mo_backend m)))] @ risk_audit_fields u)]
                               @ suspended_events u s') (g1\<lparr>g_session := s'\<rparr>))))"

section \<open>Client to upstream\<close>

definition opt_rule :: "decision option \<Rightarrow> pyval" where
  "opt_rule d = (case d of None \<Rightarrow> PNone | Some x \<Rightarrow> PStr (d_rule x))"

definition track :: "pyval \<Rightarrow> string \<Rightarrow> pyval \<Rightarrow> disposition \<Rightarrow> redaction_spec option \<Rightarrow> gact" where
  "track i tool action disp sp g =
     (case track_pending i tool action disp sp (g_session g) of
        Inl e \<Rightarrow> graise e g
      | Inr s \<Rightarrow> gskip (g\<lparr>g_session := s\<rparr>))"

text \<open>Auditing a denial that is not a suspended session: score it first, when it carries an event.\<close>

definition audit_denial :: "message \<Rightarrow> string \<Rightarrow> outcome \<Rightarrow> decision option \<Rightarrow> gact" where
  "audit_denial raw tool oc d g =
     (let base = [(PStr ''tool'', PStr tool), (PStr ''id'', msg_id raw), (PStr ''reason'', oc_reason oc),
                  (PStr ''stage'', PStr (oc_stage oc)), (PStr ''rule'', opt_rule d)] in
      if oc_risk_event oc = [] then gemit [Audit ''tool_call_blocked'' base] g
      else
        (let (u, s') = risk_record (g_risk g) (oc_risk_event oc) tool (g_session g);
             extra = (if oc_stage oc = ''sequence''
                      then [(PStr ''tainted'', PBool (s_tainted s')),
                            (PStr ''taint_origin'', opt_str (s_taint_origin s'))] else [])
         in gemit ([Audit ''tool_call_blocked'' (base @ risk_audit_fields u @ extra)] @ suspended_events u s')
              (g\<lparr>g_session := s'\<rparr>)))"

text \<open>The opt-in fail-open branch: the original call is forwarded unmodified.\<close>

definition forward_unchecked :: "pylib \<Rightarrow> message \<Rightarrow> string \<Rightarrow> outcome \<Rightarrow> gact" where
  "forward_unchecked lib raw tool oc =
     gseq (gemit [Audit ''stage_error_fail_open''
                    [(PStr ''tool'', PStr tool), (PStr ''id'', msg_id raw),
                     (PStr ''stage'', PStr (oc_stage oc)), (PStr ''reason'', oc_reason oc)]])
     (gseq (track (msg_id raw) tool (PStr ''fail_open'') DNone None)
           (gemit [ToUpstream (encode lib raw)]))"

definition audit_refusal :: "message \<Rightarrow> string \<Rightarrow> outcome \<Rightarrow> decision option \<Rightarrow> gact" where
  "audit_refusal raw tool oc d g =
     (if oc_stage oc = ''session_gate'' then
        gemit [Audit ''tool_call_denied_session_suspended''
                 [(PStr ''tool'', PStr tool), (PStr ''id'', msg_id raw), (PStr ''reason'', oc_reason oc),
                  (PStr ''session_score'', PInt (s_risk_score (g_session g)))]] g
      else audit_denial raw tool oc d g)"

definition refuse :: "pylib \<Rightarrow> message \<Rightarrow> string \<Rightarrow> outcome \<Rightarrow> decision option \<Rightarrow> gact" where
  "refuse lib raw tool oc d =
     gseq (audit_refusal raw tool oc d)
     (gseq (gemit [ToClient (encode lib (denied_response lib (msg_id raw) tool (oc_reason oc)))])
           (run_anomaly tool True))"

definition handle_denial :: "message \<Rightarrow> string \<Rightarrow> outcome \<Rightarrow> decision option \<Rightarrow> gact" where
  "handle_denial raw tool oc d g =
     (if oc_internal_error oc \<and> fp_pipeline (g_posture g) = OPEN
      then forward_unchecked (e_lib (g_env g)) raw tool oc g
      else refuse (e_lib (g_env g)) raw tool oc d g)"

definition approval_events :: "message \<Rightarrow> string \<Rightarrow> resolution option \<Rightarrow> effect list" where
  "approval_events raw tool r =
     (case r of
        None \<Rightarrow> []
      | Some a \<Rightarrow>
          [Audit ''approval_requested''
             [(PStr ''tool'', PStr tool), (PStr ''id'', msg_id raw), (PStr ''approved'', PBool (rn_approved a)),
              (PStr ''approver'', PStr (rn_approver a)), (PStr ''note'', PStr (rn_note a))]])"

definition mark_taint :: "message \<Rightarrow> string \<Rightarrow> gact" where
  "mark_taint raw tool g =
     (if is_taint_source (g_sequence g) tool \<and> fst (mark_tainted tool (g_session g)) then
        gemit [Audit ''session_tainted''
                 [(PStr ''tool'', PStr tool), (PStr ''id'', msg_id raw),
                  (PStr ''note'', PStr ''untrusted content ingested; taint sinks now blocked'')]]
          (g\<lparr>g_session := snd (mark_tainted tool (g_session g))\<rparr>)
      else gskip g)"

definition disposition_str :: "disposition \<Rightarrow> string" where
  "disposition_str d = (case d of DNone \<Rightarrow> ''none'' | DQuarantine \<Rightarrow> ''quarantine'' | DRedact \<Rightarrow> ''redact'')"

definition allowed_fields :: "message \<Rightarrow> string \<Rightarrow> call_context \<Rightarrow> decision \<Rightarrow> pydict" where
  "allowed_fields raw tool ctx d =
     [(PStr ''tool'', PStr tool), (PStr ''id'', msg_id raw), (PStr ''action'', d_action d),
      (PStr ''rule'', PStr (d_rule d))]
     @ (case d_role d of None \<Rightarrow> [] | Some r \<Rightarrow> [(PStr ''role'', PStr r)])
     @ (if cx_argument_changes ctx = [] then [] else [(PStr ''rewrites'', PList (cx_argument_changes ctx))])
     @ (case cx_argument_redactions ctx of
          None \<Rightarrow> [] | Some r \<Rightarrow> if r = [] then [] else [(PStr ''arg_redactions'', PDict r)])
     @ (if cx_disposition ctx = DNone then []
        else [(PStr ''disposition'', PStr (disposition_str (cx_disposition ctx)))])"

definition outbound_message :: "message \<Rightarrow> call_context \<Rightarrow> message" where
  "outbound_message raw ctx =
     (case cx_effective_arguments ctx of
        None \<Rightarrow> raw
      | Some args \<Rightarrow> dput ''params'' (PDict (dput ''arguments'' (PDict args) (msg_params raw))) raw)"

definition record_history :: "string \<Rightarrow> gact" where
  "record_history tool g = gskip (g\<lparr>g_session := record_call tool (g_session g)\<rparr>)"

definition forward_call :: "pylib \<Rightarrow> message \<Rightarrow> string \<Rightarrow> call_context \<Rightarrow> decision \<Rightarrow> gact" where
  "forward_call lib raw tool ctx d =
     gseq (record_history tool)
     (gseq (mark_taint raw tool)
     (gseq (track (msg_id raw) tool (d_action d) (cx_disposition ctx) (cx_redaction_spec ctx))
     (gseq (gemit [Audit ''tool_call_allowed'' (allowed_fields raw tool ctx d)])
     (gseq (gemit [ToUpstream (encode lib (outbound_message raw ctx))])
           (run_anomaly tool False)))))"

definition handle_tool_call :: "message \<Rightarrow> gact" where
  "handle_tool_call raw g =
     (let (tool, arguments) = tool_call_parts raw;
          ctx0 = make_call_context (g_session g) raw tool arguments (g_principal g);
          (oc, ctx, w) = run_stages (pl_stages (g_pipeline g)) ctx0 (g_world g);
          g1 = g\<lparr>g_world := w, g_session := cx_session ctx\<rparr>
      in gseq (gemit (approval_events raw tool (cx_approval ctx)))
           (if denied oc then handle_denial raw tool oc (cx_decision ctx)
            else (case cx_decision ctx of
                    None \<Rightarrow> graise (AssertionError ''pipeline allowed a call without a decision'')
                  | Some d \<Rightarrow> forward_call (e_lib (g_env g)) raw tool ctx d)) g1)"

definition utf8_size :: "string \<Rightarrow> pyval" where
  "utf8_size line = PInt (int (utf8_len line))"

definition add_key :: "pykey \<Rightarrow> pykey list \<Rightarrow> pykey list" where
  "add_key k ks = (if k \<in> set ks then ks else k # ks)"

text \<open>Remembering an in-flight tools/list request; an unhashable id raises.\<close>

definition note_tools_list :: "message \<Rightarrow> gact" where
  "note_tools_list raw g =
     (if msg_method raw = Some METHOD_TOOLS_LIST \<and> is_request raw \<and> g_policy g \<noteq> None then
        (case py_key (msg_id raw) of
           None \<Rightarrow> graise TypeError g
         | Some k \<Rightarrow> gskip (g\<lparr>g_pending_tools_list := add_key k (g_pending_tools_list g)\<rparr>))
      else gskip g)"

definition opt_method :: "message \<Rightarrow> pyval" where
  "opt_method raw = opt_str (msg_method raw)"

definition dispatch_client_line :: "string \<Rightarrow> gact" where
  "dispatch_client_line line g =
     (case decode_line (e_lib (g_env g)) line of
        Inl e \<Rightarrow> graise e g
      | Inr None \<Rightarrow>
          gemit [Audit ''passthrough_opaque''
                   [(PStr ''direction'', PStr ''client_to_upstream''), (PStr ''bytes'', utf8_size line)],
                 ToUpstream line] g
      | Inr (Some raw) \<Rightarrow>
          if is_tool_call raw then handle_tool_call raw g
          else
            gseq (note_tools_list raw)
              (gemit [Audit ''passthrough_request'' [(PStr ''method'', opt_method raw), (PStr ''id'', msg_id raw)],
                      ToUpstream (encode (e_lib (g_env g)) raw)]) g)"

definition on_client_line :: "string \<Rightarrow> gact" where
  "on_client_line line = gseq (dispatch_client_line line) (gemit [Persist])"

section \<open>Upstream to client\<close>

definition text_result :: "string \<Rightarrow> pyval" where
  "text_result t =
     PDict [(PStr ''content'', PList [PDict [(PStr ''type'', PStr ''text''), (PStr ''text'', PStr t)]])]"

definition QUARANTINE_NOTICE :: "string \<Rightarrow> string" where
  "QUARANTINE_NOTICE tool =
     ''[QUARANTINED by security gateway] The result of '' @ quoted tool @
     '' was withheld from the model and flagged for human review.''"

definition REDACTION_FAILED_NOTICE :: "string \<Rightarrow> string" where
  "REDACTION_FAILED_NOTICE tool =
     ''[WITHHELD by security gateway] The result of '' @ quoted tool @
     '' could not be safely redacted and was withheld from the model (fail-closed).''"

definition nat_val :: "nat \<Rightarrow> pyval" where
  "nat_val n = PInt (int n)"

definition deliver_quarantined :: "message \<Rightarrow> pending_call \<Rightarrow> nat \<Rightarrow> gact" where
  "deliver_quarantined raw p nbytes g =
     gemit [Audit ''tool_result_quarantined''
              [(PStr ''tool'', PStr (pc_tool p)), (PStr ''id'', msg_id raw), (PStr ''withheld_bytes'', nat_val nbytes)],
            ToClient (encode (e_lib (g_env g))
              (dput ''result'' (text_result (QUARANTINE_NOTICE (pc_tool p))) raw))] g"

definition withhold_unredactable :: "message \<Rightarrow> pending_call \<Rightarrow> nat \<Rightarrow> string \<Rightarrow> gact" where
  "withhold_unredactable raw p nbytes reason g =
     gemit [Audit ''tool_result_redaction_failed''
              [(PStr ''tool'', PStr (pc_tool p)), (PStr ''id'', msg_id raw), (PStr ''withheld_bytes'', nat_val nbytes),
               (PStr ''reason'', PStr reason)],
            ToClient (encode (e_lib (g_env g))
              (dput ''result'' (text_result (REDACTION_FAILED_NOTICE (pc_tool p))) raw))] g"

text \<open>The scan succeeded: audit it (scoring a heavily redacted result) and send the scrubbed result.\<close>

definition deliver_scrubbed ::
  "message \<Rightarrow> pending_call \<Rightarrow> nat \<Rightarrow> redaction_spec \<Rightarrow> pyval \<Rightarrow> report \<Rightarrow> gact" where
  "deliver_scrubbed raw p nbytes sp redacted rep g =
     (let base = [(PStr ''tool'', PStr (pc_tool p)), (PStr ''id'', msg_id raw), (PStr ''result_bytes'', nat_val nbytes),
                  (PStr ''profile'', PStr (rs_profile sp)), (PStr ''redactions'', PDict (report_summary rep))];
          out = ToClient (encode (e_lib (g_env g)) (dput ''result'' redacted raw))
      in if report_total rep \<ge> 3 then
           (let (u, s') = risk_record (g_risk g) HEAVY_REDACTION (pc_tool p) (g_session g)
            in gemit (suspended_events u s' @ [Audit ''tool_result_redacted'' (base @ risk_audit_fields u), out])
                 (g\<lparr>g_session := s'\<rparr>))
         else gemit [Audit ''tool_result_redacted'' base, out] g)"

definition deliver_redacted :: "message \<Rightarrow> pending_call \<Rightarrow> nat \<Rightarrow> gact" where
  "deliver_redacted raw p nbytes g =
     (case (g_redaction g, pc_redaction p) of
        (True, Some sp) \<Rightarrow>
          (let (r, sv) = service_redact (w_service (g_world g)) (dget_none raw ''result'') sp;
               g1 = g\<lparr>g_world := (g_world g)\<lparr>w_service := sv\<rparr>\<rparr>
           in case r of
                Inl e \<Rightarrow>
                  if fp_redaction (g_posture g) = OPEN then
                    gemit [Audit ''redaction_error_fail_open''
                             [(PStr ''tool'', PStr (pc_tool p)), (PStr ''id'', msg_id raw),
                              (PStr ''reason'', PStr (exn_str e)), (PStr ''result_bytes'', nat_val nbytes)],
                           ToClient (encode (e_lib (g_env g)) raw)] g1
                  else withhold_unredactable raw p nbytes (exn_str e) g1
              | Inr (redacted, rep) \<Rightarrow> deliver_scrubbed raw p nbytes sp redacted rep g1)
      | _ \<Rightarrow> withhold_unredactable raw p nbytes ''redaction service unavailable'' g)"

definition deliver_tool_result :: "message \<Rightarrow> pending_call \<Rightarrow> gact" where
  "deliver_tool_result raw p g =
     (let nbytes = result_size_bytes (e_lib (g_env g)) raw; is_error = result_is_error raw in
      if \<not> is_error \<and> pc_disposition p = DQuarantine then deliver_quarantined raw p nbytes g
      else if \<not> is_error \<and> pc_disposition p = DRedact then deliver_redacted raw p nbytes g
      else
        gemit [Audit ''tool_result''
                 [(PStr ''tool'', PStr (pc_tool p)), (PStr ''id'', msg_id raw), (PStr ''action'', pc_action p),
                  (PStr ''is_error'', PBool is_error), (PStr ''result_bytes'', nat_val nbytes)],
               ToClient (encode (e_lib (g_env g)) raw)] g)"

text \<open>The name a tools/list entry is judged by; an entry without a string name is always shown.\<close>

definition entry_name :: "pyval \<Rightarrow> string option" where
  "entry_name entry =
     (case entry of
        PDict d \<Rightarrow> (case dget_none d ''name'' of PStr n \<Rightarrow> Some n | _ \<Rightarrow> None)
      | _ \<Rightarrow> None)"

fun split_visible ::
  "policy_engine \<Rightarrow> string list \<Rightarrow> string option \<Rightarrow> pyval list \<Rightarrow> (pyval list \<times> string list) res" where
  "split_visible pe deny_set role [] = Inr ([], [])"
| "split_visible pe deny_set role (entry # es) =
     ebind (case entry_name entry of None \<Rightarrow> Inr True | Some n \<Rightarrow> is_visible pe deny_set n role) (\<lambda>v.
     ebind (split_visible pe deny_set role es) (\<lambda>p.
       Inr (if v then (entry # fst p, snd p) else (fst p, the (entry_name entry) # snd p))))"

definition filter_tools_list :: "message \<Rightarrow> gateway \<Rightarrow> (message \<times> string list \<times> nat) res" where
  "filter_tools_list raw g =
     (case g_policy g of
        None \<Rightarrow> Inl (AssertionError [])
      | Some pe \<Rightarrow>
          (case dget_none raw ''result'' of
             PDict result \<Rightarrow>
               (case dget_none result ''tools'' of
                  PList tools \<Rightarrow>
                    ebind (split_visible pe (pipeline_denying (g_pipeline g)) (first_role (g_principal g)) tools)
                      (\<lambda>p. Inr (if snd p \<noteq> []
                           then (dput ''result'' (PDict (dput ''tools'' (PList (fst p)) result)) raw,
                                 snd p, length tools)
                           else (raw, [], length tools)))
                | _ \<Rightarrow> Inr (raw, [], 0))
           | _ \<Rightarrow> Inr (raw, [], 0)))"

definition deliver_tools_list :: "message \<Rightarrow> pykey \<Rightarrow> gact" where
  "deliver_tools_list raw k g =
     (let g1 = g\<lparr>g_pending_tools_list := removeAll k (g_pending_tools_list g)\<rparr> in
      case filter_tools_list raw g1 of
        Inl e \<Rightarrow> graise e g1
      | Inr (out, hidden, ntools) \<Rightarrow>
          gemit ((if hidden = [] then [] else
                    [Audit ''tools_list_filtered''
                       [(PStr ''id'', msg_id raw), (PStr ''total'', nat_val ntools),
                        (PStr ''shown'', PInt (int ntools - int (length hidden))),
                        (PStr ''hidden'', PList (map PStr hidden))]])
                 @ [ToClient (encode (e_lib (g_env g)) out)]) g1)"

definition dispatch_upstream_line :: "string \<Rightarrow> gact" where
  "dispatch_upstream_line line g =
     (case decode_line (e_lib (g_env g)) line of
        Inl e \<Rightarrow> graise e g
      | Inr None \<Rightarrow>
          gemit [Audit ''passthrough_opaque''
                   [(PStr ''direction'', PStr ''upstream_to_client''), (PStr ''bytes'', utf8_size line)],
                 ToClient line] g
      | Inr (Some raw) \<Rightarrow>
          if is_response raw then
            (case resolve_pending (msg_id raw) (g_session g) of
               Inl e \<Rightarrow> graise e g
             | Inr (Some p, s') \<Rightarrow> deliver_tool_result raw p (g\<lparr>g_session := s'\<rparr>)
             | Inr (None, s') \<Rightarrow>
                 (case py_key (msg_id raw) of
                    Some k \<Rightarrow>
                      if k \<in> set (g_pending_tools_list g) then deliver_tools_list raw k (g\<lparr>g_session := s'\<rparr>)
                      else gemit [ToClient (encode (e_lib (g_env g)) raw)] (g\<lparr>g_session := s'\<rparr>)
                  | None \<Rightarrow> graise TypeError g))
          else
            gemit ((if is_request raw
                    then [Audit ''upstream_request'' [(PStr ''method'', opt_method raw), (PStr ''id'', msg_id raw)]]
                    else [])
                   @ [ToClient (encode (e_lib (g_env g)) raw)]) g)"

definition on_upstream_line :: "string \<Rightarrow> gact" where
  "on_upstream_line line = gseq (dispatch_upstream_line line) (gemit [Persist])"

end
