(* ===== verification/Gateway_Safety.thy ===== *)
theory Gateway_Safety
  imports Gateway
begin

text \<open>
  What the handlers of \<open>core/gateway.py\<close> guarantee: what each may send where, what each keeps of
  the state, and the safety of whole runs (sequences of client and upstream lines).
\<close>

section \<open>Reading effects\<close>

definition effects :: "gact \<Rightarrow> gateway \<Rightarrow> effect list" where
  "effects a g = snd (snd (a g))"

definition after :: "gact \<Rightarrow> gateway \<Rightarrow> gateway" where
  "after a g = fst (snd (a g))"

definition raised :: "gact \<Rightarrow> gateway \<Rightarrow> exn option" where
  "raised a g = fst (a g)"

fun upstream_lines :: "effect list \<Rightarrow> string list" where
  "upstream_lines [] = []"
| "upstream_lines (ToUpstream l # es) = l # upstream_lines es"
| "upstream_lines (_ # es) = upstream_lines es"

fun client_lines :: "effect list \<Rightarrow> string list" where
  "client_lines [] = []"
| "client_lines (ToClient l # es) = l # client_lines es"
| "client_lines (_ # es) = client_lines es"

fun audit_events :: "effect list \<Rightarrow> string list" where
  "audit_events [] = []"
| "audit_events (Audit n fs # es) = n # audit_events es"
| "audit_events (_ # es) = audit_events es"

lemma lines_append [simp]:
  "upstream_lines (a @ b) = upstream_lines a @ upstream_lines b"
  "client_lines (a @ b) = client_lines a @ client_lines b"
  "audit_events (a @ b) = audit_events a @ audit_events b"
proof -
  show "upstream_lines (a @ b) = upstream_lines a @ upstream_lines b"
    by (induction a rule: upstream_lines.induct) simp_all
  show "client_lines (a @ b) = client_lines a @ client_lines b"
    by (induction a rule: client_lines.induct) simp_all
  show "audit_events (a @ b) = audit_events a @ audit_events b"
    by (induction a rule: audit_events.induct) simp_all
qed

lemma gact_basic [simp]:
  "effects gskip g = []" "effects (graise e) g = []" "effects (gemit es) g = es"
  "after gskip g = g" "after (graise e) g = g" "after (gemit es) g = g"
  "raised gskip g = None" "raised (graise e) g = Some e" "raised (gemit es) g = None"
  by (simp_all add: effects_def after_def raised_def gskip_def graise_def gemit_def)

lemma gseq_simps [simp]:
  "effects (gseq a b) g = effects a g @ (if raised a g = None then effects b (after a g) else [])"
  "after (gseq a b) g = (if raised a g = None then after b (after a g) else after a g)"
  "raised (gseq a b) g = (if raised a g = None then raised b (after a g) else raised a g)"
  by (auto simp: effects_def after_def raised_def gseq_def split: prod.splits option.splits)

text \<open>A handler written as a function of the state agrees with the handler it unfolds to.\<close>

lemma gact_unfold:
  assumes "a g = b g'"
  shows "effects a g = effects b g'" and "after a g = after b g'" and "raised a g = raised b g'"
  using assms by (simp_all add: effects_def after_def raised_def)

section \<open>Preorders on states that handlers respect\<close>

locale state_preorder =
  fixes R :: "gateway \<Rightarrow> gateway \<Rightarrow> bool"
  assumes R_refl: "R g g"
    and R_trans: "R a b \<Longrightarrow> R b c \<Longrightarrow> R a c"
begin

lemma keeps_basic: "R g (after gskip g)" "R g (after (graise e) g)" "R g (after (gemit es) g)"
  by (simp_all add: R_refl)

lemma keeps_gseq: "R g (after a g) \<Longrightarrow> R (after a g) (after b (after a g)) \<Longrightarrow> R g (after (gseq a b) g)"
  by (auto intro: R_trans)

lemma keeps_gseq_all: "(\<And>g. R g (after a g)) \<Longrightarrow> (\<And>g. R g (after b g)) \<Longrightarrow> R g (after (gseq a b) g)"
  by (rule keeps_gseq) auto

end

definition static :: "gateway \<Rightarrow> env \<times> pipeline \<times> principal \<times> policy_engine option \<times> bool \<times> risk_engine
    \<times> sequence_policy \<times> failure_posture" where
  "static g = (g_env g, g_pipeline g, g_principal g, g_policy g, g_redaction g, g_risk g, g_sequence g, g_posture g)"

text \<open>Suspension and taint are for good; history and risk events only grow.\<close>

definition session_grows :: "session \<Rightarrow> session \<Rightarrow> bool" where
  "session_grows s t =
     (s_id t = s_id s \<and> (s_suspended s \<longrightarrow> s_suspended t) \<and> (s_tainted s \<longrightarrow> s_tainted t) \<and>
      prefix (s_history s) (s_history t) \<and> prefix (s_risk_events s) (s_risk_events t))"

definition evolves :: "gateway \<Rightarrow> gateway \<Rightarrow> bool" where
  "evolves g g' =
     (static g' = static g \<and> session_grows (g_session g) (g_session g') \<and>
      (risk_inv (g_risk g) (g_session g) \<longrightarrow> risk_inv (g_risk g') (g_session g')))"

interpretation ev: state_preorder evolves
proof unfold_locales
  fix a b c g
  show "evolves g g" by (simp add: evolves_def session_grows_def)
  show "evolves a b \<Longrightarrow> evolves b c \<Longrightarrow> evolves a c"
    by (auto simp: evolves_def session_grows_def intro: prefix_order.trans)
qed

lemma session_grows_ops [simp, intro]:
  "session_grows s s"
  "session_grows s (record_call t s)"
  "session_grows s (snd (mark_tainted t s))"
  "session_grows s (snd (risk_record rk e d s))"
  "session_grows s (s\<lparr>s_pending := m\<rparr>)"
  by (auto simp: session_grows_def record_call_def mark_tainted_def risk_record_def Let_def)

lemma evolves_session:
  "session_grows (g_session g) s \<Longrightarrow> (risk_inv (g_risk g) (g_session g) \<longrightarrow> risk_inv (g_risk g) s) \<Longrightarrow>
     evolves g (g\<lparr>g_session := s\<rparr>)"
  by (simp add: evolves_def static_def)

lemma evolves_frame [simp]:
  "evolves g (g\<lparr>g_anomaly := m\<rparr>)" "evolves g (g\<lparr>g_world := w\<rparr>)" "evolves g (g\<lparr>g_pending_tools_list := ks\<rparr>)"
  "evolves g (g\<lparr>g_anomaly := m, g_world := w\<rparr>)"
  by (simp_all add: evolves_def static_def session_grows_def)

lemma evolves_risk: "evolves g (g\<lparr>g_session := snd (risk_record (g_risk g) e d (g_session g))\<rparr>)"
  by (rule evolves_session) (auto intro: risk_inv_record)

section \<open>The handlers one by one\<close>

lemma suspended_events_lines [simp]:
  "upstream_lines (suspended_events u s) = []" "client_lines (suspended_events u s) = []"
  by (simp_all add: suspended_events_def audit_suspended_def)

lemma approval_events_lines [simp]:
  "upstream_lines (approval_events raw tool r) = []" "client_lines (approval_events raw tool r) = []"
  by (simp_all add: approval_events_def split: option.splits)

lemma run_anomaly_lines [simp]:
  "upstream_lines (effects (run_anomaly t f) g) = []" "client_lines (effects (run_anomaly t f) g) = []"
  by (auto simp: effects_def run_anomaly_def gskip_def graise_def gemit_def Let_def
      split: option.splits prod.splits sum.splits)

lemma run_anomaly_evolves: "evolves g (after (run_anomaly t f) g)"
proof (cases "g_anomaly g")
  case None
  then show ?thesis using gact_unfold(2) [of "run_anomaly t f" g gskip g] by (simp add: run_anomaly_def ev.R_refl)
next
  case (Some m)
  obtain r m' where o: "observe (e_model (g_env g)) (w_asked (g_world g)) (trace_of (g_session g) t) f m = (r, m')"
    by (cases "observe (e_model (g_env g)) (w_asked (g_world g)) (trace_of (g_session g) t) f m")
  let ?g1 = "g\<lparr>g_anomaly := Some m', g_world := (g_world g)\<lparr>w_asked := Suc (w_asked (g_world g))\<rparr>\<rparr>"
  have base: "evolves g ?g1" by (rule evolves_frame(4))
  show ?thesis
  proof (cases r)
    case (Inl e)
    then have "after (run_anomaly t f) g = ?g1" using Some o by (simp add: after_def run_anomaly_def graise_def)
    with base show ?thesis by simp
  next
    case (Inr v)
    show ?thesis
    proof (cases "v = None \<or> \<not> vd_anomalous (the v)")
      case True
      then have "after (run_anomaly t f) g = ?g1"
        using Some o Inr by (cases v) (auto simp: after_def run_anomaly_def gskip_def Let_def)
      with base show ?thesis by simp
    next
      case False
      then obtain e where "after (run_anomaly t f) g = ?g1\<lparr>g_session := snd (risk_record (g_risk ?g1) e t (g_session ?g1))\<rparr>"
        using Some o Inr by (cases v) (auto simp: after_def run_anomaly_def gemit_def case_prod_unfold Let_def)
      then show ?thesis using ev.R_trans [OF base evolves_risk] by simp
    qed
  qed
qed

lemma track_facts [simp]:
  "effects (track i t a d sp) g = []"
  "evolves g (after (track i t a d sp) g)"
  by (auto simp: effects_def after_def track_def graise_def gskip_def ev.R_refl
      dest!: track_pending_Inr intro!: evolves_session risk_inv_pending split: sum.splits)

lemma mark_taint_facts [simp]:
  "upstream_lines (effects (mark_taint raw tool) g) = []"
  "client_lines (effects (mark_taint raw tool) g) = []"
  "raised (mark_taint raw tool) g = None"
  "evolves g (after (mark_taint raw tool) g)"
  by (auto simp: effects_def after_def raised_def mark_taint_def gskip_def gemit_def ev.R_refl
      intro!: evolves_session risk_inv_mark_tainted)

lemma audit_denial_facts [simp]:
  "upstream_lines (effects (audit_denial raw tool oc d) g) = []"
  "client_lines (effects (audit_denial raw tool oc d) g) = []"
  "raised (audit_denial raw tool oc d) g = None"
  "evolves g (after (audit_denial raw tool oc d) g)"
  using evolves_risk [of g "oc_risk_event oc" tool]
  by (auto simp: effects_def after_def raised_def audit_denial_def gemit_def Let_def ev.R_refl split: prod.splits)

lemma audit_refusal_cases:
  obtains "effects (audit_refusal raw tool oc d) g = effects (audit_denial raw tool oc d) g"
      "after (audit_refusal raw tool oc d) g = after (audit_denial raw tool oc d) g"
      "raised (audit_refusal raw tool oc d) g = raised (audit_denial raw tool oc d) g"
  | n fs where "effects (audit_refusal raw tool oc d) g = [Audit n fs]"
      "after (audit_refusal raw tool oc d) g = g" "raised (audit_refusal raw tool oc d) g = None"
  by (cases "oc_stage oc = ''session_gate''")
    (simp_all add: audit_refusal_def effects_def after_def raised_def gemit_def)

lemma audit_refusal_facts [simp]:
  "upstream_lines (effects (audit_refusal raw tool oc d) g) = []"
  "client_lines (effects (audit_refusal raw tool oc d) g) = []"
  "raised (audit_refusal raw tool oc d) g = None"
  "evolves g (after (audit_refusal raw tool oc d) g)"
  by (rule audit_refusal_cases [of raw tool oc d g]; simp add: ev.R_refl)+

lemma forward_unchecked_evolves: "evolves g (after (forward_unchecked lib raw tool oc) g)"
  by (simp add: forward_unchecked_def)

lemma refuse_facts:
  "upstream_lines (effects (refuse lib raw tool oc d) g) = []"
  "client_lines (effects (refuse lib raw tool oc d) g) =
     [encode lib (denied_response lib (msg_id raw) tool (oc_reason oc))]"
  "evolves g (after (refuse lib raw tool oc d) g)"
  by (auto simp: refuse_def intro: ev.R_trans [OF _ run_anomaly_evolves])

lemma handle_denial_evolves: "evolves g (after (handle_denial raw tool oc d) g)"
  using forward_unchecked_evolves refuse_facts(3) by (simp add: handle_denial_def after_def)

lemma handle_denial_closed:
  assumes "\<not> oc_internal_error oc \<or> fp_pipeline (g_posture g) = CLOSED"
  shows "upstream_lines (effects (handle_denial raw tool oc d) g) = []"
    and "client_lines (effects (handle_denial raw tool oc d) g) =
      [encode (e_lib (g_env g)) (denied_response (e_lib (g_env g)) (msg_id raw) tool (oc_reason oc))]"
proof -
  have eq: "effects (handle_denial raw tool oc d) g = effects (refuse (e_lib (g_env g)) raw tool oc d) g"
    using assms by (auto simp: handle_denial_def effects_def)
  show "upstream_lines (effects (handle_denial raw tool oc d) g) = []"
    unfolding eq by (rule refuse_facts)
  show "client_lines (effects (handle_denial raw tool oc d) g) =
      [encode (e_lib (g_env g)) (denied_response (e_lib (g_env g)) (msg_id raw) tool (oc_reason oc))]"
    unfolding eq by (rule refuse_facts)
qed

lemma handle_denial_open:
  assumes "oc_internal_error oc" and "fp_pipeline (g_posture g) = OPEN"
  shows "client_lines (effects (handle_denial raw tool oc d) g) = []"
    and "set (upstream_lines (effects (handle_denial raw tool oc d) g)) \<subseteq> {encode (e_lib (g_env g)) raw}"
  using assms by (auto simp: handle_denial_def effects_def forward_unchecked_def gseq_def gemit_def
      track_def graise_def gskip_def split: sum.splits)

lemma record_history_facts [simp]:
  "effects (record_history tool) g = []" "raised (record_history tool) g = None"
  "evolves g (after (record_history tool) g)"
  "after (record_history tool) g = g\<lparr>g_session := record_call tool (g_session g)\<rparr>"
  by (auto simp: effects_def after_def raised_def record_history_def gskip_def
      intro!: evolves_session risk_inv_record_call)

lemma forward_call_evolves: "evolves g (after (forward_call lib raw tool ctx d) g)"
  unfolding forward_call_def
  by (intro ev.keeps_gseq_all) (simp_all add: run_anomaly_evolves ev.R_refl del: record_history_facts(4))

lemma forward_call_lines:
  "client_lines (effects (forward_call lib raw tool ctx d) g) = []"
  "set (upstream_lines (effects (forward_call lib raw tool ctx d) g)) \<subseteq> {encode lib (outbound_message raw ctx)}"
  by (simp_all add: forward_call_def)

section \<open>A tool call\<close>

definition call_tool :: "message \<Rightarrow> string" where
  "call_tool raw = fst (tool_call_parts raw)"

definition call_start :: "message \<Rightarrow> gateway \<Rightarrow> call_context" where
  "call_start raw g =
     make_call_context (g_session g) raw (call_tool raw) (snd (tool_call_parts raw)) (g_principal g)"

definition call_run :: "message \<Rightarrow> gateway \<Rightarrow> outcome \<times> call_context \<times> world" where
  "call_run raw g = run_stages (pl_stages (g_pipeline g)) (call_start raw g) (g_world g)"

definition settle_call :: "message \<Rightarrow> pylib \<Rightarrow> outcome \<Rightarrow> call_context \<Rightarrow> gact" where
  "settle_call raw lib oc ctx =
     (if denied oc then handle_denial raw (call_tool raw) oc (cx_decision ctx)
      else (case cx_decision ctx of
              None \<Rightarrow> graise (AssertionError ''pipeline allowed a call without a decision'')
            | Some d \<Rightarrow> forward_call lib raw (call_tool raw) ctx d))"

lemma handle_tool_call_parts:
  assumes "call_run raw g = (oc, ctx, w)"
  defines "g1 \<equiv> g\<lparr>g_world := w, g_session := cx_session ctx\<rparr>"
  shows "effects (handle_tool_call raw) g =
      approval_events raw (call_tool raw) (cx_approval ctx) @ effects (settle_call raw (e_lib (g_env g)) oc ctx) g1"
    and "after (handle_tool_call raw) g = after (settle_call raw (e_lib (g_env g)) oc ctx) g1"
    and "raised (handle_tool_call raw) g = raised (settle_call raw (e_lib (g_env g)) oc ctx) g1"
proof -
  have eq: "handle_tool_call raw g =
      gseq (gemit (approval_events raw (call_tool raw) (cx_approval ctx)))
        (settle_call raw (e_lib (g_env g)) oc ctx) g1"
    using assms(1) unfolding g1_def handle_tool_call_def settle_call_def call_run_def call_start_def call_tool_def
    by (cases "tool_call_parts raw") (simp cong: option.case_cong)
  let ?b = "gseq (gemit (approval_events raw (call_tool raw) (cx_approval ctx)))
        (settle_call raw (e_lib (g_env g)) oc ctx)"
  have "effects (handle_tool_call raw) g = effects ?b g1" "after (handle_tool_call raw) g = after ?b g1"
    "raised (handle_tool_call raw) g = raised ?b g1"
    using eq by (simp_all add: effects_def after_def raised_def)
  then show "effects (handle_tool_call raw) g =
      approval_events raw (call_tool raw) (cx_approval ctx) @ effects (settle_call raw (e_lib (g_env g)) oc ctx) g1"
    and "after (handle_tool_call raw) g = after (settle_call raw (e_lib (g_env g)) oc ctx) g1"
    and "raised (handle_tool_call raw) g = raised (settle_call raw (e_lib (g_env g)) oc ctx) g1"
    by simp_all
qed

text \<open>
  Under the closed posture, or when the denial is a policy decision, a denied call sends
  nothing upstream and exactly the JSON-RPC error to the client. This holds for any stages.
\<close>

lemma denied_call_lines:
  assumes "call_run raw g = (oc, ctx, w)" and "denied oc"
    and "\<not> oc_internal_error oc \<or> fp_pipeline (g_posture g) = CLOSED"
  shows "upstream_lines (effects (handle_tool_call raw) g) = []"
    and "client_lines (effects (handle_tool_call raw) g) =
      [encode (e_lib (g_env g)) (denied_response (e_lib (g_env g)) (msg_id raw) (call_tool raw) (oc_reason oc))]"
  using assms(2,3) handle_denial_closed [of oc "g\<lparr>g_world := w, g_session := cx_session ctx\<rparr>" raw "call_tool raw"
      "cx_decision ctx"]
  by (simp_all add: handle_tool_call_parts [OF assms(1)] settle_call_def)

text \<open>What goes upstream for a tool call under the closed posture went through every stage.\<close>

lemma forwarded_call:
  assumes "call_run raw g = (oc, ctx, w)" and "upstream_lines (effects (handle_tool_call raw) g) \<noteq> []"
    and "fp_pipeline (g_posture g) = CLOSED"
  shows "\<not> denied oc" and "all_passed (pl_stages (g_pipeline g)) (call_start raw g) (g_world g)"
    and "\<exists>d. cx_decision ctx = Some d"
    and "set (upstream_lines (effects (handle_tool_call raw) g)) = {encode (e_lib (g_env g)) (outbound_message raw ctx)}"
proof -
  show nd: "\<not> denied oc" using denied_call_lines(1) [OF assms(1)] assms(2,3) by blast
  then show "all_passed (pl_stages (g_pipeline g)) (call_start raw g) (g_world g)"
    using assms(1) run_stages_passes_iff [of "pl_stages (g_pipeline g)" "call_start raw g" "g_world g"]
    by (simp add: call_run_def)
  from assms(2) nd show "\<exists>d. cx_decision ctx = Some d"
    by (cases "cx_decision ctx") (simp_all add: handle_tool_call_parts [OF assms(1)] settle_call_def)
  then obtain d where d: "cx_decision ctx = Some d" by blast
  have "set (upstream_lines (effects (handle_tool_call raw) g)) \<subseteq> {encode (e_lib (g_env g)) (outbound_message raw ctx)}"
    using nd d forward_call_lines(2) by (simp add: handle_tool_call_parts [OF assms(1)] settle_call_def)
  with assms(2) show "set (upstream_lines (effects (handle_tool_call raw) g)) = {encode (e_lib (g_env g)) (outbound_message raw ctx)}"
    by (cases "upstream_lines (effects (handle_tool_call raw) g)") auto
qed

section \<open>Gateways with the default pipeline\<close>

definition standard :: "gateway \<Rightarrow> policy_engine \<Rightarrow> handlers \<Rightarrow> bool" where
  "standard g pe hs =
     (g_policy g = Some pe \<and> pl_stages (g_pipeline g) = default_stages (g_env g) pe (g_sequence g) hs \<and>
      pl_handlers (g_pipeline g) = Some hs \<and> wf_dict hs)"

lemma standard_static: "static g' = static g \<Longrightarrow> standard g' pe hs = standard g pe hs"
  by (simp add: standard_def static_def)

lemma standard_evolves: "evolves g g' \<Longrightarrow> standard g pe hs \<Longrightarrow> standard g' pe hs"
  unfolding evolves_def using standard_static by blast

lemma call_run_standard:
  assumes "standard g pe hs"
  shows "call_run raw g = run_stages (default_stages (g_env g) pe (g_sequence g) hs) (call_start raw g) (g_world g)"
  using assms by (simp add: call_run_def standard_def)

lemma call_start_fields [simp]:
  "cx_session (call_start raw g) = g_session g" "cx_tool (call_start raw g) = call_tool raw"
  "cx_arguments (call_start raw g) = snd (tool_call_parts raw)" "cx_principal (call_start raw g) = g_principal g"
  "cx_message (call_start raw g) = raw" "cx_decision (call_start raw g) = None"
  "cx_effective_arguments (call_start raw g) = None" "cx_disposition (call_start raw g) = DNone"
  by (simp_all add: call_start_def make_call_context_def)

lemma handle_tool_call_evolves:
  assumes "standard g pe hs"
  shows "evolves g (after (handle_tool_call raw) g)"
proof -
  obtain oc ctx w where r: "call_run raw g = (oc, ctx, w)" by (metis prod_cases3)
  have "cx_session ctx = cx_session (call_start raw g)"
    using r unfolding call_run_standard [OF assms] by (rule default_same_session)
  then have "cx_session ctx = g_session g" by simp
  then have g1: "evolves g (g\<lparr>g_world := w, g_session := cx_session ctx\<rparr>)"
    by (simp add: evolves_def static_def)
  have "evolves h (after (settle_call raw lib oc ctx) h)" for h lib
    by (auto simp: settle_call_def handle_denial_evolves forward_call_evolves ev.R_refl split: option.splits)
  with g1 show ?thesis unfolding handle_tool_call_parts(2) [OF r] by (rule ev.R_trans)
qed

text \<open>A suspended session gets nothing, whatever the posture.\<close>

lemma suspended_call:
  assumes "standard g pe hs" and "s_suspended (g_session g)"
  shows "upstream_lines (effects (handle_tool_call raw) g) = []"
proof -
  have "call_run raw g = ((deny (PStr ''session suspended by risk engine; all tool calls refused'') [])
       \<lparr>oc_stage := ''session_gate''\<rparr>, call_start raw g, g_world g)"
    using suspended_denied [of "call_start raw g" "g_env g" pe "g_sequence g" hs "g_world g"]
      call_run_standard [OF assms(1)] assms(2) by simp
  then show ?thesis by (rule denied_call_lines(1)) (simp_all add: denied_def deny_def)
qed

text \<open>A tainted session reaches no sink: static policy cannot let the call through.\<close>

lemma sequence_blocked_call:
  assumes "standard g pe hs" and "sequence_check (g_sequence g) (call_tool raw) (g_session g) \<noteq> None"
    and "fp_pipeline (g_posture g) = CLOSED"
  shows "upstream_lines (effects (handle_tool_call raw) g) = []"
proof (rule ccontr)
  assume up: "upstream_lines (effects (handle_tool_call raw) g) \<noteq> []"
  obtain oc ctx w where r: "call_run raw g = (oc, ctx, w)" by (metis prod_cases3)
  then have "\<not> denied oc" using forwarded_call(1) [OF r up assms(3)] by simp
  with r call_run_standard [OF assms(1)] obtain d h where
    "call_passes (g_env g) pe (g_sequence g) hs (call_start raw g) (g_world g) d h"
    using default_pass by metis
  with assms(2) show False by (simp add: call_passes_def)
qed

section \<open>A tool result\<close>

lemma dput_dput [simp]: "dput k v (dput k w d) = dput k v d"
  by (simp add: dput_def update_last)

lemma deliver_quarantined_facts [simp]:
  "upstream_lines (effects (deliver_quarantined raw p n) g) = []"
  "client_lines (effects (deliver_quarantined raw p n) g) =
     [encode (e_lib (g_env g)) (dput ''result'' (text_result (QUARANTINE_NOTICE (pc_tool p))) raw)]"
  "after (deliver_quarantined raw p n) g = g"
  by (simp_all add: effects_def after_def deliver_quarantined_def gemit_def)

lemma withhold_unredactable_facts [simp]:
  "upstream_lines (effects (withhold_unredactable raw p n reason) g) = []"
  "client_lines (effects (withhold_unredactable raw p n reason) g) =
     [encode (e_lib (g_env g)) (dput ''result'' (text_result (REDACTION_FAILED_NOTICE (pc_tool p))) raw)]"
  "after (withhold_unredactable raw p n reason) g = g"
  by (simp_all add: effects_def after_def withhold_unredactable_def gemit_def)

lemma deliver_scrubbed_facts [simp]:
  "upstream_lines (effects (deliver_scrubbed raw p n sp red rep) g) = []"
  "client_lines (effects (deliver_scrubbed raw p n sp red rep) g) =
     [encode (e_lib (g_env g)) (dput ''result'' red raw)]"
  "evolves g (after (deliver_scrubbed raw p n sp red rep) g)"
  using evolves_risk [of g HEAVY_REDACTION "pc_tool p"]
  by (auto simp: effects_def after_def deliver_scrubbed_def gemit_def Let_def ev.R_refl split: prod.splits)

text \<open>The scan of a result, and what a redact disposition sends to the client.\<close>

abbreviation scan_result :: "message \<Rightarrow> redaction_spec \<Rightarrow> gateway \<Rightarrow> (pyval \<times> report) res" where
  "scan_result raw sp g \<equiv> fst (service_redact (w_service (g_world g)) (dget_none raw ''result'') sp)"

definition redacted_line :: "message \<Rightarrow> pending_call \<Rightarrow> gateway \<Rightarrow> string" where
  "redacted_line raw p g =
     encode (e_lib (g_env g))
       (case (g_redaction g, pc_redaction p) of
          (True, Some sp) \<Rightarrow>
            (case scan_result raw sp g of
               Inr (red, rep) \<Rightarrow> dput ''result'' red raw
             | Inl e \<Rightarrow>
                 if fp_redaction (g_posture g) = OPEN then raw
                 else dput ''result'' (text_result (REDACTION_FAILED_NOTICE (pc_tool p))) raw)
        | _ \<Rightarrow> dput ''result'' (text_result (REDACTION_FAILED_NOTICE (pc_tool p))) raw)"

lemma deliver_redacted_unavailable:
  assumes "g_redaction g = False \<or> pc_redaction p = None"
  shows "deliver_redacted raw p n g = withhold_unredactable raw p n ''redaction service unavailable'' g"
  using assms by (auto simp: deliver_redacted_def split: bool.splits option.splits)

lemma deliver_redacted_scan:
  assumes "g_redaction g" and "pc_redaction p = Some sp"
    and "service_redact (w_service (g_world g)) (dget_none raw ''result'') sp = (r, sv)"
  defines "g1 \<equiv> g\<lparr>g_world := (g_world g)\<lparr>w_service := sv\<rparr>\<rparr>"
  shows "deliver_redacted raw p n g =
    (case r of
       Inl e \<Rightarrow> if fp_redaction (g_posture g) = OPEN then
           gemit [Audit ''redaction_error_fail_open''
                    [(PStr ''tool'', PStr (pc_tool p)), (PStr ''id'', msg_id raw),
                     (PStr ''reason'', PStr (exn_str e)), (PStr ''result_bytes'', nat_val n)],
                  ToClient (encode (e_lib (g_env g)) raw)] g1
         else withhold_unredactable raw p n (exn_str e) g1
     | Inr (red, rep) \<Rightarrow> deliver_scrubbed raw p n sp red rep g1)"
  using assms by (simp add: deliver_redacted_def split: sum.splits)

lemma deliver_redacted_facts:
  "upstream_lines (effects (deliver_redacted raw p n) g) = [] \<and>
   client_lines (effects (deliver_redacted raw p n) g) = [redacted_line raw p g] \<and>
   evolves g (after (deliver_redacted raw p n) g)"
proof (cases "g_redaction g \<and> pc_redaction p \<noteq> None")
  case False
  then have eq: "deliver_redacted raw p n g = withhold_unredactable raw p n ''redaction service unavailable'' g"
    by (intro deliver_redacted_unavailable) auto
  have "effects (deliver_redacted raw p n) g = effects (withhold_unredactable raw p n ''redaction service unavailable'') g"
    "after (deliver_redacted raw p n) g = g"
    using eq withhold_unredactable_facts(3) [of raw p n "''redaction service unavailable''" g]
    by (simp_all add: effects_def after_def)
  with False show ?thesis by (auto simp: redacted_line_def ev.R_refl split: bool.splits option.splits)
next
  case True
  then obtain sp where sp: "g_redaction g" "pc_redaction p = Some sp" by auto
  obtain r sv where r: "service_redact (w_service (g_world g)) (dget_none raw ''result'') sp = (r, sv)"
    by (cases "service_redact (w_service (g_world g)) (dget_none raw ''result'') sp")
  let ?g1 = "g\<lparr>g_world := (g_world g)\<lparr>w_service := sv\<rparr>\<rparr>"
  note eq = deliver_redacted_scan [OF sp r, of n]
  have g1: "evolves g ?g1" by simp
  show ?thesis
  proof (cases r)
    case (Inl e)
    show ?thesis
    proof (cases "fp_redaction (g_posture g) = OPEN")
      case True
      with Inl eq sp r g1 show ?thesis by (simp add: effects_def after_def gemit_def redacted_line_def)
    next
      case False
      with Inl eq have "effects (deliver_redacted raw p n) g = effects (withhold_unredactable raw p n (exn_str e)) ?g1"
        "after (deliver_redacted raw p n) g = after (withhold_unredactable raw p n (exn_str e)) ?g1"
        by (simp_all add: effects_def after_def)
      with False Inl sp r g1 show ?thesis by (simp add: redacted_line_def)
    qed
  next
    case (Inr q)
    then obtain red rep where q: "r = Inr (red, rep)" by (cases q) simp
    with eq have "effects (deliver_redacted raw p n) g = effects (deliver_scrubbed raw p n sp red rep) ?g1"
      "after (deliver_redacted raw p n) g = after (deliver_scrubbed raw p n sp red rep) ?g1"
      by (simp_all add: effects_def after_def)
    with q sp r ev.R_trans [OF g1 deliver_scrubbed_facts(3)] show ?thesis by (simp add: redacted_line_def)
  qed
qed

text \<open>What the client receives for the result of a forwarded call.\<close>

definition result_line :: "message \<Rightarrow> pending_call \<Rightarrow> gateway \<Rightarrow> string" where
  "result_line raw p g =
     (if result_is_error raw then encode (e_lib (g_env g)) raw
      else case pc_disposition p of
             DNone \<Rightarrow> encode (e_lib (g_env g)) raw
           | DQuarantine \<Rightarrow>
               encode (e_lib (g_env g)) (dput ''result'' (text_result (QUARANTINE_NOTICE (pc_tool p))) raw)
           | DRedact \<Rightarrow> redacted_line raw p g)"

lemma deliver_tool_result_cases:
  obtains "deliver_tool_result raw p g = deliver_quarantined raw p (result_size_bytes (e_lib (g_env g)) raw) g"
      "\<not> result_is_error raw" "pc_disposition p = DQuarantine"
  | "deliver_tool_result raw p g = deliver_redacted raw p (result_size_bytes (e_lib (g_env g)) raw) g"
      "\<not> result_is_error raw" "pc_disposition p = DRedact"
  | n fs where "deliver_tool_result raw p g = gemit [Audit n fs, ToClient (encode (e_lib (g_env g)) raw)] g"
      "result_is_error raw \<or> pc_disposition p = DNone"
  by (cases "result_is_error raw"; cases "pc_disposition p") (simp_all add: deliver_tool_result_def Let_def)

lemma deliver_tool_result_facts:
  "upstream_lines (effects (deliver_tool_result raw p) g) = [] \<and>
   client_lines (effects (deliver_tool_result raw p) g) = [result_line raw p g] \<and>
   evolves g (after (deliver_tool_result raw p) g)"
proof (cases rule: deliver_tool_result_cases [of raw p g])
  case 1
  then have "effects (deliver_tool_result raw p) g = effects (deliver_quarantined raw p (result_size_bytes (e_lib (g_env g)) raw)) g"
    "after (deliver_tool_result raw p) g = after (deliver_quarantined raw p (result_size_bytes (e_lib (g_env g)) raw)) g"
    by (simp_all add: effects_def after_def)
  with 1 show ?thesis by (simp add: result_line_def ev.R_refl)
next
  case 2
  then have "effects (deliver_tool_result raw p) g = effects (deliver_redacted raw p (result_size_bytes (e_lib (g_env g)) raw)) g"
    "after (deliver_tool_result raw p) g = after (deliver_redacted raw p (result_size_bytes (e_lib (g_env g)) raw)) g"
    by (simp_all add: effects_def after_def)
  with 2 deliver_redacted_facts show ?thesis by (simp add: result_line_def)
next
  case (3 n fs)
  then show ?thesis by (auto simp: effects_def after_def gemit_def result_line_def ev.R_refl)
qed

section \<open>Lines\<close>

lemma note_tools_list_facts [simp]:
  "effects (note_tools_list raw) g = []" "evolves g (after (note_tools_list raw) g)"
  by (auto simp: effects_def after_def note_tools_list_def gskip_def graise_def ev.R_refl split: option.splits)

lemma deliver_tools_list_facts:
  "upstream_lines (effects (deliver_tools_list raw k) g) = []"
  "evolves g (after (deliver_tools_list raw k) g)"
  by (auto simp: effects_def after_def deliver_tools_list_def gemit_def graise_def Let_def
      split: sum.splits prod.splits)

definition pass_client :: "pylib \<Rightarrow> message \<Rightarrow> gact" where
  "pass_client lib raw =
     gseq (note_tools_list raw)
       (gemit [Audit ''passthrough_request'' [(PStr ''method'', opt_method raw), (PStr ''id'', msg_id raw)],
               ToUpstream (encode lib raw)])"

lemma dispatch_client_cases:
  obtains (opaque) n fs where "decode_line (e_lib (g_env g)) line = Inr None"
      "dispatch_client_line line g = gemit [Audit n fs, ToUpstream line] g"
  | (beyond) e where "decode_line (e_lib (g_env g)) line = Inl e" "dispatch_client_line line g = graise e g"
  | (call) raw where "decode_line (e_lib (g_env g)) line = Inr (Some raw)" "is_tool_call raw"
      "dispatch_client_line line g = handle_tool_call raw g"
  | (other) raw where "decode_line (e_lib (g_env g)) line = Inr (Some raw)" "\<not> is_tool_call raw"
      "dispatch_client_line line g = pass_client (e_lib (g_env g)) raw g"
proof (cases "decode_line (e_lib (g_env g)) line")
  case (Inl e)
  then show ?thesis by (intro beyond) (simp_all add: dispatch_client_line_def)
next
  case (Inr m)
  show ?thesis
  proof (cases m)
    case None
    with Inr show ?thesis by (intro opaque) (simp_all add: dispatch_client_line_def)
  next
    case (Some raw)
    with Inr show ?thesis
      by (cases "is_tool_call raw") (intro call other; simp add: dispatch_client_line_def pass_client_def)+
  qed
qed

lemma pass_client_evolves: "evolves g (after (pass_client lib raw) g)"
  unfolding pass_client_def by (intro ev.keeps_gseq_all) (simp_all add: ev.R_refl)

lemma dispatch_client_evolves:
  assumes "standard g pe hs"
  shows "evolves g (after (dispatch_client_line line) g)"
proof (cases rule: dispatch_client_cases [where g = g and line = line])
  case (opaque n fs)
  then show ?thesis by (simp add: after_def gemit_def graise_def ev.R_refl)
next
  case (beyond e)
  then show ?thesis by (simp add: after_def gemit_def graise_def ev.R_refl)
next
  case (call raw)
  then show ?thesis using handle_tool_call_evolves [OF assms, of raw] by (simp add: after_def)
next
  case (other raw)
  then show ?thesis using pass_client_evolves [of g _ raw] by (simp add: after_def)
qed

lemma resolve_pending_evolves:
  "resolve_pending i (g_session g) = Inr (p, s) \<Longrightarrow> evolves g (g\<lparr>g_session := s\<rparr>)"
  by (auto simp: resolve_pending_def intro!: evolves_session risk_inv_pending split: option.splits)

lemma dispatch_upstream_facts:
  "upstream_lines (effects (dispatch_upstream_line line) g) = [] \<and>
   evolves g (after (dispatch_upstream_line line) g)"
proof -
  define P where "P a \<longleftrightarrow> upstream_lines (snd (snd a)) = [] \<and> evolves g (fst (snd a))"
    for a :: "exn option \<times> gateway \<times> effect list"
  have emit: "P (gemit es h)" if "evolves g h" "upstream_lines es = []" for es h
    using that by (simp add: gemit_def P_def)
  have raise: "P (graise e g)" for e by (simp add: graise_def ev.R_refl P_def)
  have result: "P (deliver_tool_result raw p h)" if "evolves g h" for raw p h
    using deliver_tool_result_facts [of raw p h] ev.R_trans [OF that] by (auto simp: effects_def after_def P_def)
  have tools: "P (deliver_tools_list raw k h)" if "evolves g h" for raw k h
    using deliver_tools_list_facts [where raw = raw and k = k and g = h] ev.R_trans [OF that]
    by (auto simp: effects_def after_def P_def)
  have "P (dispatch_upstream_line line g)"
    unfolding dispatch_upstream_line_def
    by (auto split: sum.splits option.splits prod.splits
        intro!: emit raise result tools ev.R_refl elim: resolve_pending_evolves)
  then show ?thesis by (simp add: effects_def after_def P_def)
qed

end
