(* ===== verification/Gateway_Runs.thy ===== *)
theory Gateway_Runs
  imports Gateway_Safety
begin

text \<open>
  Whole runs of a gateway: the transition relation over client and upstream lines, what every
  reachable state keeps, that a tool call is answered once and audited before anything is
  sent, and that the filtered tools/list agrees with enforcement.
\<close>

section \<open>The transition relation\<close>

datatype input = ClientLine string | UpstreamLine string

definition handle_input :: "input \<Rightarrow> gact" where
  "handle_input i = (case i of ClientLine l \<Rightarrow> on_client_line l | UpstreamLine l \<Rightarrow> on_upstream_line l)"

inductive gateway_run :: "gateway \<Rightarrow> (input \<times> effect list) list \<Rightarrow> gateway \<Rightarrow> bool" where
  gateway_done: "gateway_run g [] g"
| gateway_step: "gateway_run (after (handle_input i) g) tr g' \<Longrightarrow>
    gateway_run g ((i, effects (handle_input i) g) # tr) g'"

inductive_cases gateway_run_NilE: "gateway_run g [] g'"
inductive_cases gateway_run_ConsE: "gateway_run g (x # tr) g'"

text \<open>The same as a function of the inputs.\<close>

fun run_inputs :: "input list \<Rightarrow> gateway \<Rightarrow> (input \<times> effect list) list \<times> gateway" where
  "run_inputs [] g = ([], g)"
| "run_inputs (i # is) g =
     (let (tr, g') = run_inputs is (after (handle_input i) g) in ((i, effects (handle_input i) g) # tr, g'))"

lemma run_inputs_run: "gateway_run g (fst (run_inputs is g)) (snd (run_inputs is g))"
  by (induction "is" arbitrary: g)
    (auto simp: case_prod_unfold Let_def intro: gateway_run.intros)

lemma run_is_run_inputs: "gateway_run g tr g' \<Longrightarrow> run_inputs (map fst tr) g = (tr, g')"
  by (induction rule: gateway_run.induct) simp_all

lemma handle_input_facts:
  assumes "standard g pe hs"
  shows "evolves g (after (handle_input i) g)"
  using dispatch_client_evolves [OF assms] dispatch_upstream_facts
  by (cases i) (simp_all add: handle_input_def on_client_line_def on_upstream_line_def)

lemma run_evolves: "gateway_run g tr g' \<Longrightarrow> standard g pe hs \<Longrightarrow> evolves g g'"
proof (induction rule: gateway_run.induct)
  case (gateway_step i g tr g')
  have "evolves g (after (handle_input i) g)" using gateway_step.prems by (rule handle_input_facts)
  moreover from this have "evolves (after (handle_input i) g) g'"
    using gateway_step.IH standard_evolves gateway_step.prems by blast
  ultimately show ?case by (rule ev.R_trans)
qed (rule ev.R_refl)

text \<open>Every step of a run starts in a state the initial one evolved into.\<close>

lemma run_element:
  assumes "gateway_run g tr g'" and "standard g pe hs" and "(i, es) \<in> set tr"
  shows "\<exists>h. evolves g h \<and> standard h pe hs \<and> es = effects (handle_input i) h"
  using assms
proof (induction rule: gateway_run.induct)
  case (gateway_step j g tr g')
  have e: "evolves g (after (handle_input j) g)" using gateway_step.prems(1) by (rule handle_input_facts)
  show ?case
  proof (cases "(i, es) = (j, effects (handle_input j) g)")
    case True
    with gateway_step.prems(1) ev.R_refl show ?thesis by blast
  next
    case False
    with gateway_step.prems(2) have "(i, es) \<in> set tr" by auto
    with gateway_step.IH standard_evolves [OF e gateway_step.prems(1)] obtain h where
      "evolves (after (handle_input j) g) h" "standard h pe hs" "es = effects (handle_input i) h" by blast
    with ev.R_trans [OF e] show ?thesis by blast
  qed
qed simp

definition calls :: "gateway \<Rightarrow> string \<Rightarrow> message \<Rightarrow> bool" where
  "calls g line raw = (decode_line (e_lib (g_env g)) line = Inr (Some raw) \<and> is_tool_call raw)"

lemma calls_evolves: "evolves g h \<Longrightarrow> calls h line raw = calls g line raw"
  by (simp add: calls_def evolves_def static_def)

lemma call_effects:
  assumes "calls g line raw"
  shows "upstream_lines (effects (handle_input (ClientLine line)) g) = upstream_lines (effects (handle_tool_call raw) g)"
    and "client_lines (effects (handle_input (ClientLine line)) g) = client_lines (effects (handle_tool_call raw) g)"
    and "raised (handle_input (ClientLine line)) g = raised (handle_tool_call raw) g"
proof -
  have "dispatch_client_line line g = handle_tool_call raw g"
    using assms by (simp add: dispatch_client_line_def calls_def)
  then have "effects (dispatch_client_line line) g = effects (handle_tool_call raw) g"
    and "raised (dispatch_client_line line) g = raised (handle_tool_call raw) g"
    by (simp_all add: effects_def raised_def)
  then show "upstream_lines (effects (handle_input (ClientLine line)) g) = upstream_lines (effects (handle_tool_call raw) g)"
    and "client_lines (effects (handle_input (ClientLine line)) g) = client_lines (effects (handle_tool_call raw) g)"
    and "raised (handle_input (ClientLine line)) g = raised (handle_tool_call raw) g"
    by (simp_all add: handle_input_def on_client_line_def)
qed

section \<open>Safety of runs\<close>

lemma suspended_run:
  assumes "gateway_run g tr g'" and "standard g pe hs" and "s_suspended (g_session g)"
    and "(ClientLine line, es) \<in> set tr" and "calls g line raw"
  shows "upstream_lines es = []"
proof -
  obtain h where h: "evolves g h" "standard h pe hs" "es = effects (handle_input (ClientLine line)) h"
    using run_element [OF assms(1,2,4)] by blast
  have "s_suspended (g_session h)" using h(1) assms(3) by (simp add: evolves_def session_grows_def)
  moreover have "calls h line raw" using assms(5) calls_evolves [OF h(1)] by simp
  ultimately show ?thesis using suspended_call [OF h(2)] h(3) call_effects(1) by simp
qed

lemma sequence_run:
  assumes "gateway_run g tr g'" and "standard g pe hs" and "fp_pipeline (g_posture g) = CLOSED"
    and "sequence_check (g_sequence g) (call_tool raw) (g_session g) \<noteq> None"
    and "(ClientLine line, es) \<in> set tr" and "calls g line raw"
  shows "upstream_lines es = []"
proof -
  obtain h where h: "evolves g h" "standard h pe hs" "es = effects (handle_input (ClientLine line)) h"
    using run_element [OF assms(1,2,5)] by blast
  have grows: "session_grows (g_session g) (g_session h)" using h(1) by (simp add: evolves_def)
  then have "sequence_check (g_sequence g) (call_tool raw) (g_session h) \<noteq> None"
    using assms(4) by (intro sequence_check_mono [OF assms(4)]) (auto simp: session_grows_def dest: set_mono_prefix)
  moreover have "g_sequence h = g_sequence g" "g_posture h = g_posture g" using h(1) by (simp_all add: evolves_def static_def)
  moreover have "calls h line raw" using assms(6) calls_evolves [OF h(1)] by simp
  ultimately show ?thesis using sequence_blocked_call [OF h(2)] assms(3) h(3) call_effects(1) by simp
qed

section \<open>One answer per call\<close>

lemma run_anomaly_only_audits [simp]:
  "length (upstream_lines (effects (run_anomaly t f) g)) = 0" by simp

lemma handle_denial_one:
  assumes "raised (handle_denial raw tool oc d) g = None"
  shows "length (upstream_lines (effects (handle_denial raw tool oc d) g)) +
    length (client_lines (effects (handle_denial raw tool oc d) g)) = 1"
proof (cases "oc_internal_error oc \<and> fp_pipeline (g_posture g) = OPEN")
  case True
  then have "effects (handle_denial raw tool oc d) g = effects (forward_unchecked (e_lib (g_env g)) raw tool oc) g"
    and "raised (handle_denial raw tool oc d) g = raised (forward_unchecked (e_lib (g_env g)) raw tool oc) g"
    by (simp_all add: handle_denial_def effects_def raised_def)
  with assms show ?thesis by (auto simp: forward_unchecked_def split: if_splits)
next
  case False
  then have c: "\<not> oc_internal_error oc \<or> fp_pipeline (g_posture g) = CLOSED"
    using fail_mode.exhaust by blast
  show ?thesis using handle_denial_closed [OF c] by simp
qed

lemma settle_call_one:
  assumes "raised (settle_call raw lib oc ctx) g = None"
  shows "length (upstream_lines (effects (settle_call raw lib oc ctx) g)) +
    length (client_lines (effects (settle_call raw lib oc ctx) g)) = 1"
proof (cases "denied oc")
  case True
  then show ?thesis using assms handle_denial_one by (simp add: settle_call_def)
next
  case False
  with assms obtain d where "cx_decision ctx = Some d" by (cases "cx_decision ctx") (simp_all add: settle_call_def)
  with False assms show ?thesis by (auto simp: settle_call_def forward_call_def split: if_splits)
qed

lemma tool_call_one:
  assumes "raised (handle_tool_call raw) g = None"
  shows "length (upstream_lines (effects (handle_tool_call raw) g)) +
    length (client_lines (effects (handle_tool_call raw) g)) = 1"
proof -
  obtain oc ctx w where r: "call_run raw g = (oc, ctx, w)" by (metis prod_cases3)
  from assms show ?thesis unfolding handle_tool_call_parts [OF r] by (simp add: settle_call_one)
qed

section \<open>Audit comes first\<close>

text \<open>Reading the effects in order, one of the named events appears before the first line sent.\<close>

fun audited_first :: "string list \<Rightarrow> effect list \<Rightarrow> bool" where
  "audited_first ns [] = True"
| "audited_first ns (Audit n fs # es) = (n \<in> set ns \<or> audited_first ns es)"
| "audited_first ns (Persist # es) = audited_first ns es"
| "audited_first ns (ToClient l # es) = False"
| "audited_first ns (ToUpstream l # es) = False"

definition CLIENT_EVENTS :: "string list" where
  "CLIENT_EVENTS =
     [''tool_call_allowed'', ''tool_call_blocked'', ''tool_call_denied_session_suspended'',
      ''stage_error_fail_open'', ''passthrough_request'', ''passthrough_opaque'']"

lemma audited_first_silent:
  "upstream_lines a = [] \<Longrightarrow> client_lines a = [] \<Longrightarrow> audited_first ns b \<Longrightarrow> audited_first ns (a @ b)"
  by (induction ns a rule: audited_first.induct) auto

lemma audited_first_quiet: "upstream_lines a = [] \<Longrightarrow> client_lines a = [] \<Longrightarrow> audited_first ns a"
  using audited_first_silent [of a ns "[]"] by simp

lemma audited_first_append: "audited_first ns a \<Longrightarrow> audited_first ns b \<Longrightarrow> audited_first ns (a @ b)"
  by (induction ns a rule: audited_first.induct) auto

lemma audit_denial_audited:
  "audited_first CLIENT_EVENTS (effects (audit_denial raw tool oc d) g @ es)"
  by (auto simp: effects_def audit_denial_def gemit_def Let_def CLIENT_EVENTS_def split: prod.splits)

lemma audit_refusal_audited:
  "audited_first CLIENT_EVENTS (effects (audit_refusal raw tool oc d) g @ es)"
proof (cases "oc_stage oc = ''session_gate''")
  case False
  then have "effects (audit_refusal raw tool oc d) g = effects (audit_denial raw tool oc d) g"
    by (simp add: audit_refusal_def effects_def)
  then show ?thesis by (simp add: audit_denial_audited)
qed (simp add: audit_refusal_def effects_def gemit_def CLIENT_EVENTS_def)

lemma handle_denial_audited: "audited_first CLIENT_EVENTS (effects (handle_denial raw tool oc d) g)"
proof (cases "oc_internal_error oc \<and> fp_pipeline (g_posture g) = OPEN")
  case True
  then have "effects (handle_denial raw tool oc d) g = effects (forward_unchecked (e_lib (g_env g)) raw tool oc) g"
    by (simp add: handle_denial_def effects_def)
  then show ?thesis by (simp add: forward_unchecked_def CLIENT_EVENTS_def)
next
  case False
  then have "effects (handle_denial raw tool oc d) g = effects (refuse (e_lib (g_env g)) raw tool oc d) g"
    by (auto simp: handle_denial_def effects_def)
  then show ?thesis using audit_refusal_audited by (simp add: refuse_def)
qed

lemma forward_call_audited: "audited_first CLIENT_EVENTS (effects (forward_call lib raw tool ctx d) g)"
proof -
  have "audited_first CLIENT_EVENTS (effects (mark_taint raw tool) h @
      Audit ''tool_call_allowed'' fs # es)" for h fs es
    by (rule audited_first_silent) (simp_all add: CLIENT_EVENTS_def)
  moreover have "audited_first CLIENT_EVENTS (effects (mark_taint raw tool) h)" for h
    by (rule audited_first_quiet) simp_all
  ultimately show ?thesis by (simp add: forward_call_def)
qed

lemma settle_call_audited: "audited_first CLIENT_EVENTS (effects (settle_call raw lib oc ctx) g)"
  by (auto simp: settle_call_def handle_denial_audited forward_call_audited split: option.splits)

lemma tool_call_audited: "audited_first CLIENT_EVENTS (effects (handle_tool_call raw) g)"
proof -
  obtain oc ctx w where r: "call_run raw g = (oc, ctx, w)" by (metis prod_cases3)
  show ?thesis unfolding handle_tool_call_parts(1) [OF r]
    by (rule audited_first_silent) (simp_all add: settle_call_audited)
qed

lemma dispatch_client_audited: "audited_first CLIENT_EVENTS (effects (dispatch_client_line line) g)"
proof -
  have pass: "audited_first CLIENT_EVENTS (effects (pass_client lib raw) g)" for lib raw
    by (simp add: pass_client_def CLIENT_EVENTS_def)
  have call: "audited_first CLIENT_EVENTS (snd (snd (handle_tool_call raw g)))" for raw
    using tool_call_audited [of raw g] by (simp add: effects_def)
  show ?thesis
    using pass call
    by (auto simp: effects_def dispatch_client_line_def pass_client_def graise_def gemit_def CLIENT_EVENTS_def
        split: sum.splits option.splits)
qed

lemma client_line_audited: "audited_first CLIENT_EVENTS (effects (on_client_line line) g)"
  by (simp add: on_client_line_def) (auto intro!: audited_first_append dispatch_client_audited)

section \<open>Filtered tools/list\<close>

lemma split_visible_spec:
  assumes "split_visible pe ds role tools = Inr (shown, hidden)"
  shows "shown = filter (\<lambda>e. case entry_name e of None \<Rightarrow> True | Some n \<Rightarrow> is_visible pe ds n role = Inr True) tools"
    and "set hidden = {n. \<exists>e \<in> set tools. entry_name e = Some n \<and> is_visible pe ds n role = Inr False}"
    and "length shown + length hidden = length tools"
  using assms
proof (induction tools arbitrary: shown hidden)
  case (Cons e es)
  {
    case 1 with Cons.IH show ?case by (auto simp: ebind_eq_Inr split: option.splits if_splits)
  next
    case 2 with Cons.IH show ?case by (auto simp: ebind_eq_Inr split: option.splits if_splits)
  next
    case 3 with Cons.IH show ?case by (auto simp: ebind_eq_Inr split: option.splits if_splits)
  }
qed auto

text \<open>A tool that is hidden from the client is one every call to which is refused.\<close>

lemma hidden_tool_denied:
  assumes "standard g pe hs" and "fp_pipeline (g_posture g) = CLOSED"
    and "is_visible pe (denying_actions hs) (call_tool raw) (first_role (g_principal g)) = Inr False"
  shows "upstream_lines (effects (handle_tool_call raw) g) = []"
proof (rule ccontr)
  assume up: "upstream_lines (effects (handle_tool_call raw) g) \<noteq> []"
  obtain oc ctx w where r: "call_run raw g = (oc, ctx, w)" by (metis prod_cases3)
  have nd: "\<not> denied oc" using forwarded_call(1) [OF r up assms(2)] .
  obtain d h where p: "call_passes (g_env g) pe (g_sequence g) hs (call_start raw g) (g_world g) d h"
    using default_pass r nd unfolding call_run_standard [OF assms(1)] by metis
  then have ev: "evaluate pe (call_tool raw) (first_role (g_principal g)) = Inr d"
    and fh: "find_handler hs (d_action d) = Inr (Some h)"
    and ok: "\<exists>oc. fst (on_request (g_env g) hs h d ((call_start raw g)\<lparr>cx_decision := Some d\<rparr>) (g_world g)) = Inr oc
      \<and> \<not> denied oc"
    by (auto simp: call_passes_def)
  from assms(3) ev obtain a where a: "d_action d = PStr a" "a \<in> set (denying_actions hs)"
    by (auto simp: is_visible_def in_strset_def split: option.splits)
  then have "terminal_deny h"
    using denying_actions_terminal [of a hs] fh assms(1) by (auto simp: standard_def find_handler_def)
  with ok show False using terminal_deny_denies [of h "g_env g" hs d] by (metis fst_conv prod_cases3 sum.inject(2))
qed

section \<open>Taint over a run\<close>

lemma mark_taint_tainted:
  "is_taint_source (g_sequence g) tool \<Longrightarrow> s_tainted (g_session (after (mark_taint raw tool) g))"
  by (auto simp: after_def mark_taint_def gemit_def gskip_def)

lemma tainted_evolves: "evolves g h \<Longrightarrow> s_tainted (g_session g) \<Longrightarrow> s_tainted (g_session h)"
  by (simp add: evolves_def session_grows_def)

lemma forward_call_tainted:
  assumes "is_taint_source (g_sequence g) tool"
  shows "s_tainted (g_session (after (forward_call lib raw tool ctx d) g))"
proof -
  let ?h = "after (record_history tool) g"
  have "is_taint_source (g_sequence ?h) tool" using assms by simp
  then have t: "s_tainted (g_session (after (mark_taint raw tool) ?h))" by (rule mark_taint_tainted)
  define rest where "rest =
     gseq (track (msg_id raw) tool (d_action d) (cx_disposition ctx) (cx_redaction_spec ctx))
     (gseq (gemit [Audit ''tool_call_allowed'' (allowed_fields raw tool ctx d)])
     (gseq (gemit [ToUpstream (encode lib (outbound_message raw ctx))]) (run_anomaly tool False)))"
  have "evolves x (after rest x)" for x
    unfolding rest_def by (intro ev.keeps_gseq_all) (simp_all add: run_anomaly_evolves ev.R_refl)
  then have "s_tainted (g_session (after rest (after (mark_taint raw tool) ?h)))"
    using t tainted_evolves by blast
  moreover have "forward_call lib raw tool ctx d = gseq (record_history tool) (gseq (mark_taint raw tool) rest)"
    by (simp add: forward_call_def rest_def)
  ultimately show ?thesis by simp
qed

lemma source_call_taints:
  assumes "fp_pipeline (g_posture g) = CLOSED" and "is_taint_source (g_sequence g) (call_tool raw)"
    and "upstream_lines (effects (handle_tool_call raw) g) \<noteq> []"
  shows "s_tainted (g_session (after (handle_tool_call raw) g))"
proof -
  obtain oc ctx w where r: "call_run raw g = (oc, ctx, w)" by (metis prod_cases3)
  note f = forwarded_call [OF r assms(3,1)]
  obtain d where d: "cx_decision ctx = Some d" using f(3) by blast
  show ?thesis unfolding handle_tool_call_parts(2) [OF r] using f(1) d assms(2)
    by (simp add: settle_call_def forward_call_tainted)
qed

lemma gateway_run_append:
  "gateway_run g (tr1 @ tr2) g' \<longleftrightarrow> (\<exists>h. gateway_run g tr1 h \<and> gateway_run h tr2 g')"
proof (induction tr1 arbitrary: g)
  case Nil
  then show ?case by (auto intro: gateway_done elim: gateway_run_NilE)
next
  case (Cons x tr1)
  show ?case
  proof
    assume "gateway_run g ((x # tr1) @ tr2) g'"
    then show "\<exists>h. gateway_run g (x # tr1) h \<and> gateway_run h tr2 g'"
      using Cons by (auto elim!: gateway_run_ConsE intro: gateway_step)
  next
    assume "\<exists>h. gateway_run g (x # tr1) h \<and> gateway_run h tr2 g'"
    then show "gateway_run g ((x # tr1) @ tr2) g'"
      using Cons by (auto elim!: gateway_run_ConsE intro!: gateway_step)
  qed
qed

lemma call_after:
  assumes "calls g line raw"
  shows "after (handle_input (ClientLine line)) g = after (handle_tool_call raw) g"
proof -
  have "after (dispatch_client_line line) g = after (handle_tool_call raw) g"
    using assms by (simp add: dispatch_client_line_def calls_def after_def)
  then show ?thesis by (simp add: handle_input_def on_client_line_def)
qed

text \<open>
  The taint guarantee over a run: once a call to a taint source was forwarded, no later call
  to a taint sink is forwarded, whatever traffic comes in between.
\<close>

lemma taint_run:
  assumes "gateway_run g (tr1 @ (ClientLine l1, es1) # tr2) g'" and "standard g pe hs"
    and "fp_pipeline (g_posture g) = CLOSED"
    and "calls g l1 raw1" and "is_taint_source (g_sequence g) (call_tool raw1)" and "upstream_lines es1 \<noteq> []"
    and "(ClientLine l2, es2) \<in> set tr2" and "calls g l2 raw2"
    and "matches_any (call_tool raw2) (sp_taint_sinks (g_sequence g))"
  shows "upstream_lines es2 = []"
proof -
  from assms(1) obtain h where h: "gateway_run g tr1 h" "gateway_run h ((ClientLine l1, es1) # tr2) g'"
    unfolding gateway_run_append by blast
  let ?k = "after (handle_input (ClientLine l1)) h"
  from h(2) have es1: "es1 = effects (handle_input (ClientLine l1)) h" and k: "gateway_run ?k tr2 g'"
    by (auto elim: gateway_run_ConsE)
  have gh: "evolves g h" using run_evolves [OF h(1) assms(2)] .
  have sh: "standard h pe hs" using standard_evolves [OF gh assms(2)] .
  have hk: "evolves h ?k" using sh by (rule handle_input_facts)
  have gk: "evolves g ?k" using gh hk by (rule ev.R_trans)
  have stat: "g_sequence h = g_sequence g" "g_posture h = g_posture g"
      "g_sequence ?k = g_sequence g" "g_posture ?k = g_posture g"
    using gh gk by (simp_all add: evolves_def static_def)
  have c1: "calls h l1 raw1" and c2: "calls ?k l2 raw2" using assms(4,8) calls_evolves [OF gh] calls_evolves [OF gk] by simp_all
  have "s_tainted (g_session ?k)"
    unfolding call_after [OF c1]
    by (rule source_call_taints) (use assms(3,5,6) stat es1 call_effects(1) [OF c1] in simp_all)
  then have "sequence_check (g_sequence ?k) (call_tool raw2) (g_session ?k) \<noteq> None"
    using assms(9) stat by (simp add: sequence_check_None_iff)
  then show ?thesis
    using sequence_run [OF k standard_evolves [OF gk assms(2)] _ _ assms(7) c2] assms(3) stat by simp
qed

section \<open>Approval and default deny at the gateway\<close>

lemma forwarded_gates:
  assumes "standard g pe hs" and "fp_pipeline (g_posture g) = CLOSED"
    and "upstream_lines (effects (handle_tool_call raw) g) \<noteq> []"
  shows "\<exists>d h oc ctx w. call_passes (g_env g) pe (g_sequence g) hs (call_start raw g) (g_world g) d h \<and>
    on_request (g_env g) hs h d ((call_start raw g)\<lparr>cx_decision := Some d\<rparr>) (g_world g) = (Inr oc, ctx, w) \<and> \<not> denied oc \<and>
    set (upstream_lines (effects (handle_tool_call raw) g)) = {encode (e_lib (g_env g)) (outbound_message raw ctx)}"
proof -
  obtain oc ctx w where r: "call_run raw g = (oc, ctx, w)" by (metis prod_cases3)
  note f = forwarded_call [OF r assms(3,2)]
  obtain d h where "call_passes (g_env g) pe (g_sequence g) hs (call_start raw g) (g_world g) d h"
    "snd (on_request (g_env g) hs h d ((call_start raw g)\<lparr>cx_decision := Some d\<rparr>) (g_world g)) = (ctx, w)"
    using default_pass f(1) r unfolding call_run_standard [OF assms(1)] by metis
  moreover from this obtain oc' where
    "fst (on_request (g_env g) hs h d ((call_start raw g)\<lparr>cx_decision := Some d\<rparr>) (g_world g)) = Inr oc'" "\<not> denied oc'"
    by (auto simp: call_passes_def)
  ultimately show ?thesis using f(4) by (metis prod.collapse)
qed

lemma forwarded_needs_approval:
  assumes "standard g pe hs" and "fp_pipeline (g_posture g) = CLOSED"
    and "upstream_lines (effects (handle_tool_call raw) g) \<noteq> []"
    and "evaluate pe (call_tool raw) (first_role (g_principal g)) = Inr d"
    and "d_action d = PStr a" and "map_of hs a = Some (RequireApproval br)"
  shows "\<exists>b. br = Some b \<and> rn_approved (broker_request (e_lib (g_env g)) (e_post (g_env g)) (w_asked (g_world g)) b
    (approval_request_of (call_start raw g) d))"
proof -
  obtain d' h oc c' w' where p: "call_passes (g_env g) pe (g_sequence g) hs (call_start raw g) (g_world g) d' h"
    and q: "on_request (g_env g) hs h d' ((call_start raw g)\<lparr>cx_decision := Some d'\<rparr>) (g_world g) = (Inr oc, c', w')"
      "\<not> denied oc"
    using forwarded_gates [OF assms(1,2,3)] by blast
  have eq: "d' = d" "h = RequireApproval br" using p assms(4,5,6) by (auto simp: call_passes_def find_handler_def)
  let ?c = "(call_start raw g)\<lparr>cx_decision := Some d\<rparr>"
  note o = q [unfolded eq]
  have "approval_request_of ?c d = approval_request_of (call_start raw g) d" by (simp add: approval_request_of_def)
  with approval_needed [OF o] show ?thesis by auto
qed

lemma default_block_denied:
  assumes "standard g pe (build_action_handlers r br)" and "fp_pipeline (g_posture g) = CLOSED"
    and "match_rule (pe_matcher pe) (call_tool raw) = None" and "pe_default_action pe = ''block''"
  shows "upstream_lines (effects (handle_tool_call raw) g) = []"
proof (rule hidden_tool_denied [OF assms(1,2)])
  show "is_visible pe (denying_actions (build_action_handlers r br)) (call_tool raw) (first_role (g_principal g)) = Inr False"
    using assms(3,4)
    by (simp add: is_visible_def evaluate_def default_decision_def in_strset_def denying_actions_def
        build_action_handlers_def terminal_deny_def)
qed

text \<open>A call that is no request (no id, or a null one) is no tool call: it passes without policy.\<close>

lemma notification_passes:
  assumes "decode_line (e_lib (g_env g)) line = Inr (Some raw)" and "msg_id raw = PNone"
  shows "upstream_lines (effects (handle_input (ClientLine line)) g) = [encode (e_lib (g_env g)) raw]"
proof -
  have "dispatch_client_line line g = pass_client (e_lib (g_env g)) raw g"
    using assms by (simp add: dispatch_client_line_def is_tool_call_def is_request_def pass_client_def)
  then have "effects (dispatch_client_line line) g = effects (pass_client (e_lib (g_env g)) raw) g"
    by (simp add: effects_def)
  moreover have "raised (note_tools_list raw) g = None"
    using assms(2) by (simp add: raised_def note_tools_list_def is_request_def gskip_def)
  ultimately show ?thesis by (simp add: handle_input_def on_client_line_def pass_client_def)
qed

section \<open>Responses nobody inspects\<close>

text \<open>
  A response whose id is tracked with no disposition, or not tracked at all, reaches the client
  as it came; resolving the id forgets it.
\<close>

lemma plain_response_released:
  assumes "decode_line (e_lib (g_env g)) line = Inr (Some raw)" and "is_response raw"
    and "resolve_pending (msg_id raw) (g_session g) = Inr (Some p, s')" and "pc_disposition p = DNone"
  shows "client_lines (effects (on_upstream_line line) g) = [encode (e_lib (g_env g)) raw]"
    and "after (on_upstream_line line) g = g\<lparr>g_session := s'\<rparr>"
proof -
  have d: "dispatch_upstream_line line g = deliver_tool_result raw p (g\<lparr>g_session := s'\<rparr>)"
    using assms by (simp add: dispatch_upstream_line_def)
  obtain n fs where r: "deliver_tool_result raw p (g\<lparr>g_session := s'\<rparr>) =
      gemit [Audit n fs, ToClient (encode (e_lib (g_env g)) raw)] (g\<lparr>g_session := s'\<rparr>)"
    using assms(4) by (cases rule: deliver_tool_result_cases [of raw p "g\<lparr>g_session := s'\<rparr>"]) auto
  show "client_lines (effects (on_upstream_line line) g) = [encode (e_lib (g_env g)) raw]"
    and "after (on_upstream_line line) g = g\<lparr>g_session := s'\<rparr>"
    using gact_unfold [where a = "dispatch_upstream_line line" and b = "gemit [Audit n fs, ToClient (encode (e_lib (g_env g)) raw)]",
        OF trans [OF d r]] by (simp_all add: on_upstream_line_def)
qed

lemma untracked_response_released:
  assumes "decode_line (e_lib (g_env g)) line = Inr (Some raw)" and "is_response raw"
    and "resolve_pending (msg_id raw) (g_session g) = Inr (None, s')"
    and "py_key (msg_id raw) = Some k" and "k \<notin> set (g_pending_tools_list g)"
  shows "client_lines (effects (on_upstream_line line) g) = [encode (e_lib (g_env g)) raw]"
proof -
  have "dispatch_upstream_line line g = gemit [ToClient (encode (e_lib (g_env g)) raw)] (g\<lparr>g_session := s'\<rparr>)"
    using assms by (simp add: dispatch_upstream_line_def)
  from gact_unfold [where a = "dispatch_upstream_line line" and b = "gemit [ToClient (encode (e_lib (g_env g)) raw)]", OF this]
  show ?thesis by (simp add: on_upstream_line_def)
qed

end
