(* ===== verification/Samples.thy ===== *)
theory Samples
  imports Gateway_Runs "HOL-Library.Code_Target_Numeral"
begin

text \<open>
  A concrete deployment on which the witnesses of the properties are evaluated: a small policy
  document, a literal-substring instance of the standard library parameters, an approver, a
  detector that reports one fixed secret, and gateways built from them.
\<close>

definition sample_lib :: pylib where
  "sample_lib =
     \<lparr>lib_compiles = (\<lambda>p i. True), lib_search = (\<lambda>p i s. contains p s),
      lib_float_repr = (\<lambda>r. ''0.5''), lib_float = (\<lambda>s. 1 / 2)\<rparr>"

definition sample_tools :: pydict where
  "sample_tools =
     [(PStr ''crm.get'', PDict [(PStr ''action'', PStr ''redact'')]),
      (PStr ''db.query'', PDict [(PStr ''action'', PStr ''rewrite''),
         (PStr ''constraints'', PList [PDict [(PStr ''type'', PStr ''regex''), (PStr ''arg'', PStr ''sql''),
            (PStr ''must_not_match'', PStr ''drop'')]]),
         (PStr ''rewrites'', PList [PDict [(PStr ''arg'', PStr ''sql''), (PStr ''append'', PStr '' LIMIT 9'')]])]),
      (PStr ''web.*'', PDict [(PStr ''action'', PStr ''allow'')]),
      (PStr ''mail.send'', PDict [(PStr ''action'', PStr ''allow'')]),
      (PStr ''files.*'', PDict [(PStr ''action'', PStr ''quarantine'')]),
      (PStr ''admin.*'', PDict [(PStr ''action'', PStr ''require_approval'')])]"

definition sample_doc :: pyval where
  "sample_doc =
     PDict [(PStr ''schema_version'', PInt 1), (PStr ''tools'', PDict sample_tools),
            (PStr ''taint_sources'', PList [PStr ''web.*'']), (PStr ''taint_sinks'', PList [PStr ''mail.*''])]"

definition sample_layer :: policy_layer where
  "sample_layer = projr (parse_document sample_lib sample_doc ''pack'' ''pack'')"

definition sample_engine :: policy_engine where
  "sample_engine = projr (make_engine sample_lib [sample_layer])"

definition sample_sequence :: sequence_policy where
  "sample_sequence = projr (build_sequence_policy sample_engine)"

definition sample_broker :: broker where
  "sample_broker = \<lparr>br_channel = HttpChannel ''http://console/api/approvals'', br_deadline = 300, br_fail_open = False\<rparr>"

definition sample_post :: http_post where
  "sample_post n url payload =
     (if n = 0 then Posted (PDict [(PStr ''approved'', PBool True)]) else PostTimeout)"

definition sample_env :: env where
  "sample_env = \<lparr>e_lib = sample_lib, e_post = sample_post, e_model = (\<lambda>n t. Inr None)\<rparr>"

definition sample_handlers :: handlers where
  "sample_handlers = build_action_handlers True (Some sample_broker)"

text \<open>A detector that reports every occurrence of \<open>hunter2\<close>.\<close>

definition sample_detector :: detector where
  "sample_detector =
     \<lparr>det_name = ''secrets'', det_available = True,
      det_detect = (\<lambda>t c. Inr (map (\<lambda>i. \<lparr>sp_entity = ''SECRET'', sp_start = i, sp_end = i + 7,
        sp_confidence = 1, sp_detector = ''secrets'', sp_text = ''hunter2''\<rparr>) (deny_occurrences t ''hunter2'' 0)))\<rparr>"

definition sample_service :: redaction_service where
  "sample_service =
     \<lparr>rv_vault = MemVault (new_mem_vault (\<lambda>s. s)),
      rv_registry = (\<lambda>n. if n = ''secrets'' then Some sample_detector else None),
      rv_custom = [], rv_hmac = (\<lambda>s. ''00000000'')\<rparr>"

definition sample_world :: world where
  "sample_world = \<lparr>w_service = sample_service, w_asked = 0\<rparr>"

definition sample_pipeline :: pipeline where
  "sample_pipeline =
     \<lparr>pl_stages = default_stages sample_env sample_engine sample_sequence sample_handlers,
      pl_handlers = Some sample_handlers\<rparr>"

definition sample_session :: session where
  "sample_session = session_new ''s1'' ''t0''"

definition sample_gateway :: gateway where
  "sample_gateway =
     \<lparr>g_env = sample_env, g_pipeline = sample_pipeline, g_principal = default_principal,
      g_policy = Some sample_engine, g_redaction = True, g_risk = default_risk_engine,
      g_sequence = sample_sequence, g_posture = default_posture,
      g_anomaly = Some (make_monitor Heuristic 1), g_session = sample_session,
      g_pending_tools_list = [], g_world = sample_world\<rparr>"

definition sample_call :: "int \<Rightarrow> string \<Rightarrow> pydict \<Rightarrow> message" where
  "sample_call i tool args =
     [(PStr ''jsonrpc'', PStr ''2.0''), (PStr ''id'', PInt i), (PStr ''method'', PStr ''tools/call''),
      (PStr ''params'', PDict [(PStr ''name'', PStr tool), (PStr ''arguments'', PDict args)])]"

definition sample_result :: "int \<Rightarrow> string \<Rightarrow> message" where
  "sample_result i t =
     [(PStr ''jsonrpc'', PStr ''2.0''), (PStr ''id'', PInt i), (PStr ''result'', PDict [(PStr ''text'', PStr t)])]"

lemma sample_layer_parsed: "parse_document sample_lib sample_doc ''pack'' ''pack'' = Inr sample_layer"
  by code_simp

lemma sample_engine_built: "make_engine sample_lib [sample_layer] = Inr sample_engine"
  by code_simp

lemma sample_standard: "standard sample_gateway sample_engine sample_handlers"
  using wf_handlers by (simp add: standard_def sample_gateway_def sample_pipeline_def sample_handlers_def)

lemma sample_closed: "fp_pipeline (g_posture sample_gateway) = CLOSED"
  by (simp add: sample_gateway_def default_posture_def)

text \<open>Calls: a query with a forbidden word, an allowed one, a taint source, a taint sink, one that needs approval.\<close>

definition drop_call :: message where
  "drop_call = sample_call 1 ''db.query'' [(PStr ''sql'', PStr ''drop t'')]"

definition query_call :: message where
  "query_call = sample_call 2 ''db.query'' [(PStr ''sql'', PStr ''select 1'')]"

definition web_call :: message where "web_call = sample_call 3 ''web.get'' []"
definition mail_call :: message where "mail_call = sample_call 4 ''mail.send'' []"
definition admin_call :: message where "admin_call = sample_call 6 ''admin.reset'' []"

definition notify_call :: message where
  "notify_call = [(PStr ''method'', PStr ''tools/call''), (PStr ''params'', PDict [(PStr ''name'', PStr ''shell.run'')])]"

definition drop_line :: string where "drop_line = encode sample_lib drop_call"
definition web_line :: string where "web_line = encode sample_lib web_call"
definition mail_line :: string where "mail_line = encode sample_lib mail_call"

text \<open>A stage that always raises.\<close>

definition crash_handle :: "outcome act" where
  "crash_handle ctx w = (Inl TypeError, ctx, w)"

definition suspended_gateway :: gateway where
  "suspended_gateway = sample_gateway\<lparr>g_session := sample_session\<lparr>s_suspended := True\<rparr>\<rparr>"

definition quiet_gateway :: gateway where
  "quiet_gateway = sample_gateway\<lparr>g_anomaly := None\<rparr>"

definition quarantined :: pending_call where
  "quarantined = \<lparr>pc_tool = ''files.read'', pc_action = PStr ''quarantine'', pc_disposition = DQuarantine, pc_redaction = None\<rparr>"

definition redacted_pending :: pending_call where
  "redacted_pending =
     \<lparr>pc_tool = ''crm.get'', pc_action = PStr ''redact'', pc_disposition = DRedact, pc_redaction = Some default_spec\<rparr>"

definition tool_entry :: "string \<Rightarrow> pyval" where
  "tool_entry n = PDict [(PStr ''name'', PStr n)]"

definition tools_response :: message where
  "tools_response = [(PStr ''id'', PInt 9),
     (PStr ''result'', PDict [(PStr ''tools'', PList [tool_entry ''web.get'', tool_entry ''shell.run''])])]"

definition sample_request :: approval_request where
  "sample_request =
     \<lparr>ar_request_id = PInt 1, ar_session_id = ''s1'', ar_tool = ''admin.reset'', ar_arguments = [],
      ar_principal = ''local'', ar_reason = PStr []\<rparr>"

definition override_layer :: policy_layer where
  "override_layer = sample_layer\<lparr>pl_name := ''org'', pl_rules := [(''db.query'', [(PStr ''action'', PStr ''allow'')])]\<rparr>"

definition role_rule :: pydict where
  "role_rule =
     [(PStr ''action'', PStr ''block''),
      (PStr ''constraints'', PList [PDict [(PStr ''type'', PStr ''regex''), (PStr ''arg'', PStr ''sql''),
         (PStr ''must_not_match'', PStr ''drop'')]]),
      (PStr ''roles'', PDict [(PStr ''dba'', PDict [(PStr ''action'', PStr ''allow'')])])]"

definition sample_vault :: vault where
  "sample_vault = MemVault (new_mem_vault (\<lambda>s. s))"

definition sample_span :: "nat \<Rightarrow> nat \<Rightarrow> span" where
  "sample_span a b =
     \<lparr>sp_entity = ''SECRET'', sp_start = a, sp_end = b, sp_confidence = 1, sp_detector = ''d'', sp_text = []\<rparr>"

definition sample_redactor :: redaction_engine where
  "sample_redactor =
     \<lparr>en_detectors = [sample_detector], en_operator_by_entity = [], en_default_operator = OpMask,
      en_min_confidence = 6 / 10, en_max_bytes = DEFAULT_MAX_BYTES, en_hmac = (\<lambda>s. [])\<rparr>"

text \<open>An engine with no detector, and a context whose denylist names two terms of the same length.\<close>

definition term_redactor :: redaction_engine where
  "term_redactor = sample_redactor\<lparr>en_detectors := []\<rparr>"

definition two_terms :: detection_context where
  "two_terms = make_context [] [''hunter2'', ''letme1n''] []"

lemma sample_detector_ok: "detector_ok sample_detector"
proof (unfold detector_ok_def spans_in_def, intro allI impI ballI)
  fix t ctx ss s
  assume "det_detect sample_detector t ctx = Inr ss" and "s \<in> set ss"
  then obtain i where "i \<in> set (deny_occurrences t ''hunter2'' 0)" "sp_start s = i" "sp_end s = i + 7"
    by (auto simp: sample_detector_def)
  then show "sp_start s < sp_end s \<and> sp_end s \<le> length t"
    using deny_occurrences_sound [of i t "''hunter2''" 0] by simp
qed

end
