(* ===== verification/Session_Stores.thy ===== *)
theory Session_Stores
  imports Session_State Json_Codec
begin

text \<open>
  \<open>state/base.py\<close>, \<open>state/memory.py\<close> and \<open>state/redis.py\<close>: where a gateway finds the session it
  binds and where it leaves the durable part after each message. The interface is the locale
  \<open>session_store\<close>; the in-process store and the Redis store are its two instances. Every
  operation takes the clock's reading, because the Redis store saves with an expiry. The Redis
  client is a parameter; what the store relies on is \<open>client_ok\<close>: from a \<open>SET\<close> on, the key reads
  as the value set until its expiry and as absent afterwards, and other keys are untouched.
\<close>

text \<open>What every store keeps of a session: everything but the calls in flight.\<close>

definition durable :: "session \<Rightarrow> session" where
  "durable s = s\<lparr>s_pending := Map.empty\<rparr>"

lemma durable_fields [simp, frame_simps]:
  "s_suspended (durable s) = s_suspended s" "s_tainted (durable s) = s_tainted s"
  "s_id (durable s) = s_id s" "s_history (durable s) = s_history s"
  "s_risk_score (durable s) = s_risk_score s" "s_taint_origin (durable s) = s_taint_origin s"
  "s_pending (durable s) = Map.empty" "durable (durable s) = durable s"
  by (simp_all add: durable_def)

lemma durable_eqD: "durable s = durable t \<Longrightarrow> s_suspended s = s_suspended t \<and> s_tainted s = s_tainted t
  \<and> s_risk_score s = s_risk_score t \<and> s_history s = s_history t \<and> s_id s = s_id t"
  by (metis durable_fields(1-5))

section \<open>The interface\<close>

text \<open>
  \<open>keep st t s\<close> is the store after the gateway that bound \<open>s_id s\<close> changed its session to \<open>s\<close> and
  called \<open>save\<close> at time \<open>t\<close>; \<open>get_or_create\<close> also takes the timestamp a new session would carry.
  \<open>lasts t t'\<close> says that what is saved at \<open>t\<close> is still held at \<open>t'\<close>.
\<close>

locale session_store =
  fixes get :: "'st \<Rightarrow> rat \<Rightarrow> string \<Rightarrow> (session option) res"
    and get_or_create :: "'st \<Rightarrow> rat \<Rightarrow> string \<Rightarrow> string \<Rightarrow> (session \<times> 'st) res"
    and keep :: "'st \<Rightarrow> rat \<Rightarrow> session \<Rightarrow> 'st"
    and lasts :: "rat \<Rightarrow> rat \<Rightarrow> bool"
  assumes get_keep_same: "t \<le> t' \<Longrightarrow> lasts t t' \<Longrightarrow> s_id s \<noteq> [] \<Longrightarrow>
      \<exists>u. get (keep st t s) t' (s_id s) = Inr (Some u) \<and> durable u = durable s"
    and get_keep_expired: "t \<le> t' \<Longrightarrow> \<not> lasts t t' \<Longrightarrow> get (keep st t s) t' (s_id s) = Inr None"
    and get_keep_other: "t \<le> t' \<Longrightarrow> i \<noteq> s_id s \<Longrightarrow> get (keep st t s) t' i = get st t' i"
    and get_or_create_found: "get st t i = Inr (Some s) \<Longrightarrow> get_or_create st t i now = Inr (s, st)"
    and get_or_create_new:
      "get st t i = Inr None \<Longrightarrow> i \<noteq> [] \<Longrightarrow>
         \<exists>st'. get_or_create st t i now = Inr (session_new i now, st') \<and>
           (\<forall>t' \<ge> t. lasts t t' \<longrightarrow> (\<exists>u. get st' t' i = Inr (Some u) \<and> durable u = session_new i now)) \<and>
           (\<forall>t' \<ge> t. \<forall>j. j \<noteq> i \<longrightarrow> get st' t' j = get st t' j)"
begin

text \<open>A history of replicas saving sessions; what the last save of an id left is what is bound.\<close>

definition keeps :: "'st \<Rightarrow> (rat \<times> session) list \<Rightarrow> 'st" where
  "keeps st ss = fold (\<lambda>(t, s) st. keep st t s) ss st"

lemma keeps_Cons: "keeps st ((t, s) # ss) = keeps (keep st t s) ss"
  by (simp add: keeps_def)

lemma keeps_other: "\<forall>(t, s) \<in> set ss. t \<le> t' \<and> s_id s \<noteq> i \<Longrightarrow> get (keeps st ss) t' i = get st t' i"
proof (induction ss arbitrary: st)
  case (Cons p ss)
  then show ?case using get_keep_other [of "fst p" t' i "snd p" st] by (cases p) (auto simp: keeps_Cons)
qed (simp add: keeps_def)

text \<open>Whoever binds the id next, while the save lasts, gets the durable state of its last save.\<close>

lemma bind_after_keep:
  assumes "\<forall>(u, x) \<in> set later. u \<le> t' \<and> s_id x \<noteq> s_id s" and "s_id s \<noteq> []" and "t \<le> t'" and "lasts t t'"
  shows "\<exists>b. get_or_create (keeps (keep st t s) later) t' (s_id s) now = Inr (b, keeps (keep st t s) later)
    \<and> durable b = durable s"
proof -
  obtain b where "get (keep st t s) t' (s_id s) = Inr (Some b)" "durable b = durable s"
    using get_keep_same [OF assms(3,4,2)] by blast
  with keeps_other [OF assms(1)] get_or_create_found show ?thesis by metis
qed

text \<open>Once it has expired, the same bind starts over.\<close>

lemma bind_after_expiry:
  assumes "\<forall>(u, x) \<in> set later. u \<le> t' \<and> s_id x \<noteq> s_id s" and "s_id s \<noteq> []" and "t \<le> t'" and "\<not> lasts t t'"
  shows "\<exists>st'. get_or_create (keeps (keep st t s) later) t' (s_id s) now = Inr (session_new (s_id s) now, st')"
  using get_or_create_new [OF _ assms(2)] keeps_other [OF assms(1)] get_keep_expired [OF assms(3,4)] by metis

text \<open>Binding an id twice without a save in between gives the same durable state.\<close>

lemma bind_twice:
  assumes "get st t i = Inr None" and "i \<noteq> []" and "t \<le> t'" and "lasts t t'"
  obtains st' u where "get_or_create st t i now = Inr (session_new i now, st')"
    "get_or_create st' t' i now' = Inr (u, st')" "durable u = session_new i now"
  using get_or_create_new [OF assms(1,2)] get_or_create_found assms(3,4) by metis

end

section \<open>The in-process store\<close>

type_synonym memory_store = "string \<rightharpoonup> session"

definition memory_get :: "memory_store \<Rightarrow> string \<Rightarrow> (session option) res" where
  "memory_get st session_id = Inr (st session_id)"

text \<open>
  \<open>Session.new(session_id=...)\<close> draws a random id for an empty one; the dictionary is still
  keyed by what the caller passed.
\<close>

definition memory_get_or_create ::
  "string \<Rightarrow> memory_store \<Rightarrow> string \<Rightarrow> string \<Rightarrow> (session \<times> memory_store) res" where
  "memory_get_or_create fresh st session_id now =
     (case st session_id of
        Some s \<Rightarrow> Inr (s, st)
      | None \<Rightarrow>
          (let s = session_new (if session_id = [] then fresh else session_id) now
           in Inr (s, st(session_id \<mapsto> s))))"

text \<open>\<open>SessionStore.save\<close>, which this store inherits, does nothing.\<close>

definition memory_save :: "memory_store \<Rightarrow> session \<Rightarrow> memory_store" where
  "memory_save st s = st"

text \<open>
  The gateway changes its session in place, and the dictionary holds that very object: the
  change is visible in the store before \<open>save\<close> is called.
\<close>

definition memory_mutate :: "memory_store \<Rightarrow> session \<Rightarrow> memory_store" where
  "memory_mutate st s = st(s_id s \<mapsto> s)"

interpretation ms: session_store "\<lambda>st t. memory_get st" "\<lambda>st t. memory_get_or_create fresh st"
    "\<lambda>st t s. memory_save (memory_mutate st s) s" "\<lambda>t t'. True" for fresh
  by unfold_locales
    (auto simp: memory_get_def memory_get_or_create_def memory_save_def memory_mutate_def durable_def
      session_new_def Let_def)

section \<open>The Redis store\<close>

text \<open>A key set with \<open>EX e\<close> at time \<open>t\<close> is there for \<open>e\<close> seconds; one set without stays.\<close>

record 'r redis_client =
  client_get :: "'r \<Rightarrow> rat \<Rightarrow> string \<Rightarrow> string option"
  client_set :: "'r \<Rightarrow> rat \<Rightarrow> string \<Rightarrow> string \<Rightarrow> nat option \<Rightarrow> 'r"

definition key_alive :: "nat option \<Rightarrow> rat \<Rightarrow> rat \<Rightarrow> bool" where
  "key_alive ex t t' = (case ex of None \<Rightarrow> True | Some e \<Rightarrow> t' < t + of_nat e)"

definition client_ok :: "'r redis_client \<Rightarrow> bool" where
  "client_ok c =
     (\<forall>r t k v ex t' k'. t \<le> t' \<longrightarrow> client_get c (client_set c r t k v ex) t' k' =
        (if k' = k then if key_alive ex t t' then Some v else None else client_get c r t' k'))"

definition DEFAULT_PREFIX :: string where "DEFAULT_PREFIX = ''mcpg:session:''"
definition DEFAULT_TTL_SECONDS :: nat where "DEFAULT_TTL_SECONDS = 24 * 3600"

record 'r redis_store =
  rd_client :: "'r redis_client"
  rd_prefix :: string
  rd_ttl :: "nat option"

definition redis_key :: "'r redis_store \<Rightarrow> string \<Rightarrow> string" where
  "redis_key rs session_id = rd_prefix rs @ session_id"

text \<open>
  \<open>data["id"]\<close> on anything but an object is a \<open>TypeError\<close>, so a blob that is no object is
  absent like a corrupt one.
\<close>

definition redis_get :: "pylib \<Rightarrow> 'r redis_store \<Rightarrow> 'r \<Rightarrow> rat \<Rightarrow> string \<Rightarrow> (session option) res" where
  "redis_get lib rs r t session_id =
     (case client_get (rd_client rs) r t (redis_key rs session_id) of
        None \<Rightarrow> Inr None
      | Some blob \<Rightarrow>
          (case ebind (json_loads lib blob)
                  (\<lambda>data. case data of PDict d \<Rightarrow> session_from_dict d | _ \<Rightarrow> Inl TypeError) of
             Inr s \<Rightarrow> Inr (Some s)
           | Inl (ValueError _) \<Rightarrow> Inr None
           | Inl KeyError \<Rightarrow> Inr None
           | Inl TypeError \<Rightarrow> Inr None
           | Inl e \<Rightarrow> Inl e))"

text \<open>A ttl of \<open>None\<close> and of zero both leave the key without an expiry.\<close>

definition redis_save :: "pylib \<Rightarrow> 'r redis_store \<Rightarrow> 'r \<Rightarrow> rat \<Rightarrow> session \<Rightarrow> 'r" where
  "redis_save lib rs r t s =
     (let payload = json_dumps_ascii lib (PDict (session_to_dict s));
          key = redis_key rs (s_id s)
      in case rd_ttl rs of
           Some ttl \<Rightarrow> if ttl \<noteq> 0 then client_set (rd_client rs) r t key payload (Some ttl)
                       else client_set (rd_client rs) r t key payload None
         | None \<Rightarrow> client_set (rd_client rs) r t key payload None)"

definition redis_get_or_create ::
  "pylib \<Rightarrow> 'r redis_store \<Rightarrow> string \<Rightarrow> 'r \<Rightarrow> rat \<Rightarrow> string \<Rightarrow> string \<Rightarrow> (session \<times> 'r) res" where
  "redis_get_or_create lib rs fresh r t session_id now =
     ebind (redis_get lib rs r t session_id) (\<lambda>existing.
     case existing of
       Some s \<Rightarrow> Inr (s, r)
     | None \<Rightarrow>
         (let s = session_new (if session_id = [] then fresh else session_id) now
          in Inr (s, redis_save lib rs r t s)))"

subsection \<open>What the Redis store keeps\<close>

definition redis_lasts :: "'r redis_store \<Rightarrow> rat \<Rightarrow> rat \<Rightarrow> bool" where
  "redis_lasts rs t t' \<longleftrightarrow> (\<forall>ttl. rd_ttl rs = Some ttl \<longrightarrow> ttl = 0 \<or> t' < t + of_nat ttl)"

lemma session_blob_ok: "json_ok lib (PDict (session_to_dict s))"
  by (auto simp: session_to_dict_def wf_dict_def is_str_def opt_str_def risk_event_to_val_def
      split: option.splits)

lemma client_get_redis_save:
  "client_ok (rd_client rs) \<Longrightarrow> t \<le> t' \<Longrightarrow>
     client_get (rd_client rs) (redis_save lib rs r t s) t' k =
       (if k = redis_key rs (s_id s)
        then if redis_lasts rs t t' then Some (json_dumps_ascii lib (PDict (session_to_dict s))) else None
        else client_get (rd_client rs) r t' k)"
  by (auto simp: redis_save_def client_ok_def redis_lasts_def key_alive_def Let_def split: option.splits)

lemma redis_get_save_same:
  "client_ok (rd_client rs) \<Longrightarrow> t \<le> t' \<Longrightarrow> redis_lasts rs t t' \<Longrightarrow>
     redis_get lib rs (redis_save lib rs r t s) t' (s_id s) = Inr (Some (durable s))"
  by (simp add: redis_get_def client_get_redis_save json_roundtrip [OF session_blob_ok]
      session_dict_roundtrip durable_def del: json_text.simps)

lemma redis_get_save_expired:
  "client_ok (rd_client rs) \<Longrightarrow> t \<le> t' \<Longrightarrow> \<not> redis_lasts rs t t' \<Longrightarrow>
     redis_get lib rs (redis_save lib rs r t s) t' (s_id s) = Inr None"
  by (simp add: redis_get_def client_get_redis_save)

lemma redis_get_save_other:
  "client_ok (rd_client rs) \<Longrightarrow> t \<le> t' \<Longrightarrow> i \<noteq> s_id s \<Longrightarrow>
     redis_get lib rs (redis_save lib rs r t s) t' i = redis_get lib rs r t' i"
  by (simp add: redis_get_def client_get_redis_save redis_key_def)

lemma redis_store_laws:
  "client_ok (rd_client rs) \<Longrightarrow>
     session_store (redis_get lib rs) (redis_get_or_create lib rs fresh) (redis_save lib rs) (redis_lasts rs)"
proof unfold_locales
  fix st t i now
  assume ok: "client_ok (rd_client rs)" and none: "redis_get lib rs st t i = Inr None" and i: "i \<noteq> []"
  let ?s = "session_new i now" and ?st = "redis_save lib rs st t (session_new i now)"
  have "redis_get_or_create lib rs fresh st t i now = Inr (?s, ?st)"
    using none i by (simp add: redis_get_or_create_def Let_def)
  moreover have "redis_get lib rs ?st t' i = Inr (Some (durable ?s))" if "t \<le> t'" "redis_lasts rs t t'" for t'
    using redis_get_save_same [OF ok that, of lib st ?s] by (simp add: session_new_def)
  moreover have "durable (durable ?s) = ?s" by (simp add: durable_def session_new_def)
  moreover have "redis_get lib rs ?st t' j = redis_get lib rs st t' j" if "t \<le> t'" "j \<noteq> i" for t' j
    using redis_get_save_other [OF ok that(1), of _ ?s lib st] that(2) by (simp add: session_new_def)
  ultimately show "\<exists>st'. redis_get_or_create lib rs fresh st t i now = Inr (?s, st') \<and>
      (\<forall>t' \<ge> t. redis_lasts rs t t' \<longrightarrow> (\<exists>u. redis_get lib rs st' t' i = Inr (Some u) \<and> durable u = ?s)) \<and>
      (\<forall>t' \<ge> t. \<forall>j. j \<noteq> i \<longrightarrow> redis_get lib rs st' t' j = redis_get lib rs st t' j)"
    by blast
qed (auto simp: redis_get_save_same redis_get_save_expired redis_get_save_other redis_get_or_create_def durable_def)

text \<open>
  The reference client keeps its keys, each with the time it was set and its expiry, in an
  association list; the store over it, with the default prefix and expiry, is an instance of the
  interface.
\<close>

type_synonym plain_keys = "(string \<times> string \<times> rat \<times> nat option) list"

definition plain_client :: "plain_keys redis_client" where
  "plain_client =
     \<lparr>client_get = (\<lambda>r t k. case map_of r k of
          None \<Rightarrow> None
        | Some (v, set_at, ex) \<Rightarrow> if key_alive ex set_at t then Some v else None),
      client_set = (\<lambda>r t k v ex. AList.update k (v, t, ex) r)\<rparr>"

definition plain_redis :: "plain_keys redis_store" where
  "plain_redis = \<lparr>rd_client = plain_client, rd_prefix = DEFAULT_PREFIX, rd_ttl = Some DEFAULT_TTL_SECONDS\<rparr>"

lemma plain_client_ok: "client_ok plain_client"
  by (simp add: client_ok_def plain_client_def)

interpretation rd: session_store "redis_get lib plain_redis" "redis_get_or_create lib plain_redis fresh"
    "redis_save lib plain_redis" "redis_lasts plain_redis" for lib fresh
  by (rule redis_store_laws) (simp add: plain_redis_def plain_client_ok)

text \<open>
  A day after the last save the store has forgotten a session: with the default expiry the next
  bind of a suspended id starts a clean one.
\<close>

lemma suspension_expires:
  assumes "s_id s \<noteq> []" and "t + 24 * 3600 \<le> t'"
  shows "\<exists>r'. redis_get_or_create lib plain_redis fresh (redis_save lib plain_redis r t s) t' (s_id s) now =
    Inr (session_new (s_id s) now, r')"
proof -
  have "t \<le> t'" "\<not> redis_lasts plain_redis t t'"
    using assms(2) by (simp_all add: redis_lasts_def plain_redis_def DEFAULT_TTL_SECONDS_def)
  from rd.bind_after_expiry [of "[]", OF _ assms(1) this] show ?thesis by (simp add: rd.keeps_def)
qed

text \<open>A blob that is not JSON reads as no session: the next bind starts a clean one.\<close>

lemma corrupt_blob_is_fresh:
  assumes "client_get (rd_client rs) r t (redis_key rs i) = Some blob" and "json_loads lib blob = Inl (ValueError m)"
    and "i \<noteq> []"
  shows "redis_get_or_create lib rs fresh r t i now = Inr (session_new i now, redis_save lib rs r t (session_new i now))"
  using assms by (simp add: redis_get_or_create_def redis_get_def Let_def)

end
