(* ===== verification/Audit_Spool.thy ===== *)
theory Audit_Spool
  imports Json_Codec
begin

text \<open>
  \<open>audit/events.py\<close>, \<open>audit/recorder.py\<close>, \<open>audit/spool.py\<close> and \<open>audit/reader.py\<close>: how an event
  is stamped, handed to every sink, appended to the JSONL spool as one line of UTF-8 bytes, and
  read back by a reader that tolerates corrupt lines and a torn last line. The spool file is
  the list of its bytes; the clock's reading is an argument of \<open>make_event\<close>.
\<close>

section \<open>UTF-8\<close>

definition utf8_char :: "char \<Rightarrow> string" where
  "utf8_char c =
     (let n = code_of c in
      if n < 128 then [c] else [char_of (192 + n div 64), char_of (128 + n mod 64)])"

definition utf8_encode :: "string \<Rightarrow> string" where
  "utf8_encode s = concat (map utf8_char s)"

definition UnicodeDecodeError :: exn where "UnicodeDecodeError = ValueError ''UnicodeDecodeError''"

text \<open>Bytes that start a sequence for a code point above 255 read as \<open>Beyond\<close>.\<close>

fun utf8_decode :: "string \<Rightarrow> string res" where
  "utf8_decode [] = Inr []"
| "utf8_decode (c # cs) =
     (let n = code_of c in
      if n < (128::nat) then ebind (utf8_decode cs) (\<lambda>s. Inr (c # s))
      else if n = 194 \<or> n = 195 then
        (case cs of
           [] \<Rightarrow> Inl UnicodeDecodeError
         | d # ds \<Rightarrow>
             if 128 \<le> code_of d \<and> code_of d < (192::nat)
             then ebind (utf8_decode ds) (\<lambda>s. Inr (char_of ((n - 192) * 64 + (code_of d - 128)) # s))
             else Inl UnicodeDecodeError)
      else if n < 194 \<or> 245 \<le> n then Inl UnicodeDecodeError
      else Inl Beyond)"

lemma code_of_less: "code_of c < 256"
  by simp

lemma code_of_char_of [simp]: "n < 256 \<Longrightarrow> code_of (char_of n) = (n::nat)"
  by (simp add: of_char_of)

lemma upper_half_div: "128 \<le> n \<Longrightarrow> n < 256 \<Longrightarrow> n div 64 = 2 \<or> n div 64 = (3::nat)"
  using div_le_mono [of 128 n 64] less_mult_imp_div_less [of n 4 64] by auto

lemma utf8_decode_char: "utf8_decode (utf8_char c @ t) = ebind (utf8_decode t) (\<lambda>s. Inr (c # s))"
proof (cases "code_of c < 128")
  case False
  let ?n = "code_of c"
  have d: "?n div 64 = 2 \<or> ?n div 64 = 3" and less: "?n < 256"
    using False code_of_less [of c] upper_half_div [of ?n] by auto
  have sum: "(?n div 64) * 64 + ?n mod 64 = ?n" by simp
  have lead: "code_of (char_of (192 + ?n div 64)) = 192 + ?n div 64" using d by auto
  have cont: "code_of (char_of (128 + ?n mod 64)) = 128 + ?n mod 64"
    using less by (intro code_of_char_of) (simp add: trans_less_add2 [of _ 128])
  have "(192 + ?n div 64 - 192) * 64 + (128 + ?n mod 64 - 128) = ?n" using sum by simp
  moreover have "?n mod 64 < 64" by simp
  ultimately show ?thesis using False d lead cont
    by (auto simp: utf8_char_def Let_def)
qed (simp add: utf8_char_def Let_def)

lemma utf8_decode_encode [simp]: "utf8_decode (utf8_encode s) = Inr s"
  by (induction s) (simp_all add: utf8_encode_def utf8_decode_char)

lemma utf8_char_newline: "CHR 10 \<in> set (utf8_char c) \<longleftrightarrow> c = CHR 10"
proof (cases "code_of c < 128")
  case False
  then have "(192 + code_of c div 64) mod 256 \<noteq> 10" "(128 + code_of c mod 64) mod 256 \<noteq> 10"
    using upper_half_div [of "code_of c"] by auto
  then have "char_of (192 + code_of c div 64) \<noteq> CHR 10" "char_of (128 + code_of c mod 64) \<noteq> CHR 10"
    by (auto simp: char_of_eq_iff take_bit_eq_mod)
  moreover have "c \<noteq> CHR 10" using False by auto
  ultimately show ?thesis using False by (auto simp: utf8_char_def Let_def)
qed (auto simp: utf8_char_def Let_def)

lemma utf8_encode_newline: "CHR 10 \<in> set (utf8_encode s) \<longleftrightarrow> CHR 10 \<in> set s"
  by (induction s) (auto simp: utf8_encode_def utf8_char_newline)

lemma utf8_encode_append [simp]: "utf8_encode (s @ t) = utf8_encode s @ utf8_encode t"
  by (simp add: utf8_encode_def)

section \<open>Events and the recorder\<close>

definition EVENT_SCHEMA_VERSION :: int where "EVENT_SCHEMA_VERSION = 1"

definition make_event :: "string \<Rightarrow> string \<Rightarrow> pydict \<Rightarrow> pydict" where
  "make_event ts event flds =
     al_merge [(PStr ''schema_version'', PInt EVENT_SCHEMA_VERSION), (PStr ''ts'', PStr ts),
               (PStr ''event'', PStr event)] flds"

text \<open>
  A sink takes an event and moves to its next state; it may also raise. The recorder hands the
  record to every sink in turn, whatever the ones before it did, and never raises itself.
\<close>

type_synonym 's sink = "pydict \<Rightarrow> 's \<Rightarrow> 's \<times> exn option"

record 's recorder =
  ar_sinks :: "('s sink \<times> 's) list"
  ar_default_fields :: pydict

fun emit_all :: "pydict \<Rightarrow> ('s sink \<times> 's) list \<Rightarrow> ('s sink \<times> 's) list \<times> exn list" where
  "emit_all rec [] = ([], [])"
| "emit_all rec ((f, s) # sinks) =
     (let (s', err) = f rec s; (rest, errs) = emit_all rec sinks
      in ((f, s') # rest, (case err of None \<Rightarrow> errs | Some e \<Rightarrow> e # errs)))"

definition recorder_emit :: "string \<Rightarrow> string \<Rightarrow> pydict \<Rightarrow> 's recorder \<Rightarrow> 's recorder \<times> exn list" where
  "recorder_emit ts event flds r =
     (let (sinks, errs) = emit_all (make_event ts event (al_merge (ar_default_fields r) flds)) (ar_sinks r)
      in (r\<lparr>ar_sinks := sinks\<rparr>, errs))"

lemma emit_all_fst: "fst (emit_all rec sinks) = map (\<lambda>(f, s). (f, fst (f rec s))) sinks"
  by (induction sinks) (auto simp: case_prod_unfold Let_def)

text \<open>Every sink receives the record, the failures of the others notwithstanding.\<close>

lemma recorder_reaches_every_sink:
  "i < length (ar_sinks r) \<Longrightarrow>
     ar_sinks (fst (recorder_emit ts event flds r)) ! i =
       (fst (ar_sinks r ! i), fst (fst (ar_sinks r ! i)
          (make_event ts event (al_merge (ar_default_fields r) flds)) (snd (ar_sinks r ! i))))"
proof -
  assume "i < length (ar_sinks r)"
  then have "fst (emit_all e (ar_sinks r)) ! i = (fst (ar_sinks r ! i), fst (fst (ar_sinks r ! i) e (snd (ar_sinks r ! i))))" for e
    by (simp add: emit_all_fst case_prod_unfold)
  then show ?thesis by (simp add: recorder_emit_def case_prod_unfold Let_def)
qed

section \<open>The spool\<close>

definition spool_line :: "pylib \<Rightarrow> pydict \<Rightarrow> string" where
  "spool_line lib event = utf8_encode (json_dumps lib (PDict event) @ [CHR 10])"

definition spool_emit :: "pylib \<Rightarrow> string sink" where
  "spool_emit lib event file = (file @ spool_line lib event, None)"

section \<open>The reader\<close>

record spool_record =
  sr_offset :: nat
  sr_end_offset :: nat
  sr_event :: pydict

record read_result =
  rr_records :: "spool_record list"
  rr_next_offset :: nat
  rr_bad_lines :: nat
  rr_torn_tail :: bool

text \<open>\<open>json.loads\<close> on bytes; texts it would take for UTF-16 or UTF-32 read as \<open>Beyond\<close>.\<close>

definition json_loads_bytes :: "pylib \<Rightarrow> string \<Rightarrow> pyval res" where
  "json_loads_bytes lib b =
     (if CHR 0x00 \<in> set (take 2 b) \<or> set (take 1 b) \<subseteq> {CHR 0xFE, CHR 0xFF} \<and> b \<noteq> [] then Inl Beyond
      else ebind (utf8_decode b) (json_loads lib))"

datatype line_kind = BlankLine | BadLine | EventLine pydict

definition is_byte_space :: "char \<Rightarrow> bool" where
  "is_byte_space c = (c = CHR '' '' \<or> (9 \<le> code_of c \<and> code_of c \<le> (13::nat)))"

definition classify_line :: "pylib \<Rightarrow> string \<Rightarrow> line_kind res" where
  "classify_line lib raw =
     (let text = rev (dropWhile (\<lambda>c. c = CHR 13) (rev raw)) in
      if list_all is_byte_space text then Inr BlankLine
      else (case json_loads_bytes lib text of
              Inl (ValueError _) \<Rightarrow> Inr BadLine
            | Inl e \<Rightarrow> Inl e
            | Inr (PDict event) \<Rightarrow> Inr (EventLine event)
            | Inr _ \<Rightarrow> Inr BadLine))"

function read_lines :: "pylib \<Rightarrow> nat \<Rightarrow> string \<Rightarrow> (spool_record list \<times> nat \<times> bool) res" where
  "read_lines lib offset bytes =
     (if CHR 10 \<notin> set bytes then Inr ([], 0, bytes \<noteq> [])
      else
        let raw = takeWhile (\<lambda>c. c \<noteq> CHR 10) bytes;
            end_offset = offset + length raw + 1
        in ebind (classify_line lib raw) (\<lambda>kind.
           ebind (read_lines lib end_offset (tl (dropWhile (\<lambda>c. c \<noteq> CHR 10) bytes))) (\<lambda>(rs, bad, torn).
           case kind of
             BlankLine \<Rightarrow> Inr (rs, bad, torn)
           | BadLine \<Rightarrow> Inr (rs, bad + 1, torn)
           | EventLine event \<Rightarrow>
               Inr (\<lparr>sr_offset = offset, sr_end_offset = end_offset, sr_event = event\<rparr> # rs, bad, torn))))"
  by pat_completeness auto

lemma rest_shorter: "x \<in> set xs \<Longrightarrow> length (tl (dropWhile (\<lambda>c. c \<noteq> x) xs)) < length xs"
  by (induction xs) auto

termination read_lines
  by (relation "measure (\<lambda>(_, _, b). length b)") (use rest_shorter in auto)

declare read_lines.simps [simp del]

definition next_offset_of :: "nat \<Rightarrow> spool_record list \<Rightarrow> nat" where
  "next_offset_of start rs = (if rs = [] then start else sr_end_offset (last rs))"

definition read_spool :: "pylib \<Rightarrow> string option \<Rightarrow> nat \<Rightarrow> read_result res" where
  "read_spool lib file start =
     (case file of
        None \<Rightarrow> Inr \<lparr>rr_records = [], rr_next_offset = start, rr_bad_lines = 0, rr_torn_tail = False\<rparr>
      | Some bytes \<Rightarrow>
          ebind (read_lines lib start (drop start bytes)) (\<lambda>(rs, bad, torn).
          Inr \<lparr>rr_records = rs, rr_next_offset = next_offset_of start rs,
               rr_bad_lines = bad, rr_torn_tail = torn\<rparr>))"

subsection \<open>One line at a time\<close>

lemma read_lines_none: "CHR 10 \<notin> set b \<Longrightarrow> read_lines lib off b = Inr ([], 0, b \<noteq> [])"
  by (subst read_lines.simps) simp

definition add_line :: "nat \<Rightarrow> nat \<Rightarrow> line_kind \<Rightarrow> spool_record list \<Rightarrow> spool_record list" where
  "add_line off e kind rs =
     (case kind of
        EventLine ev \<Rightarrow> \<lparr>sr_offset = off, sr_end_offset = e, sr_event = ev\<rparr> # rs
      | _ \<Rightarrow> rs)"

lemma read_lines_line:
  assumes "CHR 10 \<notin> set raw"
  shows "read_lines lib off (raw @ CHR 10 # rest) =
    ebind (classify_line lib raw) (\<lambda>kind.
    ebind (read_lines lib (off + length raw + 1) rest) (\<lambda>(rs, bad, torn).
      Inr (add_line off (off + length raw + 1) kind rs,
           bad + (case kind of BadLine \<Rightarrow> 1 | _ \<Rightarrow> 0), torn)))"
proof -
  have "takeWhile (\<lambda>c. c \<noteq> CHR 10) (raw @ CHR 10 # rest) = raw"
    "dropWhile (\<lambda>c. c \<noteq> CHR 10) (raw @ CHR 10 # rest) = CHR 10 # rest"
    using assms by (auto simp: takeWhile_append dropWhile_append)
  then show ?thesis
    by (subst read_lines.simps)
      (auto simp: Let_def ebind_def add_line_def split: sum.splits line_kind.splits)
qed

lemma line_cases:
  obtains "CHR 10 \<notin> set b" | raw rest where "b = raw @ CHR 10 # rest" "CHR 10 \<notin> set raw"
  using split_list_first by fastforce

lemma line_induct [case_names torn line]:
  assumes "\<And>b. CHR 10 \<notin> set b \<Longrightarrow> P b"
    and "\<And>raw rest. CHR 10 \<notin> set raw \<Longrightarrow> P rest \<Longrightarrow> P (raw @ CHR 10 # rest)"
  shows "P b"
proof (induction b rule: length_induct)
  case (1 b)
  show ?case by (cases rule: line_cases [of b]) (use 1 assms in auto)
qed

text \<open>Records lie in the bytes read, in order.\<close>

lemma read_lines_offsets:
  "read_lines lib off b = Inr (rs, bad, torn) \<Longrightarrow> r \<in> set rs \<Longrightarrow>
     off \<le> sr_offset r \<and> sr_offset r < sr_end_offset r \<and> sr_end_offset r \<le> off + length b"
proof (induction b arbitrary: off rs bad torn rule: line_induct)
  case (torn b)
  then show ?case by (simp add: read_lines_none)
next
  case (line raw rest)
  from line.prems(1) obtain kind rs' bad' where
    rest: "read_lines lib (off + length raw + 1) rest = Inr (rs', bad', torn)" and
    rs: "rs = add_line off (off + length raw + 1) kind rs'"
    by (auto simp: read_lines_line [OF line.hyps] ebind_eq_Inr)
  show ?case using line.IH [OF rest] line.prems(2) rs
    by (force simp: add_line_def split: line_kind.splits)
qed

lemma read_lines_sorted:
  "read_lines lib off b = Inr (rs, bad, torn) \<Longrightarrow> sorted_wrt (<) (map sr_offset rs)"
proof (induction b arbitrary: off rs bad torn rule: line_induct)
  case (torn b)
  then show ?case by (simp add: read_lines_none)
next
  case (line raw rest)
  from line.prems obtain kind rs' bad' where
    rest: "read_lines lib (off + length raw + 1) rest = Inr (rs', bad', torn)" and
    rs: "rs = add_line off (off + length raw + 1) kind rs'"
    by (auto simp: read_lines_line [OF line.hyps] ebind_eq_Inr)
  show ?case using line.IH [OF rest] read_lines_offsets [OF rest] rs
    by (force simp: add_line_def split: line_kind.splits)
qed

subsection \<open>Resuming\<close>

lemma read_lines_next:
  assumes "read_lines lib off b = Inr (rs, bad, torn)"
  shows "off \<le> next_offset_of off rs"
  using read_lines_offsets [OF assms, of "last rs"] by (auto simp: next_offset_of_def)

text \<open>
  The file grew from \<open>b1\<close> to \<open>b1 @ b2\<close>: what a reader of the whole file sees is what a reader of
  \<open>b1\<close> saw, followed by what it sees when it resumes where it stopped.
\<close>

lemma read_lines_resume:
  assumes "read_lines lib off (b1 @ b2) = Inr (rs, bad, torn)"
  obtains rs1 bad1 torn1 rs2 bad2 where
    "read_lines lib off b1 = Inr (rs1, bad1, torn1)"
    "read_lines lib (next_offset_of off rs1) (drop (next_offset_of off rs1 - off) (b1 @ b2)) = Inr (rs2, bad2, torn)"
    "rs = rs1 @ rs2"
proof -
  have "\<exists>rs1 bad1 torn1 rs2 bad2. read_lines lib off b1 = Inr (rs1, bad1, torn1) \<and>
      read_lines lib (next_offset_of off rs1) (drop (next_offset_of off rs1 - off) (b1 @ b2)) = Inr (rs2, bad2, torn) \<and>
      rs = rs1 @ rs2"
    using assms
  proof (induction b1 arbitrary: off rs bad rule: line_induct)
    case (torn b)
    then show ?case by (auto simp: read_lines_none next_offset_of_def)
  next
    case (line raw rest)
    let ?e = "off + length raw + 1"
    obtain kind rs' bad' where kind: "classify_line lib raw = Inr kind"
      and tail: "read_lines lib ?e (rest @ b2) = Inr (rs', bad', torn)" and rs: "rs = add_line off ?e kind rs'"
      using line.prems by (auto simp: read_lines_line [OF line.hyps] ebind_eq_Inr)
    from line.IH [OF tail] obtain rs1 bad1 torn1 rs2 bad2 where
      one: "read_lines lib ?e rest = Inr (rs1, bad1, torn1)" and
      two: "read_lines lib (next_offset_of ?e rs1) (drop (next_offset_of ?e rs1 - ?e) (rest @ b2)) = Inr (rs2, bad2, torn)" and
      app: "rs' = rs1 @ rs2" by blast
    have first: "\<exists>bad1. read_lines lib off (raw @ CHR 10 # rest) = Inr (add_line off ?e kind rs1, bad1, torn1)"
      using kind one by (simp add: read_lines_line [OF line.hyps])
    show ?case
    proof (cases "add_line off ?e kind rs1 = []")
      case True
      then have "next_offset_of off (add_line off ?e kind rs1) = off" by (simp add: next_offset_of_def)
      with first line.prems True show ?thesis by auto
    next
      case False
      then have nx: "next_offset_of off (add_line off ?e kind rs1) = next_offset_of ?e rs1"
        by (auto simp: next_offset_of_def add_line_def split: line_kind.splits)
      have le: "?e \<le> next_offset_of ?e rs1" using read_lines_next [OF one] .
      have "drop (next_offset_of ?e rs1 - off) ((raw @ CHR 10 # rest) @ b2) =
          drop (next_offset_of ?e rs1 - ?e) (rest @ b2)"
        using le by (simp add: drop_Cons' add.assoc)
      moreover have "rs = add_line off ?e kind rs1 @ rs2"
        using rs app by (simp add: add_line_def split: line_kind.splits)
      ultimately show ?thesis using first nx two by fastforce
    qed
  qed
  then show thesis using that by blast
qed

subsection \<open>Reading back what was written\<close>

text \<open>Floats print without white space or control characters, as Python's \<open>repr\<close> does.\<close>

definition plain_floats :: "pylib \<Rightarrow> bool" where
  "plain_floats lib = (\<forall>r. CHR 10 \<notin> set (lib_float_repr lib r))"

lemma dumps_dict_shape:
  "\<exists>c s. json_text ea lib (PDict d) = CHR ''{'' # c # s \<and> (c = CHR 34 \<or> c = CHR ''}'') \<and>
     (\<exists>u. json_text ea lib (PDict d) = u @ ''}'')"
proof (cases d)
  case (Cons p e)
  have "\<exists>u. join (json_sep ea (CHR '','')) (map (json_member ea lib) d) = CHR 34 # u"
    using Cons by (cases e) (auto simp: json_member_def json_str_def)
  then show ?thesis by (auto simp: json_dumps_PDict simp del: json_text.simps)
qed (simp add: Cons_eq_append_conv)

lemma classify_spool_line:
  assumes "json_ok lib (PDict d)"
  shows "classify_line lib (utf8_encode (json_text ea lib (PDict d))) = Inr (EventLine d)"
proof -
  let ?t = "utf8_encode (json_text ea lib (PDict d))"
  obtain c s u where s: "json_text ea lib (PDict d) = CHR ''{'' # c # s" and c: "c = CHR 34 \<or> c = CHR ''}''"
    and u: "json_text ea lib (PDict d) = u @ ''}''" using dumps_dict_shape by blast
  have t: "?t = CHR ''{'' # c # utf8_encode s" using c unfolding s by (auto simp: utf8_encode_def utf8_char_def)
  have "?t = utf8_encode u @ ''}''" unfolding u by (simp add: utf8_encode_def utf8_char_def)
  then have strip: "rev (dropWhile (\<lambda>c. c = CHR 13) (rev ?t)) = ?t" by simp
  have "\<not> list_all is_byte_space ?t" unfolding t by (simp add: is_byte_space_def)
  moreover have "json_loads_bytes lib (CHR ''{'' # c # w) = ebind (utf8_decode (CHR ''{'' # c # w)) (json_loads lib)" for w
    using c by (auto simp: json_loads_bytes_def)
  then have "json_loads_bytes lib ?t = json_loads lib (json_text ea lib (PDict d))"
    using utf8_decode_encode ebind_simps(2) t by metis
  ultimately show ?thesis using json_roundtrip [OF assms, of ea] strip
    by (simp add: classify_line_def del: json_text.simps)
qed

text \<open>A line of JSON, with or without escaping characters above 127; the spool writes the latter.\<close>

definition json_line :: "json_style \<Rightarrow> pylib \<Rightarrow> pydict \<Rightarrow> string" where
  "json_line ea lib event = utf8_encode (json_text ea lib (PDict event) @ [CHR 10])"

lemma json_line_split: "json_line ea lib d = utf8_encode (json_text ea lib (PDict d)) @ [CHR 10]"
  by (simp add: json_line_def utf8_encode_def utf8_char_def)

lemma spool_line_split:
  "spool_line lib d = utf8_encode (json_dumps lib (PDict d)) @ [CHR 10]"
  by (simp add: spool_line_def utf8_encode_def utf8_char_def)

lemma spool_line_json: "spool_line lib = json_line CompactUtf8 lib"
  by (simp add: fun_eq_iff json_line_def spool_line_def)

lemma spool_line_no_newline:
  "plain_floats lib \<Longrightarrow> CHR 10 \<notin> set (utf8_encode (json_text ea lib (PDict d)))"
  using json_dumps_no_newline [of lib ea "PDict d"] by (simp add: utf8_encode_newline plain_floats_def)

lemma read_json_lines:
  assumes "plain_floats lib" and "\<forall>d \<in> set evs. json_ok lib (PDict d)" and "CHR 10 \<notin> set tail"
  shows "\<exists>rs. read_lines lib off (concat (map (json_line ea lib) evs) @ tail) = Inr (rs, 0, tail \<noteq> [])
    \<and> map sr_event rs = evs"
  using assms(2)
proof (induction evs arbitrary: off)
  case Nil
  then show ?case using assms(3) by (simp add: read_lines_none)
next
  case (Cons d evs)
  let ?raw = "utf8_encode (json_text ea lib (PDict d))"
  obtain rs where "read_lines lib (off + length ?raw + 1) (concat (map (json_line ea lib) evs) @ tail) = Inr (rs, 0, tail \<noteq> [])"
    "map sr_event rs = evs" using Cons by (meson list.set_intros(2))
  then show ?case
    using read_lines_line [OF spool_line_no_newline [OF assms(1)], of lib off ea d] classify_spool_line [of lib d ea] Cons.prems
    by (auto simp: json_line_split [of ea lib d] add_line_def simp del: json_text.simps)
qed

lemma read_spool_lines:
  assumes "plain_floats lib" and "\<forall>d \<in> set evs. json_ok lib (PDict d)" and "CHR 10 \<notin> set tail"
  shows "\<exists>rs. read_lines lib off (concat (map (spool_line lib) evs) @ tail) = Inr (rs, 0, tail \<noteq> [])
    \<and> map sr_event rs = evs"
  using read_json_lines [OF assms, of off CompactUtf8] by (simp add: spool_line_json)

text \<open>
  A crash may cut the file anywhere: a truncated spool reads as the events of a prefix of what
  was written, with no line counted bad.
\<close>

lemma truncated_lines:
  "\<exists>j tail. take k (concat (map (\<lambda>l. l @ [x]) ls)) = concat (map (\<lambda>l. l @ [x]) (take j ls)) @ tail
     \<and> (\<exists>l. prefix tail l \<and> (tail = [] \<or> l \<in> set ls))"
proof (induction ls arbitrary: k)
  case (Cons l ls)
  show ?case
  proof (cases "k \<le> length l")
    case True
    then have "take k (concat (map (\<lambda>l. l @ [x]) (l # ls))) = take k l" by simp
    moreover have "prefix (take k l) l" by (rule take_is_prefix)
    ultimately show ?thesis by (intro exI [of _ 0] exI [of _ "take k l"]) auto
  next
    case False
    obtain j tail where j: "take (k - length l - 1) (concat (map (\<lambda>l. l @ [x]) ls)) =
        concat (map (\<lambda>l. l @ [x]) (take j ls)) @ tail" and tail: "\<exists>l. prefix tail l \<and> (tail = [] \<or> l \<in> set ls)"
      using Cons.IH by blast
    from False have "take k (concat (map (\<lambda>l. l @ [x]) (l # ls))) =
        (l @ [x]) @ take (k - length l - 1) (concat (map (\<lambda>l. l @ [x]) ls))"
      by (simp add: take_Cons')
    with j tail show ?thesis by (intro exI [of _ "Suc j"] exI [of _ tail]) auto
  qed
qed auto

lemma truncated_spool_reads_prefix:
  assumes "plain_floats lib" and "\<forall>d \<in> set evs. json_ok lib (PDict d)"
  obtains rs torn where "read_lines lib 0 (take k (concat (map (spool_line lib) evs))) = Inr (rs, 0, torn)"
    "prefix (map sr_event rs) evs"
    "\<And>i. i \<le> length evs \<Longrightarrow> length (concat (map (spool_line lib) (take i evs))) \<le> k \<Longrightarrow> i \<le> length rs"
proof -
  let ?text = "\<lambda>d. utf8_encode (json_dumps lib (PDict d))"
  let ?lines = "\<lambda>es. concat (map (spool_line lib) es)"
  have lines: "map (spool_line lib) es = map (\<lambda>l. l @ [CHR 10]) (map ?text es)" for es
    by (simp add: spool_line_split)
  obtain j tail l where cut: "take k (?lines evs) = ?lines (take j evs) @ tail"
    and l: "prefix tail l" "tail = [] \<or> l \<in> set (map ?text evs)"
    using truncated_lines [of k "CHR 10" "map ?text evs"] unfolding lines take_map by blast
  have tail: "CHR 10 \<notin> set tail"
    using l spool_line_no_newline [OF assms(1)] by (auto dest: set_mono_prefix simp del: json_text.simps)
  have ok: "\<forall>d \<in> set (take i evs). json_ok lib (PDict d)" for i using assms(2) by (meson in_set_takeD)
  obtain rs where rs: "read_lines lib 0 (take k (?lines evs)) = Inr (rs, 0, tail \<noteq> [])" "map sr_event rs = take j evs"
    using read_spool_lines [OF assms(1) ok tail, of 0 j] unfolding cut by blast
  have "i \<le> length rs" if i: "i \<le> length evs" and fits: "length (?lines (take i evs)) \<le> k" for i
  proof -
    have "evs = take i evs @ drop i evs" by simp
    then have split: "?lines evs = ?lines (take i evs) @ ?lines (drop i evs)" by (metis concat_append map_append)
    then have "take k (?lines evs) = ?lines (take i evs) @ take (k - length (?lines (take i evs))) (?lines (drop i evs))"
      using fits by (subst split) simp
    then obtain rs1 bad1 torn1 rs2 where one: "read_lines lib 0 (?lines (take i evs)) = Inr (rs1, bad1, torn1)" and "rs = rs1 @ rs2"
      using rs(1) read_lines_resume by metis
    moreover obtain rs' where "read_lines lib 0 (?lines (take i evs)) = Inr (rs', 0, False)" "map sr_event rs' = take i evs"
      using read_spool_lines [OF assms(1) ok [of i], of "[]" 0] by auto
    ultimately show ?thesis using i by (metis Pair_inject length_append length_map length_take le_add1 min.absorb2 sum.inject(2))
  qed
  moreover have "prefix (map sr_event rs) evs" by (simp add: rs(2) take_is_prefix)
  ultimately show thesis using rs(1) by (intro that)
qed

end
