(* ===== verification/Audit_Index.thy ===== *)
theory Audit_Index
  imports Audit_Spool Session_State
begin

text \<open>
  \<open>audit/index.py\<close> and \<open>state/postgres.py\<close>: the two read models the console queries. The tables
  of either database are association lists keyed by their primary key; the SQL statements are
  written out as operations on them. A text column holds a string or \<open>NULL\<close>: an event whose
  column fields are neither reads as \<open>Beyond\<close>. What a failed statement leaves behind is not
  modelled: a failing operation returns its exception only.

  The locale \<open>spool_index\<close> states what a read model promises the reader of the spool, and
  proves that polling the growing file gives the index a rebuild would give.
\<close>

section \<open>Tables\<close>

record event_row =
  er_ts :: "string option"
  er_event :: "string option"
  er_session :: "string option"
  er_tool :: "string option"
  er_rule :: "string option"
  er_action :: "string option"
  er_request_id :: "string option"
  er_reason :: "string option"
  er_body :: string

record session_row =
  sn_first_ts :: "string option"
  sn_last_ts :: "string option"
  sn_event_count :: int
  sn_allowed_count :: int
  sn_blocked_count :: int
  sn_tainted :: bool
  sn_suspended :: bool
  sn_risk_score :: int
  sn_risk_level :: string

record audit_index =
  ix_events :: "(nat \<times> event_row) list"
  ix_sessions :: "(string \<times> session_row) list"
  ix_meta :: "nat option"

definition empty_index :: audit_index where
  "empty_index = \<lparr>ix_events = [], ix_sessions = [], ix_meta = None\<rparr>"

definition ALLOWED :: string where "ALLOWED = ''tool_call_allowed''"
definition BLOCKED :: string where "BLOCKED = ''tool_call_blocked''"
definition BLOCKED_SUSPENDED :: string where "BLOCKED_SUSPENDED = ''tool_call_denied_session_suspended''"
definition SUSPENDED :: string where "SUSPENDED = ''session_suspended''"
definition TAINTED :: string where "TAINTED = ''session_tainted''"
definition APPROVAL :: string where "APPROVAL = ''approval_requested''"

definition text_col :: "pyval \<Rightarrow> (string option) res" where
  "text_col v = (case v of PNone \<Rightarrow> Inr None | PStr s \<Rightarrow> Inr (Some s) | _ \<Rightarrow> Inl Beyond)"

definition event_columns :: "pylib \<Rightarrow> spool_record \<Rightarrow> event_row res" where
  "event_columns lib r =
     (let ev = sr_event r in
      ebind (text_col (dget_none ev ''ts'')) (\<lambda>ts.
      ebind (text_col (dget_default ev ''event'' (PStr ''unknown''))) (\<lambda>event.
      ebind (text_col (dget_none ev ''session_id'')) (\<lambda>sid.
      ebind (text_col (dget_none ev ''tool'')) (\<lambda>tool.
      ebind (text_col (dget_none ev ''rule'')) (\<lambda>rule.
      ebind (text_col (dget_none ev ''action'')) (\<lambda>action.
      ebind (text_col (dget_none ev ''reason'')) (\<lambda>reason.
      Inr \<lparr>er_ts = ts, er_event = event, er_session = sid, er_tool = tool, er_rule = rule,
           er_action = action,
           er_request_id = (case dget_none ev ''id'' of PNone \<Rightarrow> None | v \<Rightarrow> Some (pstr lib v)),
           er_reason = reason,
           er_body = json_dumps_ascii lib (PDict ev)\<rparr>))))))))"

section \<open>The SQLite index\<close>

definition sq_next_offset :: "audit_index \<Rightarrow> nat" where
  "sq_next_offset ix = (case ix_meta ix of None \<Rightarrow> 0 | Some n \<Rightarrow> n)"

definition sq_set_next_offset :: "nat \<Rightarrow> audit_index \<Rightarrow> audit_index" where
  "sq_set_next_offset n ix = ix\<lparr>ix_meta := Some n\<rparr>"

text \<open>\<open>INSERT INTO sessions(session_id, first_ts, last_ts)\<close>: the other columns take their defaults.\<close>

definition new_session_row :: "string option \<Rightarrow> session_row" where
  "new_session_row ts =
     \<lparr>sn_first_ts = ts, sn_last_ts = ts, sn_event_count = 0, sn_allowed_count = 0, sn_blocked_count = 0,
      sn_tainted = False, sn_suspended = False, sn_risk_score = 0, sn_risk_level = ''NORMAL''\<rparr>"

definition or_else :: "string option \<Rightarrow> string option \<Rightarrow> string option" where
  "or_else a b = (if a = None \<or> a = Some [] then b else a)"

definition sq_roll_up :: "pylib \<Rightarrow> pydict \<Rightarrow> audit_index \<Rightarrow> audit_index res" where
  "sq_roll_up lib ev ix =
     ebind (text_col (dget_none ev ''session_id'')) (\<lambda>sid.
     if sid = None \<or> sid = Some [] then Inr ix
     else ebind (text_col (dget_none ev ''ts'')) (\<lambda>ts.
       let session_id = the sid;
           name = dget_none ev ''event'';
           row = (case map_of (ix_sessions ix) session_id of
                    Some row \<Rightarrow> row
                  | None \<Rightarrow> new_session_row ts);
           allowed = sn_allowed_count row + (if name = PStr ALLOWED then 1 else 0);
           blocked = sn_blocked_count row + (if name = PStr BLOCKED \<or> name = PStr BLOCKED_SUSPENDED then 1 else 0)
       in ebind (blob_int (dget_default ev ''session_score'' (PInt (sn_risk_score row)))) (\<lambda>score.
          Inr (ix\<lparr>ix_sessions := AList.update session_id
            (row\<lparr>sn_last_ts := or_else ts (sn_last_ts row),
                 sn_event_count := sn_event_count row + 1,
                 sn_allowed_count := allowed,
                 sn_blocked_count := blocked,
                 sn_tainted := (sn_tainted row \<or> name = PStr TAINTED),
                 sn_suspended := (sn_suspended row \<or> name = PStr SUSPENDED),
                 sn_risk_score := score,
                 sn_risk_level := pstr lib (dget_default ev ''session_level'' (PStr (sn_risk_level row)))\<rparr>)
            (ix_sessions ix)\<rparr>))))"

text \<open>
  \<open>INSERT OR IGNORE\<close>: a row whose offset is present, or whose \<open>event\<close> is \<open>NULL\<close> in the
  \<open>NOT NULL\<close> column, is skipped.
\<close>

definition sq_ingest_one :: "pylib \<Rightarrow> spool_record \<Rightarrow> audit_index \<Rightarrow> (nat \<times> audit_index) res" where
  "sq_ingest_one lib r ix =
     ebind (event_columns lib r) (\<lambda>row.
     if map_of (ix_events ix) (sr_offset r) \<noteq> None \<or> er_event row = None then Inr (0, ix)
     else ebind (sq_roll_up lib (sr_event r) (ix\<lparr>ix_events := ix_events ix @ [(sr_offset r, row)]\<rparr>)) (\<lambda>ix'.
          Inr (1, ix')))"

fun sq_ingest :: "pylib \<Rightarrow> spool_record list \<Rightarrow> audit_index \<Rightarrow> (nat \<times> audit_index) res" where
  "sq_ingest lib [] ix = Inr (0, ix)"
| "sq_ingest lib (r # rs) ix =
     ebind (sq_ingest_one lib r ix) (\<lambda>(n, ix1).
     ebind (sq_ingest lib rs ix1) (\<lambda>(m, ix2). Inr (n + m, ix2)))"

record catch_up_report =
  cr_inserted :: nat
  cr_next_offset :: nat
  cr_bad_lines :: nat
  cr_torn_tail :: bool

definition sq_catch_up ::
  "pylib \<Rightarrow> string option \<Rightarrow> audit_index \<Rightarrow> (catch_up_report \<times> audit_index) res" where
  "sq_catch_up lib spool ix =
     ebind (read_spool lib spool (sq_next_offset ix)) (\<lambda>res.
     ebind (sq_ingest lib (rr_records res) ix) (\<lambda>(inserted, ix').
     Inr (\<lparr>cr_inserted = inserted, cr_next_offset = rr_next_offset res,
           cr_bad_lines = rr_bad_lines res, cr_torn_tail = rr_torn_tail res\<rparr>,
          sq_set_next_offset (rr_next_offset res) ix')))"

definition sq_rebuild ::
  "pylib \<Rightarrow> string option \<Rightarrow> audit_index \<Rightarrow> (catch_up_report \<times> audit_index) res" where
  "sq_rebuild lib spool ix = sq_catch_up lib spool (ix\<lparr>ix_events := [], ix_sessions := [], ix_meta := None\<rparr>)"

section \<open>The Postgres index\<close>

text \<open>The literal default row of \<open>rollup_values\<close> is the row SQLite's defaults give.\<close>

definition rollup_values :: "pylib \<Rightarrow> session_row option \<Rightarrow> pydict \<Rightarrow> session_row res" where
  "rollup_values lib current ev =
     (let name = dget_none ev ''event'' in
      ebind (text_col (dget_none ev ''ts'')) (\<lambda>ts.
      let base = (case current of
                    Some row \<Rightarrow> row
                  | None \<Rightarrow> new_session_row ts)
      in ebind (blob_int (dget_default ev ''session_score'' (PInt (sn_risk_score base)))) (\<lambda>score.
         Inr \<lparr>sn_first_ts = sn_first_ts base,
              sn_last_ts = or_else ts (sn_last_ts base),
              sn_event_count = sn_event_count base + 1,
              sn_allowed_count = sn_allowed_count base + (if name = PStr ALLOWED then 1 else 0),
              sn_blocked_count = sn_blocked_count base
                + (if name = PStr BLOCKED \<or> name = PStr BLOCKED_SUSPENDED then 1 else 0),
              sn_tainted = (sn_tainted base \<or> name = PStr TAINTED),
              sn_suspended = (sn_suspended base \<or> name = PStr SUSPENDED),
              sn_risk_score = score,
              sn_risk_level = pstr lib (dget_default ev ''session_level'' (PStr (sn_risk_level base)))\<rparr>)))"

definition pg_roll_up :: "pylib \<Rightarrow> pydict \<Rightarrow> audit_index \<Rightarrow> audit_index res" where
  "pg_roll_up lib ev ix =
     ebind (text_col (dget_none ev ''session_id'')) (\<lambda>sid.
     if sid = None \<or> sid = Some [] then Inr ix
     else
       let session_id = the sid; current = map_of (ix_sessions ix) session_id
       in ebind (rollup_values lib current ev) (\<lambda>vals.
          Inr (ix\<lparr>ix_sessions := (case current of
                 None \<Rightarrow> ix_sessions ix @ [(session_id, vals)]
               | Some row \<Rightarrow> AList.update session_id (vals\<lparr>sn_first_ts := sn_first_ts row\<rparr>) (ix_sessions ix))\<rparr>)))"

text \<open>\<open>ON CONFLICT DO NOTHING\<close> covers the key only: a \<open>NULL\<close> event raises.\<close>

definition pg_ingest_one :: "pylib \<Rightarrow> spool_record \<Rightarrow> audit_index \<Rightarrow> (nat \<times> audit_index) res" where
  "pg_ingest_one lib r ix =
     ebind (event_columns lib r) (\<lambda>row.
     if er_event row = None then Inl (OtherError ''NotNullViolation'')
     else if map_of (ix_events ix) (sr_offset r) \<noteq> None then Inr (0, ix)
     else ebind (pg_roll_up lib (sr_event r) (ix\<lparr>ix_events := ix_events ix @ [(sr_offset r, row)]\<rparr>)) (\<lambda>ix'.
          Inr (1, ix')))"

fun pg_ingest :: "pylib \<Rightarrow> spool_record list \<Rightarrow> audit_index \<Rightarrow> (nat \<times> audit_index) res" where
  "pg_ingest lib [] ix = Inr (0, ix)"
| "pg_ingest lib (r # rs) ix =
     ebind (pg_ingest_one lib r ix) (\<lambda>(n, ix1).
     ebind (pg_ingest lib rs ix1) (\<lambda>(m, ix2). Inr (n + m, ix2)))"

definition pg_next_offset :: "audit_index \<Rightarrow> nat" where
  "pg_next_offset ix = (case ix_meta ix of None \<Rightarrow> 0 | Some n \<Rightarrow> n)"

definition pg_set_next_offset :: "nat \<Rightarrow> audit_index \<Rightarrow> audit_index" where
  "pg_set_next_offset n ix = ix\<lparr>ix_meta := Some n\<rparr>"

definition pg_catch_up ::
  "pylib \<Rightarrow> string option \<Rightarrow> audit_index \<Rightarrow> (catch_up_report \<times> audit_index) res" where
  "pg_catch_up lib spool ix =
     ebind (read_spool lib spool (pg_next_offset ix)) (\<lambda>res.
     ebind (pg_ingest lib (rr_records res) ix) (\<lambda>(inserted, ix').
     Inr (\<lparr>cr_inserted = inserted, cr_next_offset = rr_next_offset res,
           cr_bad_lines = rr_bad_lines res, cr_torn_tail = rr_torn_tail res\<rparr>,
          pg_set_next_offset (rr_next_offset res) ix')))"

definition pg_rebuild ::
  "pylib \<Rightarrow> string option \<Rightarrow> audit_index \<Rightarrow> (catch_up_report \<times> audit_index) res" where
  "pg_rebuild lib spool ix = pg_catch_up lib spool (ix\<lparr>ix_events := [], ix_sessions := [], ix_meta := None\<rparr>)"

section \<open>Queries\<close>

text \<open>
  The queries are the same statements in both databases. \<open>list_sessions\<close> is left out: it orders
  by a column that may be \<open>NULL\<close> or equal, where the order is the database's own.
\<close>

definition page_size :: "int \<Rightarrow> nat" where
  "page_size limit = nat (max 1 (min limit 1000))"

definition hydrate :: "pylib \<Rightarrow> nat \<times> event_row \<Rightarrow> pydict res" where
  "hydrate lib row =
     ebind (json_loads lib (er_body (snd row))) (\<lambda>event.
     case event of PDict d \<Rightarrow> Inr (dput ''offset'' (PInt (int (fst row))) d) | _ \<Rightarrow> Inl TypeError)"

record event_filter =
  ef_session_id :: "string option"
  ef_event :: "string option"
  ef_tool :: "string option"
  ef_after :: "int option"
  ef_ascending :: bool

definition row_matches :: "event_filter \<Rightarrow> nat \<times> event_row \<Rightarrow> bool" where
  "row_matches f row =
     ((ef_session_id f = None \<or> er_session (snd row) = ef_session_id f) \<and>
      (ef_event f = None \<or> er_event (snd row) = ef_event f) \<and>
      (ef_tool f = None \<or> er_tool (snd row) = ef_tool f) \<and>
      (case ef_after f of
         None \<Rightarrow> True
       | Some a \<Rightarrow> if ef_ascending f then a < int (fst row) else int (fst row) < a))"

definition page_rows :: "event_filter \<Rightarrow> int \<Rightarrow> audit_index \<Rightarrow> (nat \<times> event_row) list" where
  "page_rows f limit ix =
     (let hits = sort_key fst (filter (row_matches f) (ix_events ix))
      in take (page_size limit) (if ef_ascending f then hits else rev hits))"

definition query_events :: "pylib \<Rightarrow> event_filter \<Rightarrow> int \<Rightarrow> audit_index \<Rightarrow> (pydict list) res" where
  "query_events lib f limit ix = emap (hydrate lib) (page_rows f limit ix)"

definition get_event :: "pylib \<Rightarrow> nat \<Rightarrow> audit_index \<Rightarrow> (pydict option) res" where
  "get_event lib offset ix =
     (case map_of (ix_events ix) offset of
        None \<Rightarrow> Inr None
      | Some row \<Rightarrow> ebind (hydrate lib (offset, row)) (\<lambda>d. Inr (Some d)))"

definition latest_offset :: "audit_index \<Rightarrow> nat" where
  "latest_offset ix = foldr max (map fst (ix_events ix)) 0"

definition session_row_dict :: "string \<Rightarrow> session_row \<Rightarrow> pydict" where
  "session_row_dict sid row =
     [(PStr ''session_id'', PStr sid),
      (PStr ''first_ts'', opt_str (sn_first_ts row)),
      (PStr ''last_ts'', opt_str (sn_last_ts row)),
      (PStr ''event_count'', PInt (sn_event_count row)),
      (PStr ''allowed_count'', PInt (sn_allowed_count row)),
      (PStr ''blocked_count'', PInt (sn_blocked_count row)),
      (PStr ''tainted'', PBool (sn_tainted row)),
      (PStr ''suspended'', PBool (sn_suspended row)),
      (PStr ''risk_score'', PInt (sn_risk_score row)),
      (PStr ''risk_level'', PStr (sn_risk_level row))]"

definition session_detail :: "pylib \<Rightarrow> string \<Rightarrow> int \<Rightarrow> audit_index \<Rightarrow> (pydict option) res" where
  "session_detail lib sid limit ix =
     (case map_of (ix_sessions ix) sid of
        None \<Rightarrow> Inr None
      | Some row \<Rightarrow>
          ebind (query_events lib \<lparr>ef_session_id = Some sid, ef_event = None, ef_tool = None,
                                   ef_after = None, ef_ascending = True\<rparr> limit ix) (\<lambda>events.
          Inr (Some (dput ''events'' (PList (map PDict events)) (session_row_dict sid row)))))"

definition approval_history :: "pylib \<Rightarrow> int \<Rightarrow> audit_index \<Rightarrow> (pydict list) res" where
  "approval_history lib limit ix =
     query_events lib \<lparr>ef_session_id = None, ef_event = Some APPROVAL, ef_tool = None,
                       ef_after = None, ef_ascending = False\<rparr> limit ix"

definition counts_by_event :: "audit_index \<Rightarrow> string \<Rightarrow> nat" where
  "counts_by_event ix event = length (filter (\<lambda>row. er_event (snd row) = Some event) (ix_events ix))"

section \<open>The interface: an index over the spool\<close>

locale spool_index =
  fixes lib :: pylib
    and ingest :: "spool_record list \<Rightarrow> 'ix \<Rightarrow> (nat \<times> 'ix) res"
    and next_offset :: "'ix \<Rightarrow> nat"
    and set_next_offset :: "nat \<Rightarrow> 'ix \<Rightarrow> 'ix"
    and catch_up :: "string option \<Rightarrow> 'ix \<Rightarrow> (catch_up_report \<times> 'ix) res"
  assumes ingest_append:
      "ingest (rs @ rs') ix = ebind (ingest rs ix) (\<lambda>(n, ix1).
         ebind (ingest rs' ix1) (\<lambda>(m, ix2). Inr (n + m, ix2)))"
    and next_set [simp]: "next_offset (set_next_offset n ix) = n"
    and set_set [simp]: "set_next_offset n (set_next_offset m ix) = set_next_offset n ix"
    and ingest_set: "ingest rs (set_next_offset n ix) = ebind (ingest rs ix) (\<lambda>(k, ix'). Inr (k, set_next_offset n ix'))"
    and catch_up_eq:
      "catch_up spool ix =
         ebind (read_spool lib spool (next_offset ix)) (\<lambda>res.
         ebind (ingest (rr_records res) ix) (\<lambda>(inserted, ix').
         Inr (\<lparr>cr_inserted = inserted, cr_next_offset = rr_next_offset res,
               cr_bad_lines = rr_bad_lines res, cr_torn_tail = rr_torn_tail res\<rparr>,
              set_next_offset (rr_next_offset res) ix')))"
begin

lemma catch_up_Inr:
  "catch_up (Some b) ix = Inr (rep, ix') \<longleftrightarrow>
     (\<exists>rs bad torn n ix1. read_lines lib (next_offset ix) (drop (next_offset ix) b) = Inr (rs, bad, torn) \<and>
        ingest rs ix = Inr (n, ix1) \<and> ix' = set_next_offset (next_offset_of (next_offset ix) rs) ix1 \<and>
        rep = \<lparr>cr_inserted = n, cr_next_offset = next_offset_of (next_offset ix) rs,
               cr_bad_lines = bad, cr_torn_tail = torn\<rparr>)"
  by (auto simp: catch_up_eq read_spool_def ebind_eq_Inr)

text \<open>Catching up at \<open>b1\<close> and again when the file has grown is catching up once.\<close>

lemma catch_up_twice:
  assumes "catch_up (Some (b1 @ b2)) ix = Inr (rep, ix')" and "next_offset ix \<le> length b1"
  shows "\<exists>rep1 ix1 rep2. catch_up (Some b1) ix = Inr (rep1, ix1) \<and> next_offset ix1 \<le> length b1 \<and>
    catch_up (Some (b1 @ b2)) ix1 = Inr (rep2, ix')"
proof -
  let ?n = "next_offset ix"
  obtain rs bad torn k ix2 where rl: "read_lines lib ?n (drop ?n b1 @ b2) = Inr (rs, bad, torn)"
    and ing: "ingest rs ix = Inr (k, ix2)" and ix': "ix' = set_next_offset (next_offset_of ?n rs) ix2"
    using assms by (auto simp: catch_up_Inr)
  obtain rs1 bad1 torn1 rs2 bad2 where
    one: "read_lines lib ?n (drop ?n b1) = Inr (rs1, bad1, torn1)" and
    two: "read_lines lib (next_offset_of ?n rs1) (drop (next_offset_of ?n rs1 - ?n) (drop ?n b1 @ b2)) = Inr (rs2, bad2, torn)" and
    app: "rs = rs1 @ rs2" using read_lines_resume [OF rl] .
  let ?m = "next_offset_of ?n rs1"
  obtain k1 ix1 k2 where ing1: "ingest rs1 ix = Inr (k1, ix1)" and ing2: "ingest rs2 ix1 = Inr (k2, ix2)"
    using ing by (auto simp: app ingest_append ebind_eq_Inr)
  have "?n \<le> ?m" by (rule read_lines_next [OF one])
  then have "drop (?m - ?n) (drop ?n b1 @ b2) = drop ?m (b1 @ b2)"
    using assms(2) by (simp add: drop_append le_add_diff_inverse2)
  with two have "read_lines lib ?m (drop ?m (b1 @ b2)) = Inr (rs2, bad2, torn)" by simp
  moreover have "next_offset_of ?m rs2 = next_offset_of ?n rs"
    by (simp add: app next_offset_of_def)
  moreover have "ingest rs2 (set_next_offset ?m ix1) = Inr (k2, set_next_offset ?m ix2)"
    using ing2 by (simp add: ingest_set)
  moreover have "?m \<le> length b1"
    using read_lines_offsets [OF one, of "last rs1"] assms(2) by (auto simp: next_offset_of_def)
  ultimately show ?thesis using one ing1 ix' by (fastforce simp: catch_up_Inr)
qed

end

text \<open>A reader that polls: the file grows by one chunk before each catch-up.\<close>

fun polls :: "(string option \<Rightarrow> 'ix \<Rightarrow> (catch_up_report \<times> 'ix) res) \<Rightarrow> string \<Rightarrow> string list \<Rightarrow> 'ix \<Rightarrow> 'ix res" where
  "polls catch_up spool [] ix = Inr ix"
| "polls catch_up spool (chunk # chunks) ix =
     ebind (catch_up (Some (spool @ chunk)) ix) (\<lambda>(_, ix'). polls catch_up (spool @ chunk) chunks ix')"

context spool_index
begin

lemma polls_catch_up:
  assumes "catch_up (Some (spool @ concat chunks)) ix = Inr (rep, ix')" and "chunks \<noteq> []"
    and "next_offset ix \<le> length spool"
  shows "polls catch_up spool chunks ix = Inr ix'"
  using assms
proof (induction chunks arbitrary: spool ix rep)
  case (Cons c cs)
  show ?case
  proof (cases "cs = []")
    case True
    with Cons.prems(1) show ?thesis by simp
  next
    case False
    have whole: "catch_up (Some ((spool @ c) @ concat cs)) ix = Inr (rep, ix')"
      using Cons.prems(1) by simp
    obtain rep1 ix1 rep2 where one: "catch_up (Some (spool @ c)) ix = Inr (rep1, ix1)"
      "next_offset ix1 \<le> length (spool @ c)" "catch_up (Some ((spool @ c) @ concat cs)) ix1 = Inr (rep2, ix')"
      using catch_up_twice [OF whole] Cons.prems(3) by auto
    then show ?thesis using Cons.IH [OF one(3) False one(2)] by simp
  qed
qed simp

end

section \<open>Both indexes implement it\<close>

text \<open>SQLite's insert-then-update and Postgres's computed row are the same roll-up.\<close>

lemma AList_update_new: "map_of al k = None \<Longrightarrow> AList.update k v al = al @ [(k, v)]"
  by (induction al) (auto split: if_splits)

lemma session_row_rewritten:
  "row\<lparr>sn_last_ts := l, sn_event_count := n, sn_allowed_count := a, sn_blocked_count := b, sn_tainted := t,
     sn_suspended := s, sn_risk_score := c, sn_risk_level := v\<rparr> =
   \<lparr>sn_first_ts = sn_first_ts row, sn_last_ts = l, sn_event_count = n, sn_allowed_count = a,
     sn_blocked_count = b, sn_tainted = t, sn_suspended = s, sn_risk_score = c, sn_risk_level = v\<rparr>"
  by (cases row) simp

lemma roll_up_agree: "sq_roll_up lib ev ix = pg_roll_up lib ev ix"
proof -
  have "sq_roll_up lib ev ix = pg_roll_up lib ev ix"
    if sid: "text_col (dget_none ev ''session_id'') = Inr (Some i)" and ne: "i \<noteq> []"
      and ts: "text_col (dget_none ev ''ts'') = Inr ts" for i ts
  proof (cases "map_of (ix_sessions ix) i")
    case None
    with sid ne ts show ?thesis
      by (simp add: sq_roll_up_def pg_roll_up_def rollup_values_def Let_def new_session_row_def AList_update_new
          session_row_rewritten ebind_def split: sum.splits)
  next
    case (Some row)
    with sid ne ts show ?thesis
      by (simp add: sq_roll_up_def pg_roll_up_def rollup_values_def Let_def session_row_rewritten ebind_def
          split: sum.splits)
  qed
  note both = this
  show ?thesis
  proof (cases "text_col (dget_none ev ''session_id'')")
    case (Inr sid)
    then show ?thesis
    proof (cases "sid = None \<or> sid = Some []")
      case False
      then obtain i where i: "sid = Some i" "i \<noteq> []" by auto
      show ?thesis
      proof (cases "text_col (dget_none ev ''ts'')")
        case (Inl e)
        with Inr i show ?thesis by (simp add: sq_roll_up_def pg_roll_up_def rollup_values_def Let_def)
      qed (use Inr i both in simp)
    qed (use Inr in \<open>auto simp: sq_roll_up_def pg_roll_up_def\<close>)
  qed (simp add: sq_roll_up_def pg_roll_up_def)
qed

lemma meta_last: "ix\<lparr>ix_meta := m, ix_events := e\<rparr> = ix\<lparr>ix_events := e, ix_meta := m\<rparr>" for ix :: audit_index
  by simp

lemma pg_roll_up_meta:
  "pg_roll_up lib ev (ix\<lparr>ix_meta := m\<rparr>) = ebind (pg_roll_up lib ev ix) (\<lambda>ix'. Inr (ix'\<lparr>ix_meta := m\<rparr>))"
  by (auto simp: pg_roll_up_def Let_def ebind_def split: sum.splits option.splits)

lemma sq_ingest_one_meta:
  "sq_ingest_one lib r (ix\<lparr>ix_meta := m\<rparr>) =
     ebind (sq_ingest_one lib r ix) (\<lambda>(k, ix'). Inr (k, ix'\<lparr>ix_meta := m\<rparr>))"
  by (auto simp: sq_ingest_one_def roll_up_agree meta_last pg_roll_up_meta ebind_def split: sum.splits)

lemma pg_ingest_one_meta:
  "pg_ingest_one lib r (ix\<lparr>ix_meta := m\<rparr>) =
     ebind (pg_ingest_one lib r ix) (\<lambda>(k, ix'). Inr (k, ix'\<lparr>ix_meta := m\<rparr>))"
  by (auto simp: pg_ingest_one_def meta_last pg_roll_up_meta ebind_def split: sum.splits)

lemma sq_ingest_meta:
  "sq_ingest lib rs (ix\<lparr>ix_meta := m\<rparr>) = ebind (sq_ingest lib rs ix) (\<lambda>(k, ix'). Inr (k, ix'\<lparr>ix_meta := m\<rparr>))"
  by (induction rs arbitrary: ix) (auto simp: sq_ingest_one_meta ebind_def split: sum.splits)

lemma pg_ingest_meta:
  "pg_ingest lib rs (ix\<lparr>ix_meta := m\<rparr>) = ebind (pg_ingest lib rs ix) (\<lambda>(k, ix'). Inr (k, ix'\<lparr>ix_meta := m\<rparr>))"
  by (induction rs arbitrary: ix) (auto simp: pg_ingest_one_meta ebind_def split: sum.splits)

lemma sq_ingest_append:
  "sq_ingest lib (rs @ rs') ix = ebind (sq_ingest lib rs ix) (\<lambda>(n, ix1).
     ebind (sq_ingest lib rs' ix1) (\<lambda>(m, ix2). Inr (n + m, ix2)))"
  by (induction rs arbitrary: ix) (auto simp: ebind_def split: sum.splits)

lemma pg_ingest_append:
  "pg_ingest lib (rs @ rs') ix = ebind (pg_ingest lib rs ix) (\<lambda>(n, ix1).
     ebind (pg_ingest lib rs' ix1) (\<lambda>(m, ix2). Inr (n + m, ix2)))"
  by (induction rs arbitrary: ix) (auto simp: ebind_def split: sum.splits)

interpretation sq: spool_index lib "sq_ingest lib" sq_next_offset sq_set_next_offset "sq_catch_up lib" for lib
  by unfold_locales
    (simp_all add: sq_ingest_append sq_next_offset_def sq_set_next_offset_def sq_ingest_meta sq_catch_up_def)

interpretation pg: spool_index lib "pg_ingest lib" pg_next_offset pg_set_next_offset "pg_catch_up lib" for lib
  by unfold_locales
    (simp_all add: pg_ingest_append pg_next_offset_def pg_set_next_offset_def pg_ingest_meta pg_catch_up_def)

section \<open>What the index holds\<close>

lemma text_col_Inr: "text_col v = Inr x \<longleftrightarrow> v = opt_str x"
  by (cases v) (auto simp: text_col_def opt_str_def split: option.splits)

lemma event_columns_event:
  "event_columns lib r = Inr row \<Longrightarrow>
     dget_default (sr_event r) ''event'' (PStr ''unknown'') = opt_str (er_event row)"
  by (auto simp: event_columns_def Let_def ebind_eq_Inr text_col_Inr)

lemma event_columns_null:
  "event_columns lib r = Inr row \<Longrightarrow> er_event row = None \<longleftrightarrow> dget (sr_event r) ''event'' = Some PNone"
  by (drule event_columns_event) (auto simp: dget_default_def opt_str_def split: option.splits)

text \<open>The two indexes agree on every spool the gateway writes: each of its events has a name.\<close>

lemma ingest_agree:
  "\<forall>r \<in> set rs. dget (sr_event r) ''event'' \<noteq> Some PNone \<Longrightarrow> sq_ingest lib rs ix = pg_ingest lib rs ix"
proof (induction rs arbitrary: ix)
  case (Cons r rs)
  have "sq_ingest_one lib r ix = pg_ingest_one lib r ix"
    using Cons.prems event_columns_null [of lib r]
    by (cases "event_columns lib r") (auto simp: sq_ingest_one_def pg_ingest_one_def roll_up_agree)
  with Cons show ?case by (simp add: case_prod_unfold)
qed simp

text \<open>Ingesting the same records again changes nothing: the offset is the primary key.\<close>

lemma pg_roll_up_events: "pg_roll_up lib ev ix = Inr ix' \<Longrightarrow> ix_events ix' = ix_events ix"
  by (auto simp: pg_roll_up_def ebind_eq_Inr Let_def split: if_splits)

lemma sq_ingest_one_events:
  assumes "sq_ingest_one lib r ix = Inr (n, ix')"
  obtains row where "event_columns lib r = Inr row" and "dom (map_of (ix_events ix)) \<subseteq> dom (map_of (ix_events ix'))"
    and "er_event row = None \<or> sr_offset r \<in> dom (map_of (ix_events ix'))"
proof -
  from assms obtain row where row: "event_columns lib r = Inr row"
    and "ix' = ix \<and> (er_event row = None \<or> sr_offset r \<in> dom (map_of (ix_events ix)))
      \<or> ix_events ix' = ix_events ix @ [(sr_offset r, row)]"
    by (auto simp: sq_ingest_one_def ebind_eq_Inr roll_up_agree split: if_splits dest!: pg_roll_up_events)
  then show thesis by (intro that [OF row]) (auto simp del: map_of_append simp: dom_map_of_conv_image_fst)
qed

lemma sq_ingest_grows:
  "sq_ingest lib rs ix = Inr (n, ix') \<Longrightarrow> dom (map_of (ix_events ix)) \<subseteq> dom (map_of (ix_events ix'))"
proof (induction rs arbitrary: ix n)
  case (Cons r rs)
  then obtain k ix1 m where "sq_ingest_one lib r ix = Inr (k, ix1)" "sq_ingest lib rs ix1 = Inr (m, ix')"
    by (auto simp: ebind_eq_Inr)
  then show ?case using Cons.IH by (meson order_trans sq_ingest_one_events)
qed simp

lemma sq_ingest_again:
  assumes "sq_ingest lib rs ix = Inr (n, ix')" and "dom (map_of (ix_events ix')) \<subseteq> dom (map_of (ix_events iy))"
  shows "sq_ingest lib rs iy = Inr (0, iy)"
  using assms
proof (induction rs arbitrary: ix n)
  case (Cons r rs)
  then obtain k ix1 m where one: "sq_ingest_one lib r ix = Inr (k, ix1)" and rest: "sq_ingest lib rs ix1 = Inr (m, ix')"
    by (auto simp: ebind_eq_Inr)
  from one obtain row where "event_columns lib r = Inr row"
    "er_event row = None \<or> sr_offset r \<in> dom (map_of (ix_events ix1))" by (rule sq_ingest_one_events)
  then have "sq_ingest_one lib r iy = Inr (0, iy)"
    using sq_ingest_grows [OF rest] Cons.prems(2) by (auto simp: sq_ingest_one_def)
  with Cons.IH [OF rest] Cons.prems(2) show ?case by simp
qed simp

subsection \<open>The session roll-up\<close>

definition session_events :: "string \<Rightarrow> pydict list \<Rightarrow> pydict list" where
  "session_events sid evs = filter (\<lambda>ev. dget_none ev ''session_id'' = PStr sid) evs"

definition named :: "string list \<Rightarrow> pydict list \<Rightarrow> pydict list" where
  "named names evs = filter (\<lambda>ev. \<exists>n \<in> set names. dget_none ev ''event'' = PStr n) evs"

text \<open>The row of a session counts its events; the flags say that such an event occurred.\<close>

definition row_reflects :: "pydict list \<Rightarrow> session_row \<Rightarrow> bool" where
  "row_reflects evs row =
     (sn_event_count row = int (length evs) \<and>
      sn_allowed_count row = int (length (named [ALLOWED] evs)) \<and>
      sn_blocked_count row = int (length (named [BLOCKED, BLOCKED_SUSPENDED] evs)) \<and>
      sn_tainted row = (named [TAINTED] evs \<noteq> []) \<and>
      sn_suspended row = (named [SUSPENDED] evs \<noteq> []))"

definition rollup_ok :: "pydict list \<Rightarrow> (string \<times> session_row) list \<Rightarrow> bool" where
  "rollup_ok evs rows =
     (\<forall>sid. sid \<noteq> [] \<longrightarrow>
        (case map_of rows sid of
           None \<Rightarrow> session_events sid evs = []
         | Some row \<Rightarrow> row_reflects (session_events sid evs) row))"

lemma named_snoc:
  "named ns (evs @ [ev]) = named ns evs @ (if \<exists>n \<in> set ns. dget_none ev ''event'' = PStr n then [ev] else [])"
  by (simp add: named_def)

lemma rollup_values_reflects:
  assumes "rollup_values lib current ev = Inr row"
    and "case current of None \<Rightarrow> evs = [] | Some r \<Rightarrow> row_reflects evs r"
  shows "row_reflects (evs @ [ev]) row"
proof -
  let ?name = "dget_none ev ''event''"
  let ?base = "\<lambda>ts. case current of Some r \<Rightarrow> r | None \<Rightarrow> new_session_row ts"
  obtain ts score level where row: "row =
      \<lparr>sn_first_ts = sn_first_ts (?base ts), sn_last_ts = or_else ts (sn_last_ts (?base ts)),
       sn_event_count = sn_event_count (?base ts) + 1,
       sn_allowed_count = sn_allowed_count (?base ts) + (if ?name = PStr ALLOWED then 1 else 0),
       sn_blocked_count = sn_blocked_count (?base ts)
         + (if ?name = PStr BLOCKED \<or> ?name = PStr BLOCKED_SUSPENDED then 1 else 0),
       sn_tainted = (sn_tainted (?base ts) \<or> ?name = PStr TAINTED),
       sn_suspended = (sn_suspended (?base ts) \<or> ?name = PStr SUSPENDED),
       sn_risk_score = score, sn_risk_level = level\<rparr>"
    using assms(1) by (auto simp: rollup_values_def Let_def ebind_eq_Inr)
  have "row_reflects evs (?base ts)"
    using assms(2) by (cases current) (simp_all add: row_reflects_def named_def new_session_row_def)
  then show ?thesis unfolding row by (simp add: row_reflects_def named_snoc)
qed

lemma row_reflects_first_ts [simp]: "row_reflects evs (row\<lparr>sn_first_ts := ts\<rparr>) = row_reflects evs row"
  by (simp add: row_reflects_def)

lemma roll_up_reflects:
  assumes "pg_roll_up lib ev ix = Inr ix'" and "rollup_ok evs (ix_sessions ix)"
  shows "rollup_ok (evs @ [ev]) (ix_sessions ix')"
proof -
  obtain sid where sid: "dget_none ev ''session_id'' = opt_str sid"
    using assms(1) by (auto simp: pg_roll_up_def ebind_eq_Inr text_col_Inr)
  show ?thesis
  proof (cases "sid = None \<or> sid = Some []")
    case True
    then have "ix' = ix" using assms(1) sid by (auto simp: pg_roll_up_def text_col_def opt_str_def)
    moreover have "session_events i (evs @ [ev]) = session_events i evs" if "i \<noteq> []" for i
      using True that sid by (auto simp: session_events_def opt_str_def)
    ultimately show ?thesis using assms(2) unfolding rollup_ok_def by metis
  next
    case False
    then obtain i where i: "sid = Some i" "i \<noteq> []" by auto
    let ?cur = "map_of (ix_sessions ix) i"
    obtain row where row: "rollup_values lib ?cur ev = Inr row"
      and ix': "ix_sessions ix' = (case ?cur of None \<Rightarrow> ix_sessions ix @ [(i, row)]
        | Some r \<Rightarrow> AList.update i (row\<lparr>sn_first_ts := sn_first_ts r\<rparr>) (ix_sessions ix))"
      using assms(1) sid i by (auto simp: pg_roll_up_def ebind_eq_Inr text_col_def opt_str_def Let_def)
    have other: "map_of (ix_sessions ix') j = map_of (ix_sessions ix) j"
      "session_events j (evs @ [ev]) = session_events j evs" if "j \<noteq> i" for j
      using that ix' sid i by (auto simp: session_events_def opt_str_def map_add_def split: option.splits)
    have "row_reflects (session_events i evs @ [ev]) row"
      using rollup_values_reflects [OF row] assms(2) i(2) by (simp add: rollup_ok_def)
    moreover have "session_events i (evs @ [ev]) = session_events i evs @ [ev]"
      using sid i by (simp add: session_events_def opt_str_def)
    moreover have "\<exists>r. map_of (ix_sessions ix') i = Some r \<and> (\<exists>ts. r = row\<lparr>sn_first_ts := ts\<rparr>)"
      using ix' by (cases ?cur) (auto simp: map_add_def intro: exI [of _ "sn_first_ts row"])
    ultimately show ?thesis using other assms(2) unfolding rollup_ok_def
      by (metis option.simps(5) row_reflects_first_ts)
  qed
qed

text \<open>The events SQLite keeps: those with a name.\<close>

definition kept_events :: "spool_record list \<Rightarrow> pydict list" where
  "kept_events rs = filter (\<lambda>ev. dget ev ''event'' \<noteq> Some PNone) (map sr_event rs)"

lemma disjoint_insert_sub: "a \<notin> A \<Longrightarrow> A \<inter> D = {} \<Longrightarrow> E \<subseteq> insert a D \<Longrightarrow> A \<inter> E = {}"
  by blast

lemma sq_ingest_reflects:
  assumes "sq_ingest lib rs ix = Inr (n, ix')" and "rollup_ok evs (ix_sessions ix)"
    and "distinct (map sr_offset rs)" and "sr_offset ` set rs \<inter> dom (map_of (ix_events ix)) = {}"
  shows "rollup_ok (evs @ kept_events rs) (ix_sessions ix') \<and> n = length (kept_events rs)"
  using assms
proof (induction rs arbitrary: ix n evs)
  case (Cons r rs)
  then obtain k ix1 m where one: "sq_ingest_one lib r ix = Inr (k, ix1)" and rest: "sq_ingest lib rs ix1 = Inr (m, ix')"
    and n: "n = k + m" by (auto simp: ebind_eq_Inr)
  obtain row where row: "event_columns lib r = Inr row" using sq_ingest_one_events [OF one] .
  have new: "map_of (ix_events ix) (sr_offset r) = None" using Cons.prems(4) by auto
  have off: "sr_offset r \<notin> sr_offset ` set rs" "sr_offset ` set rs \<inter> dom (map_of (ix_events ix)) = {}"
    using Cons.prems(3,4) by auto
  have dom: "dom (map_of (ix_events ix1)) \<subseteq> insert (sr_offset r) (dom (map_of (ix_events ix)))"
    using one by (auto simp: sq_ingest_one_def roll_up_agree ebind_eq_Inr split: if_splits dest!: pg_roll_up_events)
  have fresh: "sr_offset ` set rs \<inter> dom (map_of (ix_events ix1)) = {}"
    by (rule disjoint_insert_sub [OF off dom])
  have step: "rollup_ok (evs @ kept_events [r]) (ix_sessions ix1) \<and> k = length (kept_events [r])"
    using one row new Cons.prems(2) event_columns_null [OF row]
    by (auto simp: sq_ingest_one_def roll_up_agree ebind_eq_Inr kept_events_def
        dest: roll_up_reflects split: if_splits)
  have "kept_events (r # rs) = kept_events [r] @ kept_events rs" by (simp add: kept_events_def)
  with Cons.IH [OF rest conjunct1 [OF step] _ fresh] step Cons.prems(3) n show ?case by simp
qed (simp add: kept_events_def)

lemma sq_rebuild_reflects:
  assumes "sq_rebuild lib (Some b) ix0 = Inr (rep, ix)" and "read_lines lib 0 b = Inr (rs, bad, torn)"
  shows "rollup_ok (kept_events rs) (ix_sessions ix)"
proof -
  let ?e = "ix0\<lparr>ix_events := [], ix_sessions := [], ix_meta := None\<rparr>"
  obtain n ix1 where "sq_ingest lib rs ?e = Inr (n, ix1)" and ix: "ix_sessions ix = ix_sessions ix1"
    using assms by (auto simp: sq_rebuild_def sq.catch_up_Inr sq_next_offset_def sq_set_next_offset_def)
  moreover have "rollup_ok [] (ix_sessions ?e)" by (simp add: rollup_ok_def session_events_def)
  moreover have "distinct (map sr_offset rs)"
    using read_lines_sorted [OF assms(2)] by (simp add: strict_sorted_iff)
  ultimately show ?thesis using sq_ingest_reflects [of lib rs ?e n ix1 "[]"] by (simp add: ix)
qed

subsection \<open>Pages\<close>

lemma page_rows_bounded: "length (page_rows f limit ix) \<le> 1000"
proof -
  have "page_size limit \<le> 1000" by (simp add: page_size_def)
  then show ?thesis by (simp add: page_rows_def Let_def)
qed

lemma page_rows_match: "row \<in> set (page_rows f limit ix) \<Longrightarrow> row_matches f row \<and> row \<in> set (ix_events ix)"
  by (auto simp: page_rows_def Let_def dest!: in_set_takeD split: if_splits)

lemma page_rows_ordered:
  "ef_ascending f \<Longrightarrow> sorted (map fst (page_rows f limit ix))"
  by (simp add: page_rows_def Let_def flip: take_map)

end
