(* ===== verification/Audit_Forwarder.thy ===== *)
theory Audit_Forwarder
  imports Audit_Spool Session_State
begin

text \<open>
  \<open>audit/forwarder.py\<close> and \<open>audit/ocsf.py\<close>: the process that drains the spool to a SIEM sink.
  Of one delivery the model knows only what the contract of a sink promises (\<open>delivery\<close>): the
  sink accepted the batch, or raised \<open>SinkError\<close> for a batch that did not land, or raised in doubt
  (a timeout) for one that did, or accepted it just before the forwarder died. The state keeps the watermark file as its text and, as a ghost field, every
  event the sink has accepted so far, in order.
\<close>

section \<open>The watermark file\<close>

text \<open>
  \<open>int(doc.get("offset", 0))\<close> raises \<open>AttributeError\<close> when the document is no object, which the
  handler of \<open>load\<close> does not name.
\<close>

definition watermark_load :: "pylib \<Rightarrow> string option \<Rightarrow> int res" where
  "watermark_load lib content =
     (case content of
        None \<Rightarrow> Inr 0
      | Some t \<Rightarrow>
          (case ebind (json_loads lib t) (\<lambda>doc.
                  case doc of PDict d \<Rightarrow> blob_int (dget_default d ''offset'' (PInt 0)) | _ \<Rightarrow> Inl AttributeError) of
             Inr n \<Rightarrow> Inr (if 0 \<le> n then n else 0)
           | Inl (ValueError _) \<Rightarrow> Inr 0
           | Inl TypeError \<Rightarrow> Inr 0
           | Inl e \<Rightarrow> Inl e))"

text \<open>\<open>json.dump\<close> with its default separators; the replacement of the file is atomic.\<close>

definition watermark_text :: "nat \<Rightarrow> string" where
  "watermark_text n = [CHR ''{'', CHR 34] @ ''offset'' @ [CHR 34] @ '': '' @ show_nat n @ ''}''"

section \<open>One pump\<close>

datatype delivery = Accepted | SinkDown string | InDoubt string | AcceptedThenDied

text \<open>Whether the forwarder's view of the delivery is the sink's.\<close>

definition known_outcome :: "delivery \<Rightarrow> bool" where
  "known_outcome dl = (case dl of Accepted \<Rightarrow> True | SinkDown _ \<Rightarrow> True | InDoubt _ \<Rightarrow> False | AcceptedThenDied \<Rightarrow> False)"

type_synonym event_mapper = "pydict \<Rightarrow> (pydict option) res"

record forwarder =
  fw_batch_size :: int
  fw_mapper :: "event_mapper option"
  fw_alarm_lag_bytes :: int
  fw_on_alarm :: bool  \<comment> \<open>whether an alarm hook is installed\<close>

definition DEFAULT_BATCH :: int where "DEFAULT_BATCH = 500"
definition DEFAULT_ALARM_LAG_BYTES :: int where "DEFAULT_ALARM_LAG_BYTES = 8 * 1024 * 1024"

definition make_forwarder :: "int \<Rightarrow> event_mapper option \<Rightarrow> int \<Rightarrow> bool \<Rightarrow> forwarder" where
  "make_forwarder batch_size mapper alarm hook =
     \<lparr>fw_batch_size = max 1 batch_size, fw_mapper = mapper, fw_alarm_lag_bytes = alarm, fw_on_alarm = hook\<rparr>"

record fstate =
  fs_watermark :: "string option"
  fs_accepted :: "pydict list"
  fs_alarms :: "nat list"

record forward_result =
  fr_ok :: bool
  fr_delivered :: nat
  fr_watermark :: nat
  fr_lag_bytes :: nat
  fr_bad_lines :: nat
  fr_error :: "string option"

definition store :: "nat \<Rightarrow> fstate \<Rightarrow> fstate" where
  "store n st = st\<lparr>fs_watermark := Some (watermark_text n)\<rparr>"

definition maybe_alarm :: "forwarder \<Rightarrow> nat \<Rightarrow> fstate \<Rightarrow> fstate" where
  "maybe_alarm fw lag st =
     (if fw_alarm_lag_bytes fw \<le> int lag \<and> fw_on_alarm fw then st\<lparr>fs_alarms := fs_alarms st @ [lag]\<rparr> else st)"

definition spool_size :: "string option \<Rightarrow> nat" where
  "spool_size f = (case f of None \<Rightarrow> 0 | Some b \<Rightarrow> length b)"

definition map_batch :: "forwarder \<Rightarrow> spool_record list \<Rightarrow> (pydict list) res" where
  "map_batch fw chunk =
     ebind (emap (\<lambda>r. case fw_mapper fw of Some m \<Rightarrow> m (sr_event r) | None \<Rightarrow> Inr (Some (sr_event r))) chunk)
       (\<lambda>ms. Inr (map the (filter (\<lambda>m. m \<noteq> None) ms)))"

text \<open>
  \<open>pump_once\<close>. The result is \<open>None\<close> when the process died between the sink's acceptance and the
  write of the watermark.
\<close>

definition pump_once ::
  "pylib \<Rightarrow> forwarder \<Rightarrow> string option \<Rightarrow> delivery \<Rightarrow> fstate \<Rightarrow> (forward_result option \<times> fstate) res" where
  "pump_once lib fw spool dl st =
     ebind (watermark_load lib (fs_watermark st)) (\<lambda>n.
     let start = nat n in
     ebind (read_spool lib spool start) (\<lambda>res.
     let tail = spool_size spool in
     if rr_records res = [] then
       Inr (Some \<lparr>fr_ok = True, fr_delivered = 0, fr_watermark = rr_next_offset res,
                  fr_lag_bytes = tail - rr_next_offset res, fr_bad_lines = rr_bad_lines res, fr_error = None\<rparr>,
            if rr_next_offset res \<noteq> start then store (rr_next_offset res) st else st)
     else
       let chunk = take (nat (fw_batch_size fw)) (rr_records res);
           new_watermark = sr_end_offset (last chunk) in
       ebind (map_batch fw chunk) (\<lambda>batch.
       let done = \<lparr>fr_ok = True, fr_delivered = length batch, fr_watermark = new_watermark,
                   fr_lag_bytes = tail - new_watermark, fr_bad_lines = rr_bad_lines res, fr_error = None\<rparr>;
           finish = (\<lambda>st. maybe_alarm fw (tail - new_watermark) (store new_watermark st));
           failed = (\<lambda>e st. (Some \<lparr>fr_ok = False, fr_delivered = 0, fr_watermark = start, fr_lag_bytes = tail - start,
                       fr_bad_lines = rr_bad_lines res, fr_error = Some e\<rparr>, maybe_alarm fw (tail - start) st)) in
       if batch = [] then Inr (Some done, finish st)
       else (case dl of
          SinkDown e \<Rightarrow> Inr (failed e st)
        | InDoubt e \<Rightarrow> Inr (failed e (st\<lparr>fs_accepted := fs_accepted st @ batch\<rparr>))
        | AcceptedThenDied \<Rightarrow> Inr (None, st\<lparr>fs_accepted := fs_accepted st @ batch\<rparr>)
        | Accepted \<Rightarrow> Inr (Some done, finish (st\<lparr>fs_accepted := fs_accepted st @ batch\<rparr>))))))"

subsection \<open>The watermark reads back\<close>

lemma watermark_text_loads: "json_loads lib (watermark_text n) = Inr (PDict [(PStr ''offset'', PInt (int n))])"
proof -
  have off: "scan_string (''offset'' @ CHR 34 # r) = Inr (''offset'', r)" for r
    by (simp add: push_def)
  have num: "parse_value lib (show_nat n @ CHR ''}'' # []) = Inr (PInt (int n), CHR ''}'' # [])"
    using parse_number [OF show_int_scan [of lib "int n"], of "CHR ''}'' # []"] by (simp add: show_int_def)
  obtain c cs where c: "show_nat n = c # cs" using show_nat_nonempty [of n] by (cases "show_nat n") auto
  then have "is_decimal c" using show_nat_decimals [of n] by auto
  then have ws: "\<not> is_ws c" by (auto simp: is_decimal_def is_ws_def)
  have skip: "skip_ws (CHR '' '' # show_nat n @ ''}'') = show_nat n @ ''}''"
    using c ws by (simp add: skip_ws_def) (simp add: is_ws_def)
  have "parse_members lib (CHR 34 # ''offset'' @ CHR 34 # '': '' @ show_nat n @ ''}'') =
      Inr ([(PStr ''offset'', PInt (int n))], [])"
    using off [of "'': '' @ show_nat n @ ''}''"] num skip
    by (subst parse_members.simps) simp
  moreover have "\<not> is_ws CHR ''{''" by (simp add: is_ws_def)
  ultimately show ?thesis
    by (simp add: json_loads_def watermark_text_def parse_value.simps al_merge_def skip_ws_def)
qed

lemma watermark_roundtrip [simp]: "watermark_load lib (Some (watermark_text n)) = Inr (int n)"
  by (simp add: watermark_load_def watermark_text_loads dget_default_def dget_def blob_int_def)

section \<open>Draining\<close>

text \<open>
  \<open>drain\<close> pumps until a pump fails or delivers nothing. The list gives the sink's answers, one
  per pump; \<open>None\<close> means that the loop is still running when the answers end or that the
  process died.
\<close>

fun drain_loop ::
  "pylib \<Rightarrow> forwarder \<Rightarrow> string option \<Rightarrow> delivery list \<Rightarrow> nat \<Rightarrow> fstate \<Rightarrow> ((forward_result \<times> nat) option \<times> fstate) res" where
  "drain_loop lib fw spool [] n_sent st = Inr (None, st)"
| "drain_loop lib fw spool (dl # dls) n_sent st =
     ebind (pump_once lib fw spool dl st) (\<lambda>(r, st').
     case r of
       None \<Rightarrow> Inr (None, st')
     | Some res \<Rightarrow>
         if \<not> fr_ok res \<or> fr_delivered res = 0 then Inr (Some (res, n_sent), st')
         else drain_loop lib fw spool dls (n_sent + fr_delivered res) st')"

definition drain ::
  "pylib \<Rightarrow> forwarder \<Rightarrow> string option \<Rightarrow> delivery list \<Rightarrow> fstate \<Rightarrow> (forward_result option \<times> fstate) res" where
  "drain lib fw spool dls st =
     ebind (drain_loop lib fw spool dls 0 st) (\<lambda>(r, st').
     Inr (map_option (\<lambda>(res, n). res\<lparr>fr_delivered := (if fr_ok res then n else 0)\<rparr>) r, st'))"

text \<open>
  One turn of \<open>run\<close>: how long it sleeps (\<open>None\<close> for not at all) and the back-off of the next turn.
\<close>

definition DEFAULT_POLL_SECONDS :: rat where "DEFAULT_POLL_SECONDS = 2"
definition DEFAULT_MAX_BACKOFF :: rat where "DEFAULT_MAX_BACKOFF = 60"

definition run_turn :: "rat \<Rightarrow> rat \<Rightarrow> forward_result \<Rightarrow> rat \<Rightarrow> rat option \<times> rat" where
  "run_turn poll_seconds max_backoff result backoff =
     (if \<not> fr_ok result then (Some (min backoff max_backoff), min (backoff * 2) max_backoff)
      else (if fr_delivered result = 0 then Some poll_seconds else None, poll_seconds))"

section \<open>Nothing is lost\<close>

lemma next_offset_ge:
  "\<forall>r \<in> set rs. e \<le> sr_end_offset r \<Longrightarrow> e \<le> next_offset_of e (take j rs)"
proof (cases "take j rs = []")
  case False
  assume "\<forall>r \<in> set rs. e \<le> sr_end_offset r"
  then show ?thesis using in_set_takeD [OF last_in_set [OF False]] False by (auto simp: next_offset_of_def)
qed (simp add: next_offset_of_def)

text \<open>Resuming after the first \<open>k\<close> records reads the others.\<close>

lemma read_lines_from:
  "read_lines lib off b = Inr (rs, bad, torn) \<Longrightarrow> k \<le> length rs \<Longrightarrow>
     \<exists>bad'. read_lines lib (next_offset_of off (take k rs)) (drop (next_offset_of off (take k rs) - off) b)
       = Inr (drop k rs, bad', torn)"
proof (induction b arbitrary: off rs bad k rule: line_induct)
  case (torn b)
  then show ?case by (simp add: read_lines_none next_offset_of_def)
next
  case (line raw rest)
  let ?e = "off + length raw + 1"
  from line.prems(1) obtain kind rs' bad' where
    rest: "read_lines lib ?e rest = Inr (rs', bad', torn)" and rs: "rs = add_line off ?e kind rs'"
    by (auto simp: read_lines_line [OF line.hyps] ebind_eq_Inr)
  show ?case
  proof (cases "k = 0")
    case True
    with line.prems show ?thesis by (simp add: next_offset_of_def)
  next
    case False
    let ?j = "if rs = rs' then k else k - 1"
    have j: "?j \<le> length rs'" "drop ?j rs' = drop k rs"
      "next_offset_of ?e (take ?j rs') = next_offset_of off (take k rs)"
      using False rs line.prems(2)
      by (cases kind; cases k; auto simp: add_line_def next_offset_of_def)+
    let ?m = "next_offset_of ?e (take ?j rs')"
    obtain bad'' where "read_lines lib ?m (drop (?m - ?e) rest) = Inr (drop ?j rs', bad'', torn)"
      using line.IH [OF rest j(1)] by blast
    moreover have "?e \<le> ?m"
      using read_lines_offsets [OF rest] by (intro next_offset_ge) fastforce
    then have "drop (?m - off) (raw @ CHR 10 # rest) = drop (?m - ?e) rest"
      by (simp add: drop_Cons')
    ultimately show ?thesis using j by auto
  qed
qed

lemma emap_append:
  "emap f (xs @ ys) = ebind (emap f xs) (\<lambda>a. ebind (emap f ys) (\<lambda>b. Inr (a @ b)))"
  by (induction xs) (auto simp: ebind_def split: sum.splits)

lemma map_batch_append:
  "map_batch fw (xs @ ys) = ebind (map_batch fw xs) (\<lambda>a. ebind (map_batch fw ys) (\<lambda>b. Inr (a @ b)))"
  by (auto simp: map_batch_def emap_append ebind_def split: sum.splits)

lemma map_batch_Nil [simp]: "map_batch fw [] = Inr []"
  by (simp add: map_batch_def)

text \<open>
  The forwarder's invariant over a spool \<open>b\<close>: the watermark stands after the first \<open>k\<close> records,
  and the sink has accepted what they map to, each exactly once and in order as long as the
  outcome of every delivery was known to the forwarder.
\<close>

definition forwarded_upto :: "pylib \<Rightarrow> forwarder \<Rightarrow> string \<Rightarrow> bool \<Rightarrow> fstate \<Rightarrow> nat \<Rightarrow> bool" where
  "forwarded_upto lib fw b exact st k =
     (case read_lines lib 0 b of
        Inl e \<Rightarrow> False
      | Inr (rs, bad, torn) \<Rightarrow>
          k \<le> length rs \<and>
          watermark_load lib (fs_watermark st) = Inr (int (next_offset_of 0 (take k rs))) \<and>
          (case map_batch fw (take k rs) of
             Inl e \<Rightarrow> False
           | Inr acc \<Rightarrow> set acc \<subseteq> set (fs_accepted st) \<and> (exact \<longrightarrow> fs_accepted st = acc)))"

lemma store_fields [simp]:
  "fs_accepted (store n st) = fs_accepted st" "watermark_load lib (fs_watermark (store n st)) = Inr (int n)"
  "fs_accepted (maybe_alarm fw l st) = fs_accepted st" "fs_watermark (maybe_alarm fw l st) = fs_watermark st"
  by (simp_all add: store_def maybe_alarm_def)

lemma next_offset_take:
  "drop k rs \<noteq> [] \<Longrightarrow> 0 < n \<Longrightarrow>
     sr_end_offset (last (take n (drop k rs))) = next_offset_of 0 (take (min (k + n) (length rs)) rs)"
proof -
  assume ne: "drop k rs \<noteq> []" and n: "0 < n"
  have "take (min (k + n) (length rs)) rs = take k rs @ take n (drop k rs)"
    by (simp add: take_add min_def)
  moreover have "take n (drop k rs) \<noteq> []" using ne n by simp
  ultimately show ?thesis by (simp add: next_offset_of_def)
qed

lemma pump_forwards:
  assumes "forwarded_upto lib fw b exact st k" and "pump_once lib fw (Some b) dl st = Inr (r, st')"
    and "1 \<le> fw_batch_size fw"
  obtains j where "forwarded_upto lib fw b (exact \<and> known_outcome dl) st' j"
proof -
  obtain rs bad torn acc where rs: "read_lines lib 0 b = Inr (rs, bad, torn)" and k: "k \<le> length rs"
    and wm: "watermark_load lib (fs_watermark st) = Inr (int (next_offset_of 0 (take k rs)))"
    and acc: "map_batch fw (take k rs) = Inr acc" "set acc \<subseteq> set (fs_accepted st)" "exact \<Longrightarrow> fs_accepted st = acc"
    using assms(1) by (auto simp: forwarded_upto_def split: sum.splits prod.splits)
  let ?w = "next_offset_of 0 (take k rs)" and ?n = "nat (fw_batch_size fw)"
  obtain bad' where from_w: "read_lines lib ?w (drop ?w b) = Inr (drop k rs, bad', torn)"
    using read_lines_from [OF rs k] by auto
  show thesis
  proof (cases "drop k rs = []")
    case True
    with assms(2) wm from_w have "st' = st"
      by (auto simp: pump_once_def read_spool_def Let_def next_offset_of_def)
    with assms(1) that [of k] show ?thesis by (auto simp: forwarded_upto_def split: sum.splits prod.splits)
  next
    case False
    let ?chunk = "take ?n (drop k rs)" and ?j = "min (k + ?n) (length rs)"
    have pos: "0 < ?n" using assms(3) by simp
    note last = next_offset_take [OF False pos]
    obtain batch where batch: "map_batch fw ?chunk = Inr batch"
      using assms(2) wm from_w False by (auto simp: pump_once_def read_spool_def Let_def ebind_eq_Inr)
    have "take ?j rs = take k rs @ ?chunk" by (simp add: take_add min_def)
    then have all: "map_batch fw (take ?j rs) = Inr (acc @ batch)" using acc(1) batch by (simp add: map_batch_append)
    consider "batch = []" "fs_accepted st' = fs_accepted st" "watermark_load lib (fs_watermark st') = Inr (int (next_offset_of 0 (take ?j rs)))"
      | "dl = Accepted" "fs_accepted st' = fs_accepted st @ batch" "watermark_load lib (fs_watermark st') = Inr (int (next_offset_of 0 (take ?j rs)))"
      | "\<not> known_outcome dl" "set (fs_accepted st) \<subseteq> set (fs_accepted st')" "fs_watermark st' = fs_watermark st"
      | "fs_accepted st' = fs_accepted st" "fs_watermark st' = fs_watermark st"
      using assms(2) wm from_w False batch
      by (auto simp: pump_once_def read_spool_def Let_def last known_outcome_def split: if_splits delivery.splits)
    then show ?thesis
    proof cases
      case 1
      with all acc that [of ?j] rs show ?thesis by (auto simp: forwarded_upto_def)
    next
      case 2
      with all acc that [of ?j] rs show ?thesis by (auto simp: forwarded_upto_def)
    next
      case 3
      with acc that [of k] rs k wm show ?thesis by (auto simp: forwarded_upto_def)
    next
      case 4
      with acc that [of k] rs k wm show ?thesis by (auto simp: forwarded_upto_def)
    qed
  qed
qed

lemma growth_forwards:
  assumes "forwarded_upto lib fw b exact st k" and "isOk (read_lines lib 0 (b @ tail))"
  shows "forwarded_upto lib fw (b @ tail) exact st k"
proof -
  obtain rs bad torn where whole: "read_lines lib 0 (b @ tail) = Inr (rs, bad, torn)"
    using assms(2) by (auto simp: isOk_def split: sum.splits)
  then obtain rs1 bad1 torn1 rs2 where "read_lines lib 0 b = Inr (rs1, bad1, torn1)" "rs = rs1 @ rs2"
    using read_lines_resume by metis
  with assms(1) whole show ?thesis by (auto simp: forwarded_upto_def split: sum.splits)
qed

text \<open>
  The life of a forwarder beside a growing spool, over any sequence of appends, pumps, refusals
  of the sink and deaths of the process. The flag is false once a batch landed that the forwarder
  does not know of: the process died between an acceptance and its watermark, or the sink raised
  in doubt.
\<close>

inductive forward_run :: "pylib \<Rightarrow> forwarder \<Rightarrow> string \<Rightarrow> bool \<Rightarrow> fstate \<Rightarrow> bool" for lib fw where
  start: "forward_run lib fw [] True \<lparr>fs_watermark = None, fs_accepted = [], fs_alarms = []\<rparr>"
| append: "forward_run lib fw b exact st \<Longrightarrow> isOk (read_lines lib 0 (b @ tail)) \<Longrightarrow>
    forward_run lib fw (b @ tail) exact st"
| pump: "forward_run lib fw b exact st \<Longrightarrow> pump_once lib fw (Some b) dl st = Inr (r, st') \<Longrightarrow>
    forward_run lib fw b (exact \<and> known_outcome dl) st'"

lemma forward_run_upto:
  "forward_run lib fw b exact st \<Longrightarrow> 1 \<le> fw_batch_size fw \<Longrightarrow> \<exists>k. forwarded_upto lib fw b exact st k"
proof (induction rule: forward_run.induct)
  case start
  then show ?case
    by (simp add: forwarded_upto_def read_lines_none watermark_load_def next_offset_of_def)
next
  case (append b exact st tail)
  then show ?case using growth_forwards by blast
next
  case (pump b exact st dl r st')
  then show ?case by (meson pump_forwards)
qed

section \<open>A live sink gets everything\<close>

definition keeps_all :: "forwarder \<Rightarrow> spool_record list \<Rightarrow> bool" where
  "keeps_all fw rs =
     (\<forall>r \<in> set rs. case fw_mapper fw of None \<Rightarrow> True | Some m \<Rightarrow> (\<exists>e. m (sr_event r) = Inr (Some e)))"

lemma keeps_all_batch:
  "keeps_all fw rs \<Longrightarrow> \<exists>batch. map_batch fw rs = Inr batch \<and> length batch = length rs"
proof (induction rs)
  case (Cons r rs)
  then obtain batch where "map_batch fw rs = Inr batch" "length batch = length rs" by (auto simp: keeps_all_def)
  moreover obtain e where "map_batch fw [r] = Inr [e]"
    using Cons.prems by (cases "fw_mapper fw") (auto simp: map_batch_def keeps_all_def)
  ultimately show ?case using map_batch_append [of fw "[r]" rs] by simp
qed simp

lemma pump_accepted:
  assumes "forwarded_upto lib fw b exact st k" and "1 \<le> fw_batch_size fw"
    and "read_lines lib 0 b = Inr (rs, bad, torn)" and "keeps_all fw rs"
  shows "\<exists>r st'. pump_once lib fw (Some b) Accepted st = Inr (Some r, st') \<and> fr_ok r \<and>
    (fr_delivered r = 0 \<longleftrightarrow> k = length rs) \<and>
    forwarded_upto lib fw b exact st' (min (k + nat (fw_batch_size fw)) (length rs))"
proof -
  obtain acc where k: "k \<le> length rs"
    and wm: "watermark_load lib (fs_watermark st) = Inr (int (next_offset_of 0 (take k rs)))"
    and acc: "map_batch fw (take k rs) = Inr acc" "set acc \<subseteq> set (fs_accepted st)" "exact \<Longrightarrow> fs_accepted st = acc"
    using assms(1,3) by (auto simp: forwarded_upto_def split: sum.splits prod.splits)
  let ?w = "next_offset_of 0 (take k rs)" and ?n = "nat (fw_batch_size fw)"
  obtain bad' where from_w: "read_lines lib ?w (drop ?w b) = Inr (drop k rs, bad', torn)"
    using read_lines_from [OF assms(3) k] by auto
  show ?thesis
  proof (cases "drop k rs = []")
    case True
    with assms(1) wm from_w k show ?thesis
      by (auto simp: pump_once_def read_spool_def Let_def next_offset_of_def)
  next
    case False
    let ?chunk = "take ?n (drop k rs)" and ?j = "min (k + ?n) (length rs)"
    have pos: "0 < ?n" using assms(2) by simp
    have "keeps_all fw ?chunk" using assms(4) by (auto simp: keeps_all_def dest!: in_set_takeD in_set_dropD)
    then obtain batch where batch: "map_batch fw ?chunk = Inr batch" "length batch = length ?chunk"
      using keeps_all_batch by blast
    then have "batch \<noteq> []" using False pos by auto
    have "take ?j rs = take k rs @ ?chunk" by (simp add: take_add min_def)
    then have all: "map_batch fw (take ?j rs) = Inr (acc @ batch)" using acc(1) batch by (simp add: map_batch_append)
    show ?thesis using wm from_w False batch(1) \<open>batch \<noteq> []\<close> all acc assms(3)
      by (auto simp: pump_once_def read_spool_def Let_def next_offset_take [OF False pos] forwarded_upto_def)
  qed
qed

text \<open>
  Draining with an accepting sink stops, and then everything durable in the spool has been
  accepted. The number of pumps is at most one more than the number of records left.
\<close>

lemma drain_loop_complete:
  assumes "1 \<le> fw_batch_size fw" and "read_lines lib 0 b = Inr (rs, bad, torn)" and "keeps_all fw rs"
    and "forwarded_upto lib fw b exact st k" and "length rs \<le> k + n"
  shows "\<exists>r m st'. drain_loop lib fw (Some b) (replicate (Suc n) Accepted) sent st = Inr (Some (r, m), st') \<and>
    fr_ok r \<and> forwarded_upto lib fw b exact st' (length rs)"
  using assms(4,5)
proof (induction n arbitrary: k st sent)
  case 0
  have k: "k = length rs" using 0 assms(2) by (auto simp: forwarded_upto_def)
  obtain r st' where "pump_once lib fw (Some b) Accepted st = Inr (Some r, st')" "fr_ok r" "fr_delivered r = 0"
    "forwarded_upto lib fw b exact st' (length rs)"
    using pump_accepted [OF 0(1) assms(1-3)] k by auto
  then show ?case by auto
next
  case (Suc n)
  obtain r st' where pump: "pump_once lib fw (Some b) Accepted st = Inr (Some r, st')" "fr_ok r"
    "fr_delivered r = 0 \<longleftrightarrow> k = length rs"
    "forwarded_upto lib fw b exact st' (min (k + nat (fw_batch_size fw)) (length rs))"
    using pump_accepted [OF Suc.prems(1) assms(1-3)] by (elim exE conjE) (rule that)
  show ?case
  proof (cases "k = length rs")
    case False
    have "length rs \<le> min (k + nat (fw_batch_size fw)) (length rs) + n" using Suc.prems(2) assms(1) by auto
    from Suc.IH [OF pump(4) this, of "sent + fr_delivered r"] show ?thesis using pump(1-3) False by simp
  qed (use pump in auto)
qed

lemma drain_complete:
  assumes "1 \<le> fw_batch_size fw" and "read_lines lib 0 b = Inr (rs, bad, torn)" and "keeps_all fw rs"
    and "forwarded_upto lib fw b exact st k"
  shows "\<exists>r st'. drain lib fw (Some b) (replicate (Suc (length rs)) Accepted) st = Inr (Some r, st') \<and>
    fr_ok r \<and> forwarded_upto lib fw b exact st' (length rs)"
  using drain_loop_complete [OF assms, of "length rs" 0] by (auto simp: drain_def)

text \<open>
  The comment in \<open>pump_once\<close> expects \<open>next_offset\<close> to move past corrupt lines; without a record
  it never moves, so they are read again at every pump until a good line follows.
\<close>

lemma no_records_no_progress:
  "read_spool lib spool start = Inr res \<Longrightarrow> rr_records res = [] \<Longrightarrow> rr_next_offset res = start"
  by (auto simp: read_spool_def ebind_eq_Inr next_offset_of_def split: option.splits)

text \<open>The back-off never exceeds its cap, and a success resets it.\<close>

lemma run_turn_bounded:
  "poll \<le> cap \<Longrightarrow> backoff \<le> cap \<Longrightarrow> snd (run_turn poll cap r backoff) \<le> cap \<and>
     (\<forall>s. fst (run_turn poll cap r backoff) = Some s \<longrightarrow> s \<le> cap)"
  by (auto simp: run_turn_def)

section \<open>Mapping to OCSF and ECS\<close>

definition ACTIVITY :: "(string \<times> int \<times> string \<times> bool) list" where
  "ACTIVITY =
     [(''tool_call_allowed'', 3, ''Allow'', False),
      (''tool_call_blocked'', 4, ''Deny'', True),
      (''tool_call_denied_session_suspended'', 4, ''Deny'', True),
      (''tool_result_redacted'', 3, ''Redact'', False),
      (''tool_result_quarantined'', 4, ''Quarantine'', True),
      (''tool_result_redaction_failed'', 4, ''Deny'', True),
      (''session_tainted'', 4, ''Taint'', True),
      (''session_suspended'', 4, ''Suspend'', True),
      (''anomaly_detected'', 4, ''Anomaly'', True),
      (''approval_requested'', 2, ''Approve'', False),
      (''policy_bundle_rejected'', 4, ''Reject'', True)]"

definition OCSF_CLASS_UID :: int where "OCSF_CLASS_UID = 6006"
definition OCSF_CATEGORY_UID :: int where "OCSF_CATEGORY_UID = 6"

text \<open>\<open>_ACTIVITY.get(name, default)\<close>: an unhashable name raises, any other unknown one defaults.\<close>

definition activity_of :: "pyval \<Rightarrow> string \<Rightarrow> (int \<times> string \<times> bool) res" where
  "activity_of name dflt =
     (case py_key name of
        None \<Rightarrow> Inl TypeError
      | Some _ \<Rightarrow>
          Inr (case name of
                 PStr n \<Rightarrow> (case map_of ACTIVITY n of Some a \<Rightarrow> a | None \<Rightarrow> (0, dflt, False))
               | _ \<Rightarrow> (0, dflt, False)))"

definition put_if :: "bool \<Rightarrow> string \<Rightarrow> pyval \<Rightarrow> pydict \<Rightarrow> pydict" where
  "put_if b k v d = (if b then dput k v d else d)"

definition to_ocsf :: "pylib \<Rightarrow> string \<Rightarrow> pydict \<Rightarrow> pydict res" where
  "to_ocsf lib version event =
     (let name = dget_default event ''event'' (PStr ''unknown'');
          sid = dget_none event ''session_id'' in
      ebind (activity_of name ''Unknown'') (\<lambda>(activity_id, activity_name, denial).
      Inr
       (put_if (truthy (dget_none event ''reason'')) ''message'' (PStr (pstr lib (dget_none event ''reason'')))
       (put_if (truthy (dget_none event ''tool'')) ''app'' (PDict [(PStr ''name'', dget_none event ''tool'')])
       (put_if (dget_none event ''principal'' \<noteq> PNone) ''actor''
          (PDict [(PStr ''user'', PDict [(PStr ''name'', PStr (pstr lib (dget_none event ''principal'')))])])
       (put_if (dhas event ''ts'') ''time'' (dget_none event ''ts'')
         [(PStr ''class_uid'', PInt OCSF_CLASS_UID),
          (PStr ''class_name'', PStr ''Application Activity''),
          (PStr ''category_uid'', PInt OCSF_CATEGORY_UID),
          (PStr ''activity_id'', PInt activity_id),
          (PStr ''activity_name'', PStr activity_name),
          (PStr ''type_uid'', PInt (OCSF_CLASS_UID * 100 + activity_id)),
          (PStr ''severity_id'', PInt (if denial then 3 else 1)),
          (PStr ''status_id'', PInt (if denial then 2 else 1)),
          (PStr ''status'', PStr (if denial then ''Failure'' else ''Success'')),
          (PStr ''metadata'', PDict (put_if (truthy sid) ''correlation_uid'' sid
             [(PStr ''product'', PDict
                 [(PStr ''name'', PStr ''MCP Security Gateway''), (PStr ''vendor_name'', PStr ''mcp-gateway''),
                  (PStr ''version'', PStr version)]),
              (PStr ''version'', PStr ''1.4.0''),
              (PStr ''event_code'', name)])),
          (PStr ''unmapped'', PDict event)]))))))"

definition to_ecs :: "pylib \<Rightarrow> pydict \<Rightarrow> pydict res" where
  "to_ecs lib event =
     (let name = dget_default event ''event'' (PStr ''unknown'') in
      ebind (activity_of name ''unknown'') (\<lambda>(_, _, denial).
      ebind (case name of PStr n \<Rightarrow> Inr (prefix ''policy_'' n) | _ \<Rightarrow> Inl AttributeError) (\<lambda>policy.
      Inr
       (put_if (truthy (dget_none event ''reason'')) ''message'' (PStr (pstr lib (dget_none event ''reason'')))
       (put_if (truthy (dget_none event ''principal'')) ''user''
          (PDict [(PStr ''name'', PStr (pstr lib (dget_none event ''principal'')))])
       (put_if (dhas event ''ts'') ''@timestamp'' (dget_none event ''ts'')
         [(PStr ''event'', PDict
             [(PStr ''kind'', PStr ''event''),
              (PStr ''category'', PList [PStr (if policy then ''configuration'' else ''intrusion_detection'')]),
              (PStr ''action'', name),
              (PStr ''outcome'', PStr (if denial then ''failure'' else ''success'')),
              (PStr ''module'', PStr ''mcp_gateway'')]),
          (PStr ''labels'', PDict (filter (\<lambda>p. fst p \<noteq> PStr ''ts'' \<and> fst p \<noteq> PStr ''principal'') event))]))))))"

definition ocsf_mapper :: "pylib \<Rightarrow> string \<Rightarrow> event_mapper" where
  "ocsf_mapper lib version event = ebind (to_ocsf lib version event) (\<lambda>d. Inr (Some d))"

definition ecs_mapper :: "pylib \<Rightarrow> event_mapper" where
  "ecs_mapper lib event = ebind (to_ecs lib event) (\<lambda>d. Inr (Some d))"

text \<open>\<open>MAPPERS\<close>: the mapper a name selects, \<open>None\<close> inside for the identity.\<close>

definition MAPPERS :: "pylib \<Rightarrow> string \<Rightarrow> (string \<times> event_mapper option) list" where
  "MAPPERS lib version =
     [(''raw'', None), (''ocsf'', Some (ocsf_mapper lib version)), (''ecs'', Some (ecs_mapper lib))]"

text \<open>A record of the gateway maps without loss, and a denial is never reported as a success.\<close>

lemma put_if_get [simp]:
  "dget (put_if b k v d) k' = (if b \<and> k' = k then Some v else dget d k')"
  by (simp add: put_if_def)

lemma to_ocsf_lossless: "to_ocsf lib version event = Inr d \<Longrightarrow> dget d ''unmapped'' = Some (PDict event)"
  by (auto simp: to_ocsf_def Let_def ebind_eq_Inr dget_def [of "_ # _"] split: prod.splits)

lemma mappers_keep_all:
  assumes "map_of (MAPPERS lib version) name = Some m" and "fw_mapper fw = m"
    and "name \<noteq> ''raw'' \<Longrightarrow> \<forall>r \<in> set rs. is_str (dget_default (sr_event r) ''event'' (PStr ''unknown''))"
  shows "keeps_all fw rs"
proof -
  have total: "\<exists>d. ocsf_mapper lib version ev = Inr (Some d)" "\<exists>d. ecs_mapper lib ev = Inr (Some d)"
    if "is_str (dget_default ev ''event'' (PStr ''unknown''))" for ev
    using that
    by (auto simp: ocsf_mapper_def ecs_mapper_def to_ocsf_def to_ecs_def activity_of_def Let_def is_str_def
        split: pyval.splits option.splits prod.splits)
  have "m = None \<or> name \<noteq> ''raw'' \<and> (m = Some (ocsf_mapper lib version) \<or> m = Some (ecs_mapper lib))"
    using assms(1) by (auto simp: MAPPERS_def split: if_splits)
  with total assms(2,3) show ?thesis unfolding keeps_all_def by (elim disjE) auto
qed

text \<open>
  The condition on the names is needed: a record whose event name is no string (the recorder
  writes none, but the spool is only a file) makes the mapper raise. The exception leaves
  \<open>pump_once\<close>, the watermark stays, and the next pump meets the same record.
\<close>

lemma emap_raises: "x \<in> set xs \<Longrightarrow> f x = Inl e \<Longrightarrow> \<exists>e'. emap f xs = Inl e'"
  by (induction xs) (auto simp: ebind_def split: sum.splits)

lemma odd_name_raises: "\<not> is_str (dget_default ev ''event'' (PStr ''unknown'')) \<Longrightarrow> \<exists>e. ecs_mapper lib ev = Inl e"
  by (auto simp: ecs_mapper_def to_ecs_def activity_of_def is_str_def Let_def ebind_def split: sum.splits option.splits pyval.splits)

lemma poison_record_stops:
  assumes "forwarded_upto lib fw b exact st k" and "1 \<le> fw_batch_size fw"
    and "read_lines lib 0 b = Inr (rs, bad, torn)" and "k < length rs"
    and "fw_mapper fw = Some (ecs_mapper lib)" and "\<not> is_str (dget_default (sr_event (rs ! k)) ''event'' (PStr ''unknown''))"
  shows "\<exists>e. pump_once lib fw (Some b) dl st = Inl e"
proof -
  let ?w = "next_offset_of 0 (take k rs)" and ?chunk = "take (nat (fw_batch_size fw)) (drop k rs)"
  have wm: "watermark_load lib (fs_watermark st) = Inr (int ?w)"
    using assms(1,3) by (auto simp: forwarded_upto_def)
  obtain bad' where from_w: "read_lines lib ?w (drop ?w b) = Inr (drop k rs, bad', torn)"
    using read_lines_from [OF assms(3)] assms(4) by fastforce
  have "?chunk \<noteq> []" "hd ?chunk = rs ! k" using assms(2,4) by (simp_all add: hd_drop_conv_nth)
  then have "rs ! k \<in> set ?chunk" by (metis list.set_sel(1))
  moreover obtain e where "ecs_mapper lib (sr_event (rs ! k)) = Inl e" using odd_name_raises [OF assms(6)] by blast
  ultimately obtain e' where "map_batch fw ?chunk = Inl e'"
    using emap_raises [of "rs ! k" ?chunk "\<lambda>r. ecs_mapper lib (sr_event r)"] assms(5) by (auto simp: map_batch_def)
  with wm from_w assms(4) show ?thesis by (simp add: pump_once_def read_spool_def Let_def)
qed

end
