(* ===== verification/Identity.thy ===== *)
theory Identity
  imports Pipeline Audit_Spool
begin

text \<open>
  \<open>identity/\<close>: from an \<open>Authorization\<close> header to a proven principal. The JWT library, the
  issuer's key endpoint, the clock and SHA-256 are parameters; the resolver's state is the key
  cache of the OIDC provider. Error messages keep their fixed text and leave the interpolated
  values out.
\<close>

section \<open>API keys\<close>

record api_key_record =
  ak_principal_id :: string
  ak_key_sha256 :: string
  ak_roles :: "string list"

definition make_key_store :: "api_key_record list \<Rightarrow> api_key_record list" where
  "make_key_store records = map (\<lambda>r. r\<lparr>ak_key_sha256 := lower (strip (ak_key_sha256 r))\<rparr>) records"

text \<open>\<open>hmac.compare_digest\<close> on strings refuses characters outside ASCII.\<close>

definition compare_digest :: "string \<Rightarrow> string \<Rightarrow> bool res" where
  "compare_digest a b =
     (if \<exists>c \<in> set (a @ b). 128 \<le> code_of c then Inl TypeError else Inr (a = b))"

definition hash_key :: "(string \<Rightarrow> string) \<Rightarrow> string \<Rightarrow> string" where
  "hash_key sha256 key = sha256 (utf8_encode key)"

text \<open>The loop never stops at a match, so the last matching record names the principal.\<close>

definition find_key :: "string \<Rightarrow> api_key_record list \<Rightarrow> (principal option) res" where
  "find_key digest records =
     fold (\<lambda>r found. ebind found (\<lambda>f. ebind (compare_digest digest (ak_key_sha256 r)) (\<lambda>eq.
             Inr (if eq then Some \<lparr>pn_id = ak_principal_id r, pn_roles = ak_roles r\<rparr> else f))))
       records (Inr None)"

definition key_store_resolve ::
  "(string \<Rightarrow> string) \<Rightarrow> api_key_record list \<Rightarrow> string \<Rightarrow> (principal option) res" where
  "key_store_resolve sha256 records presented_key =
     (if presented_key = [] then Inr None else find_key (hash_key sha256 presented_key) records)"

section \<open>Claims to roles\<close>

record role_mapping =
  rm_subject_claim :: pyval
  rm_groups_claim :: pyval
  rm_groups :: "(string \<times> string) list"
  rm_default_role :: pyval

definition claim :: "pydict \<Rightarrow> pyval \<Rightarrow> pyval \<Rightarrow> pyval res" where
  "claim claims key dflt =
     (case py_key key of
        None \<Rightarrow> Inl TypeError
      | Some _ \<Rightarrow> Inr (case key of PStr k \<Rightarrow> dget_default claims k dflt | _ \<Rightarrow> dflt))"

text \<open>Iterating over \<open>None\<close>, a number or a boolean raises \<open>TypeError\<close>.\<close>

definition group_list :: "pyval \<Rightarrow> (string list) res" where
  "group_list raw =
     (case raw of
        PStr g \<Rightarrow> Inr [g]
      | PList gs \<Rightarrow> Inr (map the_str (filter is_str gs))
      | PDict d \<Rightarrow> Inr (map the_str (filter is_str (map fst d)))
      | _ \<Rightarrow> Inl TypeError)"

fun mapped_roles :: "string list \<Rightarrow> (string \<times> string) list \<Rightarrow> string list \<Rightarrow> string list" where
  "mapped_roles member [] roles = roles"
| "mapped_roles member ((grp, role) # groups) roles =
     mapped_roles member groups
       (if grp \<in> set member \<and> role \<notin> set roles then roles @ [role] else roles)"

text \<open>A default role that is neither absent nor a string is outside the model.\<close>

definition to_principal :: "role_mapping \<Rightarrow> pydict \<Rightarrow> principal res" where
  "to_principal m claims =
     ebind (claim claims (rm_subject_claim m) PNone) (\<lambda>subject.
     case subject of
       PStr sub \<Rightarrow>
         (if sub = [] then Inl (IdentityError ''token has no usable subject claim'')
          else
            ebind (claim claims (rm_groups_claim m) (PList [])) (\<lambda>raw.
            ebind (group_list raw) (\<lambda>member.
            let roles = mapped_roles member (rm_groups m) [] in
            if roles = [] \<and> truthy (rm_default_role m) then
              (case rm_default_role m of
                 PStr r \<Rightarrow> Inr \<lparr>pn_id = sub, pn_roles = [r]\<rparr>
               | _ \<Rightarrow> Inl Beyond)
            else Inr \<lparr>pn_id = sub, pn_roles = roles\<rparr>)))
     | _ \<Rightarrow> Inl (IdentityError ''token has no usable subject claim''))"

section \<open>OIDC\<close>

definition DEFAULT_ALGORITHMS :: "string list" where
  "DEFAULT_ALGORITHMS = [''RS256'', ''RS384'', ''RS512'', ''ES256'', ''ES384'', ''ES512'']"

definition DEFAULT_JWKS_TTL_SECONDS :: int where "DEFAULT_JWKS_TTL_SECONDS = 300"

datatype jwt_error = ExpiredSignature | InvalidAudience | InvalidIssuer | OtherJwtError string

datatype audience = OneAudience string | AnyAudience "pyval list"

text \<open>
  The parameters: the JWT library (reading an unverified header, building a key from a JWK,
  verifying and decoding), the answers of the key endpoint and of the clock by number of use,
  and the digest. \<open>jw_decode\<close> takes the token, the key, the accepted algorithms, the audience,
  the issuer and the leeway.
\<close>

record 'k idp =
  jw_header :: "string \<Rightarrow> jwt_error + pydict"
  jw_make_key :: "pydict \<Rightarrow> 'k option"
  jw_decode :: "string \<Rightarrow> 'k \<Rightarrow> pyval list \<Rightarrow> audience \<Rightarrow> string \<Rightarrow> rat \<Rightarrow> jwt_error + pydict"
  idp_fetch :: "pyval \<Rightarrow> nat \<Rightarrow> pyval res"
  idp_clock :: "nat \<Rightarrow> rat"
  idp_sha256 :: "string \<Rightarrow> string"

record 'k jwks_provider =
  jp_uri :: pyval
  jp_ttl_seconds :: rat
  jp_keys :: "(pykey \<times> 'k) list"
  jp_fetched_at :: rat
  jp_fetches :: nat
  jp_reads :: nat

definition make_provider :: "pyval \<Rightarrow> rat \<Rightarrow> 'k jwks_provider" where
  "make_provider uri ttl =
     \<lparr>jp_uri = uri, jp_ttl_seconds = ttl, jp_keys = [], jp_fetched_at = 0, jp_fetches = 0, jp_reads = 0\<rparr>"

text \<open>The built-in fetcher over \<open>urlopen\<close>: https only, every transport or parse fault refused.\<close>

definition http_fetch :: "pylib \<Rightarrow> (string \<Rightarrow> string option) \<Rightarrow> pyval \<Rightarrow> pyval res" where
  "http_fetch lib urlopen url =
     (case url of
        PStr u \<Rightarrow>
          (if \<not> prefix ''https://'' u then Inl (IdentityError ''JWKS URL must be https'')
           else (case urlopen u of
                   None \<Rightarrow> Inl (IdentityError ''could not fetch JWKS'')
                 | Some body \<Rightarrow>
                     (case ebind (utf8_decode body) (json_loads lib) of
                        Inl (ValueError _) \<Rightarrow> Inl (IdentityError ''could not fetch JWKS'')
                      | r \<Rightarrow> r)))
      | _ \<Rightarrow> Inl AttributeError)"

text \<open>One malformed key does not poison the set; a key without a \<open>kid\<close> is skipped.\<close>

definition usable_key :: "'k idp \<Rightarrow> pyval \<Rightarrow> (pykey \<times> 'k) option" where
  "usable_key p jwk =
     (case jwk of
        PDict d \<Rightarrow>
          (if dget_none d ''kid'' = PNone then None
           else case (py_key (dget_none d ''kid''), jw_make_key p d) of
             (Some k, Some key) \<Rightarrow> Some (k, key)
           | _ \<Rightarrow> None)
      | _ \<Rightarrow> None)"

fun parse_keys :: "'k idp \<Rightarrow> pyval list \<Rightarrow> (pykey \<times> 'k) list \<Rightarrow> (pykey \<times> 'k) list" where
  "parse_keys p [] parsed = parsed"
| "parse_keys p (jwk # keys) parsed =
     parse_keys p keys
       (case usable_key p jwk of None \<Rightarrow> parsed | Some kk \<Rightarrow> AList.update (fst kk) (snd kk) parsed)"

definition refresh :: "'k idp \<Rightarrow> 'k jwks_provider \<Rightarrow> unit res \<times> 'k jwks_provider" where
  "refresh p jp =
     (let jp1 = jp\<lparr>jp_fetches := jp_fetches jp + 1\<rparr> in
      case idp_fetch p (jp_uri jp) (jp_fetches jp) of
        Inl e \<Rightarrow> (Inl e, jp1)
      | Inr document \<Rightarrow>
          (case (case document of PDict d \<Rightarrow> dget_none d ''keys'' | _ \<Rightarrow> PNone) of
             PList (k # ks) \<Rightarrow>
               (let parsed = parse_keys p (k # ks) [] in
                if parsed = [] then (Inl (IdentityError ''JWKS had no usable keys''), jp1)
                else (Inr (), jp1\<lparr>jp_keys := parsed, jp_fetched_at := idp_clock p (jp_reads jp),
                                  jp_reads := jp_reads jp + 1\<rparr>))
           | _ \<Rightarrow> (Inl (IdentityError ''JWKS has no keys''), jp1)))"

definition refresh_if :: "'k idp \<Rightarrow> bool \<Rightarrow> 'k jwks_provider \<Rightarrow> unit res \<times> 'k jwks_provider" where
  "refresh_if p b jp = (if b then refresh p jp else (Inr (), jp))"

definition signing_key :: "'k idp \<Rightarrow> pyval \<Rightarrow> 'k jwks_provider \<Rightarrow> 'k res \<times> 'k jwks_provider" where
  "signing_key p kid jp =
     (let stale = jp_ttl_seconds jp < idp_clock p (jp_reads jp) - jp_fetched_at jp;
          jp0 = jp\<lparr>jp_reads := jp_reads jp + 1\<rparr> in
      case refresh_if p (jp_keys jp = [] \<or> stale) jp0 of
        (Inl e, jp1) \<Rightarrow> (Inl e, jp1)
      | (Inr _, jp1) \<Rightarrow>
          (case py_key kid of
             None \<Rightarrow> (Inl TypeError, jp1)
           | Some k \<Rightarrow>
               (case refresh_if p (map_of (jp_keys jp1) k = None) jp1 of
                  (Inl e, jp2) \<Rightarrow> (Inl e, jp2)
                | (Inr _, jp2) \<Rightarrow>
                    (case map_of (jp_keys jp2) k of
                       None \<Rightarrow> (Inl (IdentityError ''token signed by unknown key id''), jp2)
                     | Some key \<Rightarrow> (Inr key, jp2)))))"

record oidc_validator =
  ov_issuer :: string
  ov_audience :: audience
  ov_algorithms :: "pyval list"
  ov_leeway_seconds :: rat

definition jwt_exn :: "jwt_error \<Rightarrow> exn" where
  "jwt_exn e =
     (case e of
        ExpiredSignature \<Rightarrow> IdentityError ''token has expired''
      | InvalidAudience \<Rightarrow> IdentityError ''token audience does not match''
      | InvalidIssuer \<Rightarrow> IdentityError ''token issuer does not match''
      | OtherJwtError m \<Rightarrow> IdentityError (''token failed validation: '' @ m))"

definition validate ::
  "'k idp \<Rightarrow> oidc_validator \<Rightarrow> string \<Rightarrow> 'k jwks_provider \<Rightarrow> pydict res \<times> 'k jwks_provider" where
  "validate p v token jp =
     (if token = [] then (Inl (IdentityError ''no token presented''), jp)
      else case jw_header p token of
        Inl _ \<Rightarrow> (Inl (IdentityError ''malformed token header''), jp)
      | Inr header \<Rightarrow>
          (let alg = dget_none header ''alg''; kid = dget_none header ''kid'' in
           if \<not> (\<exists>a \<in> set (ov_algorithms v). py_eq alg a)
             then (Inl (IdentityError ''token algorithm is not in the accepted set''), jp)
           else if \<not> truthy kid then (Inl (IdentityError ''token header has no key id (kid)''), jp)
           else (case signing_key p kid jp of
                   (Inl e, jp') \<Rightarrow> (Inl e, jp')
                 | (Inr key, jp') \<Rightarrow>
                     (case jw_decode p token key (ov_algorithms v) (ov_audience v) (ov_issuer v) (ov_leeway_seconds v) of
                        Inl e \<Rightarrow> (Inl (jwt_exn e), jp')
                      | Inr claims \<Rightarrow> (Inr claims, jp')))))"

section \<open>The resolver\<close>

record resolver =
  ir_oidc :: "oidc_validator option"
  ir_mapping :: "role_mapping option"
  ir_api_keys :: "api_key_record list option"
  ir_anonymous :: "principal option"

definition resolve_oidc ::
  "'k idp \<Rightarrow> resolver \<Rightarrow> string \<Rightarrow> 'k jwks_provider \<Rightarrow> principal res \<times> 'k jwks_provider" where
  "resolve_oidc p ir token jp =
     (case (ir_oidc ir, ir_mapping ir) of
        (Some v, Some m) \<Rightarrow>
          (case validate p v token jp of
             (Inl e, jp') \<Rightarrow> (Inl e, jp')
           | (Inr claims, jp') \<Rightarrow> (to_principal m claims, jp'))
      | _ \<Rightarrow> (Inl (IdentityError ''Bearer token presented but OIDC is not configured''), jp))"

definition resolve_api_key :: "'k idp \<Rightarrow> resolver \<Rightarrow> string \<Rightarrow> principal res" where
  "resolve_api_key p ir key =
     (case ir_api_keys ir of
        None \<Rightarrow> Inl (IdentityError ''API key presented but no API keys are configured'')
      | Some records \<Rightarrow>
          ebind (key_store_resolve (idp_sha256 p) records key) (\<lambda>found.
          case found of
            None \<Rightarrow> Inl (IdentityError ''unknown API key'')
          | Some pr \<Rightarrow> Inr pr))"

text \<open>\<open>authorization.strip().split(None, 1)\<close>: the scheme and, past the white space, the rest.\<close>

definition split_scheme :: "string \<Rightarrow> (string \<times> string) option" where
  "split_scheme s =
     (let t = strip s; scheme = takeWhile (\<lambda>c. \<not> is_space c) t;
          rest = dropWhile is_space (dropWhile (\<lambda>c. \<not> is_space c) t)
      in if rest = [] then None else Some (scheme, rest))"

definition resolve ::
  "'k idp \<Rightarrow> resolver \<Rightarrow> string option \<Rightarrow> 'k jwks_provider \<Rightarrow> principal res \<times> 'k jwks_provider" where
  "resolve p ir authorization jp =
     (if authorization = None \<or> strip (the authorization) = [] then
        (case ir_anonymous ir of
           Some a \<Rightarrow> (Inr a, jp)
         | None \<Rightarrow> (Inl (IdentityError ''no Authorization header (a credential is required)''), jp))
      else case split_scheme (the authorization) of
        None \<Rightarrow> (Inl (IdentityError ''malformed Authorization header''), jp)
      | Some (scheme, rest) \<Rightarrow>
          (let credential = strip rest in
           if lower scheme = ''bearer'' then resolve_oidc p ir credential jp
           else if lower scheme = ''apikey'' then (resolve_api_key p ir credential, jp)
           else (Inl (IdentityError ''unsupported Authorization scheme''), jp)))"

section \<open>The configuration\<close>

definition IDENTITY_TOP :: "string list" where
  "IDENTITY_TOP = [''schema_version'', ''oidc'', ''mapping'', ''api_keys'']"

definition OIDC_FIELDS :: "string list" where
  "OIDC_FIELDS = [''issuer'', ''audience'', ''jwks_uri'', ''leeway_seconds'', ''algorithms'', ''jwks_ttl_seconds'']"

definition MAPPING_FIELDS :: "string list" where
  "MAPPING_FIELDS = [''subject_claim'', ''groups_claim'', ''default_role'', ''groups'']"

definition APIKEY_FIELDS :: "string list" where
  "APIKEY_FIELDS = [''id'', ''key_sha256'', ''roles'']"

definition rstrip_slash :: "string \<Rightarrow> string" where
  "rstrip_slash s = rev (dropWhile (\<lambda>c. c = CHR ''/'') (rev s))"

text \<open>\<open>float(v)\<close>; a string is outside the model.\<close>

definition float_of_val :: "pyval \<Rightarrow> rat res" where
  "float_of_val v =
     (case v of PStr _ \<Rightarrow> Inl Beyond | _ \<Rightarrow> (case num_of v of Some r \<Rightarrow> Inr r | None \<Rightarrow> Inl TypeError))"

definition audience_of :: "string \<Rightarrow> pyval \<Rightarrow> audience res" where
  "audience_of path v =
     (case v of
        PList xs \<Rightarrow> Inr (AnyAudience xs)
      | PStr s \<Rightarrow>
          (if s \<noteq> [] then Inr (OneAudience s)
           else Inl (IdentityError (path @ '': oidc.audience is required (string or list)'')))
      | _ \<Rightarrow> Inl (IdentityError (path @ '': oidc.audience is required (string or list)'')))"

definition build_mapping :: "pylib \<Rightarrow> string \<Rightarrow> pyval \<Rightarrow> role_mapping res" where
  "build_mapping lib path mapping_cfg =
     (case (if truthy mapping_cfg then mapping_cfg else PDict []) of
        PDict d \<Rightarrow>
          ebind (ensure (unknown_fields d MAPPING_FIELDS = [])
                   (IdentityError (path @ '': unknown mapping field(s)''))) (\<lambda>_.
          case dget_default d ''groups'' (PDict []) of
            PDict groups \<Rightarrow>
              Inr \<lparr>rm_subject_claim = dget_default d ''subject_claim'' (PStr ''sub''),
                   rm_groups_claim = dget_default d ''groups_claim'' (PStr ''groups''),
                   rm_groups = al_merge [] (map (\<lambda>p. (pstr lib (fst p), pstr lib (snd p))) groups),
                   rm_default_role = dget_none d ''default_role''\<rparr>
          | _ \<Rightarrow> Inl (IdentityError (path @ '': mapping.groups must be a mapping of group->role'')))
      | _ \<Rightarrow> Inl (IdentityError (path @ '': mapping must be a mapping'')))"

text \<open>
  \<open>_build_oidc\<close> also builds the key provider; it is returned beside the validator. \<open>tuple(...)\<close> of
  a string is the tuple of its characters, as \<open>blob_list\<close> has it.
\<close>

definition build_oidc ::
  "pylib \<Rightarrow> string \<Rightarrow> pyval \<Rightarrow> pyval \<Rightarrow> ((oidc_validator \<times> 'k jwks_provider \<times> role_mapping) option) res" where
  "build_oidc lib path oidc_cfg mapping_cfg =
     (case oidc_cfg of
        PNone \<Rightarrow> Inr None
      | PDict d \<Rightarrow>
          ebind (ensure (unknown_fields d OIDC_FIELDS = [])
                   (IdentityError (path @ '': unknown oidc field(s)''))) (\<lambda>_.
          case dget_none d ''issuer'' of
            PStr issuer \<Rightarrow>
              (if issuer = [] then Inl (IdentityError (path @ '': oidc.issuer is required''))
               else
                 ebind (audience_of path (dget_none d ''audience'')) (\<lambda>aud.
                 let uri = dget_none d ''jwks_uri'';
                     jwks_uri = (if truthy uri then uri else PStr (rstrip_slash issuer @ ''/v1/keys'')) in
                 ebind (blob_list (dget_default d ''algorithms'' (PList (map PStr DEFAULT_ALGORITHMS)))) (\<lambda>algs.
                 ebind (float_of_val (dget_default d ''jwks_ttl_seconds'' (PInt DEFAULT_JWKS_TTL_SECONDS))) (\<lambda>ttl.
                 ebind (float_of_val (dget_default d ''leeway_seconds'' (PFloat 0))) (\<lambda>leeway.
                 ebind (build_mapping lib path mapping_cfg) (\<lambda>m.
                 Inr (Some (\<lparr>ov_issuer = issuer, ov_audience = aud, ov_algorithms = algs,
                              ov_leeway_seconds = leeway\<rparr>, make_provider jwks_uri ttl, m))))))))
          | _ \<Rightarrow> Inl (IdentityError (path @ '': oidc.issuer is required'')))
      | _ \<Rightarrow> Inl (IdentityError (path @ '': oidc must be a mapping'')))"

text \<open>
  \<open>roles\<close> is not validated: \<open>tuple(...)\<close> takes any iterable, so a string gives one role per
  character. An element that is no string is outside the model.
\<close>

definition api_key_entry :: "string \<Rightarrow> pyval \<Rightarrow> api_key_record res" where
  "api_key_entry whr entry =
     (case entry of
        PDict d \<Rightarrow>
          ebind (ensure (unknown_fields d APIKEY_FIELDS = [])
                   (IdentityError (whr @ '' has unexpected fields''))) (\<lambda>_.
          ebind (ensure (nonempty_str (dget_none d ''id''))
                   (IdentityError (whr @ ''.id is required''))) (\<lambda>_.
          ebind (ensure (is_str (dget_none d ''key_sha256'') \<and> length (strip (the_str (dget_none d ''key_sha256''))) = 64)
                   (IdentityError (whr @ ''.key_sha256 must be a 64-hex sha256 digest''))) (\<lambda>_.
          ebind (blob_list (dget_default d ''roles'' (PList []))) (\<lambda>roles.
          ebind (emap blob_str roles) (\<lambda>rs.
          Inr \<lparr>ak_principal_id = the_str (dget_none d ''id''),
               ak_key_sha256 = the_str (dget_none d ''key_sha256''), ak_roles = rs\<rparr>)))))
      | _ \<Rightarrow> Inl (IdentityError (whr @ '' has unexpected fields'')))"

definition build_api_keys :: "string \<Rightarrow> pyval \<Rightarrow> (api_key_record list option) res" where
  "build_api_keys path api_cfg =
     (if \<not> truthy api_cfg then Inr None
      else case api_cfg of
        PList entries \<Rightarrow>
          ebind (emap (\<lambda>p. api_key_entry (fst p) (snd p)) (indexed (path @ '': api_keys'') entries)) (\<lambda>records.
          Inr (Some (make_key_store records)))
      | _ \<Rightarrow> Inl (IdentityError (path @ '': api_keys must be a list'')))"

text \<open>\<open>load_identity_config\<close> from the parsed document on; \<open>None\<close> is a missing file.\<close>

definition load_identity_config ::
  "pylib \<Rightarrow> string \<Rightarrow> pyval option \<Rightarrow> (resolver \<times> 'k jwks_provider option) res" where
  "load_identity_config lib path document =
     (case document of
        None \<Rightarrow> Inl (IdentityError (''identity config not found: '' @ path))
      | Some (PDict d) \<Rightarrow>
          ebind (ensure (py_eq (dget_none d ''schema_version'') (PInt 1))
                   (IdentityError (path @ '': identity config needs schema_version: 1''))) (\<lambda>_.
          ebind (ensure (unknown_fields d IDENTITY_TOP = [])
                   (IdentityError (path @ '': unknown top-level field(s)''))) (\<lambda>_.
          ebind (ensure (dget_none d ''oidc'' \<noteq> PNone \<or> truthy (dget_none d ''api_keys''))
                   (IdentityError (path @ '': identity config authenticates nobody''))) (\<lambda>_.
          ebind (build_oidc lib path (dget_none d ''oidc'') (dget_none d ''mapping'')) (\<lambda>o1.
          ebind (build_api_keys path (dget_none d ''api_keys'')) (\<lambda>keys.
          Inr (\<lparr>ir_oidc = map_option fst o1, ir_mapping = map_option (snd \<circ> snd) o1, ir_api_keys = keys,
                ir_anonymous = None\<rparr>,
               map_option (fst \<circ> snd) o1))))))
      | Some _ \<Rightarrow> Inl (IdentityError (path @ '': identity config must be a mapping'')))"

section \<open>Who is authenticated\<close>

lemma compare_digest_Inr: "compare_digest a b = Inr eq \<Longrightarrow> eq = (a = b)"
  by (auto simp: compare_digest_def split: if_splits)

lemma find_key_snoc:
  "find_key digest (records @ [r]) =
     ebind (find_key digest records) (\<lambda>f. ebind (compare_digest digest (ak_key_sha256 r)) (\<lambda>eq.
       Inr (if eq then Some \<lparr>pn_id = ak_principal_id r, pn_roles = ak_roles r\<rparr> else f)))"
  by (simp add: find_key_def)

lemma find_key_sound:
  "find_key digest records = Inr (Some pr) \<Longrightarrow>
     \<exists>r \<in> set records. ak_key_sha256 r = digest \<and> pr = \<lparr>pn_id = ak_principal_id r, pn_roles = ak_roles r\<rparr>"
proof (induction records rule: rev_induct)
  case (snoc r records)
  then show ?case
    by (fastforce simp: find_key_snoc ebind_eq_Inr dest: compare_digest_Inr split: if_splits)
qed (simp add: find_key_def)

text \<open>The keys of a refreshed cache come from the document just fetched.\<close>

definition published :: "'k idp \<Rightarrow> pyval \<Rightarrow> pykey \<Rightarrow> 'k \<Rightarrow> bool" where
  "published p document k key =
     (\<exists>d jwks jwk. document = PDict d \<and> dget_none d ''keys'' = PList jwks \<and> PDict jwk \<in> set jwks \<and>
        py_key (dget_none jwk ''kid'') = Some k \<and> jw_make_key p jwk = Some key)"

lemma usable_key_Some:
  "usable_key p jwk = Some (k, key) \<Longrightarrow>
     \<exists>d. jwk = PDict d \<and> dget_none d ''kid'' \<noteq> PNone \<and> py_key (dget_none d ''kid'') = Some k \<and> jw_make_key p d = Some key"
  by (auto simp: usable_key_def split: pyval.splits option.splits if_splits)

lemma parse_keys_sound:
  "map_of (parse_keys p jwks parsed) k = Some key \<Longrightarrow>
     map_of parsed k = Some key \<or> (\<exists>jwk \<in> set jwks. usable_key p jwk = Some (k, key))"
  by (induction p jwks parsed rule: parse_keys.induct) (fastforce split: option.splits if_splits)+

lemma refresh_sound:
  assumes "refresh p jp = (Inr u, jp')" and "map_of (jp_keys jp') k = Some key"
  shows "\<exists>n document. idp_fetch p (jp_uri jp) n = Inr document \<and> published p document k key"
proof -
  obtain d jwks where doc: "idp_fetch p (jp_uri jp) (jp_fetches jp) = Inr (PDict d)" "dget_none d ''keys'' = PList jwks"
    and keys: "jp_keys jp' = parse_keys p jwks []"
    using assms(1) by (auto simp: refresh_def Let_def split: sum.splits pyval.splits list.splits if_splits)
  from assms(2) obtain jwk where "jwk \<in> set jwks" "usable_key p jwk = Some (k, key)"
    using parse_keys_sound [of p jwks "[]"] by (auto simp: keys)
  with usable_key_Some [of p jwk k key] have "\<exists>d. PDict d \<in> set jwks \<and> py_key (dget_none d ''kid'') = Some k
      \<and> jw_make_key p d = Some key" by auto
  with doc(2) have "published p (PDict d) k key" by (simp add: published_def)
  with doc(1) show ?thesis by blast
qed

text \<open>The cache invariant: every cached key was published by the provider's own endpoint.\<close>

definition cache_ok :: "'k idp \<Rightarrow> 'k jwks_provider \<Rightarrow> bool" where
  "cache_ok p jp =
     (\<forall>k key. map_of (jp_keys jp) k = Some key \<longrightarrow>
        (\<exists>n document. idp_fetch p (jp_uri jp) n = Inr document \<and> published p document k key))"

lemma refresh_cache:
  assumes "cache_ok p jp" and "refresh p jp = (r, jp')"
  shows "cache_ok p jp' \<and> jp_uri jp' = jp_uri jp \<and> jp_fetches jp' = jp_fetches jp + 1"
proof (cases r)
  case (Inl e)
  then have "jp_keys jp' = jp_keys jp" "jp_uri jp' = jp_uri jp" "jp_fetches jp' = jp_fetches jp + 1"
    using assms(2) by (auto simp: refresh_def Let_def split: sum.splits pyval.splits list.splits if_splits)
  with assms(1) show ?thesis by (simp add: cache_ok_def)
next
  case (Inr u)
  then have "jp_uri jp' = jp_uri jp" "jp_fetches jp' = jp_fetches jp + 1"
    using assms(2) by (auto simp: refresh_def Let_def split: sum.splits pyval.splits list.splits if_splits)
  with Inr refresh_sound [of p jp u jp'] assms(2) show ?thesis by (auto simp: cache_ok_def)
qed

lemma cache_ok_reads [simp]: "cache_ok p (jp\<lparr>jp_reads := n\<rparr>) = cache_ok p jp"
  by (simp add: cache_ok_def)

text \<open>
  A key is handed out only under the id it was published with; looking for it costs at most two
  fetches, and the cache invariant survives.
\<close>

lemma refresh_if_cache:
  "cache_ok p jp \<Longrightarrow> refresh_if p b jp = (r, jp') \<Longrightarrow>
     cache_ok p jp' \<and> jp_uri jp' = jp_uri jp \<and> jp_fetches jp' \<le> jp_fetches jp + 1"
  using refresh_cache [of p jp r jp'] by (auto simp: refresh_if_def split: if_splits)

lemma signing_key_sound:
  assumes "cache_ok p jp" and "signing_key p kid jp = (r, jp')"
  shows "cache_ok p jp' \<and> jp_uri jp' = jp_uri jp \<and> jp_fetches jp' \<le> jp_fetches jp + 2 \<and>
    (\<forall>key. r = Inr key \<longrightarrow> (\<exists>k n document. py_key kid = Some k \<and>
       idp_fetch p (jp_uri jp) n = Inr document \<and> published p document k key))"
proof -
  let ?jp0 = "jp\<lparr>jp_reads := jp_reads jp + 1\<rparr>"
  let ?b = "jp_keys jp = [] \<or> jp_ttl_seconds jp < idp_clock p (jp_reads jp) - jp_fetched_at jp"
  obtain r1 jp1 where one: "refresh_if p ?b ?jp0 = (r1, jp1)" by fastforce
  have c1: "cache_ok p jp1" "jp_uri jp1 = jp_uri jp" "jp_fetches jp1 \<le> jp_fetches jp + 1"
    using refresh_if_cache [OF _ one] assms(1) by auto
  show ?thesis
  proof (cases "\<exists>u k. r1 = Inr u \<and> py_key kid = Some k")
    case False
    then have "jp' = jp1 \<and> (\<exists>e. r = Inl e)"
      using assms(2) one by (cases r1) (auto simp: signing_key_def Let_def)
    with c1 show ?thesis by auto
  next
    case True
    then obtain u k where r1: "r1 = Inr u" and k: "py_key kid = Some k" by blast
    obtain r2 jp2 where two: "refresh_if p (map_of (jp_keys jp1) k = None) jp1 = (r2, jp2)" by fastforce
    have c2: "cache_ok p jp2" "jp_uri jp2 = jp_uri jp" "jp_fetches jp2 \<le> jp_fetches jp + 2"
      using refresh_if_cache [OF c1(1) two] c1 by auto
    have "jp' = jp2 \<and> (\<forall>key. r = Inr key \<longrightarrow> map_of (jp_keys jp2) k = Some key)"
      using assms(2) one two r1 k
      by (cases r2) (auto simp: signing_key_def Let_def split: option.splits)
    with c2 k show ?thesis unfolding cache_ok_def by metis
  qed
qed

lemma validate_sound:
  assumes "cache_ok p jp" and "validate p v token jp = (Inr claims, jp')"
  shows "\<exists>header k n document key. jw_header p token = Inr header \<and>
    (\<exists>a \<in> set (ov_algorithms v). py_eq (dget_none header ''alg'') a) \<and>
    py_key (dget_none header ''kid'') = Some k \<and>
    idp_fetch p (jp_uri jp) n = Inr document \<and> published p document k key \<and>
    jw_decode p token key (ov_algorithms v) (ov_audience v) (ov_issuer v) (ov_leeway_seconds v) = Inr claims"
proof -
  obtain header where h: "jw_header p token = Inr header"
    and alg: "\<exists>a \<in> set (ov_algorithms v). py_eq (dget_none header ''alg'') a"
    using assms(2) by (auto simp: validate_def Let_def split: if_splits sum.splits)
  obtain r jp1 where sk: "signing_key p (dget_none header ''kid'') jp = (r, jp1)" by fastforce
  obtain key where "r = Inr key"
    and dec: "jw_decode p token key (ov_algorithms v) (ov_audience v) (ov_issuer v) (ov_leeway_seconds v) = Inr claims"
    using assms(2) h alg sk by (auto simp: validate_def Let_def split: if_splits sum.splits)
  with signing_key_sound [OF assms(1) sk] h alg show ?thesis by metis
qed

lemma resolve_without_credential:
  "ir_anonymous ir = None \<Longrightarrow> authorization = None \<or> strip (the authorization) = [] \<Longrightarrow>
     fst (resolve p ir authorization jp) = Inl (IdentityError ''no Authorization header (a credential is required)'')"
  by (auto simp: resolve_def)

lemma resolve_cases:
  assumes "resolve p ir authorization jp = (Inr pr, jp')" and "ir_anonymous ir = None"
  shows "\<exists>a scheme rest. authorization = Some a \<and> split_scheme a = Some (scheme, rest) \<and>
    (lower scheme = ''bearer'' \<and> resolve_oidc p ir (strip rest) jp = (Inr pr, jp') \<or>
     lower scheme = ''apikey'' \<and> resolve_api_key p ir (strip rest) = Inr pr)"
  using assms by (cases authorization) (auto simp: resolve_def Let_def split: if_splits option.splits)

text \<open>
  What counts as proof. For a token: the algorithm is a configured one, the key id names a key
  the endpoint published, and the library's verification with that key, those algorithms, the
  audience and the issuer returned the claims the principal is made of. For an API key: its
  digest is that of a configured record.
\<close>

definition token_proves :: "'k idp \<Rightarrow> resolver \<Rightarrow> 'k jwks_provider \<Rightarrow> string \<Rightarrow> principal \<Rightarrow> bool" where
  "token_proves p ir jp token pr \<longleftrightarrow>
     (\<exists>v m header k n document key claims. ir_oidc ir = Some v \<and> ir_mapping ir = Some m \<and>
        jw_header p token = Inr header \<and> (\<exists>a \<in> set (ov_algorithms v). py_eq (dget_none header ''alg'') a) \<and>
        py_key (dget_none header ''kid'') = Some k \<and>
        idp_fetch p (jp_uri jp) n = Inr document \<and> published p document k key \<and>
        jw_decode p token key (ov_algorithms v) (ov_audience v) (ov_issuer v) (ov_leeway_seconds v) = Inr claims \<and>
        to_principal m claims = Inr pr)"

definition key_proves :: "'k idp \<Rightarrow> resolver \<Rightarrow> string \<Rightarrow> principal \<Rightarrow> bool" where
  "key_proves p ir key pr \<longleftrightarrow>
     (\<exists>records r. ir_api_keys ir = Some records \<and> r \<in> set records \<and> ak_key_sha256 r = hash_key (idp_sha256 p) key \<and>
        pr = \<lparr>pn_id = ak_principal_id r, pn_roles = ak_roles r\<rparr>)"

lemma resolve_oidc_proves:
  assumes "cache_ok p jp" and "resolve_oidc p ir token jp = (Inr pr, jp')"
  shows "token_proves p ir jp token pr"
proof -
  obtain v m claims jp1 where v: "ir_oidc ir = Some v" "ir_mapping ir = Some m"
    "validate p v token jp = (Inr claims, jp1)" "to_principal m claims = Inr pr"
    using assms(2) by (auto simp: resolve_oidc_def split: option.splits prod.splits sum.splits)
  from validate_sound [OF assms(1) v(3)] obtain header k n document key where
    "jw_header p token = Inr header" "\<exists>a \<in> set (ov_algorithms v). py_eq (dget_none header ''alg'') a"
    "py_key (dget_none header ''kid'') = Some k" "idp_fetch p (jp_uri jp) n = Inr document" "published p document k key"
    "jw_decode p token key (ov_algorithms v) (ov_audience v) (ov_issuer v) (ov_leeway_seconds v) = Inr claims"
    by (elim exE conjE)
  note this [simp]
  show ?thesis unfolding token_proves_def
    by (rule exI [of _ v], rule exI [of _ m], rule exI [of _ header], rule exI [of _ k], rule exI [of _ n],
        rule exI [of _ document], rule exI [of _ key], rule exI [of _ claims]) (simp add: v)
qed

lemma resolve_api_key_proves:
  assumes "resolve_api_key p ir key = Inr pr"
  shows "key_proves p ir key pr"
proof -
  obtain records where r: "ir_api_keys ir = Some records"
    "find_key (hash_key (idp_sha256 p) key) records = Inr (Some pr)"
    using assms by (auto simp: resolve_api_key_def key_store_resolve_def ebind_eq_Inr split: option.splits if_splits)
  with find_key_sound [OF r(2)] show ?thesis by (auto simp: key_proves_def)
qed

lemma resolve_proves:
  assumes "cache_ok p jp" and "resolve p ir authorization jp = (Inr pr, jp')" and "ir_anonymous ir = None"
  obtains a scheme rest where "authorization = Some a" and "split_scheme a = Some (scheme, rest)"
    and "lower scheme = ''bearer'' \<and> token_proves p ir jp (strip rest) pr \<or>
      lower scheme = ''apikey'' \<and> key_proves p ir (strip rest) pr"
proof -
  from resolve_cases [OF assms(2,3)] obtain a scheme rest where a: "authorization = Some a" "split_scheme a = Some (scheme, rest)"
    and how: "lower scheme = ''bearer'' \<and> resolve_oidc p ir (strip rest) jp = (Inr pr, jp')
      \<or> lower scheme = ''apikey'' \<and> resolve_api_key p ir (strip rest) = Inr pr" by (elim exE conjE)
  from how have "lower scheme = ''bearer'' \<and> token_proves p ir jp (strip rest) pr \<or>
      lower scheme = ''apikey'' \<and> key_proves p ir (strip rest) pr"
    by (elim disjE conjE) (simp_all add: resolve_oidc_proves [OF assms(1)] resolve_api_key_proves)
  with a show thesis by (rule that)
qed

text \<open>A freshly loaded resolver has no anonymous principal, an empty cache, and normalised keys.\<close>

lemma load_identity_Inr:
  assumes "load_identity_config lib path document = Inr (ir, jp)"
  shows "ir_anonymous ir = None \<and> (ir_oidc ir \<noteq> None \<or> ir_api_keys ir \<noteq> None) \<and>
    (\<forall>q. jp = Some q \<longrightarrow> cache_ok p q)"
proof -
  obtain d o1 keys where d: "document = Some (PDict d)"
    and o1: "build_oidc lib path (dget_none d ''oidc'') (dget_none d ''mapping'') = Inr o1"
    and keys: "build_api_keys path (dget_none d ''api_keys'') = Inr keys"
    and some: "dget_none d ''oidc'' \<noteq> PNone \<or> truthy (dget_none d ''api_keys'')"
    and ir: "ir = \<lparr>ir_oidc = map_option fst o1, ir_mapping = map_option (snd \<circ> snd) o1, ir_api_keys = keys, ir_anonymous = None\<rparr>"
    and jp: "jp = map_option (fst \<circ> snd) o1"
    using assms by (auto simp: load_identity_config_def ebind_eq_Inr split: option.splits pyval.splits)
  have "\<exists>v u ttl m. o1 = Some (v, make_provider u ttl, m)" if "o1 \<noteq> None"
    using o1 that by (auto simp: build_oidc_def ebind_eq_Inr Let_def split: pyval.splits if_splits)
  moreover have "cache_ok p (make_provider u ttl)" for u ttl by (simp add: cache_ok_def make_provider_def)
  moreover have "o1 \<noteq> None" if "dget_none d ''oidc'' \<noteq> PNone"
    using o1 that by (auto simp: build_oidc_def ebind_eq_Inr Let_def split: pyval.splits if_splits)
  moreover have "keys \<noteq> None" if "truthy (dget_none d ''api_keys'')"
    using keys that by (auto simp: build_api_keys_def ebind_eq_Inr split: pyval.splits)
  ultimately show ?thesis using some ir jp by auto
qed

subsection \<open>Roles\<close>

lemma mapped_roles_prefix: "prefix roles (mapped_roles member groups roles)"
  by (induction member groups roles rule: mapped_roles.induct)
    (auto split: if_splits dest: append_prefixD)

text \<open>The role the policy engine uses is that of the first configured group the caller is in.\<close>

lemma mapped_roles_hd:
  "mapped_roles member groups [] =
     (case dropWhile (\<lambda>g. fst g \<notin> set member) groups of
        [] \<Rightarrow> []
      | (g, role) # rest \<Rightarrow> mapped_roles member rest [role])"
  by (induction groups) auto

lemma mapped_roles_set:
  "set (mapped_roles member groups roles) = set roles \<union> {r. \<exists>g \<in> set member. (g, r) \<in> set groups}"
  by (induction member groups roles rule: mapped_roles.induct) auto

lemma mapped_roles_distinct: "distinct roles \<Longrightarrow> distinct (mapped_roles member groups roles)"
  by (induction member groups roles rule: mapped_roles.induct) auto

lemma to_principal_Inr:
  assumes "to_principal m claims = Inr pr"
  obtains sub raw member where "claim claims (rm_subject_claim m) PNone = Inr (PStr sub)" "sub \<noteq> []"
    "claim claims (rm_groups_claim m) (PList []) = Inr raw" "group_list raw = Inr member" "pn_id pr = sub"
    "mapped_roles member (rm_groups m) [] \<noteq> [] \<Longrightarrow> pn_roles pr = mapped_roles member (rm_groups m) []"
proof -
  obtain subject where sub: "claim claims (rm_subject_claim m) PNone = Inr subject"
    using assms by (auto simp: to_principal_def ebind_eq_Inr)
  with assms obtain s where s: "subject = PStr s" "s \<noteq> []"
    by (cases subject) (auto simp: to_principal_def split: if_splits)
  obtain raw member where raw: "claim claims (rm_groups_claim m) (PList []) = Inr raw" "group_list raw = Inr member"
    using assms sub s by (auto simp: to_principal_def ebind_eq_Inr)
  show thesis
    using assms sub s raw by (intro that [of s raw member]) (auto simp: to_principal_def Let_def split: if_splits pyval.splits)
qed

lemma to_principal_role:
  assumes "to_principal m claims = Inr pr" and "claim claims (rm_groups_claim m) (PList []) = Inr raw"
    and "group_list raw = Inr member" and "dropWhile (\<lambda>g. fst g \<notin> set member) (rm_groups m) = (g, role) # rest"
  shows "first_role pr = Some role"
proof -
  obtain rs where "mapped_roles member (rm_groups m) [] = role # rs"
    using mapped_roles_prefix [of "[role]" member rest] by (auto simp: mapped_roles_hd assms(4) prefix_def)
  with assms show ?thesis by (elim to_principal_Inr) (auto simp: first_role_def)
qed

subsection \<open>The cache between requests\<close>

lemma validate_cache:
  "cache_ok p jp \<Longrightarrow> validate p v token jp = (r, jp') \<Longrightarrow> cache_ok p jp' \<and> jp_uri jp' = jp_uri jp"
proof (cases "\<exists>header. jw_header p token = Inr header")
  case True
  then obtain header where h: "jw_header p token = Inr header" ..
  assume ok: "cache_ok p jp" and v: "validate p v token jp = (r, jp')"
  obtain r1 jp1 where sk: "signing_key p (dget_none header ''kid'') jp = (r1, jp1)" by fastforce
  have "jp' = jp \<or> jp' = jp1"
    using v h sk by (auto simp: validate_def Let_def split: if_splits sum.splits)
  with signing_key_sound [OF ok sk] ok show ?thesis by auto
qed (auto simp: validate_def split: if_splits sum.splits)

lemma resolve_cache:
  assumes "cache_ok p jp" and "resolve p ir authorization jp = (r, jp')"
  shows "cache_ok p jp' \<and> jp_uri jp' = jp_uri jp"
proof -
  have oidc: "cache_ok p jp1 \<and> jp_uri jp1 = jp_uri jp" if "resolve_oidc p ir token jp = (r1, jp1)" for token r1 jp1
    using that assms(1) validate_cache [of p jp]
    by (fastforce simp: resolve_oidc_def split: option.splits prod.splits sum.splits)
  then show ?thesis using assms by (auto simp: resolve_def Let_def split: if_splits option.splits prod.splits)
qed

end
