(* ===== verification/Policy_Bundles.thy ===== *)
theory Policy_Bundles
  imports Policy_Engine Audit_Spool
begin

text \<open>
  \<open>policy/bundle.py\<close> and \<open>policy/bundle_store.py\<close>: signed policy bundles and the directory that
  holds the installed ones. SHA-256, base64, Ed25519 and the YAML parser are parameters. A file
  of the store is represented by what reading and decoding it gives: a JSON value, or the
  exception raised (\<open>JsonError\<close> for text that is no JSON, \<open>UnicodeDecodeError\<close> for bytes that
  are no text). Pack names are plain directory names. The clock's readings are arguments.
\<close>

section \<open>Parameters\<close>

record ('sk, 'vk) crypto =
  cr_sha256 :: "string \<Rightarrow> string"
  cr_b64encode :: "string \<Rightarrow> string"
  cr_b64decode :: "string \<Rightarrow> string option"
  cr_sign :: "'sk \<Rightarrow> string \<Rightarrow> string"
  cr_public :: "'sk \<Rightarrow> 'vk"
  cr_verify :: "'vk \<Rightarrow> string \<Rightarrow> string \<Rightarrow> bool"
  cr_key_id :: "'vk \<Rightarrow> string"

text \<open>What signing relies on: a signature verifies under the signer's public key, and base64 decodes back.\<close>

definition crypto_ok :: "('sk, 'vk) crypto \<Rightarrow> bool" where
  "crypto_ok cr =
     ((\<forall>sk m. cr_verify cr (cr_public cr sk) (cr_sign cr sk m) m) \<and>
      (\<forall>s. cr_b64decode cr (cr_b64encode cr s) = Some s))"

section \<open>Bundles\<close>

definition BUNDLE_FORMAT :: int where "BUNDLE_FORMAT = 1"
definition HASH_PREFIX :: string where "HASH_PREFIX = ''sha256:''"

record bundle_layer =
  bl_name :: string
  bl_text :: string

record policy_bundle =
  pb_name :: string
  pb_version :: string
  pb_created :: string
  pb_layers :: "bundle_layer list"
  pb_content_hash :: string
  pb_signer_key_id :: pyval
  pb_signature :: "string option"

definition signed :: "policy_bundle \<Rightarrow> bool" where
  "signed b = (pb_signature b \<noteq> None)"

definition layer_to_dict :: "bundle_layer \<Rightarrow> pydict" where
  "layer_to_dict l = [(PStr ''name'', PStr (bl_name l)), (PStr ''text'', PStr (bl_text l))]"

definition payload_obj :: "bundle_layer list \<Rightarrow> pydict" where
  "payload_obj layers = [(PStr ''layers'', PList (map (PDict \<circ> layer_to_dict) layers))]"

definition manifest_obj :: "policy_bundle \<Rightarrow> pydict" where
  "manifest_obj b =
     [(PStr ''name'', PStr (pb_name b)), (PStr ''version'', PStr (pb_version b)),
      (PStr ''created'', PStr (pb_created b)), (PStr ''layers'', PList (map (PStr \<circ> bl_name) (pb_layers b))),
      (PStr ''content_hash'', PStr (pb_content_hash b))]"

text \<open>\<open>json.dumps(sort_keys=True)\<close> on string keys.\<close>

fun sort_keys :: "pyval \<Rightarrow> pyval" where
  "sort_keys (PList xs) = PList (map sort_keys xs)"
| "sort_keys (PDict d) = PDict (sort_key (the_str \<circ> fst) (map (\<lambda>p. (fst p, sort_keys (snd p))) d))"
| "sort_keys v = v"

definition canonical :: "pylib \<Rightarrow> pyval \<Rightarrow> string" where
  "canonical lib obj = utf8_encode (json_dumps lib (sort_keys obj))"

definition payload_bytes :: "pylib \<Rightarrow> bundle_layer list \<Rightarrow> string" where
  "payload_bytes lib layers = canonical lib (PDict (payload_obj layers))"

definition manifest_bytes :: "pylib \<Rightarrow> policy_bundle \<Rightarrow> string" where
  "manifest_bytes lib b = canonical lib (PDict (manifest_obj b))"

definition computed_hash :: "pylib \<Rightarrow> ('sk, 'vk) crypto \<Rightarrow> bundle_layer list \<Rightarrow> string" where
  "computed_hash lib cr layers = HASH_PREFIX @ cr_sha256 cr (payload_bytes lib layers)"

definition bundle_to_dict :: "policy_bundle \<Rightarrow> pydict" where
  "bundle_to_dict b =
     [(PStr ''bundle_format'', PInt BUNDLE_FORMAT),
      (PStr ''manifest'', PDict (dput ''signer_key_id'' (pb_signer_key_id b) (manifest_obj b))),
      (PStr ''payload'', PDict (payload_obj (pb_layers b))),
      (PStr ''signature'', (case pb_signature b of
          None \<Rightarrow> PNone
        | Some s \<Rightarrow> PDict [(PStr ''algorithm'', PStr ''ed25519''), (PStr ''value'', PStr s)]))]"

subsection \<open>Building and signing\<close>

text \<open>The stem of a path's last component.\<close>

definition path_stem :: "string \<Rightarrow> string" where
  "path_stem p =
     (let base = rev (takeWhile (\<lambda>c. c \<noteq> CHR ''/'') (rev p));
          suffix = takeWhile (\<lambda>c. c \<noteq> CHR ''.'') (rev base);
          k = length base - length suffix - 1
      in if CHR ''.'' \<in> set base \<and> suffix \<noteq> [] \<and> 0 < k then take k base else base)"

text \<open>The parsers of layer texts: \<open>json.loads\<close> by file suffix, otherwise the YAML parameter.\<close>

definition parse_layer_text ::
  "pylib \<Rightarrow> (string \<Rightarrow> pyval option) \<Rightarrow> string \<Rightarrow> string \<Rightarrow> policy_layer res" where
  "parse_layer_text lib yaml txt name =
     ebind (if suffix ''.json'' name then
              (case json_loads lib txt of
                 Inl (ValueError _) \<Rightarrow> Inl (PolicyError (name @ '': not valid JSON''))
               | r \<Rightarrow> r)
            else (case yaml txt of
                    None \<Rightarrow> Inl (PolicyError (name @ '': not valid YAML''))
                  | Some document \<Rightarrow> Inr document)) (\<lambda>document.
     parse_document lib document name (path_stem name))"

definition default_name :: "(string \<Rightarrow> pyval option) \<Rightarrow> bundle_layer list \<Rightarrow> string" where
  "default_name yaml layers =
     (case yaml (bl_text (hd layers)) of
        Some (PDict d) \<Rightarrow>
          (case dget_none d ''name'' of
             PStr n \<Rightarrow> if n \<noteq> [] then n else path_stem (bl_name (hd layers))
           | _ \<Rightarrow> path_stem (bl_name (hd layers)))
      | _ \<Rightarrow> path_stem (bl_name (hd layers)))"

definition default_version :: "string \<Rightarrow> string \<Rightarrow> string" where
  "default_version stamp content_hash =
     stamp @ ''-'' @ take 8 (if prefix HASH_PREFIX content_hash then drop (length HASH_PREFIX) content_hash
                            else content_hash)"

text \<open>
  \<open>build_bundle\<close>: a layer path is its file name with the text found there; \<open>stamp\<close> and \<open>created_iso\<close> are
  the two renderings of the build time.
\<close>

definition build_bundle ::
  "pylib \<Rightarrow> (string \<Rightarrow> pyval option) \<Rightarrow> ('sk, 'vk) crypto \<Rightarrow> (string \<times> string option) list \<Rightarrow> string option
   \<Rightarrow> string option \<Rightarrow> string \<Rightarrow> string \<Rightarrow> policy_bundle res" where
  "build_bundle lib yaml cr paths name version stamp created_iso =
     ebind (ensure (paths \<noteq> []) (BundleError ''a bundle needs at least one policy layer'')) (\<lambda>_.
     ebind (emap (\<lambda>p. case snd p of
                None \<Rightarrow> Inl (BundleError (''policy layer not found: '' @ fst p))
              | Some txt \<Rightarrow> ebind (parse_layer_text lib yaml txt (fst p)) (\<lambda>_.
                  Inr \<lparr>bl_name = fst p, bl_text = txt\<rparr>)) paths) (\<lambda>layers.
     let h = computed_hash lib cr layers in
     Inr \<lparr>pb_name = (case name of Some n \<Rightarrow> if n \<noteq> [] then n else default_name yaml layers
                                | None \<Rightarrow> default_name yaml layers),
          pb_version = (case version of Some v \<Rightarrow> if v \<noteq> [] then v else default_version stamp h
                                      | None \<Rightarrow> default_version stamp h),
          pb_created = created_iso, pb_layers = layers, pb_content_hash = h,
          pb_signer_key_id = PNone, pb_signature = None\<rparr>))"

definition sign_bundle :: "pylib \<Rightarrow> ('sk, 'vk) crypto \<Rightarrow> 'sk \<Rightarrow> policy_bundle \<Rightarrow> policy_bundle" where
  "sign_bundle lib cr sk b =
     b\<lparr>pb_signature := Some (cr_b64encode cr (cr_sign cr sk (manifest_bytes lib b))),
       pb_signer_key_id := PStr (cr_key_id cr (cr_public cr sk))\<rparr>"

subsection \<open>Verifying\<close>

datatype signature_state = Valid | Invalid | Unsigned | Unchecked

record verify_result =
  vr_integrity_ok :: bool
  vr_signature_state :: signature_state
  vr_reasons :: "string list"

definition verify_ok :: "verify_result \<Rightarrow> bool" where
  "verify_ok r = (vr_integrity_ok r \<and> vr_signature_state r = Valid)"

definition state_str :: "signature_state \<Rightarrow> string" where
  "state_str s =
     (case s of Valid \<Rightarrow> ''valid'' | Invalid \<Rightarrow> ''invalid'' | Unsigned \<Rightarrow> ''unsigned'' | Unchecked \<Rightarrow> ''unchecked'')"

definition verify_summary :: "verify_result \<Rightarrow> string" where
  "verify_summary r =
     (if vr_integrity_ok r then ''hash ok'' else ''hash MISMATCH'') @ '', signature '' @ state_str (vr_signature_state r)"

definition check_signature ::
  "pylib \<Rightarrow> ('sk, 'vk) crypto \<Rightarrow> policy_bundle \<Rightarrow> 'vk option \<Rightarrow> signature_state \<times> string list" where
  "check_signature lib cr b verifying_key =
     (case verifying_key of
        None \<Rightarrow> (Unchecked, [])
      | Some vk \<Rightarrow>
          (case pb_signature b of
             None \<Rightarrow> (Unsigned, [''bundle carries no signature but a signature is required''])
           | Some s \<Rightarrow>
               (case cr_b64decode cr s of
                  None \<Rightarrow> (Invalid, [''signature is not valid base64''])
                | Some raw \<Rightarrow>
                    if cr_verify cr vk raw (manifest_bytes lib b) then
                      (Valid,
                       if pb_signer_key_id b \<noteq> PNone \<and> pb_signer_key_id b \<noteq> PStr (cr_key_id cr vk)
                       then [''note: signer_key_id labels a different key than the one that verified''] else [])
                    else (Invalid, [''signature does not verify against the trusted key'']))))"

definition verify_bundle ::
  "pylib \<Rightarrow> ('sk, 'vk) crypto \<Rightarrow> policy_bundle \<Rightarrow> 'vk option \<Rightarrow> verify_result" where
  "verify_bundle lib cr b verifying_key =
     (let integrity = (pb_content_hash b = computed_hash lib cr (pb_layers b));
          (sig_state, reasons) = check_signature lib cr b verifying_key
      in \<lparr>vr_integrity_ok = integrity, vr_signature_state = sig_state,
          vr_reasons = (if integrity then [] else [''content hash mismatch'']) @ reasons\<rparr>)"

subsection \<open>Loading\<close>

definition parse_layer_entry :: "string \<Rightarrow> pyval \<Rightarrow> bundle_layer res" where
  "parse_layer_entry whr entry =
     (let err = Inl (BundleError (whr @ '' needs string name and text'')) in
      case entry of
        PDict d \<Rightarrow>
          (case (dget_none d ''name'', dget_none d ''text'') of
             (PStr n, PStr t) \<Rightarrow> Inr \<lparr>bl_name = n, bl_text = t\<rparr>
           | _ \<Rightarrow> err)
      | _ \<Rightarrow> err)"

definition parse_signature :: "string \<Rightarrow> pyval \<Rightarrow> (string option) res" where
  "parse_signature source sig_obj =
     (case sig_obj of
        PNone \<Rightarrow> Inr None
      | PDict d \<Rightarrow>
          (if dget_none d ''algorithm'' \<noteq> PStr ''ed25519''
           then Inl (BundleError (source @ '': only ed25519 signatures are supported''))
           else case dget_none d ''value'' of
             PStr s \<Rightarrow> Inr (Some s)
           | _ \<Rightarrow> Inl (BundleError (source @ '': signature.value must be a string'')))
      | _ \<Rightarrow> Inl (BundleError (source @ '': only ed25519 signatures are supported'')))"

definition parse_bundle :: "pyval \<Rightarrow> string \<Rightarrow> policy_bundle res" where
  "parse_bundle doc source =
     (case doc of
        PDict d \<Rightarrow>
          ebind (ensure (py_eq (dget_none d ''bundle_format'') (PInt BUNDLE_FORMAT))
                   (BundleError (source @ '': unsupported bundle_format''))) (\<lambda>_.
          case dget_none d ''manifest'' of
            PDict manifest \<Rightarrow>
              (case (case dget_none d ''payload'' of PDict payload \<Rightarrow> dget_none payload ''layers'' | _ \<Rightarrow> PNone) of
                 PList entries \<Rightarrow>
                   ebind (emap (\<lambda>p. parse_layer_entry (fst p) (snd p))
                            (indexed (source @ '': payload.layers'') entries)) (\<lambda>layers.
                   ebind (ensure (layers \<noteq> []) (BundleError (source @ '': bundle has no policy layers''))) (\<lambda>_.
                   ebind (emap (\<lambda>f. ensure (nonempty_str (dget_none manifest f))
                            (BundleError (source @ '': manifest.'' @ f @ '' must be a non-empty string'')))
                            [''name'', ''version'', ''created'', ''content_hash'']) (\<lambda>_.
                   ebind (parse_signature source (dget_none d ''signature'')) (\<lambda>signature.
                   Inr \<lparr>pb_name = the_str (dget_none manifest ''name''),
                        pb_version = the_str (dget_none manifest ''version''),
                        pb_created = the_str (dget_none manifest ''created''),
                        pb_layers = layers,
                        pb_content_hash = the_str (dget_none manifest ''content_hash''),
                        pb_signer_key_id = dget_none manifest ''signer_key_id'',
                        pb_signature = signature\<rparr>))))
               | _ \<Rightarrow> Inl (BundleError (source @ '': bundle payload.layers must be a list'')))
          | _ \<Rightarrow> Inl (BundleError (source @ '': bundle manifest must be an object'')))
      | _ \<Rightarrow> Inl (BundleError (source @ '': bundle must be a JSON object'')))"

text \<open>A file: absent, or what decoding it as JSON gives.\<close>

type_synonym json_file = "(pyval res) option"

text \<open>\<open>load_bundle\<close> turns a JSON error into a \<open>BundleError\<close>; bytes that are no UTF-8 raise as they are.\<close>

definition load_bundle :: "json_file \<Rightarrow> string \<Rightarrow> policy_bundle res" where
  "load_bundle file_content p =
     (case file_content of
        None \<Rightarrow> Inl (BundleError (''bundle file not found: '' @ p))
      | Some (Inl e) \<Rightarrow>
          (if e = JsonError then Inl (BundleError (p @ '': not a valid bundle (bad JSON)'')) else Inl e)
      | Some (Inr doc) \<Rightarrow> parse_bundle doc p)"

definition engine_from_bundle ::
  "pylib \<Rightarrow> (string \<Rightarrow> pyval option) \<Rightarrow> policy_bundle \<Rightarrow> policy_engine res" where
  "engine_from_bundle lib yaml b =
     ebind (emap (\<lambda>l. parse_layer_text lib yaml (bl_text l) (bl_name l)) (pb_layers b)) (make_engine lib)"

section \<open>The store\<close>

definition CURRENT :: string where "CURRENT = ''current.json''"
definition LAST_KNOWN_GOOD :: string where "LAST_KNOWN_GOOD = ''last_known_good.json''"
definition BUNDLES_DIR :: string where "BUNDLES_DIR = ''bundles''"

text \<open>A path under the root: the pack's directory and the path inside it.\<close>

type_synonym disk = "string \<times> string \<Rightarrow> json_file"

definition safe_char :: "char \<Rightarrow> char" where
  "safe_char c =
     (let n = code_of c in
      if is_alnum_ascii c \<or> c = CHR ''-'' \<or> c = CHR ''.'' \<or> c = CHR ''_''
         \<or> n = 170 \<or> n = 178 \<or> n = 179 \<or> n = 181 \<or> n = 185 \<or> n = 186 \<or> (188 \<le> n \<and> n \<le> 190)
         \<or> (192 \<le> n \<and> n \<noteq> 215 \<and> n \<noteq> (247::nat))
      then c else CHR ''_'')"

definition safe :: "string \<Rightarrow> string" where
  "safe version = map safe_char version"

definition pointer_path :: "string \<Rightarrow> string \<Rightarrow> string \<times> string" where
  "pointer_path name which = (name, which)"

definition bundle_path :: "string \<Rightarrow> string \<Rightarrow> string \<times> string" where
  "bundle_path name version = (name, BUNDLES_DIR @ ''/'' @ safe version @ ''.json'')"

definition atomic_write :: "string \<times> string \<Rightarrow> pyval \<Rightarrow> disk \<Rightarrow> disk" where
  "atomic_write path v dk = dk(path := Some (Inr v))"

definition read_pointer :: "disk \<Rightarrow> string \<Rightarrow> string \<Rightarrow> (pyval option) res" where
  "read_pointer dk name which =
     (case dk (pointer_path name which) of
        None \<Rightarrow> Inr None
      | Some (Inl e) \<Rightarrow> if e = JsonError then Inr None else Inl e
      | Some (Inr v) \<Rightarrow> Inr (Some v))"

text \<open>
  \<open>pointer.get("version", default)\<close>: a pointer that is no object raises \<open>AttributeError\<close>; a
  version that is neither absent nor a string is outside the model.
\<close>

definition pointer_version :: "pyval \<Rightarrow> (string option) res" where
  "pointer_version v =
     (case v of
        PDict d \<Rightarrow> (case dget d ''version'' of
            None \<Rightarrow> Inr None
          | Some (PStr s) \<Rightarrow> Inr (Some s)
          | Some _ \<Rightarrow> Inl Beyond)
      | _ \<Rightarrow> Inl AttributeError)"

definition bundle_for :: "disk \<Rightarrow> string \<Rightarrow> string \<Rightarrow> (policy_bundle option) res" where
  "bundle_for dk name version =
     (if version = [] then Inr None
      else case load_bundle (dk (bundle_path name version)) (snd (bundle_path name version)) of
        Inr b \<Rightarrow> Inr (Some b)
      | Inl (BundleError _) \<Rightarrow> Inr None
      | Inl e \<Rightarrow> Inl e)"

definition version_or_empty :: "string option \<Rightarrow> string" where
  "version_or_empty v = (case v of None \<Rightarrow> [] | Some s \<Rightarrow> s)"

definition load_pointer_bundle ::
  "pylib \<Rightarrow> ('sk, 'vk) crypto \<Rightarrow> 'vk \<Rightarrow> disk \<Rightarrow> string \<Rightarrow> string \<Rightarrow> (policy_bundle option) res" where
  "load_pointer_bundle lib cr vk dk name which =
     ebind (read_pointer dk name which) (\<lambda>pointer.
     case pointer of
       None \<Rightarrow> Inr None
     | Some ptr \<Rightarrow>
         ebind (pointer_version ptr) (\<lambda>v.
         ebind (bundle_for dk name (version_or_empty v)) (\<lambda>bundle.
         case bundle of
           None \<Rightarrow> Inr None
         | Some b \<Rightarrow> Inr (if verify_ok (verify_bundle lib cr b (Some vk)) then Some b else None))))"

record resolved =
  rv_bundle :: policy_bundle
  rv_source :: string
  rv_fell_back :: bool

definition current ::
  "pylib \<Rightarrow> ('sk, 'vk) crypto \<Rightarrow> 'vk \<Rightarrow> disk \<Rightarrow> string \<Rightarrow> (resolved option) res" where
  "current lib cr vk dk name =
     ebind (load_pointer_bundle lib cr vk dk name CURRENT) (\<lambda>live.
     case live of
       Some b \<Rightarrow> Inr (Some \<lparr>rv_bundle = b, rv_source = ''current'', rv_fell_back = False\<rparr>)
     | None \<Rightarrow>
         ebind (load_pointer_bundle lib cr vk dk name LAST_KNOWN_GOOD) (\<lambda>lkg.
         Inr (map_option (\<lambda>b. \<lparr>rv_bundle = b, rv_source = ''last_known_good'', rv_fell_back = True\<rparr>) lkg)))"

definition current_version :: "disk \<Rightarrow> string \<Rightarrow> (string option) res" where
  "current_version dk name =
     ebind (read_pointer dk name CURRENT) (\<lambda>pointer.
     case pointer of
       None \<Rightarrow> Inr None
     | Some ptr \<Rightarrow> if truthy ptr then pointer_version ptr else Inr None)"

record install_result =
  in_accepted :: bool
  in_name :: string
  in_version :: string
  in_reason :: string
  in_displaced :: "string option"

definition install ::
  "pylib \<Rightarrow> ('sk, 'vk) crypto \<Rightarrow> 'vk \<Rightarrow> string \<Rightarrow> policy_bundle \<Rightarrow> disk \<Rightarrow> (install_result \<times> disk) res" where
  "install lib cr vk now b dk =
     (let result = verify_bundle lib cr b (Some vk) in
      if \<not> verify_ok result then
        Inr (\<lparr>in_accepted = False, in_name = pb_name b, in_version = pb_version b,
              in_reason = ''rejected: '' @ verify_summary result
                @ (if vr_reasons result \<noteq> [] then '' '' @ em_dash @ '' '' @ hd (vr_reasons result) else []),
              in_displaced = None\<rparr>, dk)
      else
        let bundle_file = bundle_path (pb_name b) (pb_version b);
            dk1 = (if dk bundle_file = None then atomic_write bundle_file (PDict (bundle_to_dict b)) dk else dk) in
        ebind (read_pointer dk1 (pb_name b) CURRENT) (\<lambda>displaced.
        ebind (case displaced of None \<Rightarrow> Inr None | Some ptr \<Rightarrow> ebind (pointer_version ptr) (\<lambda>v. Inr (Some v))) (\<lambda>old.
        let demote = (old \<noteq> None \<and> old \<noteq> Some (Some (pb_version b)));
            dk2 = (if demote then atomic_write (pointer_path (pb_name b) LAST_KNOWN_GOOD) (the displaced) dk1 else dk1);
            pointer = PDict [(PStr ''version'', PStr (pb_version b)), (PStr ''installed_at'', PStr now)] in
        Inr (\<lparr>in_accepted = True, in_name = pb_name b, in_version = pb_version b,
              in_reason = ''installed and made current'',
              in_displaced = (if demote \<and> truthy (the displaced) then the old else None)\<rparr>,
             atomic_write (pointer_path (pb_name b) CURRENT) pointer dk2))))"

definition rollback ::
  "pylib \<Rightarrow> ('sk, 'vk) crypto \<Rightarrow> 'vk \<Rightarrow> string \<Rightarrow> disk \<Rightarrow> (install_result \<times> disk) res" where
  "rollback lib cr vk name dk =
     ebind (read_pointer dk name LAST_KNOWN_GOOD) (\<lambda>lkg_pointer.
     case lkg_pointer of
       None \<Rightarrow>
         Inr (\<lparr>in_accepted = False, in_name = name, in_version = [],
               in_reason = ''no last-known-good to roll back to'', in_displaced = None\<rparr>, dk)
     | Some ptr \<Rightarrow>
         ebind (pointer_version ptr) (\<lambda>v.
         ebind (bundle_for dk name (version_or_empty v)) (\<lambda>lkg.
         if (case lkg of None \<Rightarrow> True | Some b \<Rightarrow> \<not> verify_ok (verify_bundle lib cr b (Some vk))) then
           Inr (\<lparr>in_accepted = False, in_name = name, in_version = version_or_empty v,
                 in_reason = ''last-known-good is missing or no longer verifies'', in_displaced = None\<rparr>, dk)
         else
           ebind (read_pointer dk name CURRENT) (\<lambda>cur.
           ebind (case cur of None \<Rightarrow> Inr None | Some c \<Rightarrow> if truthy c then pointer_version c else Inr None) (\<lambda>displaced.
           let dk1 = atomic_write (pointer_path name CURRENT) ptr dk;
               dk2 = (case cur of None \<Rightarrow> dk1 | Some c \<Rightarrow> atomic_write (pointer_path name LAST_KNOWN_GOOD) c dk1) in
           Inr (\<lparr>in_accepted = True, in_name = name, in_version = version_or_empty v,
                 in_reason = ''rolled back to last-known-good'', in_displaced = displaced\<rparr>, dk2))))))"

section \<open>The integrity chain\<close>

lemma verify_ok_iff:
  "verify_ok (verify_bundle lib cr b (Some vk)) \<longleftrightarrow>
     pb_content_hash b = computed_hash lib cr (pb_layers b) \<and>
     (\<exists>s raw. pb_signature b = Some s \<and> cr_b64decode cr s = Some raw \<and> cr_verify cr vk raw (manifest_bytes lib b))"
  by (auto simp: verify_ok_def verify_bundle_def check_signature_def Let_def split: option.splits prod.splits)

lemma unchecked_is_not_ok: "\<not> verify_ok (verify_bundle lib cr b None)"
  by (simp add: verify_ok_def verify_bundle_def check_signature_def Let_def)

lemma manifest_of_signed [simp]:
  "manifest_bytes lib (b\<lparr>pb_signature := s, pb_signer_key_id := i\<rparr>) = manifest_bytes lib b"
  by (simp add: manifest_bytes_def manifest_obj_def)

lemma sign_verifies:
  "crypto_ok cr \<Longrightarrow> pb_content_hash b = computed_hash lib cr (pb_layers b) \<Longrightarrow>
     verify_ok (verify_bundle lib cr (sign_bundle lib cr sk b) (Some (cr_public cr sk)))"
  by (auto simp: verify_ok_iff sign_bundle_def crypto_ok_def)

lemma build_bundle_hash:
  assumes "build_bundle lib yaml cr paths name version stamp created = Inr b"
  shows "pb_content_hash b = computed_hash lib cr (pb_layers b)"
    and "l \<in> set (pb_layers b) \<Longrightarrow> isOk (parse_layer_text lib yaml (bl_text l) (bl_name l))"
proof -
  let ?f = "\<lambda>p. case snd p of None \<Rightarrow> Inl (BundleError (''policy layer not found: '' @ fst p))
    | Some txt \<Rightarrow> ebind (parse_layer_text lib yaml txt (fst p)) (\<lambda>_. Inr \<lparr>bl_name = fst p, bl_text = txt\<rparr>)"
  obtain layers where layers: "emap ?f paths = Inr layers" "pb_layers b = layers"
    and h: "pb_content_hash b = computed_hash lib cr layers"
    using assms unfolding build_bundle_def ebind_eq_Inr Let_def by auto
  from h layers show "pb_content_hash b = computed_hash lib cr (pb_layers b)" by simp
  show "isOk (parse_layer_text lib yaml (bl_text l) (bl_name l))" if "l \<in> set (pb_layers b)"
    using emap_Inr_set' [OF layers(1)] that layers(2) by (fastforce simp: ebind_eq_Inr split: option.splits)
qed

subsection \<open>The canonical bytes determine what they encode\<close>

lemma wf_sort_key [simp]: "wf_dict (sort_key f d) = wf_dict d"
  by (auto simp: wf_dict_def distinct_map)

lemma map_of_sort_key: "wf_dict d \<Longrightarrow> map_of (sort_key f d) = map_of d"
proof
  fix k
  assume wf: "wf_dict d"
  then have "wf_dict (sort_key f d)" by simp
  with wf have "map_of (sort_key f d) k = Some v \<longleftrightarrow> map_of d k = Some v" for v
    by (simp add: wf_dict_def map_of_eq_Some_iff del: wf_sort_key)
  then show "map_of (sort_key f d) k = map_of d k" by (metis not_Some_eq)
qed

lemma sorted_dict_inj:
  "sort_key f d = sort_key f e \<Longrightarrow> wf_dict d \<Longrightarrow> wf_dict e \<Longrightarrow> map_of d = map_of e"
  using map_of_sort_key by metis

lemma sort_keys_flat:
  "\<forall>p \<in> set d. sort_keys (snd p) = snd p \<Longrightarrow> sort_keys (PDict d) = PDict (sort_key (the_str \<circ> fst) d)"
  by (simp add: map_idI)

lemma json_ok_sort_keys: "json_ok lib v \<Longrightarrow> json_ok lib (sort_keys v)"
proof (induction v rule: sort_keys.induct)
  case (2 d)
  have "wf_dict (map (\<lambda>p. (fst p, sort_keys (snd p))) d) = wf_dict d"
    by (simp add: wf_dict_def comp_def)
  with 2 show ?case by auto
qed auto

lemma canonical_inj:
  assumes "canonical lib v = canonical lib w" and "json_ok lib (sort_keys v)" and "json_ok lib (sort_keys w)"
  shows "sort_keys v = sort_keys w"
proof -
  have "json_dumps lib (sort_keys v) = json_dumps lib (sort_keys w)"
    using assms(1) utf8_decode_encode unfolding canonical_def by (metis sum.inject(2))
  then show ?thesis using json_roundtrip assms(2,3) by (metis sum.inject(2))
qed

lemma payload_ok: "json_ok lib (PDict (payload_obj layers))"
  by (auto simp: payload_obj_def layer_to_dict_def wf_dict_def is_str_def)

lemma manifest_ok: "json_ok lib (PDict (manifest_obj b))"
  by (auto simp: manifest_obj_def wf_dict_def is_str_def)

lemma layer_dict_inj:
  assumes "sort_keys (PDict (layer_to_dict l)) = sort_keys (PDict (layer_to_dict m))"
  shows "l = m"
proof -
  have flat: "\<forall>p \<in> set (layer_to_dict x). sort_keys (snd p) = snd p" and wf: "wf_dict (layer_to_dict x)" for x
    by (auto simp: layer_to_dict_def wf_dict_def)
  have "map_of (layer_to_dict l) = map_of (layer_to_dict m)"
    using assms unfolding sort_keys_flat [OF flat] by (intro sorted_dict_inj [OF _ wf wf]) simp
  from fun_cong [OF this, of "PStr ''name''"] fun_cong [OF this, of "PStr ''text''"]
  show ?thesis by (simp add: layer_to_dict_def)
qed

lemma payload_inj: "payload_bytes lib l = payload_bytes lib m \<Longrightarrow> l = m"
proof -
  assume "payload_bytes lib l = payload_bytes lib m"
  then have "sort_keys (PDict (payload_obj l)) = sort_keys (PDict (payload_obj m))"
    unfolding payload_bytes_def by (rule canonical_inj) (rule json_ok_sort_keys [OF payload_ok])+
  moreover have "sort_keys (PDict (payload_obj x)) = PDict [(PStr ''layers'', PList (map (sort_keys \<circ> PDict \<circ> layer_to_dict) x))]" for x
    by (simp add: payload_obj_def comp_assoc)
  ultimately have "map (sort_keys \<circ> PDict \<circ> layer_to_dict) l = map (sort_keys \<circ> PDict \<circ> layer_to_dict) m" by simp
  moreover have "inj (sort_keys \<circ> PDict \<circ> layer_to_dict)"
    by (intro injI layer_dict_inj) (simp only: comp_apply)
  ultimately show "l = m" by (metis inj_map_eq_map)
qed

lemma manifest_inj:
  assumes "manifest_bytes lib b = manifest_bytes lib c"
  shows "pb_name b = pb_name c \<and> pb_version b = pb_version c \<and> pb_content_hash b = pb_content_hash c"
proof -
  have flat: "\<forall>p \<in> set (manifest_obj x). sort_keys (snd p) = snd p" and wf: "wf_dict (manifest_obj x)" for x
    by (auto simp: manifest_obj_def wf_dict_def)
  have "sort_keys (PDict (manifest_obj b)) = sort_keys (PDict (manifest_obj c))"
    using assms unfolding manifest_bytes_def by (rule canonical_inj) (rule json_ok_sort_keys [OF manifest_ok])+
  then have "map_of (manifest_obj b) = map_of (manifest_obj c)"
    unfolding sort_keys_flat [OF flat] by (intro sorted_dict_inj [OF _ wf wf]) simp
  from fun_cong [OF this, of "PStr ''name''"] fun_cong [OF this, of "PStr ''version''"]
    fun_cong [OF this, of "PStr ''content_hash''"]
  show ?thesis by (simp add: manifest_obj_def)
qed

text \<open>
  Two links: the signature vouches for the manifest, the manifest's hash for the payload. If
  the key has signed only the manifests of released bundles and SHA-256 has no collision
  between the payloads at hand, what
  verifies is, in name, version and every byte of policy, a released bundle.
\<close>

lemma verified_is_released:
  assumes "verify_ok (verify_bundle lib cr b (Some vk))"
    and "\<forall>s m. cr_verify cr vk s m \<longrightarrow> m \<in> manifest_bytes lib ` released"
    and "\<forall>r \<in> released. pb_content_hash r = computed_hash lib cr (pb_layers r)"
    and "inj_on (cr_sha256 cr) ((\<lambda>x. payload_bytes lib (pb_layers x)) ` insert b released)"
  shows "\<exists>r \<in> released. pb_layers b = pb_layers r \<and> pb_name b = pb_name r \<and> pb_version b = pb_version r"
proof -
  obtain r where r: "r \<in> released" "manifest_bytes lib b = manifest_bytes lib r"
    using assms(1,2) by (auto simp: verify_ok_iff)
  then have same: "pb_name b = pb_name r" "pb_version b = pb_version r" "pb_content_hash b = pb_content_hash r"
    using manifest_inj by blast+
  have "cr_sha256 cr (payload_bytes lib (pb_layers b)) = cr_sha256 cr (payload_bytes lib (pb_layers r))"
    using assms(1,3) r(1) same(3) by (simp add: verify_ok_iff computed_hash_def)
  then have "payload_bytes lib (pb_layers b) = payload_bytes lib (pb_layers r)"
    by (rule inj_onD [OF assms(4)]) (use r(1) in auto)
  then have "pb_layers b = pb_layers r" by (rule payload_inj)
  with r(1) same show ?thesis by blast
qed

section \<open>What the store serves\<close>

definition bundle_wf :: "policy_bundle \<Rightarrow> bool" where
  "bundle_wf b =
     (pb_layers b \<noteq> [] \<and> pb_name b \<noteq> [] \<and> pb_version b \<noteq> [] \<and> pb_created b \<noteq> [] \<and> pb_content_hash b \<noteq> [])"

lemma parse_layer_entries:
  "length ws = length ls \<Longrightarrow>
     emap (\<lambda>p. parse_layer_entry (fst p) (snd p)) (zip ws (map (PDict \<circ> layer_to_dict) ls)) = Inr ls"
  by (induction ws ls rule: list_induct2)
    (simp_all add: parse_layer_entry_def layer_to_dict_def dget_none_def dget_default_def dget_def)

lemma bundle_roundtrip: "bundle_wf b \<Longrightarrow> parse_bundle (PDict (bundle_to_dict b)) src = Inr b"
proof -
  assume wf: "bundle_wf b"
  have man: "dget_none (dput ''signer_key_id'' (pb_signer_key_id b) (manifest_obj b)) k =
      (if k = ''signer_key_id'' then pb_signer_key_id b else dget_none (manifest_obj b) k)" for k
    by (simp add: dget_none_def dget_default_def)
  have top: "dget_none (bundle_to_dict b) ''bundle_format'' = PInt BUNDLE_FORMAT"
    "dget_none (bundle_to_dict b) ''manifest'' = PDict (dput ''signer_key_id'' (pb_signer_key_id b) (manifest_obj b))"
    "dget_none (bundle_to_dict b) ''payload'' = PDict (payload_obj (pb_layers b))"
    "dget_none (payload_obj (pb_layers b)) ''layers'' = PList (map (PDict \<circ> layer_to_dict) (pb_layers b))"
    "parse_signature src (dget_none (bundle_to_dict b) ''signature'') = Inr (pb_signature b)"
    by (auto simp: bundle_to_dict_def payload_obj_def dget_none_def dget_default_def dget_def parse_signature_def
        split: option.splits)
  have fields: "dget_none (manifest_obj b) ''name'' = PStr (pb_name b)" "dget_none (manifest_obj b) ''version'' = PStr (pb_version b)"
    "dget_none (manifest_obj b) ''created'' = PStr (pb_created b)"
    "dget_none (manifest_obj b) ''content_hash'' = PStr (pb_content_hash b)"
    by (simp_all add: manifest_obj_def dget_none_def dget_default_def dget_def)
  show ?thesis using wf
    by (simp add: parse_bundle_def top man fields indexed_def parse_layer_entries nonempty_str_def the_str_def
        bundle_wf_def BUNDLE_FORMAT_def)
qed

lemma current_is_verified:
  assumes "current lib cr vk dk name = Inr (Some r)"
  shows "verify_ok (verify_bundle lib cr (rv_bundle r) (Some vk))"
proof -
  have "verify_ok (verify_bundle lib cr b (Some vk))" if "load_pointer_bundle lib cr vk dk name which = Inr (Some b)" for which b
    using that by (auto simp: load_pointer_bundle_def ebind_eq_Inr split: option.splits if_splits)
  with assms show ?thesis by (auto simp: current_def ebind_eq_Inr split: option.splits)
qed

lemma install_rejected:
  "\<not> verify_ok (verify_bundle lib cr b (Some vk)) \<Longrightarrow>
     \<exists>res. install lib cr vk now b dk = Inr (res, dk) \<and> \<not> in_accepted res"
  by (auto simp: install_def Let_def)

lemma pointer_not_bundle [simp]:
  "pointer_path n CURRENT \<noteq> bundle_path m v" "pointer_path n LAST_KNOWN_GOOD \<noteq> bundle_path m v"
  "bundle_path m v \<noteq> pointer_path n CURRENT" "bundle_path m v \<noteq> pointer_path n LAST_KNOWN_GOOD"
  "pointer_path n CURRENT \<noteq> pointer_path m LAST_KNOWN_GOOD" "pointer_path m LAST_KNOWN_GOOD \<noteq> pointer_path n CURRENT"
  by (simp_all add: pointer_path_def bundle_path_def CURRENT_def LAST_KNOWN_GOOD_def BUNDLES_DIR_def)

lemma pointer_version_simp [simp]:
  "pointer_version (PDict [(PStr ''version'', PStr v), (PStr ''installed_at'', PStr now)]) = Inr (Some v)"
  by (simp add: pointer_version_def dget_def)

text \<open>What an accepted install does to the disk.\<close>

lemma install_accepted:
  assumes "verify_ok (verify_bundle lib cr b (Some vk))" and "install lib cr vk now b dk = Inr (res, dk')"
  shows "dk' (pointer_path (pb_name b) CURRENT) =
      Some (Inr (PDict [(PStr ''version'', PStr (pb_version b)), (PStr ''installed_at'', PStr now)]))"
    and "dk' (bundle_path m v) = (if bundle_path m v = bundle_path (pb_name b) (pb_version b) \<and> dk (bundle_path m v) = None
      then Some (Inr (PDict (bundle_to_dict b))) else dk (bundle_path m v))"
    and "in_accepted res"
  using assms by (auto simp: install_def Let_def ebind_eq_Inr atomic_write_def)

lemma install_succeeds:
  assumes ok: "verify_ok (verify_bundle lib cr b (Some vk))" and ptr: "read_pointer dk (pb_name b) CURRENT = Inr x"
    and "\<And>p. x = Some p \<Longrightarrow> isOk (pointer_version p)"
  obtains res dk' where "install lib cr vk now b dk = Inr (res, dk')"
proof -
  let ?f = "bundle_path (pb_name b) (pb_version b)"
  have same: "read_pointer (if dk ?f = None then atomic_write ?f v dk else dk) (pb_name b) CURRENT = Inr x" for v
    using ptr by (simp add: read_pointer_def atomic_write_def)
  obtain y where "(case x of None \<Rightarrow> Inr None | Some p \<Rightarrow> ebind (pointer_version p) (\<lambda>v. Inr (Some v))) = Inr y"
    using assms(3) by (cases x) (auto simp: isOk_def split: sum.splits)
  then have "\<exists>res dk'. install lib cr vk now b dk = Inr (res, dk')" by (simp add: install_def ok Let_def same)
  with that show thesis by blast
qed

text \<open>A fresh version, once installed, is what the store serves.\<close>

lemma install_then_current:
  assumes "verify_ok (verify_bundle lib cr b (Some vk))" and "bundle_wf b"
    and "dk (bundle_path (pb_name b) (pb_version b)) = None" and "install lib cr vk now b dk = Inr (res, dk')"
  shows "current lib cr vk dk' (pb_name b) = Inr (Some \<lparr>rv_bundle = b, rv_source = ''current'', rv_fell_back = False\<rparr>)"
proof -
  have "read_pointer dk' (pb_name b) CURRENT =
      Inr (Some (PDict [(PStr ''version'', PStr (pb_version b)), (PStr ''installed_at'', PStr now)]))"
    using install_accepted(1) [OF assms(1,4)] by (simp add: read_pointer_def)
  moreover have "dk' (bundle_path (pb_name b) (pb_version b)) = Some (Inr (PDict (bundle_to_dict b)))"
    using install_accepted(2) [OF assms(1,4)] assms(3) by simp
  then have "bundle_for dk' (pb_name b) (pb_version b) = Inr (Some b)"
    using assms(2) by (simp add: bundle_for_def load_bundle_def bundle_roundtrip bundle_wf_def)
  ultimately show ?thesis
    using assms(1) by (simp add: current_def load_pointer_bundle_def version_or_empty_def)
qed

text \<open>
  A gap: reading checks the signature, not that the bundle is the one the pointer names. Any
  validly signed bundle put in place of the live file, of another pack or an older version, is
  served as current.
\<close>

lemma signed_replay_is_served:
  assumes "verify_ok (verify_bundle lib cr old (Some vk))" and "bundle_wf old"
    and "read_pointer dk name CURRENT = Inr (Some ptr)" and "pointer_version ptr = Inr (Some v)" and "v \<noteq> []"
  shows "current lib cr vk (dk(bundle_path name v := Some (Inr (PDict (bundle_to_dict old))))) name =
    Inr (Some \<lparr>rv_bundle = old, rv_source = ''current'', rv_fell_back = False\<rparr>)"
  using assms
  by (simp add: current_def load_pointer_bundle_def read_pointer_def bundle_for_def load_bundle_def
      version_or_empty_def bundle_roundtrip)

section \<open>The store never goes dark\<close>

text \<open>What stands behind a pointer that resolves.\<close>

lemma load_pointer_bundleE:
  assumes "load_pointer_bundle lib cr vk dk name which = Inr (Some b)"
  obtains ptr v where "read_pointer dk name which = Inr (Some ptr)" and "pointer_version ptr = Inr (Some v)" and "v \<noteq> []"
    and "bundle_for dk name v = Inr (Some b)" and "verify_ok (verify_bundle lib cr b (Some vk))"
proof -
  obtain ptr v where p: "read_pointer dk name which = Inr (Some ptr)" "pointer_version ptr = Inr v"
    and b: "bundle_for dk name (version_or_empty v) = Inr (Some b)" "verify_ok (verify_bundle lib cr b (Some vk))"
    using assms by (auto simp: load_pointer_bundle_def ebind_eq_Inr split: option.splits if_splits)
  from b(1) obtain w where "v = Some w" "w \<noteq> []" 
    by (cases v; cases "version_or_empty v = []") (simp_all add: bundle_for_def version_or_empty_def)
  with that [OF p(1)] p(2) b show thesis by (simp add: version_or_empty_def)
qed

lemma load_pointer_bundleI:
  "read_pointer dk name which = Inr (Some ptr) \<Longrightarrow> pointer_version ptr = Inr (Some v) \<Longrightarrow>
     bundle_for dk name v = Inr (Some b) \<Longrightarrow> verify_ok (verify_bundle lib cr b (Some vk)) \<Longrightarrow>
     load_pointer_bundle lib cr vk dk name which = Inr (Some b)"
  by (simp add: load_pointer_bundle_def version_or_empty_def)

lemma current_cases:
  assumes "current lib cr vk dk name = Inr (Some r)"
  obtains (live) b where "load_pointer_bundle lib cr vk dk name CURRENT = Inr (Some b)" and "\<not> rv_fell_back r"
  | (healed) b where "load_pointer_bundle lib cr vk dk name CURRENT = Inr None"
      and "load_pointer_bundle lib cr vk dk name LAST_KNOWN_GOOD = Inr (Some b)" and "rv_fell_back r"
  using assms by (auto simp: current_def ebind_eq_Inr split: option.splits)

lemma bundle_for_cong:
  "dk' (bundle_path name v) = dk (bundle_path name v) \<Longrightarrow> bundle_for dk' name v = bundle_for dk name v"
  by (simp add: bundle_for_def)

lemma read_pointer_write [simp]:
  "read_pointer (atomic_write p v dk) name which =
     (if p = pointer_path name which then Inr (Some v) else read_pointer dk name which)"
  by (auto simp: read_pointer_def atomic_write_def)

lemma install_lkg:
  assumes "verify_ok (verify_bundle lib cr b (Some vk))" and "install lib cr vk now b dk = Inr (res, dk')"
    and "read_pointer dk (pb_name b) CURRENT = Inr (Some ptr)" and "pointer_version ptr = Inr (Some v)"
    and "v \<noteq> pb_version b"
  shows "read_pointer dk' (pb_name b) LAST_KNOWN_GOOD = Inr (Some ptr)"
  using assms by (auto simp: install_def Let_def split: if_splits)

lemma install_keeps_lkg:
  assumes "verify_ok (verify_bundle lib cr b (Some vk))" and "install lib cr vk now b dk = Inr (res, dk')"
    and "current_version dk (pb_name b) = Inr (Some (pb_version b))"
  shows "read_pointer dk' (pb_name b) LAST_KNOWN_GOOD = read_pointer dk (pb_name b) LAST_KNOWN_GOOD"
  using assms by (auto simp: install_def Let_def current_version_def ebind_eq_Inr split: if_splits option.splits)

lemma pointer_other: "name \<noteq> pb_name b \<Longrightarrow> install lib cr vk now b dk = Inr (res, dk') \<Longrightarrow>
    dk' (name, f) = dk (name, f)"
  by (auto simp: install_def Let_def ebind_eq_Inr atomic_write_def pointer_path_def bundle_path_def split: if_splits)

lemma current_cong:
  assumes "\<And>f. dk' (name, f) = dk (name, f)"
  shows "current lib cr vk dk' name = current lib cr vk dk name"
proof -
  have "read_pointer dk' name w = read_pointer dk name w" for w
    by (simp add: read_pointer_def pointer_path_def assms)
  moreover have "bundle_for dk' name v = bundle_for dk name v" for v
    by (rule bundle_for_cong) (simp add: bundle_path_def assms)
  ultimately have "load_pointer_bundle lib cr vk dk' name w = load_pointer_bundle lib cr vk dk name w" for w
    unfolding load_pointer_bundle_def by presburger
  then show ?thesis unfolding current_def by presburger
qed

text \<open>The current pointer after an accepted install of a version whose file was already there.\<close>

lemma install_over_file:
  assumes ok: "verify_ok (verify_bundle lib cr b (Some vk))" and inst: "install lib cr vk now b dk = Inr (res, dk')"
    and "dk (bundle_path (pb_name b) (pb_version b)) \<noteq> None"
  shows "bundle_for dk' m w = bundle_for dk m w"
    and "load_pointer_bundle lib cr vk dk' (pb_name b) CURRENT =
      ebind (bundle_for dk (pb_name b) (pb_version b)) (\<lambda>x. case x of None \<Rightarrow> Inr None
        | Some c \<Rightarrow> Inr (if verify_ok (verify_bundle lib cr c (Some vk)) then Some c else None))"
proof -
  show same: "bundle_for dk' m w = bundle_for dk m w" for m w
    using install_accepted(2) [OF ok inst] assms(3) by (intro bundle_for_cong) auto
  have "read_pointer dk' (pb_name b) CURRENT =
      Inr (Some (PDict [(PStr ''version'', PStr (pb_version b)), (PStr ''installed_at'', PStr now)]))"
    using install_accepted(1) [OF ok inst] by (simp add: read_pointer_def)
  then show "load_pointer_bundle lib cr vk dk' (pb_name b) CURRENT =
      ebind (bundle_for dk (pb_name b) (pb_version b)) (\<lambda>x. case x of None \<Rightarrow> Inr None
        | Some c \<Rightarrow> Inr (if verify_ok (verify_bundle lib cr c (Some vk)) then Some c else None))"
    by (simp add: load_pointer_bundle_def version_or_empty_def same)
qed

text \<open>
  A version whose stored file is unusable is survived in two ways: the pointer it displaces
  resolved itself, or it names the pushed version already, so that the fallback is kept.
\<close>

lemma fallback_after_install:
  assumes ok: "verify_ok (verify_bundle lib cr b (Some vk))" and inst: "install lib cr vk now b dk = Inr (res, dk')"
    and there: "dk (bundle_path (pb_name b) (pb_version b)) \<noteq> None"
    and res0: "current lib cr vk dk (pb_name b) = Inr (Some r0)"
    and why: "\<not> rv_fell_back r0 \<or> current_version dk (pb_name b) = Inr (Some (pb_version b))"
    and unusable: "load_pointer_bundle lib cr vk dk' (pb_name b) CURRENT = Inr None"
  shows "\<exists>x. load_pointer_bundle lib cr vk dk' (pb_name b) LAST_KNOWN_GOOD = Inr (Some x)"
  using res0
proof (cases rule: current_cases)
  case (live old)
  from live(1) obtain ptr v where p: "read_pointer dk (pb_name b) CURRENT = Inr (Some ptr)" "pointer_version ptr = Inr (Some v)"
    and f: "bundle_for dk (pb_name b) v = Inr (Some old)" "verify_ok (verify_bundle lib cr old (Some vk))"
    by (rule load_pointer_bundleE)
  have "v \<noteq> pb_version b" using unusable f by (auto simp: install_over_file(2) [OF ok inst there])
  from load_pointer_bundleI [OF install_lkg [OF ok inst p this] p(2) _ f(2)] f(1) show ?thesis
    by (auto simp: install_over_file(1) [OF ok inst there])
next
  case (healed old)
  from healed(2) obtain ptr v where p: "read_pointer dk (pb_name b) LAST_KNOWN_GOOD = Inr (Some ptr)"
      "pointer_version ptr = Inr (Some v)"
    and f: "bundle_for dk (pb_name b) v = Inr (Some old)" "verify_ok (verify_bundle lib cr old (Some vk))"
    by (rule load_pointer_bundleE)
  have "read_pointer dk' (pb_name b) LAST_KNOWN_GOOD = Inr (Some ptr)"
    using install_keeps_lkg [OF ok inst] why healed(3) p(1) by simp
  from load_pointer_bundleI [OF this p(2) _ f(2)] f(1) show ?thesis by (auto simp: install_over_file(1) [OF ok inst there])
qed

text \<open>
  Whatever bundle is offered, a pack that resolved, from its current pointer or from the fallback,
  still resolves, provided the file already stored under an accepted version is usable or can be
  survived.
\<close>

lemma install_keeps_service:
  assumes res0: "current lib cr vk dk name = Inr (Some r0)" and inst: "install lib cr vk now b dk = Inr (res, dk')"
    and wf: "bundle_wf b"
    and stored: "in_accepted res \<Longrightarrow> name = pb_name b \<Longrightarrow>
      dk (bundle_path name (pb_version b)) = None \<or>
      (\<exists>c. bundle_for dk name (pb_version b) = Inr (Some c) \<and> verify_ok (verify_bundle lib cr c (Some vk))) \<or>
      isOk (bundle_for dk name (pb_version b)) \<and> (\<not> rv_fell_back r0 \<or> current_version dk name = Inr (Some (pb_version b)))"
  shows "\<exists>r. current lib cr vk dk' name = Inr (Some r)"
proof (cases "name = pb_name b \<and> verify_ok (verify_bundle lib cr b (Some vk))")
  case False
  have "dk' (name, f) = dk (name, f)" for f
  proof (cases "name = pb_name b")
    case True
    with False inst show ?thesis by (auto simp: install_def Let_def)
  qed (rule pointer_other [OF _ inst])
  then have "current lib cr vk dk' name = current lib cr vk dk name" by (rule current_cong)
  with res0 show ?thesis by simp
next
  case True
  then have name: "name = pb_name b" and ok: "verify_ok (verify_bundle lib cr b (Some vk))" by auto
  note stored = stored [OF install_accepted(3) [OF ok inst] name]
  show ?thesis
  proof (cases "dk (bundle_path (pb_name b) (pb_version b)) = None")
    case True
    then show ?thesis using install_then_current [OF ok wf _ inst] name by blast
  next
    case False
    note load = install_over_file(2) [OF ok inst False]
    have "isOk (bundle_for dk name (pb_version b))" using stored False name by (auto simp: isOk_def)
    then obtain x where x: "load_pointer_bundle lib cr vk dk' name CURRENT = Inr x"
      using load name by (auto simp: isOk_def split: sum.splits option.splits)
    show ?thesis
    proof (cases x)
      case None
      have "\<not> rv_fell_back r0 \<or> current_version dk (pb_name b) = Inr (Some (pb_version b))"
        using stored False load x None name by auto
      from fallback_after_install [OF ok inst False res0 [unfolded name] this] x None name
      show ?thesis by (auto simp: current_def)
    next
      case (Some c)
      with x show ?thesis by (simp add: current_def)
    qed
  qed
qed

text \<open>
  The case left out is real: a pack served from the fallback loses it when another version, whose
  stored file is already damaged, is pushed. The unusable pointer becomes the fallback and the
  new pointer does not resolve either.
\<close>

lemma fallback_goes_dark:
  assumes ok: "verify_ok (verify_bundle lib cr b (Some vk))" and inst: "install lib cr vk now b dk = Inr (res, dk')"
    and "dk (bundle_path (pb_name b) (pb_version b)) \<noteq> None" and "bundle_for dk (pb_name b) (pb_version b) = Inr None"
    and "read_pointer dk (pb_name b) CURRENT = Inr (Some ptr)" and "pointer_version ptr = Inr (Some v)"
    and "v \<noteq> pb_version b" and "bundle_for dk (pb_name b) v = Inr None"
  shows "current lib cr vk dk' (pb_name b) = Inr None"
proof -
  have "load_pointer_bundle lib cr vk dk' (pb_name b) CURRENT = Inr None"
    using install_over_file(2) [OF ok inst assms(3)] assms(4) by simp
  moreover have "load_pointer_bundle lib cr vk dk' (pb_name b) LAST_KNOWN_GOOD = Inr None"
    using install_lkg [OF ok inst assms(5-7)] assms(6,8)
    by (simp add: load_pointer_bundle_def version_or_empty_def install_over_file(1) [OF ok inst assms(3)])
  ultimately show ?thesis by (simp add: current_def)
qed

text \<open>A live file whose bytes are no text is not healed: the read raises instead of falling back.\<close>

lemma undecodable_live_bundle_raises:
  assumes "read_pointer dk name CURRENT = Inr (Some ptr)" and "pointer_version ptr = Inr (Some v)" and "v \<noteq> []"
  shows "current lib cr vk (dk(bundle_path name v := Some (Inl UnicodeDecodeError))) name = Inl UnicodeDecodeError"
  using assms
  by (simp add: current_def load_pointer_bundle_def read_pointer_def bundle_for_def load_bundle_def
      version_or_empty_def UnicodeDecodeError_def JsonError_def)

text \<open>Rolling back twice restores both pointers.\<close>

lemma rollback_swaps:
  assumes "rollback lib cr vk name dk = Inr (res, dk')" and "in_accepted res"
    and "read_pointer dk name CURRENT = Inr (Some cur)"
  shows "read_pointer dk' name LAST_KNOWN_GOOD = Inr (Some cur) \<and>
    read_pointer dk' name CURRENT = read_pointer dk name LAST_KNOWN_GOOD"
proof -
  obtain ptr where lkg: "read_pointer dk name LAST_KNOWN_GOOD = Inr (Some ptr)"
    using assms(1,2) by (auto simp: rollback_def ebind_eq_Inr split: option.splits)
  have "dk' = atomic_write (pointer_path name LAST_KNOWN_GOOD) cur (atomic_write (pointer_path name CURRENT) ptr dk)"
    using assms lkg by (auto simp: rollback_def ebind_eq_Inr Let_def split: if_splits)
  with lkg show ?thesis by simp
qed

end
