(* ===== verification/Sample_Services.thy ===== *)
theory Sample_Services
  imports Samples Session_Stores Audit_Index Audit_Forwarder Identity Policy_Bundles
begin

text \<open>
  Concrete instances of the parameters of the services around the gateway, for the witnesses:
  a spool of three events, an identity provider with one key, a toy signature scheme and a
  store of bundles.
\<close>

section \<open>A spool\<close>

definition named_event :: "string \<Rightarrow> pydict" where
  "named_event name = [(PStr ''event'', PStr name), (PStr ''session_id'', PStr ''s1'')]"

definition sample_events :: "pydict list" where
  "sample_events = map named_event [TAINTED, BLOCKED, SUSPENDED]"

definition sample_spool :: string where
  "sample_spool = concat (map (spool_line sample_lib) sample_events)"

definition sample_records :: "spool_record list" where
  "sample_records = fst (projr (read_lines sample_lib 0 sample_spool))"

lemma sample_floats: "plain_floats sample_lib"
  by (simp add: plain_floats_def sample_lib_def)

lemma named_event_ok: "json_ok lib (PDict (named_event n))"
  by (simp add: named_event_def wf_dict_def is_str_def)

lemma sample_events_ok: "\<forall>d \<in> set sample_events. json_ok sample_lib (PDict d)"
  using named_event_ok by (simp add: sample_events_def del: json_ok.simps)

lemma sample_spool_reads:
  "read_lines sample_lib 0 sample_spool = Inr (sample_records, 0, False)" "map sr_event sample_records = sample_events"
proof -
  obtain rs where "read_lines sample_lib 0 sample_spool = Inr (rs, 0, False)" "map sr_event rs = sample_events"
    using read_spool_lines [OF sample_floats sample_events_ok, of "[]" 0] by (auto simp: sample_spool_def)
  then show "read_lines sample_lib 0 sample_spool = Inr (sample_records, 0, False)"
    "map sr_event sample_records = sample_events" by (simp_all add: sample_records_def)
qed

definition sample_index :: audit_index where
  "sample_index = snd (projr (sq_rebuild sample_lib (Some sample_spool) empty_index))"

lemma sample_rebuilt:
  "sq_rebuild sample_lib (Some sample_spool) empty_index =
     Inr (fst (projr (sq_rebuild sample_lib (Some sample_spool) empty_index)), sample_index)"
  by code_simp

definition sample_forwarder :: forwarder where
  "sample_forwarder = make_forwarder 2 None DEFAULT_ALARM_LAG_BYTES False"

definition idle :: fstate where
  "idle = \<lparr>fs_watermark = None, fs_accepted = [], fs_alarms = []\<rparr>"

lemma sample_forward_run: "forward_run sample_lib sample_forwarder sample_spool True idle"
proof -
  have "forward_run sample_lib sample_forwarder ([] @ sample_spool) True idle"
    unfolding idle_def by (rule forward_run.append [OF forward_run.start]) (simp add: sample_spool_reads)
  then show ?thesis by simp
qed

section \<open>An identity provider\<close>

definition sample_jwks :: pyval where
  "sample_jwks = PDict [(PStr ''keys'', PList [PDict [(PStr ''kid'', PStr ''k1'')]])]"

definition sample_idp :: "string idp" where
  "sample_idp =
     \<lparr>jw_header = (\<lambda>t. Inr [(PStr ''alg'', PStr ''RS256''), (PStr ''kid'', PStr ''k1'')]),
      jw_make_key = (\<lambda>d. Some ''key1''),
      jw_decode = (\<lambda>t k algs aud iss leeway.
        if t = ''tok'' \<and> k = ''key1'' then Inr [(PStr ''sub'', PStr ''alice''), (PStr ''groups'', PList [PStr ''dev'', PStr ''ops''])]
        else Inl ExpiredSignature),
      idp_fetch = (\<lambda>u n. Inr sample_jwks), idp_clock = (\<lambda>n. 1000), idp_sha256 = (\<lambda>s. s)\<rparr>"

definition sample_identity :: pyval where
  "sample_identity =
     PDict [(PStr ''schema_version'', PInt 1),
            (PStr ''oidc'', PDict [(PStr ''issuer'', PStr ''https://idp/''), (PStr ''audience'', PStr ''api'')]),
            (PStr ''mapping'', PDict [(PStr ''groups'', PDict
               [(PStr ''ops'', PStr ''admin''), (PStr ''dev'', PStr ''developer'')])])]"

definition sample_loaded :: "resolver \<times> string jwks_provider option" where
  "sample_loaded = projr (load_identity_config sample_lib ''identity.yaml'' (Some sample_identity))"

lemma sample_identity_loads:
  "load_identity_config sample_lib ''identity.yaml'' (Some sample_identity) = Inr (fst sample_loaded, snd sample_loaded)"
  by code_simp

section \<open>Bundles\<close>

text \<open>A signature scheme in which a signature is the message under the signer's name.\<close>

definition sample_crypto :: "(string, string) crypto" where
  "sample_crypto =
     \<lparr>cr_sha256 = (\<lambda>s. s), cr_b64encode = (\<lambda>s. s), cr_b64decode = Some,
      cr_sign = (\<lambda>k m. k @ m), cr_public = (\<lambda>k. k), cr_verify = (\<lambda>k s m. s = k @ m), cr_key_id = (\<lambda>k. k)\<rparr>"

lemma sample_crypto_ok: "crypto_ok sample_crypto"
  by (simp add: crypto_ok_def sample_crypto_def)

definition sample_bundle :: "string \<Rightarrow> policy_bundle" where
  "sample_bundle v =
     (let layers = [\<lparr>bl_name = ''policy.yaml'', bl_text = ''schema_version: 1''\<rparr>] in
      sign_bundle sample_lib sample_crypto ''release''
        \<lparr>pb_name = ''github'', pb_version = v, pb_created = ''t'', pb_layers = layers,
         pb_content_hash = computed_hash sample_lib sample_crypto layers, pb_signer_key_id = PNone, pb_signature = None\<rparr>)"

lemma sample_bundle_ok:
  "verify_ok (verify_bundle sample_lib sample_crypto (sample_bundle v) (Some ''release''))"
  using sign_verifies [OF sample_crypto_ok, of _ sample_lib "''release''"]
  by (simp add: sample_bundle_def Let_def) (simp add: sample_crypto_def)

lemma sample_bundle_fields [simp]:
  "pb_name (sample_bundle v) = ''github''" "pb_version (sample_bundle v) = v"
  by (simp_all add: sample_bundle_def sign_bundle_def Let_def)

lemma sample_bundle_wf: "v \<noteq> [] \<Longrightarrow> bundle_wf (sample_bundle v)"
  by (simp add: bundle_wf_def sample_bundle_def sign_bundle_def Let_def computed_hash_def HASH_PREFIX_def)

end
