(* ===== verification/Regex_Engine.thy ===== *)
theory Regex_Engine
  imports Gateway_Prelude
begin

text \<open>
  The part of Python's \<open>re\<close> that the built-in detectors (\<open>redaction/detectors/regex_pii.py\<close>,
  \<open>redaction/detectors/secrets.py\<close>) use: a backtracking matcher for their patterns, and
  \<open>finditer\<close>. A pattern is a value of \<^typ>\<open>nat\<close>-indexed text positions: \<open>runs\<close> lists the ways to
  match from a position in the order the backtracking engine tries them, so the head of
  the list is the match Python returns. Named groups are recorded as positions.

  The lemmas say what a match is (inside the text, non-empty where the pattern consumes, its
  groups inside it) and what \<open>finditer\<close> does with them: it returns disjoint matches in
  order, and overlooks no position at which the pattern matches.
\<close>

section \<open>Patterns and the matcher\<close>

datatype rx =
    Cls "char \<Rightarrow> bool"
  | Eps
  | Seq rx rx
  | Alt rx rx
  | Rep nat "nat option" bool rx
  | Grp string rx
  | Bref string
  | WordB
  | NotBehind "char \<Rightarrow> bool"
  | NotAhead "char \<Rightarrow> bool"

type_synonym captures = "(string \<times> nat \<times> nat) list"
type_synonym rstate = "nat \<times> captures"

definition slice :: "string \<Rightarrow> nat \<Rightarrow> nat \<Rightarrow> string" where
  "slice t a b = take (b - a) (drop a t)"

text \<open>\<open>\w\<close> for characters below 256: letters, digits and numerals, and the underscore.\<close>

definition is_word :: "char \<Rightarrow> bool" where
  "is_word c =
     (let n = code_of c in
      is_alnum_ascii c \<or> n = 95 \<or> n = 170 \<or> n = 178 \<or> n = 179 \<or> n = 181 \<or> (185 \<le> n \<and> n \<le> 186)
      \<or> (188 \<le> n \<and> n \<le> 190) \<or> (192 \<le> n \<and> n \<noteq> 215 \<and> n \<noteq> 247))"

definition word_at :: "string \<Rightarrow> nat \<Rightarrow> bool" where
  "word_at t p = (p < length t \<and> is_word (t ! p))"

definition word_boundary :: "string \<Rightarrow> nat \<Rightarrow> bool" where
  "word_boundary t p = ((0 < p \<and> word_at t (p - 1)) \<noteq> word_at t p)"

text \<open>
  \<open>{m,n}\<close>: at least \<open>m\<close> and at most \<open>m + n\<close> iterations of \<open>f\<close>, longest first when greedy. An optional
  iteration has to move.
\<close>

fun rep_runs :: "bool \<Rightarrow> (rstate \<Rightarrow> rstate list) \<Rightarrow> nat \<Rightarrow> nat \<Rightarrow> rstate \<Rightarrow> rstate list" where
  "rep_runs g f (Suc m) n s = concat (map (rep_runs g f m n) (f s))"
| "rep_runs g f 0 0 s = [s]"
| "rep_runs g f 0 (Suc n) s =
     (let deeper = concat (map (rep_runs g f 0 n) (filter (\<lambda>s'. fst s < fst s') (f s)))
      in if g then deeper @ [s] else s # deeper)"

text \<open>An unbounded repetition cannot move more often than the text has characters.\<close>

definition rep_bound :: "string \<Rightarrow> nat \<Rightarrow> nat option \<Rightarrow> nat" where
  "rep_bound t m n = (case n of None \<Rightarrow> length t | Some k \<Rightarrow> k - m)"

primrec runs :: "rx \<Rightarrow> string \<Rightarrow> rstate \<Rightarrow> rstate list" where
  "runs (Cls P) t s = (if fst s < length t \<and> P (t ! fst s) then [(Suc (fst s), snd s)] else [])"
| "runs Eps t s = [s]"
| "runs (Seq a b) t s = concat (map (runs b t) (runs a t s))"
| "runs (Alt a b) t s = runs a t s @ runs b t s"
| "runs (Rep m n g a) t s = rep_runs g (runs a t) m (rep_bound t m n) s"
| "runs (Grp x a) t s = map (\<lambda>s'. (fst s', (x, fst s, fst s') # snd s')) (runs a t s)"
| "runs (Bref x) t s =
     (case map_of (snd s) x of
        None \<Rightarrow> []
      | Some (a, b) \<Rightarrow>
          if fst s + (b - a) \<le> length t \<and> slice t (fst s) (fst s + (b - a)) = slice t a b
          then [(fst s + (b - a), snd s)] else [])"
| "runs WordB t s = (if word_boundary t (fst s) then [s] else [])"
| "runs (NotBehind P) t s = (if 0 < fst s \<and> fst s \<le> length t \<and> P (t ! (fst s - 1)) then [] else [s])"
| "runs (NotAhead P) t s = (if fst s < length t \<and> P (t ! fst s) then [] else [s])"

record rmatch =
  m_start :: nat
  m_end :: nat
  m_groups :: captures

text \<open>
  \<open>pattern.finditer(text)\<close> from position \<open>p\<close>. The built-in patterns never match the empty string;
  after an empty match the scan moves on by one character.
\<close>

function finditer_from :: "rx \<Rightarrow> string \<Rightarrow> nat \<Rightarrow> rmatch list" where
  "finditer_from r t p =
     (if length t < p then []
      else case runs r t (p, []) of
        [] \<Rightarrow> finditer_from r t (Suc p)
      | (e, gs) # _ \<Rightarrow> \<lparr>m_start = p, m_end = e, m_groups = gs\<rparr> # finditer_from r t (max (Suc p) e))"
  by pat_completeness auto
termination by (relation "measure (\<lambda>(r, t, p). Suc (length t) - p)") auto

declare finditer_from.simps [simp del]

definition finditer :: "rx \<Rightarrow> string \<Rightarrow> rmatch list" where
  "finditer r t = finditer_from r t 0"

text \<open>\<open>m.group()\<close> and \<open>m.group(name)\<close>.\<close>

definition m_text :: "string \<Rightarrow> rmatch \<Rightarrow> string" where
  "m_text t m = slice t (m_start m) (m_end m)"

definition group_range :: "rmatch \<Rightarrow> string \<Rightarrow> (nat \<times> nat) res" where
  "group_range m x = (case map_of (m_groups m) x of Some r \<Rightarrow> Inr r | None \<Rightarrow> Inl Beyond)"

definition group_text :: "string \<Rightarrow> rmatch \<Rightarrow> string \<Rightarrow> string res" where
  "group_text t m x = ebind (group_range m x) (\<lambda>(a, b). Inr (slice t a b))"

subsection \<open>Building patterns\<close>

definition lit :: "string \<Rightarrow> rx" where
  "lit s = foldr (\<lambda>c r. Seq (Cls (\<lambda>x. x = c)) r) s Eps"

text \<open>A literal under \<open>re.IGNORECASE\<close>.\<close>

definition ilit :: "string \<Rightarrow> rx" where
  "ilit s = foldr (\<lambda>c r. Seq (Cls (\<lambda>x. lower [x] = lower [c])) r) s Eps"

definition alts :: "string list \<Rightarrow> rx" where
  "alts ss = foldr (\<lambda>s r. Alt (lit s) r) (butlast ss) (lit (last ss))"

definition seqs :: "rx list \<Rightarrow> rx" where
  "seqs rs = foldr Seq rs Eps"

abbreviation opt_rx :: "rx \<Rightarrow> rx" where "opt_rx r \<equiv> Rep 0 (Some 1) True r"
abbreviation star_rx :: "rx \<Rightarrow> rx" where "star_rx r \<equiv> Rep 0 None True r"
abbreviation times_rx :: "nat \<Rightarrow> rx \<Rightarrow> rx" where "times_rx n r \<equiv> Rep n (Some n) True r"
abbreviation atleast_rx :: "nat \<Rightarrow> rx \<Rightarrow> rx" where "atleast_rx n r \<equiv> Rep n None True r"

section \<open>What a match is\<close>

text \<open>A preorder on states that every iteration respects is respected by a repetition.\<close>

lemma rep_runs_rel:
  assumes "\<And>u. R u u" and "\<And>u v w. R u v \<Longrightarrow> R v w \<Longrightarrow> R u w" and "\<And>u v. v \<in> set (f u) \<Longrightarrow> R u v"
  shows "v \<in> set (rep_runs g f m n u) \<Longrightarrow> R u v"
proof (induction m arbitrary: u)
  case 0
  then show ?case
  proof (induction n arbitrary: u)
    case (Suc n)
    show ?case
    proof (cases "v = u")
      case False
      with Suc.prems obtain w where "w \<in> set (f u)" "v \<in> set (rep_runs g f 0 n w)"
        by (auto simp: Let_def split: if_splits)
      with Suc.IH assms(2,3) show ?thesis by blast
    qed (simp add: assms(1))
  qed (simp add: assms(1))
next
  case (Suc m)
  then obtain w where "w \<in> set (f u)" "v \<in> set (rep_runs g f m n w)" by auto
  with Suc.IH assms(2,3) show ?case by blast
qed

text \<open>
  Every way to match moves forward, stays inside the text, and records groups that lie
  between where it started and where it stopped.
\<close>

definition step_ok :: "string \<Rightarrow> rstate \<Rightarrow> rstate \<Rightarrow> bool" where
  "step_ok t u v \<longleftrightarrow> (fst u \<le> length t \<longrightarrow> fst u \<le> fst v \<and> fst v \<le> length t \<and>
     (\<forall>x a b. (x, a, b) \<in> set (snd v) \<longrightarrow> (x, a, b) \<in> set (snd u) \<or> fst u \<le> a \<and> a \<le> b \<and> b \<le> fst v))"

lemma step_ok_refl: "step_ok t u u"
  by (simp add: step_ok_def)

lemma step_ok_trans: "step_ok t u v \<Longrightarrow> step_ok t v w \<Longrightarrow> step_ok t u w"
  unfolding step_ok_def by (meson le_trans)

lemma runs_step_ok: "v \<in> set (runs r t u) \<Longrightarrow> step_ok t u v"
proof (induction r arbitrary: u v)
  case (Seq a b)
  then obtain w where "w \<in> set (runs a t u)" "v \<in> set (runs b t w)" by auto
  with Seq.IH show ?case using step_ok_trans by blast
next
  case (Alt a b)
  then show ?case by (simp only: runs.simps set_append Un_iff) blast
next
  case (Rep m n g a)
  then have v: "v \<in> set (rep_runs g (runs a t) m (rep_bound t m n) u)" by simp
  show ?case by (rule rep_runs_rel [OF step_ok_refl step_ok_trans Rep.IH v])
next
  case (Grp x a)
  then obtain w where w: "w \<in> set (runs a t u)" "v = (fst w, (x, fst u, fst w) # snd w)" by auto
  with Grp.IH [OF w(1)] show ?case by (auto simp: step_ok_def)
qed (auto simp: step_ok_def split: if_splits option.splits)

text \<open>A pattern that consumes never matches the empty string.\<close>

primrec consuming :: "rx \<Rightarrow> bool" where
  "consuming (Cls P) = True"
| "consuming Eps = False"
| "consuming (Seq a b) = (consuming a \<or> consuming b)"
| "consuming (Alt a b) = (consuming a \<and> consuming b)"
| "consuming (Rep m n g a) = (0 < m \<and> consuming a)"
| "consuming (Grp x a) = consuming a"
| "consuming (Bref x) = False"
| "consuming WordB = False"
| "consuming (NotBehind P) = False"
| "consuming (NotAhead P) = False"

lemma runs_forward: "v \<in> set (runs r t u) \<Longrightarrow> fst u \<le> length t \<Longrightarrow> fst u \<le> fst v \<and> fst v \<le> length t"
  using runs_step_ok [of v r t u] by (simp add: step_ok_def)

lemma rep_runs_forward:
  assumes "v \<in> set (rep_runs g (runs a t) m n u)" and "fst u \<le> length t"
  shows "fst u \<le> fst v \<and> fst v \<le> length t"
proof -
  have "step_ok t u v" by (rule rep_runs_rel [OF step_ok_refl step_ok_trans runs_step_ok assms(1)])
  with assms(2) show ?thesis by (simp add: step_ok_def)
qed

lemma runs_consuming: "consuming r \<Longrightarrow> v \<in> set (runs r t u) \<Longrightarrow> fst u \<le> length t \<Longrightarrow> fst u < fst v"
proof (induction r arbitrary: u v)
  case (Seq a b)
  then obtain w where w: "w \<in> set (runs a t u)" "v \<in> set (runs b t w)" by auto
  note f = runs_forward [OF w(1) Seq.prems(3)]
  with runs_forward [OF w(2)] Seq.IH(1) [OF _ w(1)] Seq.IH(2) [OF _ w(2)] Seq.prems show ?case by fastforce
next
  case (Rep m n g a)
  then obtain k where k: "m = Suc k" by (auto simp: gr0_conv_Suc)
  with Rep.prems obtain w where w: "w \<in> set (runs a t u)" "v \<in> set (rep_runs g (runs a t) k (rep_bound t m n) w)" by auto
  have "fst u < fst w" using Rep.IH [OF _ w(1)] Rep.prems by simp
  moreover have "fst w \<le> fst v" using rep_runs_forward [OF w(2)] runs_forward [OF w(1)] Rep.prems by simp
  ultimately show ?case by simp
qed (auto split: if_splits)

text \<open>Groups whose body consumes are recorded non-empty, and groups on every path are recorded.\<close>

primrec solid :: "string \<Rightarrow> rx \<Rightarrow> bool" where
  "solid x (Cls P) = True"
| "solid x Eps = True"
| "solid x (Seq a b) = (solid x a \<and> solid x b)"
| "solid x (Alt a b) = (solid x a \<and> solid x b)"
| "solid x (Rep m n g a) = solid x a"
| "solid x (Grp y a) = (solid x a \<and> (x = y \<longrightarrow> consuming a))"
| "solid x (Bref y) = True"
| "solid x WordB = True"
| "solid x (NotBehind P) = True"
| "solid x (NotAhead P) = True"

primrec binds :: "string \<Rightarrow> rx \<Rightarrow> bool" where
  "binds x (Cls P) = False"
| "binds x Eps = False"
| "binds x (Seq a b) = (binds x a \<or> binds x b)"
| "binds x (Alt a b) = (binds x a \<and> binds x b)"
| "binds x (Rep m n g a) = (0 < m \<and> binds x a)"
| "binds x (Grp y a) = (x = y \<or> binds x a)"
| "binds x (Bref y) = False"
| "binds x WordB = False"
| "binds x (NotBehind P) = False"
| "binds x (NotAhead P) = False"

definition solid_step :: "string \<Rightarrow> string \<Rightarrow> rstate \<Rightarrow> rstate \<Rightarrow> bool" where
  "solid_step t x u v \<longleftrightarrow> (fst u \<le> length t \<longrightarrow> fst v \<le> length t \<and>
     (\<forall>a b. (x, a, b) \<in> set (snd v) \<longrightarrow> (x, a, b) \<in> set (snd u) \<or> a < b))"

lemma runs_solid: "solid x r \<Longrightarrow> v \<in> set (runs r t u) \<Longrightarrow> solid_step t x u v"
proof (induction r arbitrary: u v)
  case (Seq a b)
  then obtain w where "w \<in> set (runs a t u)" "v \<in> set (runs b t w)" by auto
  with Seq.IH Seq.prems(1) show ?case unfolding solid_step_def by fastforce
next
  case (Alt a b)
  then show ?case by (simp only: runs.simps set_append Un_iff solid.simps) blast
next
  case (Rep m n g a)
  have refl: "solid_step t x u u" for u by (simp add: solid_step_def)
  have trans: "solid_step t x u w" if "solid_step t x u v" "solid_step t x v w" for u v w
    using that unfolding solid_step_def by blast
  have v: "v \<in> set (rep_runs g (runs a t) m (rep_bound t m n) u)" using Rep.prems(2) by simp
  have step: "solid_step t x u v" if "v \<in> set (runs a t u)" for u v
    using Rep.IH [OF _ that] Rep.prems(1) by simp
  show ?case by (rule rep_runs_rel [OF refl trans step v])
next
  case (Grp y a)
  then obtain w where w: "w \<in> set (runs a t u)" "v = (fst w, (y, fst u, fst w) # snd w)" by auto
  with Grp.IH [OF _ w(1)] Grp.prems(1) runs_consuming [OF _ w(1)] show ?case by (auto simp: solid_step_def)
qed (auto simp: solid_step_def split: if_splits option.splits)

lemma runs_keeps: "v \<in> set (runs r t u) \<Longrightarrow> fst ` set (snd u) \<subseteq> fst ` set (snd v)"
proof (induction r arbitrary: u v)
  case (Seq a b)
  then obtain w where "w \<in> set (runs a t u)" "v \<in> set (runs b t w)" by auto
  with Seq.IH show ?case by blast
next
  case (Alt a b)
  then show ?case by (simp only: runs.simps set_append Un_iff) blast
next
  case (Rep m n g a)
  have v: "v \<in> set (rep_runs g (runs a t) m (rep_bound t m n) u)" using Rep.prems by simp
  show ?case by (rule rep_runs_rel [where R = "\<lambda>u v. fst ` set (snd u) \<subseteq> fst ` set (snd v)", OF subset_refl subset_trans Rep.IH v])
next
  case (Grp y a)
  then obtain w where w: "w \<in> set (runs a t u)" "v = (fst w, (y, fst u, fst w) # snd w)" by auto
  with Grp.IH [OF w(1)] show ?case by auto
qed (auto split: if_splits option.splits)

lemma rep_runs_keeps: "v \<in> set (rep_runs g (runs a t) m n u) \<Longrightarrow> fst ` set (snd u) \<subseteq> fst ` set (snd v)"
  by (rule rep_runs_rel [where R = "\<lambda>u v. fst ` set (snd u) \<subseteq> fst ` set (snd v)", OF subset_refl subset_trans runs_keeps])

lemma runs_binds: "binds x r \<Longrightarrow> v \<in> set (runs r t u) \<Longrightarrow> x \<in> fst ` set (snd v)"
proof (induction r arbitrary: u v)
  case (Seq a b)
  then obtain w where w: "w \<in> set (runs a t u)" "v \<in> set (runs b t w)" by auto
  with Seq.IH(1) [OF _ w(1)] Seq.IH(2) [OF _ w(2)] Seq.prems(1) runs_keeps [OF w(2)] show ?case by auto
next
  case (Alt a b)
  then show ?case by (simp only: runs.simps set_append Un_iff binds.simps) blast
next
  case (Rep m n g a)
  then obtain k where k: "m = Suc k" by (auto simp: gr0_conv_Suc)
  with Rep.prems obtain w where w: "w \<in> set (runs a t u)" "v \<in> set (rep_runs g (runs a t) k (rep_bound t m n) w)" by auto
  have "x \<in> fst ` set (snd w)" using Rep.IH [OF _ w(1)] Rep.prems by simp
  with rep_runs_keeps [OF w(2)] show ?case by blast
next
  case (Grp y a)
  then obtain w where w: "w \<in> set (runs a t u)" "v = (fst w, (y, fst u, fst w) # snd w)" by auto
  with Grp.IH [OF _ w(1)] Grp.prems(1) show ?case by auto
qed auto

text \<open>A fixed number of characters of a class.\<close>

lemma rep_runs_Cls:
  "rep_runs g (runs (Cls P) t) (Suc n) 0 (p, c) =
     (if p + Suc n \<le> length t \<and> (\<forall>i \<le> n. P (t ! (p + i))) then [(p + Suc n, c)] else [])"
proof (induction n arbitrary: p)
  case (Suc n)
  have all: "(\<forall>i \<le> Suc n. P (t ! (p + i))) \<longleftrightarrow> P (t ! p) \<and> (\<forall>i \<le> n. P (t ! (Suc p + i)))"
    by (metis add_0_right add_Suc_right add_Suc_shift le0 Suc_le_mono not0_implies_Suc)
  have step: "rep_runs g (runs (Cls P) t) (Suc (Suc n)) 0 (p, c) =
      (if p < length t \<and> P (t ! p) then rep_runs g (runs (Cls P) t) (Suc n) 0 (Suc p, c) else [])"
    by (subst rep_runs.simps(1)) (auto simp del: rep_runs.simps)
  show ?case unfolding step Suc all by auto
qed auto

lemma runs_times_Cls:
  "runs (times_rx (Suc n) (Cls P)) t (p, c) =
     (if p + Suc n \<le> length t \<and> (\<forall>i \<le> n. P (t ! (p + i))) then [(p + Suc n, c)] else [])"
  by (simp add: rep_bound_def rep_runs_Cls del: rep_runs.simps runs.simps(1))

text \<open>What the characters of a match, and of a group, can be.\<close>

primrec chars_rx :: "(char \<Rightarrow> bool) \<Rightarrow> rx \<Rightarrow> bool" where
  "chars_rx P (Cls Q) = (\<forall>c. Q c \<longrightarrow> P c)"
| "chars_rx P Eps = True"
| "chars_rx P (Seq a b) = (chars_rx P a \<and> chars_rx P b)"
| "chars_rx P (Alt a b) = (chars_rx P a \<and> chars_rx P b)"
| "chars_rx P (Rep m n g a) = chars_rx P a"
| "chars_rx P (Grp y a) = chars_rx P a"
| "chars_rx P (Bref y) = False"
| "chars_rx P WordB = True"
| "chars_rx P (NotBehind Q) = True"
| "chars_rx P (NotAhead Q) = True"

primrec group_chars_rx :: "(char \<Rightarrow> bool) \<Rightarrow> string \<Rightarrow> rx \<Rightarrow> bool" where
  "group_chars_rx P x (Cls Q) = True"
| "group_chars_rx P x Eps = True"
| "group_chars_rx P x (Seq a b) = (group_chars_rx P x a \<and> group_chars_rx P x b)"
| "group_chars_rx P x (Alt a b) = (group_chars_rx P x a \<and> group_chars_rx P x b)"
| "group_chars_rx P x (Rep m n g a) = group_chars_rx P x a"
| "group_chars_rx P x (Grp y a) = (group_chars_rx P x a \<and> (x = y \<longrightarrow> chars_rx P a))"
| "group_chars_rx P x (Bref y) = True"
| "group_chars_rx P x WordB = True"
| "group_chars_rx P x (NotBehind Q) = True"
| "group_chars_rx P x (NotAhead Q) = True"

definition all_between :: "(char \<Rightarrow> bool) \<Rightarrow> string \<Rightarrow> nat \<Rightarrow> nat \<Rightarrow> bool" where
  "all_between P t a b \<longleftrightarrow> (\<forall>i. a \<le> i \<longrightarrow> i < b \<longrightarrow> P (t ! i))"

lemma all_between_trans: "all_between P t a b \<Longrightarrow> all_between P t b c \<Longrightarrow> all_between P t a c"
  unfolding all_between_def by (meson not_le)

lemma all_between_slice: "all_between P t a b \<Longrightarrow> b \<le> length t \<Longrightarrow> c \<in> set (slice t a b) \<Longrightarrow> P c"
  by (auto simp: slice_def all_between_def in_set_conv_nth)

lemma runs_chars: "chars_rx P r \<Longrightarrow> v \<in> set (runs r t u) \<Longrightarrow> all_between P t (fst u) (fst v)"
proof (induction r arbitrary: u v)
  case (Seq a b)
  then obtain w where "w \<in> set (runs a t u)" "v \<in> set (runs b t w)" by auto
  with Seq.IH Seq.prems(1) show ?case using all_between_trans by (metis chars_rx.simps(3))
next
  case (Alt a b)
  then show ?case by (simp only: runs.simps set_append Un_iff chars_rx.simps) blast
next
  case (Rep m n g a)
  have step: "all_between P t (fst u) (fst v)" if "v \<in> set (runs a t u)" for u v
    using Rep.IH [OF _ that] Rep.prems(1) by simp
  have v: "v \<in> set (rep_runs g (runs a t) m (rep_bound t m n) u)" using Rep.prems(2) by simp
  have refl: "all_between P t a a" for a by (simp add: all_between_def)
  show ?case by (rule rep_runs_rel [where R = "\<lambda>u v. all_between P t (fst u) (fst v)", OF refl all_between_trans step v])
qed (auto simp: all_between_def less_Suc_eq split: if_splits)

definition group_step :: "(char \<Rightarrow> bool) \<Rightarrow> string \<Rightarrow> string \<Rightarrow> rstate \<Rightarrow> rstate \<Rightarrow> bool" where
  "group_step P t x u v \<longleftrightarrow> (\<forall>a b. (x, a, b) \<in> set (snd v) \<longrightarrow> (x, a, b) \<in> set (snd u) \<or> all_between P t a b)"

lemma runs_group_chars: "group_chars_rx P x r \<Longrightarrow> v \<in> set (runs r t u) \<Longrightarrow> group_step P t x u v"
proof (induction r arbitrary: u v)
  case (Seq a b)
  then obtain w where "w \<in> set (runs a t u)" "v \<in> set (runs b t w)" by auto
  with Seq.IH Seq.prems(1) show ?case unfolding group_step_def by fastforce
next
  case (Alt a b)
  then show ?case by (simp only: runs.simps set_append Un_iff group_chars_rx.simps) blast
next
  case (Rep m n g a)
  have refl: "group_step P t x u u" for u by (simp add: group_step_def)
  have trans: "group_step P t x u w" if "group_step P t x u v" "group_step P t x v w" for u v w
    using that unfolding group_step_def by blast
  have step: "group_step P t x u v" if "v \<in> set (runs a t u)" for u v
    using Rep.IH [OF _ that] Rep.prems(1) by simp
  have v: "v \<in> set (rep_runs g (runs a t) m (rep_bound t m n) u)" using Rep.prems(2) by simp
  show ?case by (rule rep_runs_rel [OF refl trans step v])
next
  case (Grp y a)
  then obtain w where w: "w \<in> set (runs a t u)" "v = (fst w, (y, fst u, fst w) # snd w)" by auto
  with Grp.IH [OF _ w(1)] Grp.prems(1) runs_chars [OF _ w(1)] show ?case by (auto simp: group_step_def)
qed (auto simp: group_step_def split: if_splits option.splits)

lemma finditer_from_past: "length t < p \<Longrightarrow> finditer_from r t p = []"
  by (subst finditer_from.simps) simp

lemma finditer_from_miss: "p \<le> length t \<Longrightarrow> runs r t (p, []) = [] \<Longrightarrow> finditer_from r t p = finditer_from r t (Suc p)"
  by (subst finditer_from.simps) simp

lemma finditer_from_hit:
  "p \<le> length t \<Longrightarrow> runs r t (p, []) = (e, gs) # rest \<Longrightarrow>
     finditer_from r t p = \<lparr>m_start = p, m_end = e, m_groups = gs\<rparr> # finditer_from r t (max (Suc p) e)"
  by (subst finditer_from.simps) simp

lemma finditer_cases [case_names past miss hit]:
  obtains "length t < p" | "p \<le> length t" "runs r t (p, []) = []"
    | e gs rest where "p \<le> length t" "runs r t (p, []) = (e, gs) # rest"
proof (cases "runs r t (p, [])")
  case (Cons s rest)
  with that(1,3) show ?thesis by (cases s, cases "length t < p") auto
qed (use that(1,2) in \<open>cases "length t < p"; simp\<close>)

lemma scan_induct [case_names past miss hit]:
  assumes "\<And>p. length t < p \<Longrightarrow> P p"
    and "\<And>p. p \<le> length t \<Longrightarrow> runs r t (p, []) = [] \<Longrightarrow> P (Suc p) \<Longrightarrow> P p"
    and "\<And>p e gs rest. p \<le> length t \<Longrightarrow> runs r t (p, []) = (e, gs) # rest \<Longrightarrow> P (max (Suc p) e) \<Longrightarrow> P p"
  shows "P p"
proof (induction "Suc (length t) - p" arbitrary: p rule: less_induct)
  case less
  show ?case
  proof (cases rule: finditer_cases [where t = t and p = p and r = r])
    case miss
    have "P (Suc p)" by (rule less) (use miss(1) in simp)
    with miss show ?thesis by (rule assms(2))
  next
    case (hit e gs rest)
    have "P (max (Suc p) e)" by (rule less) (use hit(1) in simp)
    with hit show ?thesis by (rule assms(3))
  qed (rule assms(1))
qed

text \<open>What \<open>finditer\<close> returns are matches: inside the text, one after the other.\<close>

definition is_match :: "rx \<Rightarrow> string \<Rightarrow> rmatch \<Rightarrow> bool" where
  "is_match r t m \<longleftrightarrow> m_start m \<le> length t \<and>
     (\<exists>rest. runs r t (m_start m, []) = (m_end m, m_groups m) # rest)"

lemma finditer_from_matches: "m \<in> set (finditer_from r t p) \<Longrightarrow> is_match r t m \<and> p \<le> m_start m"
  by (induction p rule: scan_induct [where t = t and r = r])
    (auto simp: finditer_from_past finditer_from_miss finditer_from_hit is_match_def)

lemma finditer_matches: "m \<in> set (finditer r t) \<Longrightarrow> is_match r t m"
  using finditer_from_matches by (auto simp: finditer_def)

lemma match_end:
  assumes "is_match r t m"
  shows "m_end m \<le> length t"
proof -
  have "(m_end m, m_groups m) \<in> set (runs r t (m_start m, []))" "m_start m \<le> length t"
    using assms by (auto simp: is_match_def)
  from runs_forward [OF this(1)] this(2) show ?thesis by simp
qed

lemma match_range:
  assumes "is_match r t m" and "consuming r"
  shows "m_start m < m_end m" and "m_end m \<le> length t"
proof -
  have "(m_end m, m_groups m) \<in> set (runs r t (m_start m, []))" "m_start m \<le> length t"
    using assms(1) by (auto simp: is_match_def)
  from runs_consuming [OF assms(2) this(1)] runs_forward [OF this(1)] this(2)
  show "m_start m < m_end m" and "m_end m \<le> length t" by simp_all
qed

lemma match_group:
  assumes "is_match r t m" and "group_range m x = Inr (a, b)"
  shows "m_start m \<le> a" and "a \<le> b" and "b \<le> m_end m" and "solid x r \<Longrightarrow> a < b"
proof -
  have m: "(m_end m, m_groups m) \<in> set (runs r t (m_start m, []))" "m_start m \<le> length t"
    using assms(1) by (auto simp: is_match_def)
  have g: "(x, a, b) \<in> set (m_groups m)"
    using assms(2) by (auto simp: group_range_def dest: map_of_SomeD split: option.splits)
  from runs_step_ok [OF m(1)] m(2) g show "m_start m \<le> a" and "a \<le> b" and "b \<le> m_end m"
    by (auto simp: step_ok_def)
  show "a < b" if "solid x r" using runs_solid [OF that m(1)] m(2) g by (auto simp: solid_step_def)
qed

lemma match_binds: "is_match r t m \<Longrightarrow> binds x r \<Longrightarrow> isOk (group_range m x)"
  using runs_binds [of x r "(m_end m, m_groups m)" t "(m_start m, [])"]
  by (auto simp: is_match_def group_range_def isOk_def dom_map_of_conv_image_fst [symmetric] split: option.splits)

lemma match_text_chars:
  assumes "is_match r t m" and "chars_rx P r" and "c \<in> set (m_text t m)"
  shows "P c"
proof -
  have "(m_end m, m_groups m) \<in> set (runs r t (m_start m, []))" using assms(1) by (auto simp: is_match_def)
  from runs_chars [OF assms(2) this] match_end [OF assms(1)] assms(3) show ?thesis
    unfolding m_text_def by (auto intro: all_between_slice)
qed

lemma match_group_text:
  assumes "is_match r t m" and "binds x r" and "solid x r" and "group_chars_rx P x r"
  shows "\<exists>g. group_text t m x = Inr g \<and> g \<noteq> [] \<and> (\<forall>c \<in> set g. P c)"
proof -
  obtain a b where ab: "group_range m x = Inr (a, b)" using match_binds [OF assms(1,2)] by (cases "group_range m x") auto
  have m: "(m_end m, m_groups m) \<in> set (runs r t (m_start m, []))" using assms(1) by (auto simp: is_match_def)
  have "(x, a, b) \<in> set (m_groups m)"
    using ab by (auto simp: group_range_def dest: map_of_SomeD split: option.splits)
  with runs_group_chars [OF assms(4) m] have "all_between P t a b" by (auto simp: group_step_def)
  moreover have b: "a < b" "b \<le> length t"
    using match_group [OF assms(1) ab] assms(3) match_end [OF assms(1)] by auto
  ultimately have "\<forall>c \<in> set (slice t a b). P c" by (auto intro: all_between_slice)
  moreover have "slice t a b \<noteq> []" using b by (simp add: slice_def)
  ultimately show ?thesis using ab by (simp add: group_text_def)
qed

text \<open>
  Nothing is overlooked: where the pattern matches, \<open>finditer\<close> reports a match that starts
  there or one that begins earlier and reaches beyond.
\<close>

lemma finditer_from_complete:
  "p \<le> q \<Longrightarrow> q \<le> length t \<Longrightarrow> runs r t (q, []) \<noteq> [] \<Longrightarrow>
     \<exists>m \<in> set (finditer_from r t p). m_start m \<le> q \<and> (m_start m = q \<or> q < m_end m)"
proof (induction p rule: scan_induct [where t = t and r = r])
  case (miss p)
  then have "Suc p \<le> q" by (metis Suc_leI le_neq_implies_less)
  with miss show ?case by (simp add: finditer_from_miss)
next
  case (hit p e gs rest)
  show ?case
  proof (cases "p = q \<or> q < e")
    case False
    then have "max (Suc p) e \<le> q" using hit.prems(1) by simp
    with hit show ?thesis by (simp add: finditer_from_hit)
  qed (use hit in \<open>auto simp: finditer_from_hit\<close>)
qed simp

lemma finditer_complete:
  assumes "q \<le> length t" and "runs r t (q, []) \<noteq> []"
  obtains m where "m \<in> set (finditer r t)" and "m_start m \<le> q" and "m_start m = q \<or> q < m_end m"
  using finditer_from_complete [OF _ assms, of 0] by (auto simp: finditer_def)

text \<open>A match that no earlier match runs into is reported itself.\<close>

lemma finditer_exact:
  assumes "runs r t (q, []) = (e, gs) # rest" and "q \<le> length t"
    and "\<And>a b hs. (b, hs) \<in> set (runs r t (a, [])) \<Longrightarrow> a < q \<Longrightarrow> b \<le> q"
  shows "\<lparr>m_start = q, m_end = e, m_groups = gs\<rparr> \<in> set (finditer r t)"
proof -
  have "runs r t (q, []) \<noteq> []" using assms(1) by simp
  with finditer_complete [OF assms(2)] obtain m where m: "m \<in> set (finditer r t)" "m_start m \<le> q" "m_start m = q \<or> q < m_end m"
    by blast
  from finditer_matches [OF m(1)] have "(m_end m, m_groups m) \<in> set (runs r t (m_start m, []))" by (auto simp: is_match_def)
  with assms(3) [of "m_end m" "m_groups m" "m_start m"] m(2,3) have "m_start m = q" by force
  with finditer_matches [OF m(1)] assms(1) have "m = \<lparr>m_start = q, m_end = e, m_groups = gs\<rparr>" by (auto simp: is_match_def)
  with m(1) show ?thesis by simp
qed

lemma finditer_sorted:
  "sorted_wrt (\<lambda>m m'. m_end m \<le> m_start m') (finditer r t)"
proof -
  have "sorted_wrt (\<lambda>m m'. m_end m \<le> m_start m') (finditer_from r t p)" for p
    by (induction p rule: scan_induct [where t = t and r = r])
      (auto simp: finditer_from_past finditer_from_miss finditer_from_hit dest: finditer_from_matches)
  then show ?thesis by (simp add: finditer_def)
qed

end
