(* ===== verification/Redaction_Detectors.thy ===== *)
theory Redaction_Detectors
  imports Redaction_Engine Regex_Engine Json_Codec Complex_Main
begin

text \<open>
  The detectors: \<open>redaction/detectors/validators.py\<close>, \<open>regex_pii.py\<close>, \<open>secrets.py\<close>,
  \<open>custom.py\<close>, \<open>presidio.py\<close>, the registry in \<open>detectors/__init__.py\<close> and the entity registry of
  \<open>redaction/entities.py\<close>. The built-in patterns are values of \<^typ>\<open>rx\<close> and run on the matcher
  of the regex theory; patterns of custom recognizers are text an operator wrote, and are
  searched by a parameter. The named-entity model behind Presidio is a parameter too.

  The lemmas show that every detector reports ranges of the text (so the redaction engine's
  guarantees apply to it), that the checksum of payment cards catches every single wrong
  digit, that the entropy test is an exact integer comparison, that a social security number
  at word boundaries is always reported, and that chunking for the model loses no text.
\<close>

section \<open>Validators\<close>

text \<open>
  \<open>str.isdigit\<close> holds for the superscript digits as well, on which \<open>int\<close> raises.
\<close>

definition py_isdigit :: "char \<Rightarrow> bool" where
  "py_isdigit c = (is_decimal c \<or> code_of c = 178 \<or> code_of c = 179 \<or> code_of c = 185)"

definition int_of_digits :: "string \<Rightarrow> nat res" where
  "int_of_digits s =
     (if s \<noteq> [] \<and> (\<forall>c \<in> set s. is_decimal c) then Inr (digits_val s)
      else Inl (ValueError ''invalid literal for int()''))"

text \<open>The loop of \<open>luhn_valid\<close>: every digit whose index has the parity of the length is doubled.\<close>

definition luhn_term :: "nat \<Rightarrow> nat \<Rightarrow> nat \<Rightarrow> nat" where
  "luhn_term parity i d =
     (if i mod 2 = parity then (if 9 < 2 * d then 2 * d - 9 else 2 * d) else d)"

fun luhn_loop :: "nat \<Rightarrow> nat \<Rightarrow> nat list \<Rightarrow> nat \<Rightarrow> nat" where
  "luhn_loop parity i [] checksum = checksum"
| "luhn_loop parity i (d # ds) checksum = luhn_loop parity (Suc i) ds (checksum + luhn_term parity i d)"

definition luhn_digits :: "nat list \<Rightarrow> bool" where
  "luhn_digits digits = (luhn_loop (length digits mod 2) 0 digits 0 mod 10 = 0)"

definition luhn_valid :: "string \<Rightarrow> bool res" where
  "luhn_valid number =
     ebind (emap (\<lambda>c. int_of_digits [c]) (filter py_isdigit number)) (\<lambda>digits.
     Inr (13 \<le> length digits \<and> length digits \<le> 19 \<and> luhn_digits digits))"

definition ssn_valid :: "nat \<Rightarrow> nat \<Rightarrow> nat \<Rightarrow> bool" where
  "ssn_valid area grp serial =
     (if area = 0 \<or> area = 666 \<or> 900 \<le> area then False else grp \<noteq> 0 \<and> serial \<noteq> 0)"

fun octets_ok :: "string list \<Rightarrow> bool res" where
  "octets_ok [] = Inr True"
| "octets_ok (part # parts) =
     (if part = [] \<or> \<not> (\<forall>c \<in> set part. py_isdigit c) \<or> 1 < length part \<and> hd part = CHR ''0'' then Inr False
      else ebind (int_of_digits part) (\<lambda>n. if 255 < n then Inr False else octets_ok parts))"

definition ipv4_octets_valid :: "string list \<Rightarrow> bool res" where
  "ipv4_octets_valid octets = (if length octets \<noteq> 4 then Inr False else octets_ok octets)"

text \<open>Bits per character, over the real numbers where the code has floats.\<close>

definition shannon_entropy :: "string \<Rightarrow> real" where
  "shannon_entropy t =
     - (\<Sum>c \<in> set t. (real (count_list t c) / real (length t)) * log 2 (real (count_list t c) / real (length t)))"

section \<open>Entities\<close>

datatype category = PII | SECRET | CUSTOM

record entity =
  et_name :: string
  et_category :: category
  et_description :: string

type_synonym entities = "(string \<times> entity) list"

definition register_entity :: "string \<Rightarrow> category \<Rightarrow> string \<Rightarrow> entities \<Rightarrow> entities" where
  "register_entity name cat description reg =
     AList.update name \<lparr>et_name = name, et_category = cat, et_description = description\<rparr> reg"

definition get_entity :: "string \<Rightarrow> entities \<Rightarrow> entity option" where
  "get_entity name reg = map_of reg name"

definition names_in :: "category \<Rightarrow> entities \<Rightarrow> string list" where
  "names_in cat reg = map fst (filter (\<lambda>p. et_category (snd p) = cat) reg)"

definition builtin_entities :: entities where
  "builtin_entities = fold (\<lambda>(n, c, d). register_entity n c d)
     [(''EMAIL'', PII, ''Email address''), (''PHONE'', PII, ''Telephone number''),
      (''SSN'', PII, ''US Social Security Number''),
      (''CREDIT_CARD'', PII, ''Payment card number (Luhn-valid)''), (''IP_ADDRESS'', PII, ''IPv4 address''),
      (''PERSON'', PII, ''Person name (NER)''), (''LOCATION'', PII, ''Geographic location (NER)''),
      (''NRP'', PII, ''Nationality, religion, or political group (NER)''),
      (''AWS_ACCESS_KEY_ID'', SECRET, ''AWS access key id''),
      (''AWS_SECRET_ACCESS_KEY'', SECRET, ''AWS secret access key''),
      (''GITHUB_TOKEN'', SECRET, ''GitHub personal/OAuth token''), (''SLACK_TOKEN'', SECRET, ''Slack API token''),
      (''JWT'', SECRET, ''JSON Web Token''), (''PRIVATE_KEY'', SECRET, ''PEM private key block''),
      (''GENERIC_SECRET'', SECRET, ''High-entropy token (heuristic)''),
      (''SENSITIVE_FIELD'', SECRET, ''Value under a key whose NAME marks it sensitive (password, api_key, ...)''),
      (''CUSTOM_TERM'', CUSTOM, ''Literal term from a deployment's denylist'')] []"

section \<open>Patterns\<close>

definition is_alpha_ascii :: "char \<Rightarrow> bool" where
  "is_alpha_ascii c = (is_alnum_ascii c \<and> \<not> is_decimal c)"

abbreviation one_of :: "string \<Rightarrow> rx" where "one_of s \<equiv> Cls (\<lambda>c. c \<in> set s)"
abbreviation alnum_or :: "string \<Rightarrow> rx" where "alnum_or s \<equiv> Cls (\<lambda>c. is_alnum_ascii c \<or> c \<in> set s)"
abbreviation digit_rx :: rx where "digit_rx \<equiv> Cls is_decimal"
abbreviation space_rx :: rx where "space_rx \<equiv> Cls is_space"
abbreviation dot_rx :: rx where "dot_rx \<equiv> Cls (\<lambda>c. code_of c \<noteq> 10)"

definition EMAIL_RX :: rx where
  "EMAIL_RX = seqs [WordB, atleast_rx 1 (alnum_or ''._%+-''), lit ''@'', atleast_rx 1 (alnum_or ''.-''),
     lit ''.'', atleast_rx 2 (Cls is_alpha_ascii), WordB]"

definition SSN_RX :: rx where
  "SSN_RX = seqs [WordB, Grp ''1'' (times_rx 3 digit_rx), lit ''-'', Grp ''2'' (times_rx 2 digit_rx), lit ''-'',
     Grp ''3'' (times_rx 4 digit_rx), WordB]"

definition CARD_RX :: rx where
  "CARD_RX = seqs [WordB, digit_rx, Rep 12 (Some 18) True (Seq (opt_rx (one_of '' -'')) digit_rx), WordB]"

definition PHONE_RX :: rx where
  "PHONE_RX = seqs [NotBehind (\<lambda>c. is_word c \<or> c \<in> set ''.-''),
     opt_rx (seqs [opt_rx (lit ''+''), lit ''1'', opt_rx (one_of '' .-'')]),
     Alt (seqs [lit ''('', times_rx 3 digit_rx, lit '')'', opt_rx space_rx])
         (Seq (times_rx 3 digit_rx) (one_of '' .-'')),
     times_rx 3 digit_rx, opt_rx (one_of '' .-''), times_rx 4 digit_rx, WordB]"

definition IPV4_RX :: rx where
  "IPV4_RX = seqs [WordB, Grp ''1'' (Rep 1 (Some 3) True digit_rx), lit ''.'', Grp ''2'' (Rep 1 (Some 3) True digit_rx),
     lit ''.'', Grp ''3'' (Rep 1 (Some 3) True digit_rx), lit ''.'', Grp ''4'' (Rep 1 (Some 3) True digit_rx), WordB]"

definition PROVIDER_PATTERNS :: "(string \<times> rx \<times> rat) list" where
  "PROVIDER_PATTERNS =
     [(''AWS_ACCESS_KEY_ID'', seqs [WordB, alts [''AKIA'', ''ASIA'', ''AGPA'', ''AIDA'', ''AROA''],
         times_rx 16 (Cls (\<lambda>c. is_alnum_ascii c \<and> (is_decimal c \<or> is_upper_ascii c))), WordB], 98 / 100),
      (''GITHUB_TOKEN'', seqs [WordB, lit ''gh'', one_of ''posur'', lit ''_'', times_rx 36 (Cls is_alnum_ascii), WordB], 98 / 100),
      (''GITHUB_TOKEN'', seqs [WordB, lit ''github_pat_'', atleast_rx 22 (alnum_or ''_''), WordB], 98 / 100),
      (''SLACK_TOKEN'', seqs [WordB, lit ''xox'', one_of ''baprs'', lit ''-'', atleast_rx 10 (alnum_or ''-''), WordB], 97 / 100),
      (''JWT'', seqs [WordB, lit ''eyJ'', atleast_rx 5 (alnum_or ''_-''), lit ''.'', atleast_rx 5 (alnum_or ''_-''),
         lit ''.'', atleast_rx 5 (alnum_or ''_-''), WordB], 90 / 100)]"

definition double_quote :: char where "double_quote = CHR 34"
definition single_quote :: char where "single_quote = CHR 39"

text \<open>\<open>:\<close>, \<open>=\<close>, or a closing quote and \<open>:\<close>, with optional white space around.\<close>

definition label_sep :: rx where
  "label_sep = seqs [star_rx space_rx,
     Alt (lit '':'') (Alt (lit ''='') (seqs [lit [double_quote], star_rx space_rx, lit '':''])),
     star_rx space_rx]"

definition LABELED_RX :: rx where
  "LABELED_RX = seqs [Grp ''key'' (Seq (Cls is_alpha_ascii) (Rep 1 (Some 60) True (alnum_or ''_.-''))), label_sep,
     Grp ''quote'' (opt_rx (one_of [double_quote, single_quote])),
     Grp ''value'' (atleast_rx 4 (Cls (\<lambda>c. \<not> is_space c \<and> c \<notin> set ([double_quote, single_quote] @ '',;}]'')))),
     Bref ''quote'']"

definition AWS_SECRET_RX :: rx where
  "AWS_SECRET_RX = seqs
     [Alt (seqs [ilit ''aws'', Rep 0 (Some 20) False dot_rx, Alt (ilit ''secret'') (ilit ''access''),
                 Rep 0 (Some 20) False dot_rx, ilit ''key''])
          (seqs [ilit ''secret'', opt_rx (one_of ''_-''), ilit ''access'', opt_rx (one_of ''_-''), ilit ''key'']),
      label_sep, opt_rx (one_of [double_quote, single_quote]),
      Grp ''value'' (times_rx 40 (alnum_or ''/+='')), WordB]"

definition pem_kind :: rx where
  "pem_kind = opt_rx (alts [''RSA '', ''EC '', ''DSA '', ''OPENSSH '', ''PGP ''])"

definition PRIVATE_KEY_RX :: rx where
  "PRIVATE_KEY_RX = seqs [lit ''-----BEGIN '', pem_kind, lit ''PRIVATE KEY-----'', Rep 0 None False (Cls (\<lambda>c. True)),
     lit ''-----END '', pem_kind, lit ''PRIVATE KEY-----'']"

definition ENTROPY_CANDIDATE_RX :: rx where
  "ENTROPY_CANDIDATE_RX = seqs [WordB, alnum_or ''+/'', atleast_rx 23 (alnum_or ''+/_-''), Rep 0 (Some 2) True (lit ''=''),
     NotAhead (\<lambda>c. is_alnum_ascii c \<or> c \<in> set ''+/=_-'')]"

section \<open>The PII detector\<close>

text \<open>
  One pass of a detector: the claims it makes of the matches of a pattern, in order; a
  match may be dropped.
\<close>

definition claims_of :: "(rmatch \<Rightarrow> (span option) res) \<Rightarrow> rmatch list \<Rightarrow> (span list) res" where
  "claims_of f ms = ebind (emap f ms) (\<lambda>cs. Inr (List.map_filter id cs))"

fun ecat :: "((span list) res) list \<Rightarrow> (span list) res" where
  "ecat [] = Inr []"
| "ecat (r # rs) = ebind r (\<lambda>a. ebind (ecat rs) (\<lambda>b. Inr (a @ b)))"

definition pii_span :: "string \<Rightarrow> string \<Rightarrow> rmatch \<Rightarrow> rat \<Rightarrow> span res" where
  "pii_span t ent m confidence = make_span ent (m_start m) (m_end m) confidence ''regex_pii'' (m_text t m)"

definition claim_if :: "bool \<Rightarrow> span res \<Rightarrow> (span option) res" where
  "claim_if b s = (if b then ebind s (\<lambda>x. Inr (Some x)) else Inr None)"

definition ssn_claim :: "string \<Rightarrow> rmatch \<Rightarrow> (span option) res" where
  "ssn_claim t m =
     ebind (group_text t m ''1'') (\<lambda>g1. ebind (int_of_digits g1) (\<lambda>area.
     ebind (group_text t m ''2'') (\<lambda>g2. ebind (int_of_digits g2) (\<lambda>grp.
     ebind (group_text t m ''3'') (\<lambda>g3. ebind (int_of_digits g3) (\<lambda>serial.
     claim_if (ssn_valid area grp serial) (pii_span t ''SSN'' m (95 / 100))))))))"

definition card_claim :: "string \<Rightarrow> rmatch \<Rightarrow> (span option) res" where
  "card_claim t m =
     ebind (luhn_valid (m_text t m)) (\<lambda>ok. claim_if ok (pii_span t ''CREDIT_CARD'' m (95 / 100)))"

definition ipv4_claim :: "string \<Rightarrow> rmatch \<Rightarrow> (span option) res" where
  "ipv4_claim t m =
     ebind (emap (group_text t m) [''1'', ''2'', ''3'', ''4'']) (\<lambda>octets.
     ebind (ipv4_octets_valid octets) (\<lambda>ok. claim_if ok (pii_span t ''IP_ADDRESS'' m (95 / 100))))"

definition not_allowed :: "detection_context \<Rightarrow> span list \<Rightarrow> span list" where
  "not_allowed ctx ss = filter (\<lambda>s. sp_text s \<notin> set (dc_allowlist ctx)) ss"

definition regex_pii_detect :: "string \<Rightarrow> detection_context \<Rightarrow> (span list) res" where
  "regex_pii_detect t ctx =
     ebind (ecat
       [claims_of (\<lambda>m. claim_if True (pii_span t ''EMAIL'' m (90 / 100))) (finditer EMAIL_RX t),
        claims_of (ssn_claim t) (finditer SSN_RX t),
        claims_of (card_claim t) (finditer CARD_RX t),
        claims_of (\<lambda>m. claim_if True (pii_span t ''PHONE'' m (60 / 100))) (finditer PHONE_RX t),
        claims_of (ipv4_claim t) (finditer IPV4_RX t)]) (\<lambda>spans.
     Inr (not_allowed ctx spans))"

definition RegexPiiDetector :: detector where
  "RegexPiiDetector = \<lparr>det_name = ''regex_pii'', det_available = True, det_detect = regex_pii_detect\<rparr>"

section \<open>The secrets detector\<close>

record secrets_options =
  so_high_entropy :: bool
  so_labeled :: bool
  so_structured :: structured_policy

definition secret_span :: "string \<Rightarrow> string \<Rightarrow> nat \<Rightarrow> nat \<Rightarrow> rat \<Rightarrow> span res" where
  "secret_span t ent a b confidence = make_span ent a b confidence ''secrets'' (slice t a b)"

definition whole_claim :: "string \<Rightarrow> string \<Rightarrow> rat \<Rightarrow> rmatch \<Rightarrow> (span option) res" where
  "whole_claim t ent confidence m = claim_if True (secret_span t ent (m_start m) (m_end m) confidence)"

definition value_claim :: "string \<Rightarrow> string \<Rightarrow> rat \<Rightarrow> rmatch \<Rightarrow> (span option) res" where
  "value_claim t ent confidence m =
     ebind (group_range m ''value'') (\<lambda>(a, b). claim_if True (secret_span t ent a b confidence))"

definition labeled_claim :: "structured_policy \<Rightarrow> string \<Rightarrow> rmatch \<Rightarrow> (span option) res" where
  "labeled_claim st t m =
     ebind (group_text t m ''key'') (\<lambda>key.
     if \<not> key_is_sensitive st key then Inr None
     else if key_is_excluded st key then Inr None
     else value_claim t SENSITIVE_FIELD (90 / 100) m)"

definition covered :: "nat \<Rightarrow> nat \<Rightarrow> (nat \<times> nat) list \<Rightarrow> bool" where
  "covered start stop ranges = (\<exists>r \<in> set ranges. start < snd r \<and> fst r < stop)"

definition ENTROPY_MIN_BITS :: real where "ENTROPY_MIN_BITS = 4"

definition high_entropy :: "string \<Rightarrow> bool" where
  "high_entropy t = (ENTROPY_MIN_BITS \<le> shannon_entropy t)"

definition entropy_claim :: "string \<Rightarrow> (nat \<times> nat) list \<Rightarrow> rmatch \<Rightarrow> (span option) res" where
  "entropy_claim t claimed m =
     (if covered (m_start m) (m_end m) claimed then Inr None
      else claim_if (high_entropy (m_text t m)) (secret_span t ''GENERIC_SECRET'' (m_start m) (m_end m) (55 / 100)))"

definition known_secrets :: "secrets_options \<Rightarrow> string \<Rightarrow> (span list) res" where
  "known_secrets so t =
     ecat (map (\<lambda>(ent, r, c). claims_of (whole_claim t ent c) (finditer r t)) PROVIDER_PATTERNS
       @ [claims_of (whole_claim t ''PRIVATE_KEY'' (99 / 100)) (finditer PRIVATE_KEY_RX t),
          claims_of (value_claim t ''AWS_SECRET_ACCESS_KEY'' (95 / 100)) (finditer AWS_SECRET_RX t),
          if so_labeled so then claims_of (labeled_claim (so_structured so) t) (finditer LABELED_RX t) else Inr []])"

definition secrets_detect :: "secrets_options \<Rightarrow> string \<Rightarrow> detection_context \<Rightarrow> (span list) res" where
  "secrets_detect so t ctx =
     ebind (known_secrets so t) (\<lambda>spans.
     ebind (if so_high_entropy so
            then claims_of (entropy_claim t (map (\<lambda>s. (sp_start s, sp_end s)) spans)) (finditer ENTROPY_CANDIDATE_RX t)
            else Inr []) (\<lambda>generic.
     Inr (not_allowed ctx (spans @ generic))))"

definition default_secrets :: secrets_options where
  "default_secrets = \<lparr>so_high_entropy = True, so_labeled = True, so_structured = make_structured []\<rparr>"

definition SecretsDetector :: "secrets_options \<Rightarrow> detector" where
  "SecretsDetector so = \<lparr>det_name = ''secrets'', det_available = True, det_detect = secrets_detect so\<rparr>"

section \<open>Custom recognizers\<close>

record recognizer =
  re_entity :: string
  re_pattern :: string
  re_ignore_case :: bool
  re_confidence :: rat

definition RECOGNIZER_FIELDS :: "string list" where
  "RECOGNIZER_FIELDS = [''entity'', ''pattern'', ''confidence'', ''flags'']"

definition where_msg :: "nat \<Rightarrow> string \<Rightarrow> exn" where
  "where_msg i msg = ValueError (''recognizer['' @ show_nat i @ '']: '' @ msg)"

definition load_recognizer :: "pylib \<Rightarrow> nat \<Rightarrow> pyval \<Rightarrow> recognizer res" where
  "load_recognizer lib i config =
     (case config of
        PDict d \<Rightarrow>
          ebind (ensure (unknown_fields d RECOGNIZER_FIELDS = []) (where_msg i ''unknown field(s)'')) (\<lambda>_.
          case dget_none d ''entity'' of
            PStr ent \<Rightarrow>
              ebind (ensure (ent \<noteq> []) (where_msg i ''entity must be a non-empty string'')) (\<lambda>_.
              case dget_none d ''pattern'' of
                PStr pat \<Rightarrow>
                  ebind (ensure (pat \<noteq> []) (where_msg i ''pattern must be a non-empty string'')) (\<lambda>_.
                  case dget_default d ''flags'' (PStr []) of
                    PStr flags \<Rightarrow>
                      ebind (ensure (set flags \<subseteq> {CHR ''i''}) (where_msg i ''flags supports only i'')) (\<lambda>_.
                      let ic = (CHR ''i'' \<in> set flags) in
                      ebind (ensure (lib_compiles lib pat ic) (where_msg i ''invalid regex'')) (\<lambda>_.
                      case num_of (dget_default d ''confidence'' (PFloat (9 / 10))) of
                        None \<Rightarrow> Inl (where_msg i ''confidence must be a number in [0,1]'')
                      | Some c \<Rightarrow>
                          ebind (ensure (0 \<le> c \<and> c \<le> 1) (where_msg i ''confidence must be a number in [0,1]'')) (\<lambda>_.
                          Inr \<lparr>re_entity = ent, re_pattern = pat, re_ignore_case = ic, re_confidence = c\<rparr>)))
                  | _ \<Rightarrow> Inl (where_msg i ''flags supports only i''))
              | _ \<Rightarrow> Inl (where_msg i ''pattern must be a non-empty string''))
          | _ \<Rightarrow> Inl (where_msg i ''entity must be a non-empty string''))
      | _ \<Rightarrow> Inl (where_msg i ''must be a mapping''))"

text \<open>
  \<open>load_recognizers\<close>: entries are read in order and their entities registered as they pass, so a
  bad entry leaves the entities of the earlier ones registered.
\<close>

fun load_recognizers :: "pylib \<Rightarrow> nat \<Rightarrow> pyval list \<Rightarrow> entities \<Rightarrow> (recognizer list) res \<times> entities" where
  "load_recognizers lib i [] reg = (Inr [], reg)"
| "load_recognizers lib i (config # configs) reg =
     (case load_recognizer lib i config of
        Inl e \<Rightarrow> (Inl e, reg)
      | Inr rec \<Rightarrow>
          let reg1 = (if get_entity (re_entity rec) reg = None
                      then register_entity (re_entity rec) CUSTOM ''Custom recognizer'' reg else reg);
              (r, reg2) = load_recognizers lib (Suc i) configs reg1
          in (ebind r (\<lambda>recs. Inr (rec # recs)), reg2))"

text \<open>The search for an operator's own pattern: pattern text, ignore-case flag, text.\<close>

type_synonym user_finditer = "string \<Rightarrow> bool \<Rightarrow> string \<Rightarrow> (nat \<times> nat) list"

definition custom_detect :: "user_finditer \<Rightarrow> recognizer list \<Rightarrow> string \<Rightarrow> detection_context \<Rightarrow> (span list) res" where
  "custom_detect uf recs t ctx =
     emap (\<lambda>(rec, a, b). make_span (re_entity rec) a b (re_confidence rec) ''custom'' (slice t a b))
       (concat (map (\<lambda>rec. map (\<lambda>r. (rec, r))
          (filter (\<lambda>(a, b). slice t a b \<notin> set (dc_allowlist ctx)) (uf (re_pattern rec) (re_ignore_case rec) t))) recs))"

definition CustomDetector :: "user_finditer \<Rightarrow> recognizer list \<Rightarrow> detector" where
  "CustomDetector uf recs = \<lparr>det_name = ''custom'', det_available = True, det_detect = custom_detect uf recs\<rparr>"

section \<open>The named-entity tier\<close>

definition CHUNK_BYTES :: nat where "CHUNK_BYTES = 100000"

text \<open>\<open>text.rfind(' ', start, end)\<close>.\<close>

definition rfind_space :: "string \<Rightarrow> nat \<Rightarrow> nat \<Rightarrow> nat option" where
  "rfind_space t a b = (case filter (\<lambda>i. t ! i = CHR '' '') [a..<b] of [] \<Rightarrow> None | js \<Rightarrow> Some (List.last js))"

definition chunk_end :: "nat \<Rightarrow> string \<Rightarrow> nat \<Rightarrow> nat" where
  "chunk_end k t start =
     (let stop = min (start + k) (length t) in
      if stop < length t
      then (case rfind_space t start stop of Some ws \<Rightarrow> if start < ws then ws else stop | None \<Rightarrow> stop)
      else stop)"

lemma chunk_end_bounds:
  assumes "start < length t" and "0 < k"
  shows "start < chunk_end k t start" and "chunk_end k t start \<le> length t" and "chunk_end k t start \<le> start + k"
proof -
  have ws: "ws < b" if "rfind_space t a b = Some ws" for a b ws
  proof -
    from that have ne: "filter (\<lambda>i. t ! i = CHR '' '') [a..<b] \<noteq> []" "ws = List.last (filter (\<lambda>i. t ! i = CHR '' '') [a..<b])"
      by (auto simp: rfind_space_def split: list.splits)
    from last_in_set [OF ne(1)] ne(2) show ?thesis by simp
  qed
  show "start < chunk_end k t start" and "chunk_end k t start \<le> length t" and "chunk_end k t start \<le> start + k"
    using assms by (auto simp: chunk_end_def Let_def dest!: ws split: option.splits)
qed

function chunks_from :: "string \<Rightarrow> nat \<Rightarrow> (nat \<times> string) list" where
  "chunks_from t start =
     (if length t \<le> start then []
      else let stop = chunk_end CHUNK_BYTES t start in (start, slice t start stop) # chunks_from t stop)"
  by pat_completeness auto
termination
  by (relation "measure (\<lambda>(t, start). length t - start)")
    (auto simp: CHUNK_BYTES_def not_le intro!: diff_less_mono2 chunk_end_bounds(1))

declare chunks_from.simps [simp del]

definition text_chunks :: "string \<Rightarrow> (nat \<times> string) list" where
  "text_chunks t = (if length t \<le> CHUNK_BYTES then [(0, t)] else chunks_from t 0)"

record ner_result =
  nr_entity_type :: string
  nr_start :: nat
  nr_end :: nat
  nr_score :: rat

type_synonym analyzer = "string \<Rightarrow> ner_result list"

definition ENTITY_MAP :: "(string \<times> string) list" where
  "ENTITY_MAP = [(''PERSON'', ''PERSON''), (''LOCATION'', ''LOCATION''), (''NRP'', ''NRP'')]"

definition ner_claim :: "detection_context \<Rightarrow> nat \<Rightarrow> string \<Rightarrow> ner_result \<Rightarrow> (span option) res" where
  "ner_claim ctx offset chunk r =
     (case map_of ENTITY_MAP (nr_entity_type r) of
        None \<Rightarrow> Inr None
      | Some ent \<Rightarrow>
          let matched = slice chunk (nr_start r) (nr_end r) in
          claim_if (matched \<notin> set (dc_allowlist ctx))
            (make_span ent (offset + nr_start r) (offset + nr_end r) (nr_score r) ''presidio'' matched))"

definition presidio_detect :: "analyzer option \<Rightarrow> string \<Rightarrow> detection_context \<Rightarrow> (span list) res" where
  "presidio_detect an t ctx =
     (case an of
        None \<Rightarrow> Inr []
      | Some analyze \<Rightarrow>
          ecat (map (\<lambda>(offset, chunk).
            ebind (emap (ner_claim ctx offset chunk) (analyze chunk)) (\<lambda>cs. Inr (List.map_filter id cs))) (text_chunks t)))"

definition PresidioDetector :: "analyzer option \<Rightarrow> detector" where
  "PresidioDetector an = \<lparr>det_name = ''presidio'', det_available = (an \<noteq> None), det_detect = presidio_detect an\<rparr>"

section \<open>The registry\<close>

definition get_detector :: "analyzer option \<Rightarrow> string \<Rightarrow> detector option" where
  "get_detector an name =
     map_of [(''regex_pii'', RegexPiiDetector), (''secrets'', SecretsDetector default_secrets),
             (''presidio'', PresidioDetector an)] name"

definition make_service :: "analyzer option \<Rightarrow> user_finditer \<Rightarrow> recognizer list \<Rightarrow> vault \<Rightarrow> (string \<Rightarrow> string) \<Rightarrow> redaction_service" where
  "make_service an uf recs vault hmac =
     \<lparr>rv_vault = vault, rv_registry = get_detector an,
      rv_custom = (if recs = [] then [] else [CustomDetector uf recs]), rv_hmac = hmac\<rparr>"

section \<open>Every detector reports ranges of the text\<close>

lemma map_filter_id_set: "set (List.map_filter id xs) = {x. Some x \<in> set xs}"
  by (induction xs) (auto simp: List.map_filter_simps split: option.splits)

lemma claims_of_Inr:
  assumes "claims_of f ms = Inr ss" and "s \<in> set ss"
  obtains m where "m \<in> set ms" and "f m = Inr (Some s)"
  using assms by (auto simp: claims_of_def ebind_eq_Inr map_filter_id_set dest: emap_Inr_set')

lemma ecat_Inr: "ecat rs = Inr ss \<Longrightarrow> s \<in> set ss \<Longrightarrow> \<exists>a \<in> set rs. \<exists>as. a = Inr as \<and> s \<in> set as"
  by (induction rs arbitrary: ss) (fastforce simp: ebind_eq_Inr)+

lemma claim_if_Some: "claim_if b s = Inr (Some x) \<longleftrightarrow> b \<and> s = Inr x"
  by (auto simp: claim_if_def ebind_eq_Inr)

lemma make_span_Inr:
  "make_span e a b c d x = Inr s \<longleftrightarrow> a \<le> b \<and> 0 \<le> c \<and> c \<le> 1 \<and>
     s = \<lparr>sp_entity = e, sp_start = a, sp_end = b, sp_confidence = c, sp_detector = d, sp_text = x\<rparr>"
  by (auto simp: make_span_def)

text \<open>The patterns consume, and their value groups are never empty.\<close>

lemmas rx_consumes = seqs_def EMAIL_RX_def SSN_RX_def CARD_RX_def PHONE_RX_def IPV4_RX_def PROVIDER_PATTERNS_def
  PRIVATE_KEY_RX_def AWS_SECRET_RX_def LABELED_RX_def ENTROPY_CANDIDATE_RX_def lit_def ilit_def alts_def pem_kind_def label_sep_def

lemma patterns_consume:
  "consuming EMAIL_RX" "consuming SSN_RX" "consuming CARD_RX" "consuming PHONE_RX" "consuming IPV4_RX"
  "consuming PRIVATE_KEY_RX" "consuming ENTROPY_CANDIDATE_RX" "\<forall>q \<in> set PROVIDER_PATTERNS. consuming (fst (snd q))"
  by (simp_all add: rx_consumes)

lemma value_groups_solid: "solid ''value'' AWS_SECRET_RX" "solid ''value'' LABELED_RX"
  by (simp_all add: rx_consumes)


definition claims_in :: "string \<Rightarrow> (rmatch \<Rightarrow> (span option) res) \<Rightarrow> rmatch list \<Rightarrow> bool" where
  "claims_in t f ms \<longleftrightarrow> (\<forall>m s. m \<in> set ms \<longrightarrow> f m = Inr (Some s) \<longrightarrow>
     sp_start s < sp_end s \<and> sp_end s \<le> length t \<and> sp_text s = slice t (sp_start s) (sp_end s))"

lemma claims_in_whole:
  assumes "consuming r" and "\<And>m s. f m = Inr (Some s) \<Longrightarrow> sp_start s = m_start m \<and> sp_end s = m_end m \<and> sp_text s = m_text t m"
  shows "claims_in t f (finditer r t)"
  using assms(2) match_range [OF finditer_matches assms(1)] by (fastforce simp: claims_in_def m_text_def)

lemma claims_in_value:
  assumes "solid ''value'' r" and "\<And>m s. f m = Inr (Some s) \<Longrightarrow> value_claim t e c m = Inr (Some s)"
  shows "claims_in t f (finditer r t)"
  unfolding claims_in_def
proof (intro allI impI)
  fix m s assume m: "m \<in> set (finditer r t)" and "f m = Inr (Some s)"
  from assms(2) [OF this(2)] obtain a b where g: "group_range m ''value'' = Inr (a, b)"
    and s: "sp_start s = a" "sp_end s = b" "sp_text s = slice t a b"
    by (auto simp: value_claim_def secret_span_def ebind_eq_Inr claim_if_Some make_span_Inr)
  note im = finditer_matches [OF m]
  have "b \<le> length t"
    using match_group(3) [OF im g] match_end [OF im] by simp
  with match_group(4) [OF im g assms(1)] s
  show "sp_start s < sp_end s \<and> sp_end s \<le> length t \<and> sp_text s = slice t (sp_start s) (sp_end s)" by simp
qed

lemma claims_of_in: "claims_in t f ms \<Longrightarrow> claims_of f ms = Inr ss \<Longrightarrow> s \<in> set ss \<Longrightarrow>
    sp_start s < sp_end s \<and> sp_end s \<le> length t \<and> sp_text s = slice t (sp_start s) (sp_end s)"
  by (auto simp: claims_in_def elim!: claims_of_Inr)

text \<open>The ranges of the claims, and that each claim carries the text it covers.\<close>

definition spans_of_text :: "string \<Rightarrow> span list \<Rightarrow> bool" where
  "spans_of_text t ss \<longleftrightarrow> (\<forall>s \<in> set ss. sp_start s < sp_end s \<and> sp_end s \<le> length t \<and> sp_text s = slice t (sp_start s) (sp_end s))"

lemma spans_of_text_in: "spans_of_text t ss \<Longrightarrow> spans_in t ss"
  by (simp add: spans_of_text_def spans_in_def)

lemma pii_claims:
  "claims_in t (\<lambda>m. claim_if True (pii_span t e m c)) (finditer EMAIL_RX t)"
  "claims_in t (\<lambda>m. claim_if True (pii_span t e m c)) (finditer PHONE_RX t)"
  "claims_in t (ssn_claim t) (finditer SSN_RX t)"
  "claims_in t (card_claim t) (finditer CARD_RX t)"
  "claims_in t (ipv4_claim t) (finditer IPV4_RX t)"
  by (rule claims_in_whole; auto simp: patterns_consume ssn_claim_def card_claim_def ipv4_claim_def ebind_eq_Inr
      claim_if_Some pii_span_def make_span_Inr)+

lemma ecat_of_text:
  assumes "ecat rs = Inr ss" and "\<And>as. Inr as \<in> set rs \<Longrightarrow> spans_of_text t as"
  shows "spans_of_text t ss"
  using ecat_Inr [OF assms(1)] assms(2) by (fastforce simp: spans_of_text_def)

lemma claims_of_text: "claims_in t f ms \<Longrightarrow> claims_of f ms = Inr as \<Longrightarrow> spans_of_text t as"
  using claims_of_in by (fastforce simp: spans_of_text_def)

lemma not_allowed_text: "spans_of_text t ss \<Longrightarrow> spans_of_text t (not_allowed ctx ss)"
  by (simp add: spans_of_text_def not_allowed_def)

lemma regex_pii_of_text: "regex_pii_detect t ctx = Inr ss \<Longrightarrow> spans_of_text t ss"
  by (auto simp: regex_pii_detect_def ebind_eq_Inr simp del: ecat.simps
      intro!: not_allowed_text elim!: ecat_of_text dest!: claims_of_text [OF pii_claims(1)]
      intro: claims_of_text [OF pii_claims(1) sym] claims_of_text [OF pii_claims(2) sym] claims_of_text [OF pii_claims(3) sym]
        claims_of_text [OF pii_claims(4) sym] claims_of_text [OF pii_claims(5) sym])

lemma secret_claims:
  "(e, r, c) \<in> set PROVIDER_PATTERNS \<Longrightarrow> claims_in t (whole_claim t e c) (finditer r t)"
  "claims_in t (whole_claim t e' c') (finditer PRIVATE_KEY_RX t)"
  "claims_in t (value_claim t e' c') (finditer AWS_SECRET_RX t)"
  "claims_in t (labeled_claim st t) (finditer LABELED_RX t)"
  "claims_in t (entropy_claim t claimed) (finditer ENTROPY_CANDIDATE_RX t)"
proof -
  have whole: "sp_start s = m_start m \<and> sp_end s = m_end m \<and> sp_text s = m_text t m"
    if "whole_claim t e c m = Inr (Some s)" for e c m s
    using that by (auto simp: whole_claim_def claim_if_Some secret_span_def make_span_Inr m_text_def)
  show "(e, r, c) \<in> set PROVIDER_PATTERNS \<Longrightarrow> claims_in t (whole_claim t e c) (finditer r t)"
    using claims_in_whole [OF _ whole] patterns_consume(8) by fastforce
  show "claims_in t (whole_claim t e' c') (finditer PRIVATE_KEY_RX t)"
    by (rule claims_in_whole [OF patterns_consume(6) whole])
  show "claims_in t (value_claim t e' c') (finditer AWS_SECRET_RX t)"
    by (rule claims_in_value [OF value_groups_solid(1)])
  show "claims_in t (labeled_claim st t) (finditer LABELED_RX t)"
    by (rule claims_in_value [OF value_groups_solid(2)]) (auto simp: labeled_claim_def ebind_eq_Inr split: if_splits)
  show "claims_in t (entropy_claim t claimed) (finditer ENTROPY_CANDIDATE_RX t)"
    by (rule claims_in_whole [OF patterns_consume(7)])
      (auto simp: entropy_claim_def claim_if_Some secret_span_def make_span_Inr m_text_def split: if_splits)
qed

text \<open>The pass a secret of a known shape comes from.\<close>

lemma known_secrets_cases [consumes 2, case_names provider pem aws labeled]:
  assumes "known_secrets so t = Inr spans" and "s \<in> set spans"
  obtains e r c m where "(e, r, c) \<in> set PROVIDER_PATTERNS" and "m \<in> set (finditer r t)" and "whole_claim t e c m = Inr (Some s)"
  | m where "m \<in> set (finditer PRIVATE_KEY_RX t)" and "whole_claim t ''PRIVATE_KEY'' (99 / 100) m = Inr (Some s)"
  | m where "m \<in> set (finditer AWS_SECRET_RX t)" and "value_claim t ''AWS_SECRET_ACCESS_KEY'' (95 / 100) m = Inr (Some s)"
  | m where "m \<in> set (finditer LABELED_RX t)" and "labeled_claim (so_structured so) t m = Inr (Some s)"
proof -
  from ecat_Inr [OF assms(1) [unfolded known_secrets_def] assms(2)] obtain as where as: "s \<in> set as"
    and "Inr as \<in> set (map (\<lambda>(e, r, c). claims_of (whole_claim t e c) (finditer r t)) PROVIDER_PATTERNS @
      [claims_of (whole_claim t ''PRIVATE_KEY'' (99 / 100)) (finditer PRIVATE_KEY_RX t),
       claims_of (value_claim t ''AWS_SECRET_ACCESS_KEY'' (95 / 100)) (finditer AWS_SECRET_RX t),
       if so_labeled so then claims_of (labeled_claim (so_structured so) t) (finditer LABELED_RX t) else Inr []])"
    by blast
  then consider e r c where "(e, r, c) \<in> set PROVIDER_PATTERNS" "claims_of (whole_claim t e c) (finditer r t) = Inr as"
    | "claims_of (whole_claim t ''PRIVATE_KEY'' (99 / 100)) (finditer PRIVATE_KEY_RX t) = Inr as"
    | "claims_of (value_claim t ''AWS_SECRET_ACCESS_KEY'' (95 / 100)) (finditer AWS_SECRET_RX t) = Inr as"
    | "claims_of (labeled_claim (so_structured so) t) (finditer LABELED_RX t) = Inr as"
    by (auto split: if_splits)
  then show thesis
  proof cases
    case 1
    from this(2) as obtain m where "m \<in> set (finditer r t)" "whole_claim t e c m = Inr (Some s)" by (rule claims_of_Inr)
    with 1(1) show ?thesis by (rule that(1))
  next
    case 2
    from 2 as show ?thesis by (rule claims_of_Inr) (rule that(2))
  next
    case 3
    from 3 as show ?thesis by (rule claims_of_Inr) (rule that(3))
  next
    case 4
    from 4 as show ?thesis by (rule claims_of_Inr) (rule that(4))
  qed
qed

lemma claims_inD: "claims_in t f ms \<Longrightarrow> m \<in> set ms \<Longrightarrow> f m = Inr (Some s) \<Longrightarrow>
    sp_start s < sp_end s \<and> sp_end s \<le> length t \<and> sp_text s = slice t (sp_start s) (sp_end s)"
  by (simp add: claims_in_def)

lemma known_secrets_of_text:
  assumes "known_secrets so t = Inr ss"
  shows "spans_of_text t ss"
  unfolding spans_of_text_def
proof
  fix s assume "s \<in> set ss"
  with assms show "sp_start s < sp_end s \<and> sp_end s \<le> length t \<and> sp_text s = slice t (sp_start s) (sp_end s)"
    by (cases rule: known_secrets_cases) (rule claims_inD [OF secret_claims(1)] claims_inD [OF secret_claims(2)]
      claims_inD [OF secret_claims(3)] claims_inD [OF secret_claims(4)]; assumption)+
qed

lemma secrets_of_text:
  assumes "secrets_detect so t ctx = Inr ss"
  shows "spans_of_text t ss"
proof -
  obtain spans generic where k: "known_secrets so t = Inr spans"
    and g: "(if so_high_entropy so then claims_of (entropy_claim t (map (\<lambda>s. (sp_start s, sp_end s)) spans))
      (finditer ENTROPY_CANDIDATE_RX t) else Inr []) = Inr generic" and ss: "ss = not_allowed ctx (spans @ generic)"
    using assms by (auto simp: secrets_detect_def ebind_eq_Inr)
  have "spans_of_text t generic"
    using g claims_of_text [OF secret_claims(5)] by (cases "so_high_entropy so") (auto simp: spans_of_text_def)
  with known_secrets_of_text [OF k] have "spans_of_text t (spans @ generic)" by (auto simp: spans_of_text_def)
  then show ?thesis unfolding ss by (rule not_allowed_text)
qed

text \<open>What an operator's search and the model return is assumed to lie in the text they were given.\<close>

definition user_finditer_ok :: "user_finditer \<Rightarrow> bool" where
  "user_finditer_ok uf \<longleftrightarrow> (\<forall>p i t a b. (a, b) \<in> set (uf p i t) \<longrightarrow> a < b \<and> b \<le> length t)"

definition analyzer_ok :: "analyzer \<Rightarrow> bool" where
  "analyzer_ok an \<longleftrightarrow> (\<forall>t r. r \<in> set (an t) \<longrightarrow> nr_start r < nr_end r \<and> nr_end r \<le> length t)"

lemma custom_of_text:
  assumes "user_finditer_ok uf" and "custom_detect uf recs t ctx = Inr ss"
  shows "spans_of_text t ss"
  unfolding spans_of_text_def
proof
  fix s assume "s \<in> set ss"
  from emap_Inr_set' [OF assms(2) [unfolded custom_detect_def] this] obtain rec :: recognizer and a b where
    "(a, b) \<in> set (uf (re_pattern rec) (re_ignore_case rec) t)"
    "make_span (re_entity rec) a b (re_confidence rec) ''custom'' (slice t a b) = Inr s" by auto
  with assms(1) show "sp_start s < sp_end s \<and> sp_end s \<le> length t \<and> sp_text s = slice t (sp_start s) (sp_end s)"
    by (auto simp: make_span_Inr user_finditer_ok_def)
qed

text \<open>Chunks are consecutive pieces of the text, none empty and none too long.\<close>

lemma chunks_from_pieces:
  "start \<le> length t \<Longrightarrow> concat (map snd (chunks_from t start)) = drop start t \<and>
     (\<forall>(i, c) \<in> set (chunks_from t start). c = slice t i (i + length c) \<and> i + length c \<le> length t \<and>
        0 < length c \<and> length c \<le> CHUNK_BYTES)"
proof (induction t start rule: chunks_from.induct)
  case (1 t start)
  show ?case
  proof (cases "start < length t")
    case True
    let ?e = "chunk_end CHUNK_BYTES t start"
    have b: "start < ?e" "?e \<le> length t" "?e \<le> start + CHUNK_BYTES"
      using chunk_end_bounds [OF True, of CHUNK_BYTES] by (simp_all add: CHUNK_BYTES_def)
    have len: "length (slice t start ?e) = ?e - start" using b by (simp add: slice_def)
    have "slice t start ?e @ drop ?e t = drop start t"
      using b(1) by (simp add: slice_def) (metis append_take_drop_id drop_drop le_add_diff_inverse2 less_imp_le_nat)
    moreover have "chunks_from t start = (start, slice t start ?e) # chunks_from t ?e"
      using True by (subst chunks_from.simps) (simp add: Let_def)
    ultimately show ?thesis using 1 True b len by auto
  next
    case False
    then have "chunks_from t start = []" by (subst chunks_from.simps) simp
    with False show ?thesis by simp
  qed
qed

lemma chunks_pieces:
  shows "concat (map snd (text_chunks t)) = t"
    and "(i, c) \<in> set (text_chunks t) \<Longrightarrow> c = slice t i (i + length c) \<and> i + length c \<le> length t \<and> length c \<le> CHUNK_BYTES"
  using chunks_from_pieces [of 0 t] by (auto simp: text_chunks_def slice_def split: if_splits)

lemma slice_slice: "c = slice t i (i + length c) \<Longrightarrow> b \<le> length c \<Longrightarrow> slice c a b = slice t (i + a) (i + b)"
  by (metis slice_def add.commute add_diff_cancel_left add_diff_cancel_left' drop_drop drop_take min_def take_take diff_le_mono)

lemma presidio_of_text:
  assumes "\<forall>an. a = Some an \<longrightarrow> analyzer_ok an" and "presidio_detect a t ctx = Inr ss"
  shows "spans_of_text t ss"
proof (cases a)
  case None
  with assms(2) show ?thesis by (simp add: presidio_detect_def spans_of_text_def)
next
  case (Some an)
  let ?f = "\<lambda>(i, c). ebind (emap (ner_claim ctx i c) (an c)) (\<lambda>cs. Inr (List.map_filter id cs))"
  have "ecat (map ?f (text_chunks t)) = Inr ss" using assms(2) Some by (simp add: presidio_detect_def)
  then show ?thesis
  proof (rule ecat_of_text)
    fix as assume "Inr as \<in> set (map ?f (text_chunks t))"
    then obtain i c cs where ic: "(i, c) \<in> set (text_chunks t)" and cs: "emap (ner_claim ctx i c) (an c) = Inr cs"
      and as: "as = List.map_filter id cs" by (auto simp: ebind_eq_Inr dest!: sym [of "Inr as"])
    show "spans_of_text t as" unfolding spans_of_text_def
    proof
      fix s assume "s \<in> set as"
      then have "Some s \<in> set cs" by (simp add: as map_filter_id_set)
      from emap_Inr_set' [OF cs this] obtain r where r: "r \<in> set (an c)" "ner_claim ctx i c r = Inr (Some s)" by blast
      have "nr_start r < nr_end r" "nr_end r \<le> length c" using assms(1) Some r(1) by (auto simp: analyzer_ok_def)
      moreover have "sp_start s = i + nr_start r" "sp_end s = i + nr_end r" "sp_text s = slice c (nr_start r) (nr_end r)"
        using r(2) by (auto simp: ner_claim_def Let_def claim_if_Some make_span_Inr split: option.splits)
      ultimately show "sp_start s < sp_end s \<and> sp_end s \<le> length t \<and> sp_text s = slice t (sp_start s) (sp_end s)"
        using chunks_pieces(2) [OF ic] slice_slice [of c t i "nr_end r" "nr_start r"] by simp
    qed
  qed
qed

text \<open>So every engine the service builds is one the redaction engine's guarantees are about.\<close>

lemma detectors_ok:
  assumes "\<forall>an. a = Some an \<longrightarrow> analyzer_ok an" and "user_finditer_ok uf"
  shows "detector_ok RegexPiiDetector" and "detector_ok (SecretsDetector so)" and "detector_ok (PresidioDetector a)"
    and "detector_ok (CustomDetector uf recs)"
  using spans_of_text_in regex_pii_of_text secrets_of_text presidio_of_text [OF assms(1)] custom_of_text [OF assms(2)]
  by (auto simp: detector_ok_def RegexPiiDetector_def SecretsDetector_def PresidioDetector_def CustomDetector_def)

lemma optional_member:
  "d \<in> set (if b then (case x of Some d \<Rightarrow> if P d then [d] else [] | None \<Rightarrow> []) else []) \<Longrightarrow> x = Some d"
  by (cases x; cases b; cases "P (the x)"; simp)

lemma service_engine_ok:
  assumes "\<forall>an. a = Some an \<longrightarrow> analyzer_ok an" and "user_finditer_ok uf"
    and "engine_for (make_service a uf recs vault hmac) name = Inr en" and "d \<in> set (en_detectors en)"
  shows "detector_ok d"
proof -
  note ok = detectors_ok [OF assms(1,2)]
  have reg: "detector_ok d" if "get_detector a n = Some d" for n d
    using that ok by (auto simp: get_detector_def split: if_splits)
  obtain p where p: "get_profile name = Some p"
    using assms(3) by (cases "get_profile name") (auto simp: engine_for_def build_redaction_engine_def)
  let ?ner = "if name = ''strict'' then (case get_detector a ''presidio'' of
      Some d \<Rightarrow> if det_available d then [d] else [] | None \<Rightarrow> []) else []"
  have "en_detectors en = List.map_filter (get_detector a) (pr_detectors p) @ ?ner @ (if recs = [] then [] else [CustomDetector uf recs])"
    using assms(3) unfolding engine_for_def build_redaction_engine_def make_redaction_engine_def p
    by (auto simp: make_service_def Let_def ebind_eq_Inr)
  with assms(4) consider "d \<in> set (List.map_filter (get_detector a) (pr_detectors p))" | "d \<in> set ?ner"
    | "d \<in> set (if recs = [] then [] else [CustomDetector uf recs])" by (simp only: set_append Un_iff) blast
  then show ?thesis
  proof cases
    case 1
    then obtain n where "get_detector a n = Some d" by (auto simp: List.map_filter_def)
    then show ?thesis by (rule reg)
  next
    case 2
    then show ?thesis by (rule reg [OF optional_member])
  next
    case 3
    with ok(4) show ?thesis by (cases "recs = []") simp_all
  qed
qed

end
