(* ===== verification/Detector_Guarantees.thy ===== *)
theory Detector_Guarantees
  imports Redaction_Detectors
begin

text \<open>
  What the validators and the built-in detectors guarantee: the Luhn checksum catches every
  single wrong digit, the entropy threshold is a comparison of integers, and a well-formed
  social security number at word boundaries is reported whatever surrounds it.
\<close>

section \<open>The Luhn checksum\<close>

lemma luhn_loop_sum: "luhn_loop par i ds c = c + (\<Sum>k < length ds. luhn_term par (i + k) (ds ! k))"
  by (induction ds arbitrary: i c) (simp_all add: sum.lessThan_Suc_shift del: sum.lessThan_Suc)

text \<open>Doubling and casting out nine permutes the digits.\<close>

lemma luhn_term_le: "d \<le> 9 \<Longrightarrow> luhn_term par i d \<le> 9"
  by (auto simp: luhn_term_def)

lemma luhn_term_inj: "d \<le> 9 \<Longrightarrow> e \<le> 9 \<Longrightarrow> luhn_term par i d = luhn_term par i e \<Longrightarrow> d = e"
  by (auto simp: luhn_term_def split: if_splits) presburger+

lemma mod_10_differ:
  fixes a b c :: nat
  assumes "a \<le> 9" and "b \<le> 9" and "a \<noteq> b" and "(c + a) mod 10 = 0"
  shows "(c + b) mod 10 \<noteq> 0"
proof
  assume "(c + b) mod 10 = 0"
  with assms(4) obtain k l where kl: "c + a = 10 * k" "c + b = 10 * l" by (auto elim!: dvdE simp: mod_eq_0_iff_dvd)
  consider "Suc k \<le> l" | "Suc l \<le> k" | "k = l" by linarith
  then show False using kl assms(1-3) by cases linarith+
qed

lemma luhn_single_error:
  assumes "luhn_digits ds" and "i < length ds" and "\<forall>d \<in> set ds. d \<le> 9" and "e \<le> 9" and "e \<noteq> ds ! i"
  shows "\<not> luhn_digits (ds[i := e])"
proof -
  let ?t = "luhn_term (length ds mod 2)"
  define c where "c = (\<Sum>k \<in> {..<length ds} - {i}. ?t k (ds ! k))"
  have sum: "luhn_loop (length ds mod 2) 0 (ds[i := x]) 0 = c + ?t i x" for x
  proof -
    have "luhn_loop (length ds mod 2) 0 (ds[i := x]) 0 = (\<Sum>k < length ds. ?t k (ds[i := x] ! k))"
      by (simp add: luhn_loop_sum)
    also have "\<dots> = ?t i (ds[i := x] ! i) + (\<Sum>k \<in> {..<length ds} - {i}. ?t k (ds[i := x] ! k))"
      using assms(2) by (intro sum.remove) simp_all
    also have "\<dots> = ?t i x + c" using assms(2) by (simp add: c_def)
    finally show ?thesis by simp
  qed
  have d9: "ds ! i \<le> 9" using assms(2,3) by simp
  have "(c + ?t i (ds ! i)) mod 10 = 0" using assms(1) sum [of "ds ! i"] by (simp add: luhn_digits_def)
  moreover have "?t i (ds ! i) \<noteq> ?t i e" using luhn_term_inj [OF d9 assms(4)] assms(5) by metis
  ultimately have "(c + ?t i e) mod 10 \<noteq> 0"
    using mod_10_differ [of "?t i (ds ! i)" "?t i e" c] luhn_term_le [OF d9] luhn_term_le [OF assms(4)] by simp
  then show ?thesis using sum [of e] by (simp add: luhn_digits_def)
qed

text \<open>On the text: one decimal digit replaced by another.\<close>

lemma int_of_digit: "is_decimal c \<Longrightarrow> int_of_digits [c] = Inr (code_of c - 48)"
  by (simp add: int_of_digits_def digits_val_def)

lemma int_of_digits_decimal: "int_of_digits s = Inr n \<Longrightarrow> (\<forall>c \<in> set s. is_decimal c) \<and> n = digits_val s"
  by (simp add: int_of_digits_def split: if_splits)

lemma digits_of_text:
  assumes "emap (\<lambda>c. int_of_digits [c]) cs = Inr ds"
  shows "ds = map (\<lambda>c. code_of c - 48) cs" and "\<forall>c \<in> set cs. is_decimal c" and "\<forall>d \<in> set ds. d \<le> 9"
proof -
  show dec: "\<forall>c \<in> set cs. is_decimal c"
    using emap_Inr_set [OF assms] int_of_digits_decimal by fastforce
  have "emap (\<lambda>c. int_of_digits [c]) cs = Inr (map (\<lambda>c. code_of c - 48) cs)"
    using dec by (intro emap_all_Inr) (simp add: int_of_digit)
  with assms show ds: "ds = map (\<lambda>c. code_of c - 48) cs" by simp
  show "\<forall>d \<in> set ds. d \<le> 9" using dec by (auto simp: ds is_decimal_def)
qed

lemma filter_update:
  assumes "i < length s" and "P (s ! i)" and "P c"
  obtains j where "j < length (filter P s)" and "filter P s ! j = s ! i" and "filter P (s[i := c]) = (filter P s)[j := c]"
proof
  let ?j = "length (filter P (take i s))"
  have s: "s = take i s @ s ! i # drop (Suc i) s" using assms(1) by (rule id_take_nth_drop)
  then have f: "filter P s = filter P (take i s) @ s ! i # filter P (drop (Suc i) s)"
    using assms(2) by (metis filter.simps(2) filter_append)
  show "?j < length (filter P s)" "filter P s ! ?j = s ! i" by (simp_all add: f)
  show "filter P (s[i := c]) = (filter P s)[?j := c]"
    using assms(1,3) by (simp add: f upd_conv_take_nth_drop list_update_append)
qed

lemma luhn_valid_single_error:
  assumes "luhn_valid s = Inr True" and "i < length s" and "is_decimal (s ! i)" and "is_decimal c" and "c \<noteq> s ! i"
  shows "luhn_valid (s[i := c]) = Inr False"
proof -
  obtain ds where ds: "emap (\<lambda>c. int_of_digits [c]) (filter py_isdigit s) = Inr ds"
    and ok: "13 \<le> length ds" "length ds \<le> 19" "luhn_digits ds"
    using assms(1) by (auto simp: luhn_valid_def ebind_eq_Inr)
  note d = digits_of_text [OF ds]
  have "py_isdigit (s ! i)" "py_isdigit c" using assms(3,4) by (simp_all add: py_isdigit_def)
  with assms(2) obtain j where j: "j < length (filter py_isdigit s)" "filter py_isdigit s ! j = s ! i"
    "filter py_isdigit (s[i := c]) = (filter py_isdigit s)[j := c]" by (rule filter_update)
  let ?v = "\<lambda>c. code_of c - (48::nat)"
  have "emap (\<lambda>c. int_of_digits [c]) ((filter py_isdigit s)[j := c]) = Inr (map ?v ((filter py_isdigit s)[j := c]))"
  proof (intro emap_all_Inr int_of_digit)
    fix x assume "x \<in> set ((filter py_isdigit s)[j := c])"
    then have "x \<in> insert c (set (filter py_isdigit s))" using set_update_subset_insert by fast
    with d(2) assms(4) show "is_decimal x" by auto
  qed
  moreover have "map ?v ((filter py_isdigit s)[j := c]) = ds[j := ?v c]" by (simp add: d(1) map_update)
  moreover have "ds ! j \<noteq> ?v c"
  proof
    assume "ds ! j = ?v c"
    then have "code_of (s ! i) - 48 = code_of c - (48::nat)" using j by (simp add: d(1))
    with assms(3,4) have "code_of (s ! i) = (code_of c :: nat)" unfolding is_decimal_def by linarith
    with assms(5) show False by simp
  qed
  then have "\<not> luhn_digits (ds[j := ?v c])"
  proof (intro luhn_single_error [OF ok(3) _ d(3)])
    show "j < length ds" using j(1) by (simp add: d(1))
    show "?v c \<le> 9" using assms(4) unfolding is_decimal_def by linarith
  qed simp
  ultimately show ?thesis by (simp add: luhn_valid_def j(3))
qed

section \<open>The entropy threshold\<close>

lemma sum_count_list: "(\<Sum>c \<in> set t. count_list t c) = length t"
  by (rule sum_count_set) simp_all

lemma log_prod_powers:
  assumes "finite A" and "\<And>c. c \<in> A \<Longrightarrow> 0 < k c"
  shows "log 2 (\<Prod>c \<in> A. real (k c) ^ k c) = (\<Sum>c \<in> A. real (k c) * log 2 (real (k c)))"
  using assms
proof (induction A rule: finite_induct)
  case (insert x F)
  have "0 < (\<Prod>c \<in> F. real (k c) ^ k c)" using insert.prems by (intro prod_pos) auto
  with insert show ?case by (simp add: log_mult log_nat_power)
qed simp

lemma shannon_entropy_log:
  assumes "t \<noteq> []"
  shows "real (length t) * shannon_entropy t =
    log 2 (real (length t) ^ length t) - log 2 (\<Prod>c \<in> set t. real (count_list t c) ^ count_list t c)"
proof -
  let ?n = "real (length t)" and ?k = "\<lambda>c. count_list t c"
  have n: "0 < ?n" using assms by simp
  have k: "0 < ?k c" if "c \<in> set t" for c using that by (metis count_list_0_iff gr0I)
  have "?n * shannon_entropy t = - (\<Sum>c \<in> set t. real (?k c) * log 2 (real (?k c) / ?n))"
    using n by (simp add: shannon_entropy_def sum_distrib_left)
  also have "\<dots> = - (\<Sum>c \<in> set t. real (?k c) * log 2 (real (?k c)) - real (?k c) * log 2 ?n)"
    using n k by (intro arg_cong [of _ _ uminus] sum.cong refl) (simp add: log_divide right_diff_distrib)
  also have "\<dots> = (\<Sum>c \<in> set t. real (?k c)) * log 2 ?n - (\<Sum>c \<in> set t. real (?k c) * log 2 (real (?k c)))"
    by (simp add: sum_subtractf sum_distrib_right)
  also have "(\<Sum>c \<in> set t. real (?k c)) = ?n" using sum_count_list [of t] by (metis of_nat_sum)
  also have "?n * log 2 ?n = log 2 (?n ^ length t)" using n by (simp add: log_nat_power)
  finally show ?thesis using log_prod_powers [of "set t" ?k] k by simp
qed

lemma high_entropy_iff [code]:
  "high_entropy t \<longleftrightarrow> t \<noteq> [] \<and>
     16 ^ length t * prod_list (map (\<lambda>c. count_list t c ^ count_list t c) (remdups t)) \<le> length t ^ length t"
proof (cases "t = []")
  case True
  then show ?thesis by (simp add: high_entropy_def ENTROPY_MIN_BITS_def shannon_entropy_def)
next
  case False
  let ?n = "length t" and ?P = "\<Prod>c \<in> set t. count_list t c ^ count_list t c"
  have n: "0 < real ?n" using False by simp
  have k: "0 < count_list t c" if "c \<in> set t" for c using that by (metis count_list_0_iff gr0I)
  then have "0 < ?P" by (intro prod_pos) simp
  then have P: "0 < real ?P" by (simp only: of_nat_0_less_iff)
  have "high_entropy t \<longleftrightarrow> 4 * real ?n \<le> real ?n * shannon_entropy t"
    using n by (simp add: high_entropy_def ENTROPY_MIN_BITS_def mult.commute)
  also have "4 * real ?n = log 2 (16 ^ ?n)"
  proof -
    have "log 2 (16::real) = 4" using log_pow_cancel [of "2::real" 4] by simp
    then show ?thesis by (simp add: log_nat_power)
  qed
  also have "(\<dots> \<le> real ?n * shannon_entropy t) \<longleftrightarrow> log 2 (16 ^ ?n) + log 2 (real ?P) \<le> log 2 (real ?n ^ ?n)"
    using shannon_entropy_log [OF False] by (auto simp: of_nat_prod)
  also have "\<dots> \<longleftrightarrow> log 2 (16 ^ ?n * real ?P) \<le> log 2 (real ?n ^ ?n)"
    using P by (subst log_mult) (simp_all del: of_nat_prod)
  also have "\<dots> \<longleftrightarrow> 16 ^ ?n * real ?P \<le> real ?n ^ ?n" using n P by (intro log_le_cancel_iff) (simp_all del: of_nat_prod)
  also have "\<dots> \<longleftrightarrow> real (16 ^ ?n * ?P) \<le> real (?n ^ ?n)" by simp
  also have "\<dots> \<longleftrightarrow> 16 ^ ?n * ?P \<le> ?n ^ ?n" by (rule of_nat_le_iff)
  finally show ?thesis using False by (simp add: prod.distinct_set_conv_list [symmetric])
qed

section \<open>Social security numbers\<close>

text \<open>Three, two and four digits with hyphens between, at word boundaries.\<close>

definition ssn_at :: "string \<Rightarrow> nat \<Rightarrow> bool" where
  "ssn_at t p \<longleftrightarrow> p + 11 \<le> length t \<and> (\<forall>i \<in> {0, 1, 2, 4, 5, 7, 8, 9, 10}. is_decimal (t ! (p + i))) \<and>
     t ! (p + 3) = CHR ''-'' \<and> t ! (p + 6) = CHR ''-'' \<and> word_boundary t p \<and> word_boundary t (p + 11)"

lemma runs_SSN:
  "runs SSN_RX t (p, c) = (if ssn_at t p then [(p + 11, (''3'', p + 7, p + 11) # (''2'', p + 4, p + 6) # (''1'', p, p + 3) # c)] else [])"
proof -
  have three: "runs (times_rx 3 digit_rx) t (p, c) =
      (if p + 3 \<le> length t \<and> is_decimal (t ! p) \<and> is_decimal (t ! (p + 1)) \<and> is_decimal (t ! (p + 2)) then [(p + 3, c)] else [])"
    and two: "runs (times_rx 2 digit_rx) t (p, c) =
      (if p + 2 \<le> length t \<and> is_decimal (t ! p) \<and> is_decimal (t ! (p + 1)) then [(p + 2, c)] else [])"
    and four: "runs (times_rx 4 digit_rx) t (p, c) =
      (if p + 4 \<le> length t \<and> is_decimal (t ! p) \<and> is_decimal (t ! (p + 1)) \<and> is_decimal (t ! (p + 2)) \<and> is_decimal (t ! (p + 3))
       then [(p + 4, c)] else [])" for p c
    using runs_times_Cls [of 2 is_decimal t p c] runs_times_Cls [of 1 is_decimal t p c] runs_times_Cls [of 3 is_decimal t p c]
    by (simp_all add: eval_nat_numeral le_Suc_eq all_conj_distrib imp_disjL)
  show ?thesis
    by (simp add: SSN_RX_def seqs_def lit_def three two four ssn_at_def add.commute [of p] del: runs.simps(5))
qed

lemma decimal_word: "is_decimal c \<Longrightarrow> is_word c"
  by (simp add: is_word_def is_alnum_ascii_def Let_def)

lemma decimal_not_hyphen: "\<not> is_decimal CHR ''-''"
  by (simp add: is_decimal_def)

text \<open>Two such numbers never overlap.\<close>

lemma ssn_at_apart:
  assumes "ssn_at t a" and "ssn_at t q" and "a < q"
  shows "a + 11 \<le> q"
proof (rule ccontr)
  assume "\<not> a + 11 \<le> q"
  then obtain k where k: "q = a + k" "0 < k" "k < 11" using assms(3) by (metis less_imp_add_positive not_le nat_add_left_cancel_less)
  have "k \<in> {1..10}" using k(2,3) by simp
  also have "{1..10} = {1, 2, 3, 4, 5, 6, 7, 8, 9, 10 :: nat}" by code_simp
  finally have "k \<in> {1, 2, 3, 4, 5, 6, 7, 8, 9, 10}" .
  moreover have "\<not> word_at t (q - 1)" if "word_at t q"
    using assms(2) k that by (simp add: ssn_at_def word_boundary_def)
  moreover have "word_at t q" using assms(2) by (simp add: ssn_at_def word_at_def decimal_word)
  ultimately show False using assms(1,2) k(1) decimal_not_hyphen
    by (auto simp: ssn_at_def word_at_def decimal_word eval_nat_numeral)
qed

lemma finditer_SSN:
  assumes "ssn_at t p"
  shows "\<lparr>m_start = p, m_end = p + 11, m_groups = [(''3'', p + 7, p + 11), (''2'', p + 4, p + 6), (''1'', p, p + 3)]\<rparr>
    \<in> set (finditer SSN_RX t)"
proof (rule finditer_exact)
  show "runs SSN_RX t (p, []) = (p + 11, [(''3'', p + 7, p + 11), (''2'', p + 4, p + 6), (''1'', p, p + 3)]) # []"
    using assms by (simp add: runs_SSN)
  show "p \<le> length t" using assms by (simp add: ssn_at_def)
  show "b \<le> p" if "(b, hs) \<in> set (runs SSN_RX t (a, []))" "a < p" for a b hs
    using that ssn_at_apart [OF _ assms] by (auto simp: runs_SSN split: if_splits)
qed

section \<open>The built-in detectors never raise\<close>

lemma claims_of_total:
  assumes "\<And>m. m \<in> set ms \<Longrightarrow> isOk (f m)"
  shows "\<exists>ss. claims_of f ms = Inr ss \<and> (\<forall>m s. m \<in> set ms \<longrightarrow> f m = Inr (Some s) \<longrightarrow> s \<in> set ss)"
proof -
  have "emap f ms = Inr (map (projr \<circ> f) ms)"
  proof (rule emap_all_Inr)
    fix m assume "m \<in> set ms"
    from assms [OF this] show "f m = Inr ((projr \<circ> f) m)" by (cases "f m") simp_all
  qed
  then show ?thesis by (force simp: claims_of_def map_filter_id_set)
qed

lemma isOkE: "isOk r \<Longrightarrow> (\<And>x. r = Inr x \<Longrightarrow> P) \<Longrightarrow> P"
  by (cases r) simp_all

lemma claims_of_ok: "(\<And>m. m \<in> set ms \<Longrightarrow> isOk (f m)) \<Longrightarrow> isOk (claims_of f ms)"
  using claims_of_total [of ms f] by auto

lemma ecat_total: "\<forall>r \<in> set rs. isOk r \<Longrightarrow> \<exists>ss. ecat rs = Inr ss \<and> (\<forall>as. Inr as \<in> set rs \<longrightarrow> set as \<subseteq> set ss)"
proof (induction rs)
  case (Cons r rs)
  then obtain as ss where "r = Inr as" "ecat rs = Inr ss" "\<forall>as. Inr as \<in> set rs \<longrightarrow> set as \<subseteq> set ss"
    by (cases r) auto
  then show ?case by auto
qed simp

lemma pii_span_ok: "is_match r t m \<Longrightarrow> consuming r \<Longrightarrow> 0 \<le> c \<Longrightarrow> c \<le> 1 \<Longrightarrow> isOk (claim_if b (pii_span t e m c))"
  using match_range(1) [of r t m] by (simp add: claim_if_def pii_span_def make_span_def)

lemma luhn_valid_total: "\<forall>c \<in> set s. py_isdigit c \<longrightarrow> is_decimal c \<Longrightarrow> isOk (luhn_valid s)"
  using emap_all_Inr [of "filter py_isdigit s" "\<lambda>c. int_of_digits [c]" "\<lambda>c. code_of c - 48"] int_of_digit
  by (simp add: luhn_valid_def)

lemma octets_total: "\<forall>g \<in> set gs. \<forall>c \<in> set g. is_decimal c \<Longrightarrow> isOk (octets_ok gs)"
  by (induction gs) (auto simp: int_of_digits_def)

lemma ssn_claim_total:
  assumes "m \<in> set (finditer SSN_RX t)"
  shows "isOk (ssn_claim t m)"
proof -
  note m = finditer_matches [OF assms]
  have dec: "\<exists>g. group_text t m x = Inr g \<and> g \<noteq> [] \<and> (\<forall>c \<in> set g. is_decimal c)" if "x \<in> {''1'', ''2'', ''3''}" for x
    by (rule match_group_text [OF m]) (use that in \<open>auto simp: SSN_RX_def seqs_def lit_def\<close>)
  obtain g1 where "group_text t m ''1'' = Inr g1" "g1 \<noteq> [] \<and> (\<forall>c \<in> set g1. is_decimal c)" using dec [of "''1''"] by auto
  moreover obtain g2 where "group_text t m ''2'' = Inr g2" "g2 \<noteq> [] \<and> (\<forall>c \<in> set g2. is_decimal c)" using dec [of "''2''"] by auto
  moreover obtain g3 where "group_text t m ''3'' = Inr g3" "g3 \<noteq> [] \<and> (\<forall>c \<in> set g3. is_decimal c)" using dec [of "''3''"] by auto
  ultimately show ?thesis using pii_span_ok [OF m patterns_consume(2)] by (simp add: ssn_claim_def int_of_digits_def)
qed

lemma card_claim_total:
  assumes "m \<in> set (finditer CARD_RX t)"
  shows "isOk (card_claim t m)"
proof -
  note m = finditer_matches [OF assms]
  have "chars_rx (\<lambda>c. py_isdigit c \<longrightarrow> is_decimal c) CARD_RX"
    by (auto simp: CARD_RX_def seqs_def py_isdigit_def)
  then have "isOk (luhn_valid (m_text t m))" using match_text_chars [OF m] by (intro luhn_valid_total) blast
  then show ?thesis using pii_span_ok [OF m patterns_consume(3)]
    by (cases "luhn_valid (m_text t m)") (simp_all add: card_claim_def)
qed

lemma ipv4_claim_total:
  assumes "m \<in> set (finditer IPV4_RX t)"
  shows "isOk (ipv4_claim t m)"
proof -
  note m = finditer_matches [OF assms]
  have dec: "\<exists>g. group_text t m x = Inr g \<and> g \<noteq> [] \<and> (\<forall>c \<in> set g. is_decimal c)" if "x \<in> {''1'', ''2'', ''3'', ''4''}" for x
    by (rule match_group_text [OF m]) (use that in \<open>auto simp: IPV4_RX_def seqs_def lit_def\<close>)
  obtain g1 where g1: "group_text t m ''1'' = Inr g1" "\<forall>c \<in> set g1. is_decimal c" using dec [of "''1''"] by auto
  obtain g2 where g2: "group_text t m ''2'' = Inr g2" "\<forall>c \<in> set g2. is_decimal c" using dec [of "''2''"] by auto
  obtain g3 where g3: "group_text t m ''3'' = Inr g3" "\<forall>c \<in> set g3. is_decimal c" using dec [of "''3''"] by auto
  obtain g4 where g4: "group_text t m ''4'' = Inr g4" "\<forall>c \<in> set g4. is_decimal c" using dec [of "''4''"] by auto
  have "\<forall>g \<in> set [g1, g2, g3, g4]. \<forall>c \<in> set g. is_decimal c" using g1 g2 g3 g4 by simp
  from octets_total [OF this] have "isOk (octets_ok [g1, g2, g3, g4])" .
  moreover have "emap (group_text t m) [''1'', ''2'', ''3'', ''4''] = Inr [g1, g2, g3, g4]"
    using g1 g2 g3 g4 by simp
  ultimately show ?thesis using pii_span_ok [OF m patterns_consume(5)]
    by (cases "octets_ok [g1, g2, g3, g4]") (simp_all add: ipv4_claim_def ipv4_octets_valid_def)
qed

text \<open>
  The PII detector on any text: it returns, and what each pass claims is among what it
  returns unless the allowlist names it.
\<close>

lemma regex_pii_total:
  obtains ss where "regex_pii_detect t ctx = Inr ss"
    and "\<And>m s. m \<in> set (finditer SSN_RX t) \<Longrightarrow> ssn_claim t m = Inr (Some s) \<Longrightarrow> sp_text s \<notin> set (dc_allowlist ctx) \<Longrightarrow> s \<in> set ss"
    and "\<And>m s. m \<in> set (finditer CARD_RX t) \<Longrightarrow> card_claim t m = Inr (Some s) \<Longrightarrow> sp_text s \<notin> set (dc_allowlist ctx) \<Longrightarrow> s \<in> set ss"
proof -
  have email: "isOk (claim_if True (pii_span t ''EMAIL'' m (90 / 100)))" if "m \<in> set (finditer EMAIL_RX t)" for m
    by (rule pii_span_ok [OF finditer_matches [OF that] patterns_consume(1)]) simp_all
  have phone: "isOk (claim_if True (pii_span t ''PHONE'' m (60 / 100)))" if "m \<in> set (finditer PHONE_RX t)" for m
    by (rule pii_span_ok [OF finditer_matches [OF that] patterns_consume(4)]) simp_all
  obtain s1 where s1: "claims_of (\<lambda>m. claim_if True (pii_span t ''EMAIL'' m (90 / 100))) (finditer EMAIL_RX t) = Inr s1"
    by (rule isOkE [OF claims_of_ok [OF email]])
  obtain s2 where s2: "claims_of (ssn_claim t) (finditer SSN_RX t) = Inr s2"
    "\<forall>m s. m \<in> set (finditer SSN_RX t) \<longrightarrow> ssn_claim t m = Inr (Some s) \<longrightarrow> s \<in> set s2"
    using claims_of_total [of "finditer SSN_RX t" "ssn_claim t"] ssn_claim_total by blast
  obtain s3 where s3: "claims_of (card_claim t) (finditer CARD_RX t) = Inr s3"
    "\<forall>m s. m \<in> set (finditer CARD_RX t) \<longrightarrow> card_claim t m = Inr (Some s) \<longrightarrow> s \<in> set s3"
    using claims_of_total [of "finditer CARD_RX t" "card_claim t"] card_claim_total by blast
  obtain s4 where s4: "claims_of (\<lambda>m. claim_if True (pii_span t ''PHONE'' m (60 / 100))) (finditer PHONE_RX t) = Inr s4"
    by (rule isOkE [OF claims_of_ok [OF phone]])
  obtain s5 where s5: "claims_of (ipv4_claim t) (finditer IPV4_RX t) = Inr s5"
    by (rule isOkE [OF claims_of_ok [OF ipv4_claim_total]])
  have "regex_pii_detect t ctx = Inr (not_allowed ctx (s1 @ s2 @ s3 @ s4 @ s5))"
    unfolding regex_pii_detect_def s1 s2(1) s3(1) s4 s5 by simp
  then show thesis by (rule that) (use s2(2) s3(2) in \<open>auto simp: not_allowed_def\<close>)
qed

lemma secret_span_ok: "is_match r t m \<Longrightarrow> consuming r \<Longrightarrow> 0 \<le> c \<Longrightarrow> c \<le> 1 \<Longrightarrow> isOk (whole_claim t e c m)"
  using match_range(1) [of r t m] by (simp add: whole_claim_def claim_if_def secret_span_def make_span_def)

lemma value_claim_ok:
  assumes "is_match r t m" and "binds ''value'' r" and "0 \<le> c" and "c \<le> 1"
  shows "isOk (value_claim t e c m)"
proof -
  obtain a b where ab: "group_range m ''value'' = Inr (a, b)"
    using match_binds [OF assms(1,2)] by (cases "group_range m ''value''") auto
  with match_group(2) [OF assms(1) ab] assms(3,4) show ?thesis
    by (simp add: value_claim_def claim_if_def secret_span_def make_span_def)
qed

lemma provider_confidences: "\<forall>q \<in> set PROVIDER_PATTERNS. 0 \<le> snd (snd q) \<and> snd (snd q) \<le> 1"
  by (simp add: PROVIDER_PATTERNS_def)

lemma groups_bound: "binds ''value'' AWS_SECRET_RX" "binds ''value'' LABELED_RX" "binds ''key'' LABELED_RX"
  by (simp_all add: rx_consumes)

lemma labeled_claim_ok:
  assumes "m \<in> set (finditer LABELED_RX t)"
  shows "isOk (labeled_claim st t m)"
proof -
  note m = finditer_matches [OF assms]
  have "isOk (value_claim t SENSITIVE_FIELD (90 / 100) m)" by (rule value_claim_ok [OF m groups_bound(2)]) simp_all
  moreover have "isOk (group_range m ''key'')" by (rule match_binds [OF m groups_bound(3)])
  ultimately show ?thesis by (cases "group_range m ''key''") (auto simp: labeled_claim_def group_text_def)
qed

lemma provider_claim_ok:
  assumes "(e, r, c) \<in> set PROVIDER_PATTERNS" and "m \<in> set (finditer r t)"
  shows "isOk (whole_claim t e c m)"
proof -
  have "consuming r" "0 \<le> c" "c \<le> 1" using assms(1) patterns_consume(8) provider_confidences by fastforce+
  then show ?thesis by (rule secret_span_ok [OF finditer_matches [OF assms(2)]])
qed

lemma known_secrets_total: "isOk (known_secrets so t)"
proof -
  have prov: "isOk (claims_of (whole_claim t e c) (finditer r t))" if "(e, r, c) \<in> set PROVIDER_PATTERNS" for e r c
    by (rule claims_of_ok) (rule provider_claim_ok [OF that])
  have priv: "isOk (claims_of (whole_claim t ''PRIVATE_KEY'' (99 / 100)) (finditer PRIVATE_KEY_RX t))"
    by (rule claims_of_ok, rule secret_span_ok [OF finditer_matches patterns_consume(6)]) simp_all
  have aws: "isOk (claims_of (value_claim t ''AWS_SECRET_ACCESS_KEY'' (95 / 100)) (finditer AWS_SECRET_RX t))"
    by (rule claims_of_ok, rule value_claim_ok [OF finditer_matches groups_bound(1)]) simp_all
  have lab: "isOk (claims_of (labeled_claim (so_structured so) t) (finditer LABELED_RX t))"
    by (rule claims_of_ok) (rule labeled_claim_ok)
  let ?rs = "map (\<lambda>(e, r, c). claims_of (whole_claim t e c) (finditer r t)) PROVIDER_PATTERNS @
    [claims_of (whole_claim t ''PRIVATE_KEY'' (99 / 100)) (finditer PRIVATE_KEY_RX t),
     claims_of (value_claim t ''AWS_SECRET_ACCESS_KEY'' (95 / 100)) (finditer AWS_SECRET_RX t),
     if so_labeled so then claims_of (labeled_claim (so_structured so) t) (finditer LABELED_RX t) else Inr []]"
  have "\<forall>r \<in> set ?rs. isOk r" using prov priv aws lab by auto
  from ecat_total [OF this] show ?thesis unfolding known_secrets_def by auto
qed

lemma secrets_total: "isOk (secrets_detect so t ctx)"
proof -
  obtain spans where spans: "known_secrets so t = Inr spans" by (rule isOkE [OF known_secrets_total])
  let ?f = "entropy_claim t (map (\<lambda>s. (sp_start s, sp_end s)) spans)"
  have "isOk (?f m)" if "m \<in> set (finditer ENTROPY_CANDIDATE_RX t)" for m
    using match_range(1) [OF finditer_matches [OF that] patterns_consume(7)]
    by (simp add: entropy_claim_def claim_if_def secret_span_def make_span_def)
  then obtain gen where "claims_of ?f (finditer ENTROPY_CANDIDATE_RX t) = Inr gen" by (rule isOkE [OF claims_of_ok])
  then show ?thesis by (simp add: secrets_detect_def spans)
qed

lemma known_secret_names:
  assumes "known_secrets so t = Inr spans" and "x \<in> set spans"
  shows "sp_entity x \<noteq> ''GENERIC_SECRET''"
proof -
  have val: "sp_entity x = e" if "value_claim t e c m = Inr (Some x)" for e c m
    using that by (auto simp: value_claim_def claim_if_Some secret_span_def make_span_Inr ebind_eq_Inr)
  have whole: "sp_entity x = e" if "whole_claim t e c m = Inr (Some x)" for e c m
    using that by (auto simp: whole_claim_def claim_if_Some secret_span_def make_span_Inr)
  from assms show ?thesis
  proof (cases rule: known_secrets_cases)
    case (provider e r c m)
    have "\<forall>q \<in> set PROVIDER_PATTERNS. fst q \<noteq> ''GENERIC_SECRET''" by (simp add: PROVIDER_PATTERNS_def)
    with provider whole show ?thesis by fastforce
  next
    case (pem m)
    with whole show ?thesis by fastforce
  next
    case (aws m)
    with val show ?thesis by fastforce
  next
    case (labeled m)
    then have "value_claim t SENSITIVE_FIELD (90 / 100) m = Inr (Some x)"
      by (auto simp: labeled_claim_def ebind_eq_Inr split: if_splits)
    with val show ?thesis by (fastforce simp: SENSITIVE_FIELD_def)
  qed
qed

text \<open>A generic secret is only reported where no secret of a known shape is.\<close>

lemma generic_secrets_apart:
  assumes "secrets_detect so t ctx = Inr ss" and "s \<in> set ss" and "sp_entity s = ''GENERIC_SECRET''"
    and "k \<in> set ss" and "sp_entity k \<noteq> ''GENERIC_SECRET''"
  shows "\<not> overlaps s k"
proof -
  obtain spans gen where spans: "known_secrets so t = Inr spans"
    and gen: "(if so_high_entropy so then claims_of (entropy_claim t (map (\<lambda>s. (sp_start s, sp_end s)) spans))
      (finditer ENTROPY_CANDIDATE_RX t) else Inr []) = Inr gen" and ss: "ss = not_allowed ctx (spans @ gen)"
    using assms(1) by (auto simp: secrets_detect_def ebind_eq_Inr)
  have g: "sp_entity x = ''GENERIC_SECRET'' \<and> \<not> covered (sp_start x) (sp_end x) (map (\<lambda>s. (sp_start s, sp_end s)) spans)"
    if "x \<in> set gen" for x
    using gen that by (cases "so_high_entropy so")
      (auto elim!: claims_of_Inr simp: entropy_claim_def claim_if_Some secret_span_def make_span_Inr split: if_splits)
  have "s \<in> set gen" "k \<in> set spans"
    using assms(2-5) known_secret_names [OF spans] g by (auto simp: ss not_allowed_def)
  with g [of s] show ?thesis by (auto simp: covered_def overlaps_def)
qed

text \<open>Allowlisted text is never reported.\<close>

lemma allowlisted_not_reported:
  "regex_pii_detect t ctx = Inr ss \<Longrightarrow> s \<in> set ss \<Longrightarrow> sp_text s \<notin> set (dc_allowlist ctx)"
  "secrets_detect so t ctx = Inr ss \<Longrightarrow> s \<in> set ss \<Longrightarrow> sp_text s \<notin> set (dc_allowlist ctx)"
  by (auto simp: regex_pii_detect_def secrets_detect_def ebind_eq_Inr not_allowed_def)

text \<open>Every claim went through the constructor of a span, so its confidence is one.\<close>

lemma claims_confident:
  "claim_if b (make_span e i j c d x) = Inr (Some s) \<Longrightarrow> 0 \<le> sp_confidence s \<and> sp_confidence s \<le> 1"
  by (auto simp: claim_if_Some make_span_Inr)

lemma regex_pii_confident:
  assumes "regex_pii_detect t ctx = Inr ss" and "s \<in> set ss"
  shows "0 \<le> sp_confidence s \<and> sp_confidence s \<le> 1"
proof -
  obtain spans where spans: "ecat
       [claims_of (\<lambda>m. claim_if True (pii_span t ''EMAIL'' m (90 / 100))) (finditer EMAIL_RX t),
        claims_of (ssn_claim t) (finditer SSN_RX t),
        claims_of (card_claim t) (finditer CARD_RX t),
        claims_of (\<lambda>m. claim_if True (pii_span t ''PHONE'' m (60 / 100))) (finditer PHONE_RX t),
        claims_of (ipv4_claim t) (finditer IPV4_RX t)] = Inr spans" "s \<in> set spans"
    using assms by (auto simp: regex_pii_detect_def ebind_eq_Inr not_allowed_def simp del: ecat.simps)
  from ecat_Inr [OF this] obtain as where as: "s \<in> set as"
    and "claims_of (\<lambda>m. claim_if True (pii_span t ''EMAIL'' m (90 / 100))) (finditer EMAIL_RX t) = Inr as \<or>
      claims_of (ssn_claim t) (finditer SSN_RX t) = Inr as \<or>
      claims_of (card_claim t) (finditer CARD_RX t) = Inr as \<or>
      claims_of (\<lambda>m. claim_if True (pii_span t ''PHONE'' m (60 / 100))) (finditer PHONE_RX t) = Inr as \<or>
      claims_of (ipv4_claim t) (finditer IPV4_RX t) = Inr as" by auto
  then obtain m where "claim_if True (pii_span t ''EMAIL'' m (90 / 100)) = Inr (Some s) \<or> ssn_claim t m = Inr (Some s) \<or>
      card_claim t m = Inr (Some s) \<or> claim_if True (pii_span t ''PHONE'' m (60 / 100)) = Inr (Some s) \<or>
      ipv4_claim t m = Inr (Some s)" by (metis (no_types, lifting) claims_of_Inr)
  then show ?thesis
    by (auto simp: pii_span_def ssn_claim_def card_claim_def ipv4_claim_def ebind_eq_Inr simp del: emap.simps dest: claims_confident)
qed

lemma secrets_confident:
  assumes "secrets_detect so t ctx = Inr ss" and "s \<in> set ss"
  shows "0 \<le> sp_confidence s \<and> sp_confidence s \<le> 1"
proof -
  have claim: "0 \<le> sp_confidence s \<and> sp_confidence s \<le> 1"
    if "whole_claim t e c m = Inr (Some s) \<or> value_claim t e c m = Inr (Some s) \<or> labeled_claim st t m = Inr (Some s) \<or>
      entropy_claim t cl m = Inr (Some s)" for e c m st cl
    using that by (auto simp: whole_claim_def value_claim_def labeled_claim_def entropy_claim_def secret_span_def
        ebind_eq_Inr split: if_splits dest: claims_confident)
  obtain spans gen where spans: "known_secrets so t = Inr spans"
    and gen: "(if so_high_entropy so then claims_of (entropy_claim t (map (\<lambda>s. (sp_start s, sp_end s)) spans))
      (finditer ENTROPY_CANDIDATE_RX t) else Inr []) = Inr gen" and ss: "ss = not_allowed ctx (spans @ gen)"
    using assms(1) by (auto simp: secrets_detect_def ebind_eq_Inr)
  consider "s \<in> set spans" | "s \<in> set gen" using assms(2) by (auto simp: ss not_allowed_def)
  then show ?thesis
  proof cases
    case 1
    with spans show ?thesis by (cases rule: known_secrets_cases) (use claim in blast)+
  next
    case 2
    with gen show ?thesis by (auto split: if_splits elim!: claims_of_Inr dest!: claim [OF disjI2, OF disjI2, OF disjI2])
  qed
qed

text \<open>A valid social security number at word boundaries is reported, whatever surrounds it.\<close>

lemma ssn_reported:
  assumes "ssn_at t p" and "ssn_valid (digits_val (slice t p (p + 3))) (digits_val (slice t (p + 4) (p + 6))) (digits_val (slice t (p + 7) (p + 11)))"
    and "slice t p (p + 11) \<notin> set (dc_allowlist ctx)"
  shows "\<exists>ss. regex_pii_detect t ctx = Inr ss \<and>
    \<lparr>sp_entity = ''SSN'', sp_start = p, sp_end = p + 11, sp_confidence = 95 / 100, sp_detector = ''regex_pii'',
      sp_text = slice t p (p + 11)\<rparr> \<in> set ss"
proof -
  let ?m = "\<lparr>m_start = p, m_end = p + 11, m_groups = [(''3'', p + 7, p + 11), (''2'', p + 4, p + 6), (''1'', p, p + 3)]\<rparr>"
  let ?s = "\<lparr>sp_entity = ''SSN'', sp_start = p, sp_end = p + 11, sp_confidence = 95 / 100, sp_detector = ''regex_pii'',
      sp_text = slice t p (p + 11)\<rparr>"
  have dec: "int_of_digits (slice t a b) = Inr (digits_val (slice t a b))"
    if "a < b" "b \<le> length t" "\<forall>i. a \<le> i \<longrightarrow> i < b \<longrightarrow> is_decimal (t ! i)" for a b
    using that by (auto simp: int_of_digits_def slice_def in_set_conv_nth)
  have len: "p + 11 \<le> length t" using assms(1) by (simp add: ssn_at_def)
  have d: "\<forall>i. p \<le> i \<longrightarrow> i < p + 3 \<longrightarrow> is_decimal (t ! i)" "\<forall>i. p + 4 \<le> i \<longrightarrow> i < p + 6 \<longrightarrow> is_decimal (t ! i)"
    "\<forall>i. p + 7 \<le> i \<longrightarrow> i < p + 11 \<longrightarrow> is_decimal (t ! i)"
    using assms(1) unfolding ssn_at_def by (auto simp: less_Suc_eq le_less numeral_eq_Suc)
  have "ssn_claim t ?m = Inr (Some ?s)"
    using assms(2) len by (simp add: ssn_claim_def group_text_def group_range_def dec d claim_if_def pii_span_def make_span_def m_text_def)
  with regex_pii_total [of t ctx] finditer_SSN [OF assms(1)] assms(3) show ?thesis by (metis span.select_convs(6))
qed

end
