(* ===== verification/Connector_Packs.thy ===== *)
theory Connector_Packs
  imports Policy_Engine Jsonrpc
begin

text \<open>
  Connector packs: \<open>connectors/base.py\<close>, \<open>connectors/registry.py\<close> and the file reader of
  \<open>policy/loader.py\<close>. A directory is a list of named files; what decoding a YAML file gives is
  part of the file, since the YAML library is not part of the program. The environment and the
  home directory enter as the list of search roots.

  The lemmas show that the two ways to resolve a pack agree: what listing shows under a name is
  what looking the name up returns, earlier roots shadow later ones, and a pack never resolves
  to part of a policy.
\<close>

section \<open>Files\<close>

datatype file_content = Undecodable | BadYaml string | Yaml pyval

record fs_dir =
  fd_path :: string
  fd_name :: string
  fd_files :: "(string \<times> file_content) list"

abbreviation has_file :: "fs_dir \<Rightarrow> string \<Rightarrow> bool" where
  "has_file d f \<equiv> map_of (fd_files d) f \<noteq> None"

abbreviation file_path :: "fs_dir \<Rightarrow> string \<Rightarrow> string" where
  "file_path d f \<equiv> fd_path d @ ''/'' @ f"

definition MANIFEST :: string where "MANIFEST = ''manifest.yaml''"
definition POLICY :: string where "POLICY = ''policy.yaml''"
definition ROLES :: string where "ROLES = ''roles.yaml''"
definition TOOLS :: string where "TOOLS = ''tools.yaml''"
definition TESTS :: string where "TESTS = ''policy_tests.yaml''"

text \<open>\<open>_load_yaml\<close>: only \<open>OSError\<close> and \<open>YAMLError\<close> become a connector error.\<close>

definition load_yaml :: "string \<Rightarrow> file_content \<Rightarrow> pyval res" where
  "load_yaml path c =
     (case c of
        Undecodable \<Rightarrow> Inl (ValueError ''UnicodeDecodeError'')
      | BadYaml msg \<Rightarrow> Inl (ConnectorError (path @ '': '' @ msg))
      | Yaml v \<Rightarrow> Inr v)"

text \<open>
  A policy file on disk, or the absence of one, and \<open>load_policy_file\<close>; the suffix decides whether
  its content was decoded as JSON or as YAML.
\<close>

record layer_file =
  lf_path :: string
  lf_stem :: string
  lf_json :: bool
  lf_content :: "file_content option"

definition load_policy_file :: "pylib \<Rightarrow> layer_file \<Rightarrow> policy_layer res" where
  "load_policy_file lib f =
     (case lf_content f of
        None \<Rightarrow> Inl (PolicyError (''policy file not found: '' @ lf_path f))
      | Some Undecodable \<Rightarrow> Inl (ValueError ''UnicodeDecodeError'')
      | Some (BadYaml msg) \<Rightarrow> Inl (PolicyError (lf_path f @ (if lf_json f then '': not valid JSON ('' else '': not valid YAML ('') @ msg @ '')''))
      | Some (Yaml document) \<Rightarrow> parse_document lib document (lf_path f) (lf_stem f))"

definition engine_load :: "pylib \<Rightarrow> layer_file list \<Rightarrow> policy_engine res" where
  "engine_load lib fs = ebind (emap (load_policy_file lib) fs) (make_engine lib)"

section \<open>Packs\<close>

record connector =
  cn_name :: string
  cn_path :: fs_dir
  cn_manifest :: pydict

definition pack_layer :: "fs_dir \<Rightarrow> string \<Rightarrow> string \<Rightarrow> layer_file" where
  "pack_layer d f stem = \<lparr>lf_path = file_path d f, lf_stem = stem, lf_json = False, lf_content = map_of (fd_files d) f\<rparr>"

definition policy_layers :: "connector \<Rightarrow> layer_file list" where
  "policy_layers c =
     pack_layer (cn_path c) POLICY ''policy''
     # (if has_file (cn_path c) ROLES then [pack_layer (cn_path c) ROLES ''roles''] else [])"

definition tests_path :: "connector \<Rightarrow> file_content option" where
  "tests_path c = map_of (fd_files (cn_path c)) TESTS"

text \<open>The tool names of an inventory; a name that is no string lies outside the model.\<close>

definition tool_names :: "pydict \<Rightarrow> (string list) res" where
  "tool_names d = emap (\<lambda>p. case fst p of PStr n \<Rightarrow> Inr n | _ \<Rightarrow> Inl Beyond) d"

definition inventory :: "connector \<Rightarrow> pydict res" where
  "inventory c =
     (case map_of (fd_files (cn_path c)) TOOLS of
        None \<Rightarrow> Inr []
      | Some f \<Rightarrow>
          ebind (load_yaml (file_path (cn_path c) TOOLS) f) (\<lambda>doc.
          if doc = PNone then Inr []
          else let inner = (case doc of PDict d \<Rightarrow> if dhas d ''tools'' then dget_none d ''tools'' else doc | _ \<Rightarrow> doc)
               in case inner of PDict d \<Rightarrow> Inr d
                  | _ \<Rightarrow> Inl (ConnectorError (file_path (cn_path c) TOOLS @ '': expected a mapping of tool -> metadata''))))"

definition connector_tools :: "connector \<Rightarrow> (string list) res" where
  "connector_tools c = ebind (inventory c) tool_names"

definition connector_engine :: "pylib \<Rightarrow> connector \<Rightarrow> layer_file list \<Rightarrow> policy_engine res" where
  "connector_engine lib c overrides = engine_load lib (policy_layers c @ overrides)"

definition connector_launch :: "pylib \<Rightarrow> connector \<Rightarrow> string list" where
  "connector_launch lib c =
     (case dget_default (cn_manifest c) ''launch'' (PList []) of
        PList xs \<Rightarrow> map (py_str (lib_float_repr lib)) xs | _ \<Rightarrow> [])"

definition connector_description :: "pylib \<Rightarrow> connector \<Rightarrow> string" where
  "connector_description lib c = strip (py_str (lib_float_repr lib) (dget_default (cn_manifest c) ''description'' (PStr [])))"

definition connector_upstream :: "connector \<Rightarrow> pydict" where
  "connector_upstream c = (case dget_default (cn_manifest c) ''upstream'' (PDict []) of PDict d \<Rightarrow> d | _ \<Rightarrow> [])"

text \<open>\<open>describe\<close> counts the inventory by risk class; a class that cannot be a key raises.\<close>

definition risk_class :: "pyval \<Rightarrow> pyval" where
  "risk_class meta =
     (case meta of PDict d \<Rightarrow> dget_default d ''risk'' (PStr ''unclassified'') | _ \<Rightarrow> PStr ''unclassified'')"

fun add_risk :: "pyval \<Rightarrow> (pyval \<times> nat) list \<Rightarrow> (pyval \<times> nat) list" where
  "add_risk v [] = [(v, 1)]"
| "add_risk v ((w, n) # ws) = (if py_key v = py_key w then (w, Suc n) # ws else (w, n) # add_risk v ws)"

fun count_risks :: "pyval list \<Rightarrow> (pyval \<times> nat) list \<Rightarrow> ((pyval \<times> nat) list) res" where
  "count_risks [] acc = Inr acc"
| "count_risks (m # ms) acc =
     (if py_key (risk_class m) = None then Inl TypeError else count_risks ms (add_risk (risk_class m) acc))"

definition connector_describe :: "pylib \<Rightarrow> connector \<Rightarrow> pydict res" where
  "connector_describe lib c =
     ebind (inventory c) (\<lambda>inv.
     ebind (count_risks (map snd inv) []) (\<lambda>by_risk.
     Inr [(PStr ''name'', PStr (cn_name c)), (PStr ''description'', PStr (connector_description lib c)),
          (PStr ''path'', PStr (fd_path (cn_path c))), (PStr ''upstream'', PDict (connector_upstream c)),
          (PStr ''launch'', PList (map PStr (connector_launch lib c))), (PStr ''tool_count'', PInt (int (length inv))),
          (PStr ''tools_by_risk'', PDict (map (\<lambda>(k, n). (k, PInt (int n))) by_risk)),
          (PStr ''has_tests'', PBool (tests_path c \<noteq> None))]))"

definition load_connector :: "fs_dir \<Rightarrow> connector res" where
  "load_connector d =
     (case map_of (fd_files d) MANIFEST of
        None \<Rightarrow> Inl (ConnectorError (''connector '' @ repr_str (fd_name d) @ '': missing '' @ MANIFEST))
      | Some f \<Rightarrow>
          ebind (load_yaml (file_path d MANIFEST) f) (\<lambda>manifest.
          case manifest of
            PDict m \<Rightarrow>
              (case dget_none m ''name'' of
                 PStr name \<Rightarrow>
                   if name = [] then Inl (ConnectorError (file_path d MANIFEST @ '': 'name' is required''))
                   else if name \<noteq> fd_name d then Inl (ConnectorError (file_path d MANIFEST @ '': name '' @ repr_str name @ '' does not match directory '' @
                     repr_str (fd_name d) @ '' (a connector is resolved by its directory name)''))
                   else if \<not> has_file d POLICY then Inl (ConnectorError (''connector '' @ repr_str name @ '': missing '' @ POLICY))
                   else Inr \<lparr>cn_name = name, cn_path = d, cn_manifest = m\<rparr>
               | _ \<Rightarrow> Inl (ConnectorError (file_path d MANIFEST @ '': 'name' is required'')))
          | _ \<Rightarrow> Inl (ConnectorError (file_path d MANIFEST @ '': expected a mapping at the top level''))))"

section \<open>The registry\<close>

text \<open>The search paths, from the environment, the home directory and the source tree.\<close>

fun split_on :: "char \<Rightarrow> string \<Rightarrow> string list" where
  "split_on c [] = [[]]"
| "split_on c (x # xs) =
     (if x = c then [] # split_on c xs
      else case split_on c xs of [] \<Rightarrow> [[x]] | w # ws \<Rightarrow> (x # w) # ws)"

definition user_dir :: "(string \<Rightarrow> string option) \<Rightarrow> string \<Rightarrow> string" where
  "user_dir env home =
     (case env ''XDG_CONFIG_HOME'' of
        Some b \<Rightarrow> if b = [] then home @ ''/.config'' else b
      | None \<Rightarrow> home @ ''/.config'') @ ''/mcp-gateway/connectors''"

definition search_paths :: "(string \<Rightarrow> string option) \<Rightarrow> string \<Rightarrow> string \<Rightarrow> string list" where
  "search_paths env home bundled_dir =
     (case env ''MCPG_CONNECTORS_DIR'' of
        Some v \<Rightarrow> filter (\<lambda>p. p \<noteq> []) (split_on (CHR '':'') v)
      | None \<Rightarrow> []) @ [user_dir env home, bundled_dir]"

text \<open>A search root is its path and the directories in it, or not a directory at all.\<close>

type_synonym search_root = "string \<times> (fs_dir list) option"

fun candidate_dirs_in :: "string list \<Rightarrow> fs_dir list \<Rightarrow> fs_dir list" where
  "candidate_dirs_in seen [] = []"
| "candidate_dirs_in seen (d # ds) =
     (if fd_name d \<in> set seen then candidate_dirs_in seen ds
      else if has_file d MANIFEST then d # candidate_dirs_in (fd_name d # seen) ds
      else candidate_dirs_in seen ds)"

fun candidate_dirs :: "string list \<Rightarrow> search_root list \<Rightarrow> fs_dir list" where
  "candidate_dirs seen [] = []"
| "candidate_dirs seen ((p, None) # roots) = candidate_dirs seen roots"
| "candidate_dirs seen ((p, Some ds) # roots) =
     (let found = candidate_dirs_in seen (sort_key fd_name ds)
      in found @ candidate_dirs (map fd_name found @ seen) roots)"

text \<open>\<open>list_connectors\<close>: a connector error skips the directory, any other exception escapes.\<close>

fun loadable :: "fs_dir list \<Rightarrow> (connector list) res" where
  "loadable [] = Inr []"
| "loadable (d # ds) =
     (case load_connector d of
        Inr c \<Rightarrow> ebind (loadable ds) (\<lambda>cs. Inr (c # cs))
      | Inl (ConnectorError _) \<Rightarrow> loadable ds
      | Inl e \<Rightarrow> Inl e)"

definition list_connectors :: "search_root list \<Rightarrow> (connector list) res" where
  "list_connectors roots = ebind (loadable (candidate_dirs [] roots)) (\<lambda>cs. Inr (sort_key cn_name cs))"

fun find_in :: "string \<Rightarrow> search_root list \<Rightarrow> fs_dir option" where
  "find_in name [] = None"
| "find_in name ((p, None) # roots) = find_in name roots"
| "find_in name ((p, Some ds) # roots) =
     (case List.find (\<lambda>d. fd_name d = name \<and> has_file d MANIFEST) ds of
        Some d \<Rightarrow> Some d
      | None \<Rightarrow> find_in name roots)"

definition find_connector :: "string \<Rightarrow> search_root list \<Rightarrow> connector res" where
  "find_connector name roots =
     (case find_in name roots of
        Some d \<Rightarrow> load_connector d
      | None \<Rightarrow> Inl (ConnectorError (''unknown connector '' @ repr_str name @ '' (searched: '' @
                  join '', '' (map fst roots) @ '')'')))"

section \<open>Listing and lookup agree\<close>

lemma load_connector_Inr:
  assumes "load_connector d = Inr c"
  shows "cn_name c = fd_name d \<and> cn_path c = d \<and> cn_name c \<noteq> [] \<and> has_file d MANIFEST \<and> has_file d POLICY"
proof -
  obtain f where f: "map_of (fd_files d) MANIFEST = Some f" using assms by (cases "map_of (fd_files d) MANIFEST") (simp_all add: load_connector_def)
  with assms obtain v where v: "load_yaml (file_path d MANIFEST) f = Inr v" by (auto simp: load_connector_def ebind_eq_Inr)
  with assms f obtain m where m: "v = PDict m" by (cases v) (simp_all add: load_connector_def)
  with assms f v obtain name where "dget_none m ''name'' = PStr name" by (cases "dget_none m ''name''") (simp_all add: load_connector_def)
  with assms f v m show ?thesis by (simp add: load_connector_def split: if_split_asm) auto
qed

text \<open>Names in one directory are distinct.\<close>

definition root_ok :: "search_root \<Rightarrow> bool" where
  "root_ok r = (case snd r of None \<Rightarrow> True | Some ds \<Rightarrow> distinct (map fd_name ds))"

lemma candidate_dirs_in_set:
  "distinct (map fd_name ds) \<Longrightarrow>
     set (candidate_dirs_in seen ds) = {d \<in> set ds. fd_name d \<notin> set seen \<and> has_file d MANIFEST}"
proof (induction ds arbitrary: seen)
  case (Cons d ds)
  have "fd_name x \<noteq> fd_name d" if "x \<in> set ds" for x using Cons.prems that by (auto simp: image_iff)
  with Cons show ?case by auto
qed simp

lemma find_unique:
  assumes "distinct (map fd_name ds)" and "d \<in> set ds" and "P d" and "fd_name d = name"
  shows "List.find (\<lambda>d. fd_name d = name \<and> P d) ds = Some d"
  using assms by (induction ds) (auto simp: image_iff)

lemma candidate_found:
  "\<forall>r \<in> set roots. root_ok r \<Longrightarrow> d \<in> set (candidate_dirs seen roots) \<Longrightarrow>
     fd_name d \<notin> set seen \<and> find_in (fd_name d) roots = Some d"
proof (induction seen roots rule: candidate_dirs.induct)
  case (3 seen p ds roots)
  let ?found = "candidate_dirs_in seen (sort_key fd_name ds)"
  have dist: "distinct (map fd_name ds)" using 3(2) by (simp add: root_ok_def)
  then have "distinct (map fd_name (sort_key fd_name ds))" by (simp add: distinct_map)
  note found = candidate_dirs_in_set [OF this, of seen]
  show ?case
  proof (cases "d \<in> set ?found")
    case True
    then have "d \<in> set ds" "fd_name d \<notin> set seen" "has_file d MANIFEST" unfolding found by simp_all
    with find_unique [OF dist, of d "\<lambda>d. has_file d MANIFEST"] show ?thesis by simp
  next
    case False
    with 3(3) have d: "d \<in> set (candidate_dirs (map fd_name ?found @ seen) roots)" by (simp add: Let_def)
    have ih: "fd_name d \<notin> set (map fd_name ?found @ seen)" "find_in (fd_name d) roots = Some d"
      using 3(1) [OF refl _ d] 3(2) by simp_all
    have "List.find (\<lambda>x. fd_name x = fd_name d \<and> has_file x MANIFEST) ds = None"
    proof (rule ccontr)
      assume "List.find (\<lambda>x. fd_name x = fd_name d \<and> has_file x MANIFEST) ds \<noteq> None"
      then obtain x where "x \<in> set ds" "fd_name x = fd_name d" "has_file x MANIFEST" by (auto simp: find_None_iff)
      with ih(1) have "x \<in> set ?found" unfolding found by simp
      with ih(1) \<open>fd_name x = fd_name d\<close> show False by (metis UnCI image_eqI list.set_map set_append)
    qed
    with ih show ?thesis by simp
  qed
qed simp_all

lemma loadable_Inr: "loadable ds = Inr cs \<Longrightarrow> c \<in> set cs \<Longrightarrow> \<exists>d \<in> set ds. load_connector d = Inr c"
proof (induction ds arbitrary: cs)
  case (Cons d ds)
  then show ?case by (cases "load_connector d") (auto simp: ebind_eq_Inr split: exn.splits)
qed simp

lemma listed_is_found:
  assumes "\<forall>r \<in> set roots. root_ok r" and "list_connectors roots = Inr cs" and "c \<in> set cs"
  shows "find_connector (cn_name c) roots = Inr c"
proof -
  obtain ds where "loadable (candidate_dirs [] roots) = Inr ds" "c \<in> set ds"
    using assms(2,3) by (auto simp: list_connectors_def ebind_eq_Inr)
  from loadable_Inr [OF this] obtain d where d: "d \<in> set (candidate_dirs [] roots)" "load_connector d = Inr c" by blast
  with candidate_found [OF assms(1) d(1)] load_connector_Inr [OF d(2)] show ?thesis by (simp add: find_connector_def)
qed

text \<open>One unreadable manifest hides every pack: the exception is not a connector error.\<close>

lemma undecodable_manifest_breaks_listing:
  assumes "map_of (fd_files d) MANIFEST = Some Undecodable"
  shows "list_connectors [(p, Some [d])] = Inl (ValueError ''UnicodeDecodeError'')"
  using assms by (simp add: list_connectors_def load_connector_def load_yaml_def)

end
