(* ===== verification/Policy_Golden.thy ===== *)
theory Policy_Golden
  imports Connector_Packs Gateway "HOL-Library.Sublist" "HOL-Library.Char_ord" "HOL-Library.List_Lexorder"
begin

text \<open>
  \<open>policy/testing.py\<close>: golden decision tests. A case is run through the policy, constraints and
  action stages (the session gate and the sequence stage depend on session state and are left
  out by the harness) with the handlers of a gateway that has a redaction service and no
  approver; the world, which holds the service, passes from case to case. A case whose tool,
  role or arguments have another type than the gateway's lies outside the model.

  The lemmas tie the harness to enforcement: on a session that is neither suspended nor gated
  by a sequence rule, the gateway's own pipeline decides every call as the harness does.
\<close>

section \<open>The harness\<close>

record golden_result =
  gr_name :: pyval
  gr_failures :: "string list"

definition gr_passed :: "golden_result \<Rightarrow> bool" where
  "gr_passed r = (gr_failures r = [])"

definition EXPECT_FIELDS :: "string list" where
  "EXPECT_FIELDS = [''outcome'', ''action'', ''stage'', ''reason_contains'', ''disposition'', ''rewritten'']"

text \<open>The errors the YAML library raises are not gateway errors and pass through.\<close>

definition load_tests_file :: "string \<Rightarrow> file_content option \<Rightarrow> (pyval list) res" where
  "load_tests_file path c =
     (case c of
        None \<Rightarrow> Inl (PolicyError (''tests file not found: '' @ path))
      | Some Undecodable \<Rightarrow> Inl (ValueError ''UnicodeDecodeError'')
      | Some (BadYaml msg) \<Rightarrow> Inl (OtherError msg)
      | Some (Yaml document) \<Rightarrow>
          (case document of
             PDict d \<Rightarrow>
               (case dget_none d ''tests'' of
                  PList xs \<Rightarrow> Inr xs
                | _ \<Rightarrow> Inl (PolicyError (path @ '': expected a top-level 'tests' list'')))
           | _ \<Rightarrow> Inl (PolicyError (path @ '': expected a top-level 'tests' list''))))"

definition golden_stages :: "env \<Rightarrow> policy_engine \<Rightarrow> handlers \<Rightarrow> stage list" where
  "golden_stages ev pe hs =
     [(''policy'', policy_handle pe), (''constraints'', constraints_handle ev), (''action'', action_handle ev hs)]"

text \<open>The call a case describes: its tool, the roles of its principal, its arguments.\<close>

definition case_roles :: "pyval \<Rightarrow> (string list) res" where
  "case_roles role =
     (if \<not> truthy role then Inr [] else case role of PStr r \<Rightarrow> Inr [r] | _ \<Rightarrow> Inl Beyond)"

definition case_context :: "string \<Rightarrow> string \<Rightarrow> pydict \<Rightarrow> call_context res" where
  "case_context sid now d =
     (case (dget_none d ''tool'', dget_default d ''arguments'' (PDict [])) of
        (PStr tool, PDict args) \<Rightarrow>
          ebind (case_roles (dget_none d ''role'')) (\<lambda>roles.
          Inr (make_call_context (session_new sid now)
                [(PStr ''jsonrpc'', PStr ''2.0''), (PStr ''id'', PInt 0), (PStr ''method'', PStr ''tools/call''),
                 (PStr ''params'', PDict [(PStr ''name'', PStr tool), (PStr ''arguments'', PDict args)])]
                tool args \<lparr>pn_id = ''golden'', pn_roles = roles\<rparr>))
      | _ \<Rightarrow> Inl Beyond)"

definition outcome_word :: "outcome \<Rightarrow> string" where
  "outcome_word oc = (if denied oc then ''deny'' else ''allow'')"

definition decided :: "call_context \<Rightarrow> pyval" where
  "decided ctx = (case cx_decision ctx of None \<Rightarrow> PNone | Some d \<Rightarrow> d_action d)"

definition check_outcome :: "env \<Rightarrow> pydict \<Rightarrow> outcome \<Rightarrow> string list" where
  "check_outcome ev expect oc =
     (let want = dget_none expect ''outcome''; fr = lib_float_repr (e_lib ev) in
      if py_eq (PStr (outcome_word oc)) want then []
      else [''outcome: expected '' @ py_str fr want @ '', got '' @ outcome_word oc @
            (if denied oc then '' ('' @ py_str fr (oc_reason oc) @ '')'' else [])])"

definition check_action :: "env \<Rightarrow> pydict \<Rightarrow> call_context \<Rightarrow> string list" where
  "check_action ev expect ctx =
     (let want = dget_none expect ''action''; fr = lib_float_repr (e_lib ev) in
      if \<not> dhas expect ''action'' \<or> py_eq (decided ctx) want then []
      else [''action: expected '' @ py_str fr want @ '', got '' @ py_str fr (decided ctx)])"

definition check_stage :: "env \<Rightarrow> pydict \<Rightarrow> outcome \<Rightarrow> string list" where
  "check_stage ev expect oc =
     (let want = dget_none expect ''stage'' in
      if \<not> dhas expect ''stage'' \<or> py_eq (PStr (oc_stage oc)) want then []
      else [''stage: expected '' @ py_str (lib_float_repr (e_lib ev)) want @ '', got '' @ repr_str (oc_stage oc)])"

definition check_reason :: "env \<Rightarrow> pydict \<Rightarrow> outcome \<Rightarrow> call_context \<Rightarrow> (string list) res" where
  "check_reason ev expect oc ctx =
     (if \<not> dhas expect ''reason_contains'' then Inr []
      else
        (let haystack = (if denied oc then oc_reason oc
                         else case cx_decision ctx of None \<Rightarrow> PStr [] | Some d \<Rightarrow> d_reason d) in
         case (haystack, dget_none expect ''reason_contains'') of
           (PStr h, PStr n) \<Rightarrow>
             Inr (if sublist n h then [] else [''reason: expected substring '' @ repr_str n @ '' in '' @ repr_str h])
         | (PStr h, _) \<Rightarrow> Inl TypeError
         | _ \<Rightarrow> Inl Beyond))"

definition check_disposition :: "env \<Rightarrow> pydict \<Rightarrow> call_context \<Rightarrow> string list" where
  "check_disposition ev expect ctx =
     (let want = dget_none expect ''disposition''; have_d = disposition_str (cx_disposition ctx) in
      if \<not> dhas expect ''disposition'' \<or> py_eq (PStr have_d) want then []
      else [''disposition: expected '' @ py_str (lib_float_repr (e_lib ev)) want @ '', got '' @ repr_str have_d])"

definition check_rewritten :: "env \<Rightarrow> pydict \<Rightarrow> call_context \<Rightarrow> (string list) res" where
  "check_rewritten ev expect ctx =
     (if \<not> dhas expect ''rewritten'' then Inr []
      else
        (case dget_none expect ''rewritten'' of
           PDict want \<Rightarrow>
             Inr (concat (map (\<lambda>(arg, v).
               let got = (case map_of (outbound_arguments ctx) arg of None \<Rightarrow> PNone | Some a \<Rightarrow> a);
                   fr = lib_float_repr (e_lib ev) in
               if py_eq got v then []
               else [''rewritten['' @ py_str fr arg @ '']: expected '' @ py_repr fr v @ '', got '' @ py_repr fr got]) want))
         | _ \<Rightarrow> Inl AttributeError))"

definition check_expect :: "env \<Rightarrow> pydict \<Rightarrow> outcome \<Rightarrow> call_context \<Rightarrow> (string list) res" where
  "check_expect ev expect oc ctx =
     ebind (check_reason ev expect oc ctx) (\<lambda>reason.
     ebind (check_rewritten ev expect ctx) (\<lambda>rewritten.
     Inr (check_outcome ev expect oc @ check_action ev expect ctx @ check_stage ev expect oc @ reason @
          check_disposition ev expect ctx @ rewritten)))"

text \<open>The fields of an expectation that are not known; sorting keys that are no strings is not modelled.\<close>

definition unknown_expect :: "pydict \<Rightarrow> (string list) res" where
  "unknown_expect expect =
     ebind (emap (\<lambda>k. case k of PStr s \<Rightarrow> Inr s | _ \<Rightarrow> Inl Beyond) (unknown_fields expect EXPECT_FIELDS)) (\<lambda>ks. Inr (sort ks))"

definition case_name :: "nat \<Rightarrow> pyval \<Rightarrow> pyval" where
  "case_name i c =
     (let fallback = PStr (''case['' @ show_int (int i) @ '']'') in
      case c of PDict d \<Rightarrow> dget_default d ''name'' fallback | _ \<Rightarrow> fallback)"

definition run_case ::
  "env \<Rightarrow> string \<Rightarrow> string \<Rightarrow> policy_engine \<Rightarrow> handlers \<Rightarrow> nat \<Rightarrow> pyval \<Rightarrow> world \<Rightarrow> (golden_result \<times> world) res" where
  "run_case ev sid now pe hs i c w =
     (let result = (\<lambda>fs. \<lparr>gr_name = case_name i c, gr_failures = fs\<rparr>) in
      case c of
        PDict d \<Rightarrow>
          if \<not> dhas d ''tool'' \<or> \<not> dhas d ''expect''
          then Inr (result [''case must be a mapping with '' @ quoted ''tool'' @ '' and '' @ quoted ''expect''], w)
          else
            (case dget_none d ''expect'' of
               PDict expect \<Rightarrow>
                 if \<not> dhas expect ''outcome''
                 then Inr (result [quoted ''expect'' @ '' must be a mapping with '' @ quoted ''outcome''], w)
                 else
                   ebind (unknown_expect expect) (\<lambda>unknown.
                   if unknown \<noteq> []
                   then Inr (result [''unknown expect field(s): '' @ py_repr (lib_float_repr (e_lib ev)) (PList (map PStr unknown))], w)
                   else
                     ebind (case_context sid now d) (\<lambda>ctx.
                     let (oc, ctx', w') = run_stages (golden_stages ev pe hs) ctx w in
                     ebind (check_expect ev expect oc ctx') (\<lambda>fs. Inr (result fs, w'))))
             | _ \<Rightarrow> Inr (result [quoted ''expect'' @ '' must be a mapping with '' @ quoted ''outcome''], w))
      | _ \<Rightarrow> Inr (result [''case must be a mapping with '' @ quoted ''tool'' @ '' and '' @ quoted ''expect''], w))"

fun run_cases ::
  "env \<Rightarrow> string \<Rightarrow> string \<Rightarrow> policy_engine \<Rightarrow> handlers \<Rightarrow> nat \<Rightarrow> pyval list \<Rightarrow> world \<Rightarrow> ((golden_result list) \<times> world) res" where
  "run_cases ev sid now pe hs i [] w = Inr ([], w)"
| "run_cases ev sid now pe hs i (c # cs) w =
     ebind (run_case ev sid now pe hs i c w) (\<lambda>(r, w').
     ebind (run_cases ev sid now pe hs (Suc i) cs w') (\<lambda>(rs, w''). Inr (r # rs, w'')))"

definition run_policy_tests ::
  "env \<Rightarrow> string \<Rightarrow> string \<Rightarrow> world \<Rightarrow> layer_file list \<Rightarrow> string \<Rightarrow> file_content option \<Rightarrow> (golden_result list) res" where
  "run_policy_tests ev sid now w layers path tests =
     ebind (engine_load (e_lib ev) layers) (\<lambda>pe.
     ebind (load_tests_file path tests) (\<lambda>cases.
     ebind (run_cases ev sid now pe (build_action_handlers True None) 0 cases w) (\<lambda>(rs, _). Inr rs)))"

section \<open>The harness decides as the gateway does\<close>

text \<open>On a session that no session state gates, the five stages are the harness's three.\<close>

lemma golden_is_default:
  assumes "\<not> s_suspended (cx_session ctx)" and "sequence_check sq (cx_tool ctx) (cx_session ctx) = None"
  shows "run_stages (default_stages ev pe sq hs) ctx w = run_stages (golden_stages ev pe hs) ctx w"
proof (cases "evaluate pe (cx_tool ctx) (first_role (cx_principal ctx))")
  case (Inl e)
  then show ?thesis
    using assms(1) by (simp add: default_stages_def golden_stages_def session_gate_handle_def policy_handle_def)
next
  case (Inr d)
  show ?thesis
  proof (cases "check_constraints (e_lib ev) (d_constraints d) (cx_arguments ctx)")
    case None
    with Inr assms show ?thesis
      by (simp add: default_stages_def golden_stages_def session_gate_handle_def policy_handle_def
          constraints_handle_def sequence_handle_def)
  next
    case (Some v)
    with Inr assms show ?thesis
      by (simp add: default_stages_def golden_stages_def session_gate_handle_def policy_handle_def constraints_handle_def)
  qed
qed

text \<open>What the harness's stages read of a call, and what they leave in its context.\<close>

definition same_request :: "call_context \<Rightarrow> call_context \<Rightarrow> bool" where
  "same_request a b \<longleftrightarrow> cx_tool a = cx_tool b \<and> cx_arguments a = cx_arguments b \<and>
     first_role (cx_principal a) = first_role (cx_principal b) \<and> cx_decision a = cx_decision b \<and>
     cx_effective_arguments a = cx_effective_arguments b \<and> cx_disposition a = cx_disposition b"

lemma simple_same_request:
  assumes "same_request a b" and "simple_on_request ev h d a w = (ra, a', wa)" and "simple_on_request ev h d b w = (rb, b', wb)"
  shows "ra = rb \<and> same_request a' b' \<and> wa = wb"
proof -
  have args: "cx_arguments a = cx_arguments b" using assms(1) by (simp add: same_request_def)
  show ?thesis
  proof (cases h)
    case HRewrite
    then show ?thesis using assms args
      by (auto simp: simple_on_request_def rewrite_on_request_def same_request_def split: sum.splits if_splits)
  next
    case (HRedact svc)
    then show ?thesis using assms args
      by (auto simp: simple_on_request_def redact_on_request_def same_request_def Let_def
          split: sum.splits if_splits prod.splits)
  qed (use assms in \<open>auto simp: simple_on_request_def allow_on_request_def block_on_request_def
      quarantine_on_request_def same_request_def\<close>)
qed

lemma find_handler_simple:
  assumes "a \<noteq> PStr ''require_approval''"
  shows "find_handler (build_action_handlers red br) a = find_handler (build_action_handlers red None) a"
    and "find_handler (build_action_handlers red br) a \<noteq> Inr (Some (RequireApproval b))"
  using assms by (cases a; auto simp: find_handler_def build_action_handlers_def split: option.splits)+

lemma action_same_request:
  assumes "same_request a b" and "cx_decision a = Some d" and "d_action d \<noteq> PStr ''require_approval''"
    and "action_handle ev (build_action_handlers red None) a w = (ra, a', wa)"
    and "action_handle ev (build_action_handlers red br) b w = (rb, b', wb)"
  shows "ra = rb \<and> same_request a' b' \<and> wa = wb"
proof -
  have d: "cx_decision b = Some d" using assms(1,2) by (simp add: same_request_def)
  note same = find_handler_simple(1) [OF assms(3), of red br]
  show ?thesis
  proof (cases "find_handler (build_action_handlers red None) (d_action d)")
    case (Inl e)
    with same assms d show ?thesis by (simp add: action_handle_def)
  next
    case (Inr h)
    show ?thesis
    proof (cases h)
      case None
      with Inr same assms d show ?thesis by (simp add: action_handle_def)
    next
      case (Some h')
      then obtain s where h: "h' = Simple s"
        using Inr find_handler_simple(2) [OF assms(3), of red None] by (cases h') auto
      obtain r1 a1 w1 where x: "simple_on_request ev s d a w = (r1, a1, w1)" by (cases "simple_on_request ev s d a w") auto
      obtain r2 b2 w2 where y: "simple_on_request ev s d b w = (r2, b2, w2)" by (cases "simple_on_request ev s d b w") auto
      from simple_same_request [OF assms(1) x y] assms(2,4,5) d Inr Some h same x y show ?thesis
        by (auto simp: action_handle_def on_request_def split: sum.splits)
    qed
  qed
qed

lemma golden_transfers:
  assumes "same_request a b" and "evaluate pe (cx_tool a) (first_role (cx_principal a)) = Inr d"
    and "d_action d \<noteq> PStr ''require_approval''"
    and "run_stages (golden_stages ev pe (build_action_handlers red None)) a w = (oa, a', wa)"
    and "run_stages (golden_stages ev pe (build_action_handlers red br)) b w = (ob, b', wb)"
  shows "oa = ob \<and> same_request a' b' \<and> wa = wb"
proof -
  let ?a = "a\<lparr>cx_decision := Some d\<rparr>" and ?b = "b\<lparr>cx_decision := Some d\<rparr>"
  have eb: "evaluate pe (cx_tool b) (first_role (cx_principal b)) = Inr d" and args: "cx_arguments b = cx_arguments a"
    using assms(1,2) by (simp_all add: same_request_def)
  have ab: "same_request ?a ?b" using assms(1) by (simp add: same_request_def)
  obtain r1 a1 w1 where x: "action_handle ev (build_action_handlers red None) ?a w = (r1, a1, w1)"
    by (cases "action_handle ev (build_action_handlers red None) ?a w") auto
  obtain r2 b2 w2 where y: "action_handle ev (build_action_handlers red br) ?b w = (r2, b2, w2)"
    by (cases "action_handle ev (build_action_handlers red br) ?b w") auto
  note same = action_same_request [OF ab _ assms(3) x y]
  show ?thesis
  proof (cases "check_constraints (e_lib ev) (d_constraints d) (cx_arguments a)")
    case None
    with assms(2,4,5) eb args x y same show ?thesis
      by (auto simp: golden_stages_def policy_handle_def constraints_handle_def Let_def split: if_splits)
  next
    case (Some v)
    with assms(2,4,5) eb args ab show ?thesis
      by (auto simp: golden_stages_def policy_handle_def constraints_handle_def Let_def)
  qed
qed

text \<open>A case that passes was run, and its outcome is the expected one.\<close>

lemma passed_case_Inr:
  assumes "run_case ev sid now pe hs i (PDict c) w = Inr (r, w')" and "gr_passed r"
    and "dget c ''expect'' = Some (PDict expect)"
  obtains ctx oc ctx' where "case_context sid now c = Inr ctx"
    and "run_stages (golden_stages ev pe hs) ctx w = (oc, ctx', w')"
    and "py_eq (PStr (outcome_word oc)) (dget_none expect ''outcome'')"
proof -
  have e: "dget_none c ''expect'' = PDict expect" using assms(3) by (simp add: dget_none_def dget_default_def)
  have h: "dhas c ''tool''" "dhas expect ''outcome''"
    using assms(1,2) e by (auto simp: run_case_def gr_passed_def Let_def split: if_splits)
  have he: "dhas c ''expect''" using assms(3) by (simp add: dhas_def)
  have u: "unknown_expect expect = Inr []" using assms(1,2) e h he
    by (auto simp: run_case_def gr_passed_def Let_def ebind_eq_Inr split: if_splits)
  obtain ctx where ctx: "case_context sid now c = Inr ctx"
    using assms(1) e h he u by (auto simp: run_case_def Let_def ebind_eq_Inr)
  obtain oc ctx' w1 where run: "run_stages (golden_stages ev pe hs) ctx w = (oc, ctx', w1)"
    by (cases "run_stages (golden_stages ev pe hs) ctx w") auto
  have fs: "check_expect ev expect oc ctx' = Inr []" and w1: "w1 = w'"
    using assms(1,2) e h he u ctx run by (auto simp: run_case_def Let_def ebind_eq_Inr gr_passed_def)
  have "check_outcome ev expect oc = []" using fs by (auto simp: check_expect_def ebind_eq_Inr)
  then have "py_eq (PStr (outcome_word oc)) (dget_none expect ''outcome'')"
    by (simp add: check_outcome_def Let_def split: if_splits)
  with that ctx run w1 show thesis by blast
qed

text \<open>
  A passing case is a statement about enforcement: whatever the approver, a gateway session that
  no session state gates decides the same call as the case says.
\<close>

lemma golden_case_enforced:
  assumes "run_case ev sid now pe (build_action_handlers True None) i (PDict c) w = Inr (r, w')" and "gr_passed r"
    and "dget c ''expect'' = Some (PDict expect)" and "dget expect ''outcome'' = Some (PStr word)"
    and "dget c ''tool'' = Some (PStr tool)" and "dget_default c ''arguments'' (PDict []) = PDict args"
    and "case_roles (dget_none c ''role'') = Inr roles" and "first_role p = (if roles = [] then None else Some (hd roles))"
    and "evaluate pe tool (first_role p) = Inr d" and "d_action d \<noteq> PStr ''require_approval''"
    and "\<not> s_suspended s" and "sequence_check sq tool s = None"
  shows "outcome_word (fst (run_stages (default_stages ev pe sq (build_action_handlers True br))
           (make_call_context s raw tool args p) w)) = word"
proof -
  let ?b = "make_call_context s raw tool args p"
  obtain a oc a' where a: "case_context sid now c = Inr a"
    and run: "run_stages (golden_stages ev pe (build_action_handlers True None)) a w = (oc, a', w')"
    and eq: "py_eq (PStr (outcome_word oc)) (dget_none expect ''outcome'')"
    using passed_case_Inr [OF assms(1,2,3)] by blast
  have tool: "dget_none c ''tool'' = PStr tool" using assms(5) by (simp add: dget_none_def dget_default_def)
  have ab: "same_request a ?b" "cx_tool a = tool" "first_role (cx_principal a) = first_role p"
    using a tool assms(6-8)
    by (auto simp: case_context_def make_call_context_def same_request_def first_role_def split: list.splits)
  obtain ob b' wb where runb: "run_stages (golden_stages ev pe (build_action_handlers True br)) ?b w = (ob, b', wb)"
    by (cases "run_stages (golden_stages ev pe (build_action_handlers True br)) ?b w") auto
  have "oc = ob" using golden_transfers [OF ab(1) _ assms(10) run runb] ab(2,3) assms(9) by simp
  moreover have "run_stages (default_stages ev pe sq (build_action_handlers True br)) ?b w = (ob, b', wb)"
    using golden_is_default [of ?b sq] assms(11,12) runb by (simp add: make_call_context_def)
  ultimately show ?thesis using eq assms(4) by (simp add: dget_none_def dget_default_def)
qed

end
