(* ===== verification/Policy_Actions.thy ===== *)
theory Policy_Actions
  imports Policy_Engine
begin

text \<open>
  The actions an engine can decide. The loader validates the action of every rule and of every
  role overlay; this theory carries the fact through merging (field by field, role by role) and
  compilation: a decision names an action of the vocabulary, or none at all where a document
  says \<open>action: null\<close>. Offline tools that compare decisions rest on it.
\<close>

definition plain_action :: "pyval \<Rightarrow> bool" where
  "plain_action v \<longleftrightarrow> v = PNone \<or> (\<exists>a \<in> set ACTION_VOCABULARY. v = PStr a)"

text \<open>A rule mapping as the loader leaves it; the keys of a mapping are distinct.\<close>

definition overlay_raw_ok :: "pyval \<Rightarrow> bool" where
  "overlay_raw_ok v \<longleftrightarrow> (\<forall>ov. v = PDict ov \<longrightarrow> wf_dict ov \<and> action_field_ok ov ''action'')"

definition raw_ok :: "pydict \<Rightarrow> bool" where
  "raw_ok d \<longleftrightarrow> wf_dict d \<and> action_field_ok d ''action'' \<and>
     (\<forall>rs. dget d ''roles'' = Some (PDict rs) \<longrightarrow> (\<forall>p \<in> set rs. overlay_raw_ok (snd p)))"

definition rules_wf :: "policy_layer \<Rightarrow> bool" where
  "rules_wf l \<longleftrightarrow> (\<forall>p \<in> set (pl_rules l). wf_dict (snd p) \<and>
     (\<forall>rs. dget (snd p) ''roles'' = Some (PDict rs) \<longrightarrow> (\<forall>q \<in> set rs. \<forall>ov. snd q = PDict ov \<longrightarrow> wf_dict ov)))"

lemma layer_rules_raw_ok:
  assumes "layer_ok lib l" and "rules_wf l" and "p \<in> set (pl_rules l)"
  shows "raw_ok (snd p)"
proof -
  have r: "rule_ok lib RULE_FIELDS (snd p)" "overlays_ok lib (snd p)" using assms(1,3) by (auto simp: layer_ok_def)
  have "overlay_raw_ok (snd q)" if "dget (snd p) ''roles'' = Some (PDict rs)" "q \<in> set rs" for rs q
  proof -
    have "\<exists>ov. snd q = PDict ov \<and> rule_ok lib OVERLAY_FIELDS ov" using r(2) that by (auto simp: overlays_ok_def)
    with assms(2,3) that show ?thesis by (auto simp: overlay_raw_ok_def rules_wf_def rule_ok_def)
  qed
  with r(1) assms(2,3) show ?thesis by (auto simp: raw_ok_def rule_ok_def rules_wf_def)
qed

section \<open>Merging\<close>

lemma set_AList_update: "set (AList.update k v d) \<subseteq> insert (k, v) (set d)"
  by (induction d) auto

lemma set_al_merge: "set (al_merge d e) \<subseteq> set d \<union> set e"
proof (induction e arbitrary: d)
  case (Cons p e)
  have "set (al_merge (AList.update (fst p) (snd p) d) e) \<subseteq> insert p (set d) \<union> set e"
    using Cons.IH set_AList_update [of "fst p" "snd p" d] by fastforce
  then show ?case by (auto simp: al_merge_def)
qed (simp add: al_merge_def)

lemma dget_al_merge_cases:
  assumes "wf_dict e" and "dget (al_merge d e) k = Some v"
  shows "dget d k = Some v \<or> dget e k = Some v"
proof (cases "dget e k")
  case None
  then have "\<not> dhas e k" by (simp add: dhas_def)
  with assms(2) show ?thesis by (simp add: dget_al_merge_other)
next
  case (Some u)
  with assms show ?thesis by (simp add: dget_al_merge_new)
qed

lemma action_field_al_merge:
  assumes "wf_dict e" and "action_field_ok d k" and "action_field_ok e k"
  shows "action_field_ok (al_merge d e) k"
  using assms dget_al_merge_cases [OF assms(1)] by (fastforce simp: action_field_ok_def)

lemma action_field_dwithout: "action_field_ok d k \<Longrightarrow> action_field_ok (dwithout j d) k"
  by (auto simp: action_field_ok_def split: if_splits)

lemma raw_ok_dwithout: "raw_ok d \<Longrightarrow> raw_ok (dwithout k d)"
  by (auto simp: raw_ok_def wf_dwithout action_field_dwithout split: if_splits)

lemma merge_fields_raw_ok:
  assumes "raw_ok existing" and "raw_ok incoming" and "merge_fields existing incoming = Inr m"
  shows "raw_ok m"
proof -
  let ?ex = "al_merge existing (dwithout ''roles'' incoming)"
  have roles: "dget ?ex ''roles'' = dget existing ''roles''" by (simp add: dget_al_merge_other)
  have "action_field_ok ?ex ''action''"
    using assms(1,2) by (auto simp: raw_ok_def wf_dwithout intro: action_field_al_merge action_field_dwithout)
  with assms(1) roles have ex: "raw_ok ?ex" by (simp add: raw_ok_def)
  show ?thesis
  proof (cases "dget_none incoming ''roles''")
    case PNone
    with assms(3) ex show ?thesis by (simp add: merge_fields_def Let_def)
  next
    case (PDict rs)
    with assms(3) obtain ers where ers: "dget_default ?ex ''roles'' (PDict []) = PDict ers"
      by (cases "dget_default ?ex ''roles'' (PDict [])") (simp_all add: merge_fields_def Let_def)
    with assms(3) PDict have m: "m = dput ''roles'' (PDict (al_merge ers rs)) ?ex"
      by (simp add: merge_fields_def Let_def)
    have "overlay_raw_ok (snd q)" if "q \<in> set ers" for q
      using that ers ex by (cases "dget ?ex ''roles''") (auto simp: raw_ok_def dget_default_def)
    moreover have "overlay_raw_ok (snd q)" if "q \<in> set rs" for q
      using that PDict assms(2) by (cases "dget incoming ''roles''") (auto simp: raw_ok_def dget_none_def dget_default_def)
    ultimately have "\<forall>q \<in> set (al_merge ers rs). overlay_raw_ok (snd q)" using set_al_merge [of ers rs] by auto
    moreover have "wf_dict m" using ex by (simp add: m raw_ok_def dput_def)
    ultimately show ?thesis using ex by (simp add: m raw_ok_def action_field_ok_def)
  qed (use assms(3) in \<open>simp_all add: merge_fields_def Let_def\<close>)
qed

definition merged_raw_ok :: "merged_policy \<Rightarrow> bool" where
  "merged_raw_ok m \<longleftrightarrow> (\<forall>p \<in> set (mp_rules m). raw_ok (snd p))"

lemma merged_raw_update:
  assumes "merged_raw_ok m" and "raw_ok r" and "mp_rules m' = AList.update p r (mp_rules m)"
  shows "merged_raw_ok m'"
  using assms set_AList_update [of p r "mp_rules m"] by (fastforce simp: merged_raw_ok_def)

lemma merge_rule_raw_ok:
  assumes "merge_rule n e m = Inr m'" and "merged_raw_ok m" and "raw_ok (snd e)"
  shows "merged_raw_ok m'"
proof -
  have inc: "raw_ok (dwithout ''replace'' (snd e))" by (rule raw_ok_dwithout) (rule assms(3))
  show ?thesis
  proof (cases "map_of (mp_rules m) (fst e)")
    case None
    with assms(1) inc assms(2) show ?thesis by (auto simp: merge_rule_def Let_def intro: merged_raw_update)
  next
    case (Some ex)
    then have "raw_ok ex" using assms(2) map_of_SomeD [of "mp_rules m" "fst e" ex] by (fastforce simp: merged_raw_ok_def)
    with Some assms(1,2) inc show ?thesis
      by (auto simp: merge_rule_def Let_def ebind_eq_Inr split: if_splits intro: merged_raw_update merge_fields_raw_ok)
  qed
qed

lemma merge_rules_raw_ok:
  "merge_rules n es m = Inr m' \<Longrightarrow> merged_raw_ok m \<Longrightarrow> \<forall>e \<in> set es. raw_ok (snd e) \<Longrightarrow> merged_raw_ok m'"
proof (induction es arbitrary: m)
  case (Cons e es)
  then obtain m1 where "merge_rule n e m = Inr m1" "merge_rules n es m1 = Inr m'" by (auto simp: ebind_eq_Inr)
  with Cons.IH [OF this(2)] Cons.prems merge_rule_raw_ok show ?case by simp
qed simp

lemma merge_layers_raw_ok:
  assumes "merge_layers ls = Inr m" and "\<forall>l \<in> set ls. layer_ok lib l \<and> rules_wf l"
  shows "merged_raw_ok m"
  using assms
proof (induction ls arbitrary: m rule: rev_induct)
  case Nil
  then show ?case by (auto simp: merge_layers_def empty_merged_def merged_raw_ok_def)
next
  case (snoc l ls)
  then obtain m0 where m0: "merge_layers ls = Inr m0" "merge_layer l m0 = Inr m" by (auto simp: merge_layers_snoc ebind_eq_Inr)
  obtain m1 where m1: "merge_rules (pl_name l) (pl_rules l) m1 = Inr m" "mp_rules m1 = mp_rules m0"
    using merge_layer_rules [OF m0(2)] by blast
  have "merged_raw_ok m1" using snoc.IH [OF m0(1)] snoc.prems(2) m1(2) by (simp add: merged_raw_ok_def)
  moreover have "\<forall>e \<in> set (pl_rules l). raw_ok (snd e)" using snoc.prems(2) layer_rules_raw_ok [of lib l] by simp
  ultimately show ?case using merge_rules_raw_ok [OF m1(1)] by simp
qed

section \<open>Compilation and evaluation\<close>

lemma compile_fields_action:
  assumes "compile_fields lib flds src whr = Inr e" and "action_field_ok flds ''action''"
  shows "plain_action (er_action e)"
proof -
  from assms(1) obtain a where "dget flds ''action'' = Some a"
    by (cases "dget flds ''action''") (simp_all add: compile_fields_def ebind_eq_Inr)
  with assms show ?thesis by (auto simp: compile_fields_def ebind_eq_Inr action_field_ok_def plain_action_def)
qed

lemma compile_rule_actions:
  assumes "compile_rule lib prov pattern raw = Inr c" and "raw_ok raw"
  shows "plain_action (er_action (for_role c role))"
proof -
  obtain pr whr roles where c: "compile_fields lib raw (pr @ '':'' @ pattern) whr = Inr (cr_base c)"
    "dget_default raw ''roles'' (PDict []) = PDict roles"
    "emap (compile_overlay lib raw pr pattern whr) roles = Inr (cr_overlays c)"
    using assms(1) by (rule compile_rule_Inr)
  have base: "plain_action (er_action (cr_base c))"
    using compile_fields_action [OF c(1)] assms(2) by (simp add: raw_ok_def)
  have "plain_action (er_action e)" if "map_of (cr_overlays c) r = Some e" for r e
  proof -
    have "(r, e) \<in> set (cr_overlays c)" by (rule map_of_SomeD) (rule that)
    then obtain p where p: "p \<in> set roles" "compile_overlay lib raw pr pattern whr p = Inr (r, e)"
      using emap_Inr_set' [OF c(3)] by blast
    obtain d src w where d: "p = (PStr r, PDict d)" "compile_fields lib (al_merge (dwithout ''roles'' raw) d) src w = Inr e"
      using compile_overlay_Inr [OF p(2)] by blast
    have "overlay_raw_ok (snd p)"
      using p(1) c(2) assms(2) by (cases "dget raw ''roles''") (auto simp: raw_ok_def dget_default_def)
    with d(1) assms(2) have "action_field_ok (al_merge (dwithout ''roles'' raw) d) ''action''"
      by (auto simp: overlay_raw_ok_def raw_ok_def intro!: action_field_al_merge action_field_dwithout)
    then show ?thesis by (rule compile_fields_action [OF d(2)])
  qed
  with base show ?thesis by (auto simp: for_role_def split: option.split)
qed

text \<open>The actions of a built engine, rule by rule; every decision inherits it.\<close>

definition plain_engine :: "policy_engine \<Rightarrow> bool" where
  "plain_engine pe \<longleftrightarrow> (\<forall>tool role d. evaluate pe tool role = Inr d \<longrightarrow> plain_action (d_action d))"

lemma make_engine_plain:
  assumes "make_engine lib ls = Inr pe" and "\<forall>l \<in> set ls. layer_ok lib l \<and> rules_wf l"
  shows "plain_engine pe"
  unfolding plain_engine_def
proof (intro allI impI)
  fix tool role d
  assume d: "evaluate pe tool role = Inr d"
  obtain m where m: "merge_layers ls = Inr m" "pe_default_action pe = mp_default_action m"
    "emap (\<lambda>p. ebind (compile_rule lib (map_of (mp_provenance m) (fst p)) (fst p) (snd p))
       (\<lambda>c. Inr (fst p, c))) (mp_rules m) = Inr (pe_rules pe)"
    using assms(1) by (rule make_engine_Inr)
  show "plain_action (d_action d)"
  proof (cases "match_rule (pe_matcher pe) tool")
    case None
    have "mp_default_action m = ''block'' \<or> mp_default_action m = ''allow''"
      using merge_layers_default [OF m(1)] assms(2) by (auto simp: layer_ok_def)
    with None d m(2) show ?thesis
      by (auto simp: evaluate_def default_decision_def plain_action_def ACTION_VOCABULARY_def)
  next
    case (Some pattern)
    with d obtain c where c: "map_of (pe_rules pe) pattern = Some c" "d = decision_of (for_role c role) tool role"
      by (auto simp: evaluate_def split: option.splits)
    obtain p where p: "p \<in> set (mp_rules m)" "compile_rule lib (map_of (mp_provenance m) (fst p)) (fst p) (snd p) = Inr c"
      using emap_Inr_set' [OF m(3) map_of_SomeD [OF c(1)]] by (auto simp: ebind_eq_Inr)
    have "raw_ok (snd p)" using merge_layers_raw_ok [OF m(1) assms(2)] p(1) by (simp add: merged_raw_ok_def)
    with compile_rule_actions [OF p(2)] c(2) show ?thesis by (simp add: decision_of_def)
  qed
qed

end
