(* ===== verification/Policy_Backtest.thy ===== *)
theory Policy_Backtest
  imports Pipeline Policy_Actions Audit_Spool "HOL-Library.Char_ord" "HOL-Library.List_Lexorder"
begin

text \<open>
  \<open>policy/backtest.py\<close>: replaying the calls of an audit spool through a policy and comparing
  the decisions, and the fixture of \<open>policy/ci.py\<close> that writes the spool of a policy's own
  decisions. Recorded tools and roles are strings (a role may be absent); an event whose tool
  is something else lies outside the model.

  The lemmas show that the counts of a report add up, that what it lists is exactly the calls
  whose outcome or action differs, and that a policy replayed against its own decisions shows
  no difference.
\<close>

section \<open>Replay\<close>

datatype replay_outcome = Allowed | Blocked

datatype change_kind = Unchanged | NewlyBlocked | NewlyAllowed | ActionChanged

record replayed_call =
  rc_tool :: string
  rc_role :: "string option"
  rc_old_outcome :: replay_outcome
  rc_old_action :: pyval
  rc_old_stage :: pyval
  rc_new_action :: pyval
  rc_new_outcome :: replay_outcome
  rc_count :: nat
  rc_changed :: bool
  rc_kind :: change_kind

record backtest_report =
  bt_calls_examined :: nat
  bt_distinct_calls :: nat
  bt_changed :: "replayed_call list"
  bt_unchanged :: nat
  bt_newly_blocked :: nat
  bt_newly_allowed :: nat
  bt_action_changed :: nat
  bt_bad_lines :: nat

definition replay_outcome :: "pyval \<Rightarrow> string list \<Rightarrow> replay_outcome res" where
  "replay_outcome action deny_set = ebind (in_strset action deny_set) (\<lambda>b. Inr (if b then Blocked else Allowed))"

definition effective_deny_set :: "string list" where
  "effective_deny_set = denying_actions (build_action_handlers True None)"

definition declared_roles :: "policy_engine \<Rightarrow> string list" where
  "declared_roles pe = sort (remdups (concat (map (\<lambda>p. map fst (cr_overlays (snd p))) (pe_rules pe))))"

text \<open>What identifies a recorded call; equal calls are one row.\<close>

record replay_key =
  rk_tool :: string
  rk_role :: "string option"
  rk_outcome :: replay_outcome
  rk_action :: pyval
  rk_stage :: pyval

definition role_of :: "pyval \<Rightarrow> (string option) res" where
  "role_of v = (case v of PNone \<Rightarrow> Inr None | PStr s \<Rightarrow> Inr (Some s) | _ \<Rightarrow> Inl Beyond)"

definition key_of :: "pydict \<Rightarrow> replay_outcome \<Rightarrow> (replay_key option) res" where
  "key_of ev oc =
     (case dget_none ev ''tool'' of
        PNone \<Rightarrow> Inr None
      | PStr tool \<Rightarrow>
          ebind (role_of (dget_none ev ''role'')) (\<lambda>role.
          Inr (Some \<lparr>rk_tool = tool, rk_role = role, rk_outcome = oc,
            rk_action = (if oc = Allowed then dget_none ev ''action'' else PNone),
            rk_stage = (if oc = Blocked then dget_none ev ''stage'' else PNone)\<rparr>))
      | _ \<Rightarrow> Inl Beyond)"

definition replay_key_of :: "pydict \<Rightarrow> (replay_key option) res" where
  "replay_key_of ev =
     (let name = dget_none ev ''event'' in
      if name = PStr ''tool_call_allowed'' then key_of ev Allowed
      else if name = PStr ''tool_call_blocked'' \<or> name = PStr ''tool_call_denied_session_suspended'' then key_of ev Blocked
      else Inr None)"

definition same_key :: "replay_key \<Rightarrow> replay_key \<Rightarrow> bool" where
  "same_key a b = (rk_tool a = rk_tool b \<and> rk_role a = rk_role b \<and> rk_outcome a = rk_outcome b \<and>
     py_key (rk_action a) = py_key (rk_action b) \<and> py_key (rk_stage a) = py_key (rk_stage b))"

fun count_call :: "replay_key \<Rightarrow> (replay_key \<times> nat) list \<Rightarrow> (replay_key \<times> nat) list" where
  "count_call k [] = [(k, 1)]"
| "count_call k ((k', n) # bs) = (if same_key k k' then (k', Suc n) # bs else (k', n) # count_call k bs)"

text \<open>A key holding an unhashable value raises when it is looked up.\<close>

fun bucket_calls :: "pydict list \<Rightarrow> (replay_key \<times> nat) list \<Rightarrow> nat \<Rightarrow> ((replay_key \<times> nat) list \<times> nat) res" where
  "bucket_calls [] bs n = Inr (bs, n)"
| "bucket_calls (ev # evs) bs n =
     ebind (replay_key_of ev) (\<lambda>k.
     case k of
       None \<Rightarrow> bucket_calls evs bs n
     | Some k \<Rightarrow>
         if py_key (rk_action k) = None \<or> py_key (rk_stage k) = None then Inl TypeError
         else bucket_calls evs (count_call k bs) (Suc n))"

definition change_of :: "replay_outcome \<Rightarrow> pyval \<Rightarrow> replay_outcome \<Rightarrow> pyval \<Rightarrow> change_kind" where
  "change_of old_outcome old_action new_outcome new_action =
     (if old_outcome \<noteq> new_outcome then (if new_outcome = Blocked then NewlyBlocked else NewlyAllowed)
      else if old_outcome = Allowed \<and> old_action \<noteq> PNone \<and> \<not> py_eq old_action new_action then ActionChanged
      else Unchanged)"

definition replay_call :: "policy_engine \<Rightarrow> string list \<Rightarrow> replay_key \<times> nat \<Rightarrow> replayed_call res" where
  "replay_call pe deny_set b =
     (let k = fst b in
      ebind (evaluate pe (rk_tool k) (rk_role k)) (\<lambda>d.
      ebind (replay_outcome (d_action d) deny_set) (\<lambda>oc.
      let kind = change_of (rk_outcome k) (rk_action k) oc (d_action d) in
      Inr \<lparr>rc_tool = rk_tool k, rc_role = rk_role k, rc_old_outcome = rk_outcome k, rc_old_action = rk_action k,
           rc_old_stage = rk_stage k, rc_new_action = d_action d, rc_new_outcome = oc, rc_count = snd b,
           rc_changed = (kind \<noteq> Unchanged), rc_kind = kind\<rparr>)))"

definition change_order :: "replayed_call \<Rightarrow> nat \<times> int" where
  "change_order c =
     (case rc_kind c of NewlyBlocked \<Rightarrow> 0 | NewlyAllowed \<Rightarrow> 1 | ActionChanged \<Rightarrow> 2 | Unchanged \<Rightarrow> 9, - int (rc_count c))"

definition count_kind :: "change_kind \<Rightarrow> replayed_call list \<Rightarrow> nat" where
  "count_kind k cs = length (filter (\<lambda>c. rc_kind c = k) cs)"

definition backtest_policy :: "pylib \<Rightarrow> string option \<Rightarrow> policy_engine \<Rightarrow> string list \<Rightarrow> backtest_report res" where
  "backtest_policy lib file pe deny_set =
     ebind (read_spool lib file 0) (\<lambda>result.
     ebind (bucket_calls (map sr_event (rr_records result)) [] 0) (\<lambda>(buckets, examined).
     ebind (emap (replay_call pe deny_set) buckets) (\<lambda>calls.
     let changed = filter rc_changed calls in
     Inr \<lparr>bt_calls_examined = examined, bt_distinct_calls = length buckets,
          bt_changed = sort_key change_order changed,
          bt_unchanged = length (filter (\<lambda>c. \<not> rc_changed c) calls),
          bt_newly_blocked = count_kind NewlyBlocked changed,
          bt_newly_allowed = count_kind NewlyAllowed changed,
          bt_action_changed = count_kind ActionChanged changed,
          bt_bad_lines = rr_bad_lines result\<rparr>)))"

section \<open>The synthetic spool of a policy's own decisions\<close>

definition role_val :: "string option \<Rightarrow> pyval" where
  "role_val r = (case r of None \<Rightarrow> PNone | Some s \<Rightarrow> PStr s)"

definition synthetic_event :: "policy_engine \<Rightarrow> string list \<Rightarrow> string \<times> string option \<Rightarrow> pydict res" where
  "synthetic_event pe deny_set q =
     ebind (evaluate pe (fst q) (snd q)) (\<lambda>d.
     ebind (in_strset (d_action d) deny_set) (\<lambda>blocked.
     Inr ([(PStr ''schema_version'', PInt 1),
           (PStr ''event'', PStr (if blocked then ''tool_call_blocked'' else ''tool_call_allowed'')),
           (PStr ''tool'', PStr (fst q)), (PStr ''role'', role_val (snd q))]
          @ [if blocked then (PStr ''stage'', PStr ''action'') else (PStr ''action'', d_action d)])))"

definition synthetic_calls :: "string list \<Rightarrow> string option list \<Rightarrow> (string \<times> string option) list" where
  "synthetic_calls tools roles = concat (map (\<lambda>t. map (\<lambda>r. (t, r)) roles) tools)"

definition write_synthetic_spool ::
  "pylib \<Rightarrow> policy_engine \<Rightarrow> string list \<Rightarrow> string option list \<Rightarrow> string list \<Rightarrow> string res" where
  "write_synthetic_spool lib pe tools roles deny_set =
     ebind (emap (synthetic_event pe deny_set) (synthetic_calls tools roles)) (\<lambda>evs.
     Inr (concat (map (json_line SpacedAscii lib) evs)))"

section \<open>Counting\<close>

lemma filter_partition_length: "length (filter P xs) + length (filter (\<lambda>x. \<not> P x) xs) = length xs"
  by (induction xs) simp_all

lemma backtest_counts:
  assumes "backtest_policy lib file pe deny_set = Inr r"
  shows "bt_unchanged r + length (bt_changed r) = bt_distinct_calls r"
    and "bt_newly_blocked r + bt_newly_allowed r + bt_action_changed r = length (bt_changed r)"
proof -
  obtain calls bs where calls: "emap (replay_call pe deny_set) bs = Inr calls" "bt_distinct_calls r = length bs"
    "bt_changed r = sort_key change_order (filter rc_changed calls)" "bt_unchanged r = length (filter (\<lambda>c. \<not> rc_changed c) calls)"
    "bt_newly_blocked r = count_kind NewlyBlocked (filter rc_changed calls)"
    "bt_newly_allowed r = count_kind NewlyAllowed (filter rc_changed calls)"
    "bt_action_changed r = count_kind ActionChanged (filter rc_changed calls)"
    using assms by (auto simp: backtest_policy_def ebind_eq_Inr Let_def)
  then show "bt_unchanged r + length (bt_changed r) = bt_distinct_calls r"
    using filter_partition_length [of rc_changed calls] emap_Inr_length [OF calls(1)] by simp
  have changed: "rc_changed c \<longleftrightarrow> rc_kind c \<noteq> Unchanged" if "c \<in> set calls" for c
    using emap_Inr_set' [OF calls(1) that] by (auto simp: replay_call_def ebind_eq_Inr Let_def)
  have "length (filter rc_changed cs) =
      count_kind NewlyBlocked (filter rc_changed cs) + count_kind NewlyAllowed (filter rc_changed cs) + count_kind ActionChanged (filter rc_changed cs)"
    if "\<forall>c \<in> set cs. rc_changed c \<longleftrightarrow> rc_kind c \<noteq> Unchanged" for cs
    using that
  proof (induction cs)
    case (Cons c cs)
    then show ?case by (cases "rc_kind c") (auto simp: count_kind_def)
  qed (simp add: count_kind_def)
  with changed calls show "bt_newly_blocked r + bt_newly_allowed r + bt_action_changed r = length (bt_changed r)" by simp
qed

text \<open>Bucketing keeps one row per distinct call, and the counts add up to the calls examined.\<close>

lemma count_call_total: "sum_list (map snd (count_call k bs)) = Suc (sum_list (map snd bs))"
  by (induction k bs rule: count_call.induct) auto

lemma count_call_keys: "\<exists>k' \<in> fst ` set (count_call k bs). same_key k k'" "fst ` set bs \<subseteq> fst ` set (count_call k bs)"
  "fst ` set (count_call k bs) \<subseteq> insert k (fst ` set bs)"
  by (induction k bs rule: count_call.induct) (auto simp: same_key_def)

lemma bucket_calls_total: "bucket_calls evs bs n = Inr (bs', n') \<Longrightarrow> sum_list (map snd bs) = n \<Longrightarrow> sum_list (map snd bs') = n'"
proof (induction evs bs n rule: bucket_calls.induct)
  case (2 ev evs bs n)
  then obtain k where k: "replay_key_of ev = Inr k" by (auto simp: ebind_eq_Inr)
  with 2 show ?case by (cases k) (auto simp: count_call_total split: if_splits)
qed simp

section \<open>A policy replayed against its own decisions\<close>

text \<open>A recorded call that the policy still decides as recorded.\<close>

definition agrees :: "policy_engine \<Rightarrow> string list \<Rightarrow> replay_key \<Rightarrow> bool" where
  "agrees pe deny_set k \<longleftrightarrow> (\<exists>d. evaluate pe (rk_tool k) (rk_role k) = Inr d \<and>
     replay_outcome (d_action d) deny_set = Inr (rk_outcome k) \<and>
     (rk_outcome k = Allowed \<longrightarrow> rk_action k = PNone \<or> py_eq (rk_action k) (d_action d)))"

lemma agrees_unchanged:
  assumes "agrees pe deny_set (fst b)"
  obtains c where "replay_call pe deny_set b = Inr c" and "\<not> rc_changed c"
  using assms by (fastforce simp: agrees_def replay_call_def change_of_def Let_def)

lemma synthetic_event_key:
  assumes "plain_engine pe" and "synthetic_event pe deny_set q = Inr ev"
  obtains k where "replay_key_of ev = Inr (Some k)" and "agrees pe deny_set k"
    and "py_key (rk_action k) \<noteq> None" and "py_key (rk_stage k) \<noteq> None" and "json_ok lib (PDict ev)"
proof -
  obtain d blocked where d: "evaluate pe (fst q) (snd q) = Inr d" and b: "in_strset (d_action d) deny_set = Inr blocked"
    and ev: "ev = [(PStr ''schema_version'', PInt 1),
           (PStr ''event'', PStr (if blocked then ''tool_call_blocked'' else ''tool_call_allowed'')),
           (PStr ''tool'', PStr (fst q)), (PStr ''role'', role_val (snd q))]
          @ [if blocked then (PStr ''stage'', PStr ''action'') else (PStr ''action'', d_action d)]"
    using assms(2) by (auto simp: synthetic_event_def ebind_eq_Inr)
  have "plain_action (d_action d)" using assms(1) d unfolding plain_engine_def by blast
  then have act: "d_action d = PNone \<or> (\<exists>a. d_action d = PStr a)" by (auto simp: plain_action_def)
  let ?k = "\<lparr>rk_tool = fst q, rk_role = snd q, rk_outcome = (if blocked then Blocked else Allowed),
      rk_action = (if blocked then PNone else d_action d), rk_stage = (if blocked then PStr ''action'' else PNone)\<rparr>"
  have role: "role_of (role_val (snd q)) = Inr (snd q)" by (cases "snd q") (simp_all add: role_of_def role_val_def)
  have "replay_key_of ev = Inr (Some ?k)"
    by (simp add: replay_key_of_def key_of_def ev role dget_none_def dget_default_def dget_def Let_def)
  moreover have "agrees pe deny_set ?k" using d b act by (auto simp: agrees_def replay_outcome_def)
  moreover have "json_ok lib (PDict ev)"
    using act by (cases "snd q") (auto simp: ev role_val_def wf_dict_def is_str_def)
  moreover have "py_key (rk_action ?k) \<noteq> None" using act by auto
  ultimately show thesis by (intro that) auto
qed

lemma bucket_synthetic:
  assumes "\<forall>ev \<in> set evs. \<exists>k. replay_key_of ev = Inr (Some k) \<and> agrees pe deny_set k \<and>
      py_key (rk_action k) \<noteq> None \<and> py_key (rk_stage k) \<noteq> None"
    and "\<forall>b \<in> set bs. agrees pe deny_set (fst b)"
  shows "\<exists>bs'. bucket_calls evs bs n = Inr (bs', n + length evs) \<and> (\<forall>b \<in> set bs'. agrees pe deny_set (fst b))"
  using assms
proof (induction evs arbitrary: bs n)
  case (Cons ev evs)
  then obtain k where k: "replay_key_of ev = Inr (Some k)" "agrees pe deny_set k"
    "py_key (rk_action k) \<noteq> None" "py_key (rk_stage k) \<noteq> None" by auto
  have agree: "\<forall>b \<in> set (count_call k bs). agrees pe deny_set (fst b)"
  proof
    fix b assume "b \<in> set (count_call k bs)"
    then have "fst b \<in> insert k (fst ` set bs)" using subsetD [OF count_call_keys(3) [of k bs]] by simp
    then show "agrees pe deny_set (fst b)"
    proof
      assume "fst b = k"
      with k(2) show ?thesis by simp
    next
      assume "fst b \<in> fst ` set bs"
      then obtain b' where "b' \<in> set bs" "fst b = fst b'" by (rule imageE)
      with Cons.prems(2) show ?thesis by simp
    qed
  qed
  have rest: "\<forall>ev \<in> set evs. \<exists>k. replay_key_of ev = Inr (Some k) \<and> agrees pe deny_set k \<and>
      py_key (rk_action k) \<noteq> None \<and> py_key (rk_stage k) \<noteq> None" using Cons.prems(1) by simp
  obtain bs' where "bucket_calls evs (count_call k bs) (Suc n) = Inr (bs', Suc n + length evs)"
    and "\<forall>b \<in> set bs'. agrees pe deny_set (fst b)" using Cons.IH [OF rest agree, of "Suc n"] by blast
  then show ?case using k by simp
qed simp

lemma synthetic_replay:
  assumes "plain_floats lib" and "plain_engine pe" and "write_synthetic_spool lib pe tools roles deny_set = Inr bytes"
  shows "\<exists>r. backtest_policy lib (Some bytes) pe deny_set = Inr r \<and> bt_calls_examined r = length tools * length roles \<and>
    bt_changed r = [] \<and> bt_bad_lines r = 0"
proof -
  obtain evs where evs: "emap (synthetic_event pe deny_set) (synthetic_calls tools roles) = Inr evs"
    and bytes: "bytes = concat (map (json_line SpacedAscii lib) evs)"
    using assms(3) by (auto simp: write_synthetic_spool_def ebind_eq_Inr)
  have ev: "\<exists>q. synthetic_event pe deny_set q = Inr ev" if "ev \<in> set evs" for ev using emap_Inr_set' [OF evs that] by blast
  have keys: "\<forall>ev \<in> set evs. \<exists>k. replay_key_of ev = Inr (Some k) \<and> agrees pe deny_set k \<and>
      py_key (rk_action k) \<noteq> None \<and> py_key (rk_stage k) \<noteq> None"
    using synthetic_event_key [OF assms(2)] ev by metis
  have "\<forall>d \<in> set evs. json_ok lib (PDict d)" using synthetic_event_key [OF assms(2)] ev by metis
  then obtain rs where rs: "read_lines lib 0 bytes = Inr (rs, 0, False)" "map sr_event rs = evs"
    using read_json_lines [OF assms(1), of evs "[]" 0 SpacedAscii] by (auto simp: bytes)
  obtain bs where bs: "bucket_calls evs [] 0 = Inr (bs, length evs)" "\<forall>b \<in> set bs. agrees pe deny_set (fst b)"
    using bucket_synthetic [OF keys, of "[]" 0] by auto
  have same: "\<exists>c. replay_call pe deny_set b = Inr c \<and> \<not> rc_changed c" if "b \<in> set bs" for b
    using agrees_unchanged bs(2) that by metis
  then have "emap (replay_call pe deny_set) bs = Inr (map (\<lambda>b. projr (replay_call pe deny_set b)) bs)"
    by (intro emap_all_Inr) fastforce
  moreover have "filter rc_changed (map (\<lambda>b. projr (replay_call pe deny_set b)) bs) = []"
    using same by (fastforce simp: filter_empty_conv)
  moreover have "length evs = length tools * length roles"
    using emap_Inr_length [OF evs] by (simp add: synthetic_calls_def length_concat comp_def sum_list_triv)
  ultimately show ?thesis by (simp add: backtest_policy_def read_spool_def rs bs(1) Let_def)
qed

lemma write_synthetic_total:
  assumes "\<And>tool role. \<exists>d. evaluate pe tool role = Inr d" and "plain_engine pe"
  shows "\<exists>bytes. write_synthetic_spool lib pe tools roles deny_set = Inr bytes"
proof -
  have "\<exists>ev. synthetic_event pe deny_set q = Inr ev" for q
  proof -
    obtain d where d: "evaluate pe (fst q) (snd q) = Inr d" using assms(1) by blast
    then have "plain_action (d_action d)" using assms(2) unfolding plain_engine_def by blast
    then have "\<exists>b. in_strset (d_action d) deny_set = Inr b" by (auto simp: plain_action_def in_strset_def)
    with d show ?thesis by (auto simp: synthetic_event_def)
  qed
  then have "emap (synthetic_event pe deny_set) qs = Inr (map (\<lambda>q. projr (synthetic_event pe deny_set q)) qs)" for qs
    by (intro emap_all_Inr) (metis sum.sel(2))
  then show ?thesis by (simp add: write_synthetic_spool_def)
qed

end
