(* ===== verification/Policy_CI.thy ===== *)
theory Policy_CI
  imports Policy_Golden Policy_Backtest
begin

text \<open>
  \<open>policy/ci.py\<close>: what is checked in a repository (every directory of packs, every policy file)
  and the four checks of a target. A repository is the directories under \<open>connectors/\<close> and the
  files under \<open>policies/\<close>. The markdown report and the anchors of annotations are left out.

  The lemmas show what a green report means: every pack directory is a target, a target passes
  only if its layers compile, its golden cases hold and every tool of its inventory has a rule
  of its own; and that the replay check cannot fail on a policy that compiles.
\<close>

section \<open>Targets\<close>

datatype target_kind = CONNECTOR | POLICY_FILE

record ci_target =
  tg_name :: string
  tg_kind :: target_kind
  tg_path :: string
  tg_layers :: "layer_file list"
  tg_tests :: "(string \<times> file_content) option"
  tg_connector :: "connector option"
  tg_error :: "string option"

record repo =
  rp_path :: string
  rp_connectors :: "(fs_dir list) option"
  rp_policies :: "((string \<times> file_content) list) option"

definition is_gateway_error :: "exn \<Rightarrow> bool" where
  "is_gateway_error e =
     (case e of PolicyError _ \<Rightarrow> True | BundleError _ \<Rightarrow> True | IdentityError _ \<Rightarrow> True | ConnectorError _ \<Rightarrow> True | _ \<Rightarrow> False)"

text \<open>\<open>PurePath.stem\<close> and \<open>PurePath.suffix\<close>: the last dot splits unless it is first or last.\<close>

definition path_split :: "string \<Rightarrow> string \<times> string" where
  "path_split name =
     (let r = rev name; ext = takeWhile (\<lambda>c. c \<noteq> CHR ''.'') r; rest = dropWhile (\<lambda>c. c \<noteq> CHR ''.'') r in
      if ext = [] \<or> length rest \<le> 1 then (name, []) else (rev (tl rest), CHR ''.'' # rev ext))"

definition ends_with :: "string \<Rightarrow> string \<Rightarrow> bool" where
  "ends_with s suf = suffix suf s"

definition tests_named :: "fs_dir \<Rightarrow> (string \<times> file_content) option" where
  "tests_named d = (case map_of (fd_files d) TESTS of None \<Rightarrow> None | Some f \<Rightarrow> Some (file_path d TESTS, f))"

definition failed_target :: "string \<Rightarrow> string \<Rightarrow> string \<Rightarrow> ci_target" where
  "failed_target name path err =
     \<lparr>tg_name = name, tg_kind = CONNECTOR, tg_path = path, tg_layers = [], tg_tests = None,
      tg_connector = None, tg_error = Some err\<rparr>"

definition pack_target :: "fs_dir \<Rightarrow> ci_target res" where
  "pack_target d =
     (if \<not> has_file d MANIFEST
      then Inr (failed_target (fd_name d) (fd_path d) (''not a connector pack: missing '' @ MANIFEST))
      else
        (case load_connector d of
           Inl e \<Rightarrow> if is_gateway_error e then Inr (failed_target (fd_name d) (fd_path d) (exn_str e)) else Inl e
         | Inr c \<Rightarrow>
             Inr \<lparr>tg_name = cn_name c, tg_kind = CONNECTOR, tg_path = fd_path d, tg_layers = policy_layers c,
                  tg_tests = tests_named d, tg_connector = Some c, tg_error = None\<rparr>))"

definition hidden_dir :: "fs_dir \<Rightarrow> bool" where
  "hidden_dir d = (case fd_name d of [] \<Rightarrow> False | c # _ \<Rightarrow> c = CHR ''.'' \<or> c = CHR ''_'')"

definition is_policy_file :: "string \<Rightarrow> bool" where
  "is_policy_file name \<longleftrightarrow> snd (path_split name) \<in> {''.yaml'', ''.yml''} \<and>
     \<not> ends_with name ''.tests.yaml'' \<and> \<not> ends_with name ''.tests.yml''"

definition policy_target :: "string \<Rightarrow> (string \<times> file_content) list \<Rightarrow> string \<times> file_content \<Rightarrow> ci_target" where
  "policy_target dir fs f =
     (let path = dir @ ''/'' @ fst f; stem = fst (path_split (fst f)); tests = stem @ ''.tests.yaml'' in
      \<lparr>tg_name = stem, tg_kind = POLICY_FILE, tg_path = path,
       tg_layers = [\<lparr>lf_path = path, lf_stem = stem, lf_json = False, lf_content = Some (snd f)\<rparr>],
       tg_tests = (case map_of fs tests of None \<Rightarrow> None | Some c \<Rightarrow> Some (dir @ ''/'' @ tests, c)),
       tg_connector = None, tg_error = None\<rparr>)"

definition discover_targets :: "repo \<Rightarrow> (ci_target list) res" where
  "discover_targets r =
     ebind (case rp_connectors r of
              None \<Rightarrow> Inr []
            | Some ds \<Rightarrow> emap pack_target (filter (\<lambda>d. \<not> hidden_dir d) (sort_key fd_name ds))) (\<lambda>packs.
     Inr (packs @
       (case rp_policies r of
          None \<Rightarrow> []
        | Some fs \<Rightarrow> map (policy_target (rp_path r @ ''/policies'') fs)
                      (filter (\<lambda>f. is_policy_file (fst f)) (sort_key fst fs)))))"

section \<open>Checks\<close>

datatype check_name = VALIDATE | GOLDENS | COVERAGE | BACKTEST

record check =
  ck_name :: check_name
  ck_ok :: bool
  ck_detail :: string
  ck_failures :: "string list"
  ck_skipped :: bool

definition made_check :: "check_name \<Rightarrow> bool \<Rightarrow> string \<Rightarrow> string list \<Rightarrow> check" where
  "made_check n ok detail fs = \<lparr>ck_name = n, ck_ok = ok, ck_detail = detail, ck_failures = fs, ck_skipped = False\<rparr>"

definition skipped_check :: "check_name \<Rightarrow> string \<Rightarrow> check" where
  "skipped_check n detail = \<lparr>ck_name = n, ck_ok = True, ck_detail = detail, ck_failures = [], ck_skipped = True\<rparr>"

abbreviation num :: "nat \<Rightarrow> string" where
  "num n \<equiv> show_int (int n)"

definition summarize :: "string list \<Rightarrow> string" where
  "summarize items =
     (let shown = join '', '' (take 8 items) in
      if length items > 8 then shown @ '', and '' @ num (length items - 8) @ '' more'' else shown)"

text \<open>Every layer is read, and the failures of all of them are collected.\<close>

fun read_layers :: "pylib \<Rightarrow> layer_file list \<Rightarrow> (policy_layer list \<times> string list) res" where
  "read_layers lib [] = Inr ([], [])"
| "read_layers lib (f # fs) =
     (case load_policy_file lib f of
        Inr l \<Rightarrow> ebind (read_layers lib fs) (\<lambda>(ls, es). Inr (l # ls, es))
      | Inl e \<Rightarrow>
          if is_gateway_error e then ebind (read_layers lib fs) (\<lambda>(ls, es). Inr (ls, exn_str e # es)) else Inl e)"

definition check_validate :: "pylib \<Rightarrow> ci_target \<Rightarrow> (check \<times> policy_engine option) res" where
  "check_validate lib t =
     ebind (read_layers lib (tg_layers t)) (\<lambda>(docs, failures).
     if failures \<noteq> [] then Inr (made_check VALIDATE False ''policy did not parse'' failures, None)
     else
       (case make_engine lib docs of
          Inl e \<Rightarrow>
            if is_gateway_error e
            then Inr (made_check VALIDATE False ''merged policy did not compile'' [exn_str e], None) else Inl e
        | Inr pe \<Rightarrow> Inr (made_check VALIDATE True (num (length (tg_layers t)) @ '' layer(s) ok, merged ok'') [], Some pe)))"

record ci_env =
  ci_env :: env
  ci_sid :: string
  ci_now :: string
  ci_world :: world

definition golden_failures :: "env \<Rightarrow> golden_result list \<Rightarrow> string list" where
  "golden_failures ev rs =
     map (\<lambda>r. py_str (lib_float_repr (e_lib ev)) (gr_name r) @ '': '' @ join ''; '' (gr_failures r))
       (filter (\<lambda>r. \<not> gr_passed r) rs)"

definition check_goldens :: "ci_env \<Rightarrow> ci_target \<Rightarrow> nat \<Rightarrow> check res" where
  "check_goldens ce t min_goldens =
     (case tg_tests t of
        None \<Rightarrow>
          Inr (if tg_kind t = CONNECTOR
               then made_check GOLDENS False ''no golden tests''
                      [''a connector pack must ship policy_tests.yaml '' @ em_dash @
                       '' an unverified policy is an unverified security control'']
               else skipped_check GOLDENS ''no goldens alongside this file (validate-only)'')
      | Some (path, tests) \<Rightarrow>
          (case run_policy_tests (ci_env ce) (ci_sid ce) (ci_now ce) (ci_world ce) (tg_layers t) path (Some tests) of
             Inl e \<Rightarrow>
               if is_gateway_error e then Inr (made_check GOLDENS False ''golden suite did not run'' [exn_str e]) else Inl e
           | Inr rs \<Rightarrow>
               (let failures = golden_failures (ci_env ce) rs @
                      (if length rs < min_goldens
                       then [''only '' @ num (length rs) @ '' golden case(s); at least '' @ num min_goldens @ '' required'']
                       else []) in
                Inr (made_check GOLDENS (failures = [])
                  (num (length (filter gr_passed rs)) @ ''/'' @ num (length rs) @ '' golden decisions hold'') failures))))"

definition falls_through :: "policy_engine \<Rightarrow> string \<Rightarrow> bool res" where
  "falls_through pe tool = ebind (evaluate pe tool None) (\<lambda>d. Inr (d_rule d = ''default''))"

definition missing_tools :: "policy_engine \<Rightarrow> string list \<Rightarrow> (string list) res" where
  "missing_tools pe tools =
     ebind (emap (falls_through pe) tools) (\<lambda>bs. Inr (map fst (filter snd (zip tools bs))))"

definition check_coverage :: "ci_target \<Rightarrow> policy_engine \<Rightarrow> (check option) res" where
  "check_coverage t pe =
     (case tg_connector t of
        None \<Rightarrow> Inr None
      | Some c \<Rightarrow>
          (case inventory c of
             Inl e \<Rightarrow>
               if is_gateway_error e then Inr (Some (made_check COVERAGE False ''tool inventory did not load'' [exn_str e]))
               else Inl e
           | Inr items \<Rightarrow>
               if items = [] then Inr (Some (skipped_check COVERAGE ''no tools.yaml inventory to check''))
               else
                 ebind (tool_names items) (\<lambda>tools.
                 ebind (missing_tools pe tools) (\<lambda>missing.
                 Inr (Some (made_check COVERAGE (missing = [])
                   (num (length tools - length missing) @ ''/'' @ num (length tools) @ '' tools have an explicit rule'')
                   (if missing = [] then [] else
                      [num (length missing) @ '' inventoried tool(s) fall through to default_action '' @
                       ''(unrated means unreviewed): '' @ summarize missing])))))))"

text \<open>The tools of the replay check: the inventory, or else the tools the golden cases name.\<close>

definition case_tool :: "pyval \<Rightarrow> string option" where
  "case_tool c = (case c of PDict d \<Rightarrow> (case dget_none d ''tool'' of PStr t \<Rightarrow> Some t | _ \<Rightarrow> None) | _ \<Rightarrow> None)"

definition replay_tools :: "ci_target \<Rightarrow> (string list) res" where
  "replay_tools t =
     ebind (case tg_connector t of None \<Rightarrow> Inr [] | Some c \<Rightarrow> ebind (connector_tools c) (\<lambda>ts. Inr (sort ts))) (\<lambda>tools.
     if tools = [] then
       (case tg_tests t of
          None \<Rightarrow> Inr []
        | Some (path, f) \<Rightarrow>
            ebind (load_tests_file path (Some f)) (\<lambda>cases. Inr (sort (remdups (List.map_filter case_tool cases)))))
     else Inr tools)"

definition diff_row :: "pylib \<Rightarrow> replayed_call \<Rightarrow> string" where
  "diff_row lib c =
     (let fr = lib_float_repr lib in
      rc_tool c @ (case rc_role c of Some r \<Rightarrow> if r = [] then [] else '' ['' @ r @ '']'' | None \<Rightarrow> []) @ '': '' @
      (if truthy (rc_old_action c) then py_str fr (rc_old_action c)
       else case rc_old_outcome c of Allowed \<Rightarrow> ''allowed'' | Blocked \<Rightarrow> ''blocked'') @ '' -> '' @
      py_str fr (rc_new_action c) @ '' ('' @
      (case rc_kind c of Unchanged \<Rightarrow> ''unchanged'' | NewlyBlocked \<Rightarrow> ''newly_blocked''
       | NewlyAllowed \<Rightarrow> ''newly_allowed'' | ActionChanged \<Rightarrow> ''action_changed'') @ '')'')"

definition replay_failures :: "pylib \<Rightarrow> nat \<Rightarrow> backtest_report \<Rightarrow> string list" where
  "replay_failures lib expected r =
     (if bt_calls_examined r \<noteq> expected
      then [''backtest read '' @ num (bt_calls_examined r) @ '' of '' @ num expected @ '' synthesized call(s) ('' @
            num (bt_bad_lines r) @ '' unparseable line(s))''] else []) @
     (if bt_changed r \<noteq> []
      then [''replaying the pack's own decisions through the pack changed '' @ num (length (bt_changed r)) @
            '' of them '' @ em_dash @ '' the backtest replay path disagrees with the live matcher: '' @
            summarize (map (diff_row lib) (bt_changed r))] else [])"

definition check_backtest :: "pylib \<Rightarrow> ci_target \<Rightarrow> policy_engine \<Rightarrow> check res" where
  "check_backtest lib t pe =
     ebind (replay_tools t) (\<lambda>tools.
     if tools = [] then Inr (skipped_check BACKTEST ''no tools to replay'')
     else
       (let roles = None # map Some (declared_roles pe); deny_set = effective_deny_set;
            expected = length tools * length roles in
        ebind (write_synthetic_spool lib pe tools roles deny_set) (\<lambda>spool.
        ebind (backtest_policy lib (Some spool) pe deny_set) (\<lambda>result.
        let failures = replay_failures lib expected result in
        Inr (made_check BACKTEST (failures = [])
          (if failures = []
           then num (bt_calls_examined result) @ '' replayed call(s) across '' @ num (length roles) @ '' role view(s), zero-diff''
           else num (length (bt_changed result)) @ '' unexpected diff(s)'') failures)))))"

section \<open>Reports\<close>

record pack_report =
  pr_target :: ci_target
  pr_checks :: "check list"

definition pr_ok :: "pack_report \<Rightarrow> bool" where
  "pr_ok p = list_all ck_ok (pr_checks p)"

definition check_target :: "ci_env \<Rightarrow> nat \<Rightarrow> bool \<Rightarrow> ci_target \<Rightarrow> pack_report res" where
  "check_target ce min_goldens backtest t =
     (let lib = e_lib (ci_env ce); report = (\<lambda>cs. \<lparr>pr_target = t, pr_checks = cs\<rparr>) in
      if tg_error t \<noteq> None \<and> tg_error t \<noteq> Some []
      then Inr (report [made_check VALIDATE False ''pack failed to load'' [the (tg_error t)]])
      else
        ebind (check_validate lib t) (\<lambda>(v, engine).
        case engine of
          None \<Rightarrow> Inr (report [v])
        | Some pe \<Rightarrow>
            ebind (check_goldens ce t min_goldens) (\<lambda>g.
            ebind (check_coverage t pe) (\<lambda>cov.
            ebind (if backtest then ebind (check_backtest lib t pe) (\<lambda>b. Inr [b]) else Inr []) (\<lambda>bts.
            Inr (report ([v, g] @ (case cov of None \<Rightarrow> [] | Some c \<Rightarrow> [c]) @ bts)))))))"

definition unmatched_target :: "repo \<Rightarrow> string \<Rightarrow> pack_report" where
  "unmatched_target r name =
     \<lparr>pr_target = \<lparr>tg_name = name, tg_kind = CONNECTOR, tg_path = rp_path r, tg_layers = [], tg_tests = None,
        tg_connector = None, tg_error = None\<rparr>,
      pr_checks = [made_check VALIDATE False ''no such pack''
        [''--only '' @ repr_str name @ '' matched no connector pack or policy file under '' @ rp_path r]]\<rparr>"

definition run_policy_ci :: "ci_env \<Rightarrow> nat \<Rightarrow> bool \<Rightarrow> string list \<Rightarrow> repo \<Rightarrow> (pack_report list) res" where
  "run_policy_ci ce min_goldens backtest only r =
     ebind (discover_targets r) (\<lambda>found.
     let targets = (if only = [] then found else filter (\<lambda>t. tg_name t \<in> set only) found);
         absent = (if only = [] then [] else sort (filter (\<lambda>n. n \<notin> tg_name ` set targets) (remdups only))) in
     ebind (emap (check_target ce min_goldens backtest) targets) (\<lambda>reports.
     Inr (map (unmatched_target r) absent @ reports)))"

definition ci_ok :: "pack_report list \<Rightarrow> bool" where
  "ci_ok ps = list_all pr_ok ps"

section \<open>What a passing check means\<close>

lemma made_check_simps [simp]:
  "ck_ok (made_check n ok d fs) = ok" "ck_name (made_check n ok d fs) = n" "ck_ok (skipped_check n d)"
  by (simp_all add: made_check_def skipped_check_def)

lemma read_layers_Nil:
  "read_layers lib fs = Inr (ls, []) \<Longrightarrow> emap (load_policy_file lib) fs = Inr ls"
proof (induction fs arbitrary: ls)
  case (Cons f fs)
  then show ?case by (cases "load_policy_file lib f") (auto simp: ebind_eq_Inr split: if_splits)
qed simp

lemma check_validate_engine:
  "check_validate lib t = Inr (v, Some pe) \<Longrightarrow> engine_load lib (tg_layers t) = Inr pe \<and> ck_ok v"
  by (auto simp: check_validate_def engine_load_def ebind_eq_Inr split: if_splits sum.splits dest!: read_layers_Nil)

lemma check_validate_failed: "check_validate lib t = Inr (v, None) \<Longrightarrow> \<not> ck_ok v"
  by (auto simp: check_validate_def ebind_eq_Inr split: if_splits sum.splits)

lemma golden_failures_Nil: "golden_failures ev rs = [] \<longleftrightarrow> list_all gr_passed rs"
  by (auto simp: golden_failures_def filter_empty_conv list_all_iff)

lemma check_goldens_ok:
  assumes "check_goldens ce t m = Inr g" and "ck_ok g" and "tg_kind t = CONNECTOR"
  shows "\<exists>path tests rs. tg_tests t = Some (path, tests) \<and>
    run_policy_tests (ci_env ce) (ci_sid ce) (ci_now ce) (ci_world ce) (tg_layers t) path (Some tests) = Inr rs \<and>
    list_all gr_passed rs \<and> m \<le> length rs"
proof -
  obtain path tests where t: "tg_tests t = Some (path, tests)"
    using assms by (cases "tg_tests t") (auto simp: check_goldens_def)
  obtain rs where rs: "run_policy_tests (ci_env ce) (ci_sid ce) (ci_now ce) (ci_world ce) (tg_layers t) path (Some tests) = Inr rs"
    using assms(1,2) t
    by (cases "run_policy_tests (ci_env ce) (ci_sid ce) (ci_now ce) (ci_world ce) (tg_layers t) path (Some tests)")
      (auto simp: check_goldens_def split: if_splits)
  then have "golden_failures (ci_env ce) rs = [] \<and> m \<le> length rs"
    using assms(1,2) t by (auto simp: check_goldens_def Let_def split: if_splits)
  with t rs show ?thesis by (simp add: golden_failures_Nil)
qed

lemma missing_tools_Nil:
  assumes "missing_tools pe tools = Inr []" and "tool \<in> set tools"
  shows "match_rule (pe_matcher pe) tool \<noteq> None"
proof
  assume none: "match_rule (pe_matcher pe) tool = None"
  obtain bs where bs: "emap (falls_through pe) tools = Inr bs" "filter snd (zip tools bs) = []"
    using assms(1) by (auto simp: missing_tools_def ebind_eq_Inr)
  obtain i where i: "i < length tools" "tools ! i = tool" using assms(2) by (auto simp: in_set_conv_nth)
  have len: "length bs = length tools" by (rule emap_Inr_length) (rule bs(1))
  have "falls_through pe tool = Inr (bs ! i)" using emap_Inr_nth [OF bs(1), of i] i by simp
  moreover have "falls_through pe tool = Inr True" using none by (simp add: falls_through_def evaluate_def default_decision_def)
  ultimately have "bs ! i" by simp
  moreover have "(tool, bs ! i) \<in> set (zip tools bs)" using i len by (auto simp: in_set_zip)
  ultimately show False using bs(2) by (auto simp: filter_empty_conv)
qed

lemma check_coverage_ok:
  assumes "check_coverage t pe = Inr (Some k)" and "ck_ok k" and "tg_connector t = Some c"
  shows "\<exists>tools. connector_tools c = Inr tools \<and> (\<forall>tool \<in> set tools. match_rule (pe_matcher pe) tool \<noteq> None)"
proof -
  obtain items where items: "inventory c = Inr items"
    using assms by (cases "inventory c") (auto simp: check_coverage_def split: if_splits)
  show ?thesis
  proof (cases "items = []")
    case True
    with items show ?thesis by (simp add: connector_tools_def tool_names_def)
  next
    case False
    with assms items obtain tools where tools: "tool_names items = Inr tools" "missing_tools pe tools = Inr []"
      by (auto simp: check_coverage_def ebind_eq_Inr)
    then show ?thesis using items missing_tools_Nil [OF tools(2)] by (simp add: connector_tools_def)
  qed
qed

text \<open>What stands behind a pack that passes; the golden suite is the file the pack's own directory holds.\<close>

definition pack_verified :: "ci_env \<Rightarrow> nat \<Rightarrow> fs_dir \<Rightarrow> bool" where
  "pack_verified ce m d \<longleftrightarrow>
     (\<exists>c pe path tests rs tools. load_connector d = Inr c \<and> engine_load (e_lib (ci_env ce)) (policy_layers c) = Inr pe \<and>
        tests_named d = Some (path, tests) \<and>
        run_policy_tests (ci_env ce) (ci_sid ce) (ci_now ce) (ci_world ce) (policy_layers c) path (Some tests) = Inr rs \<and>
        list_all gr_passed rs \<and> m \<le> length rs \<and> connector_tools c = Inr tools \<and>
        (\<forall>tool \<in> set tools. match_rule (pe_matcher pe) tool \<noteq> None))"

lemma load_connector_message:
  assumes "load_connector d = Inl e" and "is_gateway_error e"
  shows "exn_str e \<noteq> []"
proof (cases "map_of (fd_files d) MANIFEST")
  case None
  with assms show ?thesis by (auto simp: load_connector_def exn_str_def)
next
  case (Some f)
  show ?thesis
  proof (cases "load_yaml (file_path d MANIFEST) f")
    case (Inl e')
    with Some assms show ?thesis
      by (cases f) (auto simp: load_connector_def load_yaml_def exn_str_def is_gateway_error_def)
  next
    case (Inr v)
    with Some assms show ?thesis
      by (auto simp: load_connector_def exn_str_def split: pyval.splits if_splits)
  qed
qed

lemma pack_target_cases:
  assumes "pack_target d = Inr t"
  obtains (failed) msg where "t = failed_target (fd_name d) (fd_path d) msg" "msg \<noteq> []"
  | (loaded) c where "load_connector d = Inr c" "tg_kind t = CONNECTOR" "tg_layers t = policy_layers c"
      "tg_connector t = Some c" "tg_error t = None" "tg_tests t = tests_named d"
  using assms by (auto simp: pack_target_def split: if_splits sum.splits dest: load_connector_message)

lemma check_target_green:
  assumes "pack_target d = Inr t" and "check_target ce m bt t = Inr pr" and "pr_ok pr"
  shows "pack_verified ce m d"
  using assms(1)
proof (cases rule: pack_target_cases)
  case (failed msg)
  with assms(2,3) show ?thesis by (auto simp: check_target_def failed_target_def pr_ok_def)
next
  case (loaded c)
  obtain v engine where v: "check_validate (e_lib (ci_env ce)) t = Inr (v, engine)"
    using assms(2) loaded by (auto simp: check_target_def Let_def ebind_eq_Inr)
  obtain pe where pe: "engine = Some pe"
    using assms(2,3) v loaded check_validate_failed [of _ t v]
    by (cases engine) (auto simp: check_target_def Let_def pr_ok_def)
  obtain g cov bts where g: "check_goldens ce t m = Inr g" "check_coverage t pe = Inr cov"
    "pr_checks pr = [v, g] @ (case cov of None \<Rightarrow> [] | Some c \<Rightarrow> [c]) @ bts"
    using assms(2) v pe loaded by (auto simp: check_target_def Let_def ebind_eq_Inr)
  obtain k where k: "cov = Some k"
    using g(2) loaded by (auto simp: check_coverage_def ebind_eq_Inr split: sum.splits if_splits)
  have ok: "ck_ok g" "ck_ok k" using assms(3) g(3) k by (auto simp: pr_ok_def)
  show ?thesis
    using check_validate_engine [OF v [unfolded pe]] check_goldens_ok [OF g(1) ok(1)]
      check_coverage_ok [OF g(2) [unfolded k] ok(2)] loaded
    unfolding pack_verified_def by metis
qed

section \<open>What a green run means\<close>

lemma discover_covers:
  assumes "discover_targets r = Inr ts" and "rp_connectors r = Some ds" and "d \<in> set ds" and "\<not> hidden_dir d"
  obtains t where "t \<in> set ts" and "pack_target d = Inr t"
proof -
  obtain packs where p: "emap pack_target (filter (\<lambda>d. \<not> hidden_dir d) (sort_key fd_name ds)) = Inr packs" "set packs \<subseteq> set ts"
    using assms(1,2) by (auto simp: discover_targets_def ebind_eq_Inr)
  have "d \<in> set (filter (\<lambda>d. \<not> hidden_dir d) (sort_key fd_name ds))" using assms(3,4) by simp
  from emap_Inr_set [OF p(1) this] p(2) that show thesis by blast
qed

lemma green_run_verifies:
  assumes "run_policy_ci ce m bt [] r = Inr ps" and "ci_ok ps"
    and "rp_connectors r = Some ds" and "d \<in> set ds" and "\<not> hidden_dir d"
  shows "pack_verified ce m d"
proof -
  obtain ts where ts: "discover_targets r = Inr ts" "emap (check_target ce m bt) ts = Inr ps"
    using assms(1) by (auto simp: run_policy_ci_def ebind_eq_Inr)
  obtain t where t: "t \<in> set ts" "pack_target d = Inr t" using discover_covers [OF ts(1) assms(3-5)] .
  obtain pr where pr: "check_target ce m bt t = Inr pr" "pr \<in> set ps" using emap_Inr_set [OF ts(2) t(1)] by blast
  have "pr_ok pr" using assms(2) pr(2) by (simp add: ci_ok_def list_all_iff)
  then show ?thesis by (rule check_target_green [OF t(2) pr(1)])
qed

text \<open>A name that selects nothing fails the run.\<close>

lemma only_typo_fails:
  assumes "run_policy_ci ce m bt only r = Inr ps" and "discover_targets r = Inr ts"
    and "name \<in> set only" and "name \<notin> tg_name ` set ts"
  shows "\<not> ci_ok ps"
proof -
  have ne: "only \<noteq> []" using assms(3) by auto
  have abs: "name \<in> set (sort (filter (\<lambda>n. n \<notin> tg_name ` set (filter (\<lambda>t. tg_name t \<in> set only) ts)) (remdups only)))"
    using assms(3,4) by auto
  have "unmatched_target r name \<in> set ps" using assms(1,2) ne abs by (auto simp: run_policy_ci_def ebind_eq_Inr Let_def)
  moreover have "\<not> pr_ok (unmatched_target r name)" by (simp add: unmatched_target_def pr_ok_def)
  ultimately show ?thesis by (auto simp: ci_ok_def list_all_iff)
qed

text \<open>Mappings have distinct keys, so a loaded engine decides only actions of the vocabulary.\<close>

definition layers_wf :: "pylib \<Rightarrow> layer_file list \<Rightarrow> bool" where
  "layers_wf lib fs \<longleftrightarrow> (\<forall>f \<in> set fs. \<forall>l. load_policy_file lib f = Inr l \<longrightarrow> rules_wf l)"

lemma load_policy_file_ok: "load_policy_file lib f = Inr l \<Longrightarrow> layer_ok lib l"
  by (auto simp: load_policy_file_def split: option.splits file_content.splits dest: parse_document_ok)

lemma engine_load_plain:
  assumes "engine_load lib fs = Inr pe" and "layers_wf lib fs"
  shows "plain_engine pe"
proof -
  obtain ls where ls: "emap (load_policy_file lib) fs = Inr ls" "make_engine lib ls = Inr pe"
    using assms(1) by (auto simp: engine_load_def ebind_eq_Inr)
  have "layer_ok lib l \<and> rules_wf l" if l: "l \<in> set ls" for l
  proof -
    obtain f where "f \<in> set fs" "load_policy_file lib f = Inr l" using emap_Inr_set' [OF ls(1) l] by blast
    with assms(2) load_policy_file_ok show ?thesis by (simp add: layers_wf_def)
  qed
  then show ?thesis by (intro make_engine_plain [OF ls(2)]) simp
qed

text \<open>The replay check is a smoke test of the tools: it cannot fail on a policy that compiles.\<close>

lemma replay_check_passes:
  assumes "plain_floats lib" and "plain_engine pe" and "check_backtest lib t pe = Inr k"
  shows "ck_ok k"
proof -
  obtain tools where tools: "replay_tools t = Inr tools" using assms(3) by (auto simp: check_backtest_def ebind_eq_Inr)
  show ?thesis
  proof (cases "tools = []")
    case True
    with assms(3) tools show ?thesis by (auto simp: check_backtest_def)
  next
    case False
    let ?roles = "None # map Some (declared_roles pe)"
    obtain spool res where sp: "write_synthetic_spool lib pe tools ?roles effective_deny_set = Inr spool"
      and res: "backtest_policy lib (Some spool) pe effective_deny_set = Inr res"
      and k: "ck_ok k = (replay_failures lib (length tools * length ?roles) res = [])"
      using assms(3) tools False by (auto simp: check_backtest_def ebind_eq_Inr Let_def)
    from synthetic_replay [OF assms(1,2) sp] res k show ?thesis by (auto simp: replay_failures_def)
  qed
qed

text \<open>
  An inventory that does not load is a failure of the coverage check, but the replay check reads
  it again outside any handler: the error leaves the run and no report is made.
\<close>

lemma broken_inventory_aborts:
  assumes "tg_error t = None" and "tg_connector t = Some c" and "inventory c = Inl (ConnectorError msg)"
    and "check_validate (e_lib (ci_env ce)) t = Inr (v, Some pe)" and "check_goldens ce t m = Inr g"
  shows "check_target ce m True t = Inl (ConnectorError msg)"
  using assms
  by (simp add: check_target_def Let_def check_coverage_def is_gateway_error_def check_backtest_def replay_tools_def
      connector_tools_def)

end
