(* ===== verification/Policy_Diff.thy ===== *)
theory Policy_Diff
  imports Policy_CI
begin

text \<open>
  \<open>policy/diff.py\<close>: what a change of the repository decides differently. Both sides are compiled
  and every tool of the combined surface is decided in every role view; each difference is
  ranked on the ladder of actions. The rendered reports are left out.

  The lemmas show that the ranking is an order (a change and its reverse point in opposite
  directions, two steps down are a step down), that the report is complete (every call on the
  surface whose action differs is a row, and no row is spurious), that the counts add up, and
  that a call which was refused and now passes is always ranked as loosened.
\<close>

section \<open>The ladder\<close>

datatype decision_change = LOOSENED | TIGHTENED | CHANGED_KIND

datatype pack_state = ADDED | REMOVED | CHANGED | UNCHANGED | BROKEN

definition STRENGTH :: "(string \<times> nat) list" where
  "STRENGTH = [(''allow'', 0), (''rewrite'', 1), (''redact'', 1), (''quarantine'', 2),
     (''require_approval'', 3), (''block'', 4)]"

definition strength :: "pyval \<Rightarrow> nat option" where
  "strength a = (case a of PStr s \<Rightarrow> map_of STRENGTH s | _ \<Rightarrow> None)"

definition classify :: "pyval \<Rightarrow> pyval \<Rightarrow> decision_change" where
  "classify base_action head_action =
     (case (strength base_action, strength head_action) of
        (Some b, Some h) \<Rightarrow> if h < b then LOOSENED else if h > b then TIGHTENED else CHANGED_KIND
      | _ \<Rightarrow> CHANGED_KIND)"

section \<open>The surface\<close>

record changed_decision =
  cd_tool :: string
  cd_role :: "string option"
  cd_base_action :: pyval
  cd_head_action :: pyval
  cd_kind :: decision_change
  cd_crosses :: bool

record pack_diff =
  pd_name :: string
  pd_state :: pack_state
  pd_examined :: nat
  pd_role_views :: nat
  pd_changed :: "changed_decision list"
  pd_unchanged :: nat
  pd_error :: "string option"
  pd_summary :: "(pyval \<times> nat) list"

definition pd_loosened :: "pack_diff \<Rightarrow> nat" where
  "pd_loosened p = length (filter (\<lambda>c. cd_kind c = LOOSENED) (pd_changed p))"

definition pd_tightened :: "pack_diff \<Rightarrow> nat" where
  "pd_tightened p = length (filter (\<lambda>c. cd_kind c = TIGHTENED) (pd_changed p))"

definition pd_lateral :: "pack_diff \<Rightarrow> nat" where
  "pd_lateral p = length (filter (\<lambda>c. cd_kind c = CHANGED_KIND) (pd_changed p))"

definition pd_newly_allowed :: "pack_diff \<Rightarrow> nat" where
  "pd_newly_allowed p = length (filter cd_crosses (pd_changed p))"

definition tool_surface :: "ci_target option \<Rightarrow> policy_engine option \<Rightarrow> (string list) res" where
  "tool_surface t pe =
     ebind (case t of
              None \<Rightarrow> Inr []
            | Some t \<Rightarrow>
                (case tg_connector t of
                   None \<Rightarrow> Inr []
                 | Some c \<Rightarrow>
                     (case inventory c of
                        Inl e \<Rightarrow> if is_gateway_error e then Inr [] else Inl e
                      | Inr items \<Rightarrow> tool_names items))) (\<lambda>tools.
     Inr (tools @ (case pe of
                     None \<Rightarrow> []
                   | Some e \<Rightarrow> filter (\<lambda>p. p \<noteq> [] \<and> \<not> is_glob p) (map fst (pe_rules e)))))"

definition glob_only_patterns :: "policy_engine option \<Rightarrow> string list" where
  "glob_only_patterns pe = (case pe of None \<Rightarrow> [] | Some e \<Rightarrow> filter is_glob (map fst (pe_rules e)))"

text \<open>A glob that matches no tool collected so far stands for itself.\<close>

fun add_globs :: "string list \<Rightarrow> string list \<Rightarrow> string list" where
  "add_globs [] tools = tools"
| "add_globs (p # ps) tools =
     add_globs ps (if list_ex (\<lambda>t. fnmatch t p) tools then tools else tools @ [p])"

definition compile_side :: "pylib \<Rightarrow> ci_target option \<Rightarrow> (policy_engine option \<times> string option) res" where
  "compile_side lib t =
     (case t of
        None \<Rightarrow> Inr (None, None)
      | Some t \<Rightarrow>
          if tg_error t \<noteq> None \<and> tg_error t \<noteq> Some [] then Inr (None, tg_error t)
          else
            (case engine_load lib (tg_layers t) of
               Inr pe \<Rightarrow> Inr (Some pe, None)
             | Inl e \<Rightarrow> if is_gateway_error e then Inr (None, Some (exn_str e)) else Inl e))"

fun add_roles :: "string list \<Rightarrow> (string option) list \<Rightarrow> (string option) list" where
  "add_roles [] roles = roles"
| "add_roles (r # rs) roles = add_roles rs (if Some r \<in> set roles then roles else roles @ [Some r])"

definition role_views :: "policy_engine option \<Rightarrow> policy_engine option \<Rightarrow> (string option) list" where
  "role_views b h =
     add_roles (case h of None \<Rightarrow> [] | Some e \<Rightarrow> declared_roles e)
       (add_roles (case b of None \<Rightarrow> [] | Some e \<Rightarrow> declared_roles e) [None])"

definition action_of :: "policy_engine \<Rightarrow> string \<times> string option \<Rightarrow> pyval res" where
  "action_of pe q = ebind (evaluate pe (fst q) (snd q)) (\<lambda>d. Inr (d_action d))"

section \<open>The diff\<close>

definition compare_call ::
  "string list \<Rightarrow> policy_engine \<Rightarrow> policy_engine \<Rightarrow> string \<times> string option \<Rightarrow> (changed_decision option) res" where
  "compare_call deny_set b h q =
     ebind (action_of b q) (\<lambda>ba.
     ebind (action_of h q) (\<lambda>ha.
     if py_eq ba ha then Inr None
     else if py_key ba = None \<or> py_key ha = None then Inl TypeError
     else
       ebind (in_strset ba deny_set) (\<lambda>bd.
       ebind (if bd then in_strset ha deny_set else Inr True) (\<lambda>hd'.
       Inr (Some \<lparr>cd_tool = fst q, cd_role = snd q, cd_base_action = ba, cd_head_action = ha,
                  cd_kind = classify ba ha, cd_crosses = (bd \<and> \<not> hd')\<rparr>)))))"

definition kind_order :: "decision_change \<Rightarrow> nat" where
  "kind_order k = (case k of LOOSENED \<Rightarrow> 0 | TIGHTENED \<Rightarrow> 1 | CHANGED_KIND \<Rightarrow> 2)"

definition row_order :: "changed_decision \<Rightarrow> nat \<times> string \<times> string" where
  "row_order c = (kind_order (cd_kind c), cd_tool c, case cd_role c of None \<Rightarrow> [] | Some r \<Rightarrow> r)"

fun tally :: "pyval list \<Rightarrow> (pyval \<times> nat) list \<Rightarrow> ((pyval \<times> nat) list) res" where
  "tally [] acc = Inr acc"
| "tally (a # as) acc = (if py_key a = None then Inl TypeError else tally as (add_risk a acc))"

definition new_diff :: "string \<Rightarrow> pack_state \<Rightarrow> string option \<Rightarrow> pack_diff" where
  "new_diff name st err =
     \<lparr>pd_name = name, pd_state = st, pd_examined = 0, pd_role_views = 0, pd_changed = [], pd_unchanged = 0,
      pd_error = err, pd_summary = []\<rparr>"

definition surface :: "ci_target option \<Rightarrow> ci_target option \<Rightarrow> policy_engine option \<Rightarrow> policy_engine option \<Rightarrow> (string list) res" where
  "surface base hd_t b h =
     ebind (tool_surface base b) (\<lambda>bt.
     ebind (tool_surface hd_t h) (\<lambda>ht.
     Inr (sort (remdups (add_globs (glob_only_patterns b @ glob_only_patterns h) (bt @ ht))))))"

definition error_set :: "string option \<Rightarrow> bool" where
  "error_set e = (e \<noteq> None \<and> e \<noteq> Some [])"

definition summarize_pack ::
  "string \<Rightarrow> pack_state \<Rightarrow> policy_engine \<Rightarrow> string list \<Rightarrow> (string option) list \<Rightarrow> pack_diff res" where
  "summarize_pack name st pe tools roles =
     (let calls = synthetic_calls tools roles in
      ebind (emap (action_of pe) calls) (\<lambda>actions.
      ebind (tally actions []) (\<lambda>acc.
      Inr ((new_diff name st None)\<lparr>pd_examined := length calls, pd_role_views := length roles, pd_summary := acc\<rparr>))))"

definition compare_pack ::
  "string \<Rightarrow> policy_engine \<Rightarrow> policy_engine \<Rightarrow> string list \<Rightarrow> (string option) list \<Rightarrow> pack_diff res" where
  "compare_pack name b h tools roles =
     (let calls = synthetic_calls tools roles in
      ebind (emap (compare_call effective_deny_set b h) calls) (\<lambda>rows.
      let changed = List.map_filter id rows in
      Inr ((new_diff name (if changed = [] then UNCHANGED else CHANGED) None)
        \<lparr>pd_examined := length calls, pd_role_views := length roles,
         pd_changed := sort_key row_order changed, pd_unchanged := length (filter (\<lambda>x. x = None) rows)\<rparr>)))"

definition diff_pack :: "pylib \<Rightarrow> string \<Rightarrow> ci_target option \<Rightarrow> ci_target option \<Rightarrow> pack_diff res" where
  "diff_pack lib name base hd_t =
     ebind (compile_side lib base) (\<lambda>(b, base_error).
     ebind (compile_side lib hd_t) (\<lambda>(h, head_error).
     if error_set head_error \<or> (error_set base_error \<and> base \<noteq> None \<and> hd_t = None)
     then Inr (new_diff name BROKEN (if error_set head_error then head_error else base_error))
     else if b = None \<and> h = None then Inr (new_diff name BROKEN (Some ''neither side compiled''))
     else
       ebind (surface base hd_t b h) (\<lambda>tools.
       (let roles = role_views b h in
        case b of
          None \<Rightarrow> summarize_pack name ADDED (the h) tools roles
        | Some be \<Rightarrow>
            (case h of
               None \<Rightarrow> summarize_pack name REMOVED be tools roles
             | Some he \<Rightarrow> compare_pack name be he tools roles)))))"

text \<open>\<open>{t.name: t for t in ...}\<close>: of two targets with one name the later one is kept.\<close>

definition by_name :: "ci_target list \<Rightarrow> string \<Rightarrow> ci_target option" where
  "by_name ts n = map_of (rev (map (\<lambda>t. (tg_name t, t)) ts)) n"

definition diff_roots :: "pylib \<Rightarrow> repo \<Rightarrow> repo \<Rightarrow> (pack_diff list) res" where
  "diff_roots lib base_root head_root =
     ebind (discover_targets base_root) (\<lambda>base.
     ebind (discover_targets head_root) (\<lambda>hd_ts.
     emap (\<lambda>n. diff_pack lib n (by_name base n) (by_name hd_ts n)) (sort (remdups (map tg_name (base @ hd_ts))))))"

definition diff_clean :: "pack_diff list \<Rightarrow> bool" where
  "diff_clean ps = list_all (\<lambda>p. pd_state p = UNCHANGED) ps"

section \<open>The ladder is an order\<close>

lemma classify_reverse:
  "classify a b = LOOSENED \<longleftrightarrow> classify b a = TIGHTENED"
  by (auto simp: classify_def split: option.splits)

lemma classify_trans: "classify a b = LOOSENED \<Longrightarrow> classify b c = LOOSENED \<Longrightarrow> classify a c = LOOSENED"
  by (auto simp: classify_def split: option.splits if_splits)

lemma plain_action_strength: "plain_action a \<Longrightarrow> a \<noteq> PNone \<Longrightarrow> strength a \<noteq> None"
  by (auto simp: plain_action_def ACTION_VOCABULARY_def strength_def STRENGTH_def)

text \<open>Only blocking, and approval with nobody to ask, is refused outright; both rank above the rest.\<close>

lemma effective_deny_set_eq: "effective_deny_set = [''block'', ''require_approval'']"
  by (simp add: effective_deny_set_def denying_actions_def build_action_handlers_def terminal_deny_def)

lemma crossing_is_loosened:
  assumes "compare_call effective_deny_set b h q = Inr (Some c)" and "cd_crosses c"
    and "plain_action (cd_head_action c)" and "cd_head_action c \<noteq> PNone"
  shows "cd_kind c = LOOSENED"
proof -
  have c: "in_strset (cd_base_action c) effective_deny_set = Inr True"
    "in_strset (cd_head_action c) effective_deny_set = Inr False" "cd_kind c = classify (cd_base_action c) (cd_head_action c)"
    using assms(1,2) by (auto simp: compare_call_def ebind_eq_Inr split: if_splits)
  have "cd_base_action c = PStr ''block'' \<or> cd_base_action c = PStr ''require_approval''"
    using c(1) by (cases "cd_base_action c") (auto simp: in_strset_def effective_deny_set_eq split: option.splits)
  moreover have "cd_head_action c \<in> PStr ` {''allow'', ''rewrite'', ''redact'', ''quarantine''}"
    using c(2) assms(3,4) by (auto simp: plain_action_def ACTION_VOCABULARY_def in_strset_def effective_deny_set_eq)
  ultimately show ?thesis using c(3) by (auto simp: classify_def strength_def STRENGTH_def)
qed

section \<open>The report is complete and exact\<close>

lemma map_filter_id_length:
  "length (filter (\<lambda>x. x = None) rows) + length (List.map_filter id rows) = length rows"
  by (induction rows) (auto simp: List.map_filter_simps split: option.splits)

lemma map_filter_id_mem: "x \<in> set (List.map_filter id rows) \<longleftrightarrow> Some x \<in> set rows"
  by (induction rows) (auto simp: List.map_filter_simps split: option.splits)

lemma kind_partition:
  "length (filter (\<lambda>c. cd_kind c = LOOSENED) cs) + length (filter (\<lambda>c. cd_kind c = TIGHTENED) cs) +
     length (filter (\<lambda>c. cd_kind c = CHANGED_KIND) cs) = length cs"
proof (induction cs)
  case (Cons c cs)
  then show ?case by (cases "cd_kind c") simp_all
qed simp

lemma compare_pack_counts:
  assumes "compare_pack name b h tools roles = Inr p"
  shows "pd_examined p = length tools * length roles"
    and "pd_loosened p + pd_tightened p + pd_lateral p + pd_unchanged p = pd_examined p"
proof -
  obtain rows where rows: "emap (compare_call effective_deny_set b h) (synthetic_calls tools roles) = Inr rows"
    and p: "pd_examined p = length (synthetic_calls tools roles)" "pd_changed p = sort_key row_order (List.map_filter id rows)"
      "pd_unchanged p = length (filter (\<lambda>x. x = None) rows)"
    using assms by (auto simp: compare_pack_def ebind_eq_Inr Let_def)
  show "pd_examined p = length tools * length roles"
    by (simp add: p(1) synthetic_calls_def length_concat comp_def sum_list_triv)
  have "length (pd_changed p) + pd_unchanged p = pd_examined p"
    using map_filter_id_length [of rows] emap_Inr_length [OF rows] by (simp add: p)
  then show "pd_loosened p + pd_tightened p + pd_lateral p + pd_unchanged p = pd_examined p"
    using kind_partition [of "pd_changed p"] by (simp add: pd_loosened_def pd_tightened_def pd_lateral_def)
qed

lemma compare_pack_rows:
  assumes "compare_pack name b h tools roles = Inr p"
  shows "c \<in> set (pd_changed p) \<longleftrightarrow>
    (\<exists>q. fst q \<in> set tools \<and> snd q \<in> set roles \<and> compare_call effective_deny_set b h q = Inr (Some c))"
proof -
  obtain rows where rows: "emap (compare_call effective_deny_set b h) (synthetic_calls tools roles) = Inr rows"
    and p: "pd_changed p = sort_key row_order (List.map_filter id rows)"
    using assms by (auto simp: compare_pack_def ebind_eq_Inr Let_def)
  have calls: "q \<in> set (synthetic_calls tools roles) \<longleftrightarrow> fst q \<in> set tools \<and> snd q \<in> set roles" for q
    by (cases q) (auto simp: synthetic_calls_def)
  have "Some c \<in> set rows \<longleftrightarrow> (\<exists>q \<in> set (synthetic_calls tools roles). compare_call effective_deny_set b h q = Inr (Some c))"
  proof
    assume "Some c \<in> set rows"
    from emap_Inr_set' [OF rows this] show "\<exists>q \<in> set (synthetic_calls tools roles). compare_call effective_deny_set b h q = Inr (Some c)"
      by blast
  next
    assume "\<exists>q \<in> set (synthetic_calls tools roles). compare_call effective_deny_set b h q = Inr (Some c)"
    then obtain q where q: "q \<in> set (synthetic_calls tools roles)" "compare_call effective_deny_set b h q = Inr (Some c)" by blast
    from emap_Inr_set [OF rows q(1)] q(2) show "Some c \<in> set rows" by auto
  qed
  with calls show ?thesis by (simp add: p map_filter_id_mem Bex_def)
qed

text \<open>The row of a call, when there is one.\<close>

lemma compare_call_row:
  assumes "action_of b q = Inr ba" and "action_of h q = Inr ha" and "plain_action ba" and "plain_action ha"
  shows "compare_call effective_deny_set b h q =
    Inr (if ba = ha then None
         else Some \<lparr>cd_tool = fst q, cd_role = snd q, cd_base_action = ba, cd_head_action = ha, cd_kind = classify ba ha,
                    cd_crosses = (ba \<in> PStr ` set effective_deny_set \<and> ha \<notin> PStr ` set effective_deny_set)\<rparr>)"
  using assms by (auto simp: compare_call_def plain_action_def in_strset_def)

lemma compare_row:
  assumes "compare_pack name b h tools roles = Inr p" and "plain_engine b" and "plain_engine h"
    and "tool \<in> set tools" and "role \<in> set roles"
    and "action_of b (tool, role) = Inr ba" and "action_of h (tool, role) = Inr ha"
  shows "(\<exists>c \<in> set (pd_changed p). cd_tool c = tool \<and> cd_role c = role) \<longleftrightarrow> ba \<noteq> ha"
    and "\<forall>c \<in> set (pd_changed p). cd_tool c = tool \<and> cd_role c = role \<longrightarrow>
       cd_base_action c = ba \<and> cd_head_action c = ha \<and> cd_kind c = classify ba ha \<and>
       (cd_crosses c \<and> ha \<noteq> PNone \<longrightarrow> cd_kind c = LOOSENED)"
proof -
  have plain: "plain_action ba" "plain_action ha"
    using assms(2,3,6,7) unfolding plain_engine_def action_of_def ebind_eq_Inr by auto
  note row = compare_call_row [OF assms(6,7) plain]
  have named: "cd_tool c = fst q \<and> cd_role c = snd q" if "compare_call effective_deny_set b h q = Inr (Some c)" for q c
    using that by (auto simp: compare_call_def ebind_eq_Inr split: if_splits)
  have of_call: "compare_call effective_deny_set b h (tool, role) = Inr (Some c)"
    if c: "c \<in> set (pd_changed p)" "cd_tool c = tool" "cd_role c = role" for c
  proof -
    obtain q where q: "compare_call effective_deny_set b h q = Inr (Some c)" using compare_pack_rows [OF assms(1), of c] c(1) by blast
    with named [OF q] c(2,3) show ?thesis by (cases q) simp
  qed
  show "(\<exists>c \<in> set (pd_changed p). cd_tool c = tool \<and> cd_role c = role) \<longleftrightarrow> ba \<noteq> ha"
  proof
    assume "\<exists>c \<in> set (pd_changed p). cd_tool c = tool \<and> cd_role c = role"
    with of_call row show "ba \<noteq> ha" by force
  next
    assume "ba \<noteq> ha"
    with row obtain c where c: "compare_call effective_deny_set b h (tool, role) = Inr (Some c)" by simp
    moreover from c named have "cd_tool c = tool" "cd_role c = role" by fastforce+
    ultimately show "\<exists>c \<in> set (pd_changed p). cd_tool c = tool \<and> cd_role c = role"
      using compare_pack_rows [OF assms(1), of c] assms(4,5) by auto
  qed
  show "\<forall>c \<in> set (pd_changed p). cd_tool c = tool \<and> cd_role c = role \<longrightarrow>
       cd_base_action c = ba \<and> cd_head_action c = ha \<and> cd_kind c = classify ba ha \<and>
       (cd_crosses c \<and> ha \<noteq> PNone \<longrightarrow> cd_kind c = LOOSENED)"
  proof (intro ballI impI)
    fix c assume "c \<in> set (pd_changed p)" "cd_tool c = tool \<and> cd_role c = role"
    with of_call have c: "compare_call effective_deny_set b h (tool, role) = Inr (Some c)" by blast
    with row have "cd_base_action c = ba \<and> cd_head_action c = ha \<and> cd_kind c = classify ba ha" by (auto split: if_splits)
    with crossing_is_loosened [OF c] plain(2) show "cd_base_action c = ba \<and> cd_head_action c = ha \<and>
        cd_kind c = classify ba ha \<and> (cd_crosses c \<and> ha \<noteq> PNone \<longrightarrow> cd_kind c = LOOSENED)" by metis
  qed
qed

section \<open>An unchanged pack decides the same\<close>

lemma add_roles_set: "set (add_roles rs roles) = set roles \<union> Some ` set rs"
  by (induction rs roles rule: add_roles.induct) auto

lemma add_globs_set: "set tools \<subseteq> set (add_globs ps tools)"
  by (induction ps tools rule: add_globs.induct) auto

text \<open>A role no rule overlays is decided as no role.\<close>

lemma undeclared_role:
  assumes "r \<notin> set (declared_roles pe)"
  shows "action_of pe (tool, Some r) = action_of pe (tool, None)"
proof -
  have "map_of (cr_overlays c) r = None" if "map_of (pe_rules pe) p = Some c" for p c
  proof -
    have "(p, c) \<in> set (pe_rules pe)" by (rule map_of_SomeD) (rule that)
    with assms have "r \<notin> fst ` set (cr_overlays c)" by (force simp: declared_roles_def)
    then show ?thesis by (simp add: map_of_eq_None_iff)
  qed
  then show ?thesis
    by (auto simp: action_of_def evaluate_def default_decision_def decision_of_def for_role_def split: option.splits)
qed

lemma role_views_enough:
  assumes "\<forall>v \<in> set (role_views (Some b) (Some h)). action_of b (tool, v) = action_of h (tool, v)"
  shows "action_of b (tool, role) = action_of h (tool, role)"
proof (cases "role \<in> set (role_views (Some b) (Some h))")
  case True
  with assms show ?thesis by blast
next
  case False
  have none: "None \<in> set (role_views (Some b) (Some h))" by (simp add: role_views_def add_roles_set)
  with False obtain r where r: "role = Some r" by (cases role) auto
  with False have "r \<notin> set (declared_roles b)" "r \<notin> set (declared_roles h)" by (auto simp: role_views_def add_roles_set)
  then have "action_of b (tool, role) = action_of b (tool, None)" "action_of h (tool, role) = action_of h (tool, None)"
    by (simp_all add: r undeclared_role)
  with assms none show ?thesis by simp
qed

lemma plain_py_eq: "plain_action a \<Longrightarrow> plain_action b \<Longrightarrow> py_eq a b \<Longrightarrow> a = b"
  by (auto simp: plain_action_def)

lemma compare_call_None:
  assumes "compare_call deny_set b h q = Inr None" and "plain_engine b" and "plain_engine h"
  shows "action_of b q = action_of h q \<and> isOk (action_of b q)"
proof -
  obtain db dh where d: "evaluate b (fst q) (snd q) = Inr db" "evaluate h (fst q) (snd q) = Inr dh" "py_eq (d_action db) (d_action dh)"
    using assms(1) by (auto simp: compare_call_def action_of_def ebind_eq_Inr split: if_splits)
  have "plain_action (d_action db)" "plain_action (d_action dh)"
    using assms(2,3) d(1,2) unfolding plain_engine_def by blast+
  with d show ?thesis by (auto simp: action_of_def dest: plain_py_eq)
qed

lemma unchanged_pack_agrees:
  assumes "compare_pack name b h tools (role_views (Some b) (Some h)) = Inr p" and "pd_state p = UNCHANGED"
    and "plain_engine b" and "plain_engine h" and "tool \<in> set tools"
  shows "action_of b (tool, role) = action_of h (tool, role)"
proof (rule role_views_enough, rule ballI)
  fix v assume v: "v \<in> set (role_views (Some b) (Some h))"
  let ?calls = "synthetic_calls tools (role_views (Some b) (Some h))"
  obtain rows where rows: "emap (compare_call effective_deny_set b h) ?calls = Inr rows"
    and none: "List.map_filter id rows = []"
    using assms(1,2) by (auto simp: compare_pack_def new_diff_def ebind_eq_Inr Let_def split: if_splits)
  have "(tool, v) \<in> set ?calls" using v assms(5) by (auto simp: synthetic_calls_def)
  from emap_Inr_set [OF rows this] obtain c where c: "compare_call effective_deny_set b h (tool, v) = Inr c" "c \<in> set rows" by blast
  have "c = None" using none c(2) map_filter_id_mem [of _ rows] by (cases c) auto
  with compare_call_None [OF _ assms(3,4)] c(1) show "action_of b (tool, v) = action_of h (tool, v)" by simp
qed

text \<open>The surface holds the literal patterns of both sides, and their inventories.\<close>

lemma surface_literals:
  assumes "surface bt ht (Some b) (Some h) = Inr tools" and "p \<in> fst ` set (pe_rules b) \<union> fst ` set (pe_rules h)"
    and "p \<noteq> []" and "\<not> is_glob p"
  shows "p \<in> set tools"
proof -
  obtain x y where xy: "tool_surface bt (Some b) = Inr x" "tool_surface ht (Some h) = Inr y"
    "tools = sort (remdups (add_globs (glob_only_patterns (Some b) @ glob_only_patterns (Some h)) (x @ y)))"
    using assms(1) by (auto simp: surface_def ebind_eq_Inr)
  obtain x0 y0 where "x = x0 @ filter (\<lambda>p. p \<noteq> [] \<and> \<not> is_glob p) (map fst (pe_rules b))"
    "y = y0 @ filter (\<lambda>p. p \<noteq> [] \<and> \<not> is_glob p) (map fst (pe_rules h))"
    using xy(1,2) by (auto simp: tool_surface_def ebind_eq_Inr)
  then have "p \<in> set (x @ y)" using assms(2-4) by (elim UnE) simp_all
  with add_globs_set [of "x @ y"] show ?thesis unfolding xy(3) by auto
qed

lemma surface_inventory:
  assumes "surface bt ht b h = Inr tools" and "bt = Some t \<or> ht = Some t" and "tg_connector t = Some c"
    and "connector_tools c = Inr names" and "n \<in> set names"
  shows "n \<in> set tools"
proof -
  obtain x y where xy: "tool_surface bt b = Inr x" "tool_surface ht h = Inr y"
    "tools = sort (remdups (add_globs (glob_only_patterns b @ glob_only_patterns h) (x @ y)))"
    using assms(1) by (auto simp: surface_def ebind_eq_Inr)
  obtain items where items: "inventory c = Inr items" "tool_names items = Inr names"
    using assms(4) by (auto simp: connector_tools_def ebind_eq_Inr)
  have "n \<in> set (x @ y)" using xy(1,2) assms(2,3,5) items by (auto simp: tool_surface_def ebind_eq_Inr)
  with add_globs_set [of "x @ y"] show ?thesis unfolding xy(3) by auto
qed

lemma compile_side_Some:
  "compile_side lib (Some t) = Inr (Some pe, e) \<Longrightarrow> engine_load lib (tg_layers t) = Inr pe \<and> e = None"
  by (auto simp: compile_side_def split: if_splits sum.splits)

lemma unchanged_diff_compared:
  assumes "diff_pack lib name bt ht = Inr p" and "pd_state p = UNCHANGED"
  obtains t u b h tools where "bt = Some t" "ht = Some u" "engine_load lib (tg_layers t) = Inr b"
    "engine_load lib (tg_layers u) = Inr h" "surface bt ht (Some b) (Some h) = Inr tools"
    "compare_pack name b h tools (role_views (Some b) (Some h)) = Inr p"
proof -
  obtain bo be ho he where s: "compile_side lib bt = Inr (bo, be)" "compile_side lib ht = Inr (ho, he)"
    using assms(1) by (auto simp: diff_pack_def ebind_eq_Inr)
  obtain b where b: "bo = Some b"
    using assms s by (cases bo) (auto simp: diff_pack_def summarize_pack_def new_diff_def ebind_eq_Inr Let_def split: if_splits)
  obtain h where h: "ho = Some h"
    using assms s b by (cases ho) (auto simp: diff_pack_def summarize_pack_def new_diff_def ebind_eq_Inr Let_def split: if_splits)
  obtain t where t: "bt = Some t" using s(1) b by (cases bt) (auto simp: compile_side_def)
  obtain u where u: "ht = Some u" using s(2) h by (cases ht) (auto simp: compile_side_def)
  obtain tools where "surface bt ht (Some b) (Some h) = Inr tools"
    "compare_pack name b h tools (role_views (Some b) (Some h)) = Inr p"
    using assms s b h by (auto simp: diff_pack_def new_diff_def ebind_eq_Inr Let_def split: if_splits)
  with that t u s b h compile_side_Some show thesis by blast
qed

text \<open>
  Targets are kept by bare name: a policy file named like a pack takes its place, and the pack is
  not compared at all.
\<close>

lemma policy_file_shadows_pack:
  assumes "tg_name u = tg_name t"
  shows "by_name (ts @ [u]) (tg_name t) = Some u"
  using assms by (simp add: by_name_def)

end
