(* ===== verification/Sample_Policies.thy ===== *)
theory Sample_Policies
  imports Samples Policy_Diff
begin

text \<open>
  Concrete packs on which the statements about the offline tools are evaluated: a connector
  pack with an inventory and one golden case, the repository holding it, and two policies that
  differ only in a glob rule.
\<close>

definition demo_policy :: pyval where
  "demo_policy =
     PDict [(PStr ''schema_version'', PInt 1),
            (PStr ''tools'', PDict [(PStr ''db.read'', PDict [(PStr ''action'', PStr ''allow'')]),
                                    (PStr ''db.drop'', PDict [(PStr ''action'', PStr ''block'')])])]"

definition demo_case :: pydict where
  "demo_case = [(PStr ''tool'', PStr ''db.drop''), (PStr ''expect'', PDict [(PStr ''outcome'', PStr ''deny'')])]"

definition demo_pack :: fs_dir where
  "demo_pack =
     \<lparr>fd_path = ''connectors/demo'', fd_name = ''demo'',
      fd_files = [(''manifest.yaml'', Yaml (PDict [(PStr ''name'', PStr ''demo'')])), (''policy.yaml'', Yaml demo_policy),
        (''tools.yaml'', Yaml (PDict [(PStr ''db.read'', PDict []), (PStr ''db.drop'', PDict [])])),
        (''policy_tests.yaml'', Yaml (PDict [(PStr ''tests'', PList [PDict demo_case])]))]\<rparr>"

definition demo_repo :: repo where
  "demo_repo = \<lparr>rp_path = ''repo'', rp_connectors = Some [demo_pack], rp_policies = None\<rparr>"

definition demo_env :: ci_env where
  "demo_env = \<lparr>ci_env = sample_env, ci_sid = ''s'', ci_now = ''t0'', ci_world = sample_world\<rparr>"

definition demo_target :: ci_target where
  "demo_target = projr (pack_target demo_pack)"

definition demo_engine :: policy_engine where
  "demo_engine = projr (engine_load sample_lib (tg_layers demo_target))"

lemma demo_ci_green: "\<exists>ps. run_policy_ci demo_env 1 True [] demo_repo = Inr ps \<and> ci_ok ps"
proof -
  have "case run_policy_ci demo_env 1 True [] demo_repo of Inl _ \<Rightarrow> False | Inr ps \<Rightarrow> ci_ok ps" by code_simp
  then show ?thesis by (auto split: sum.splits)
qed

text \<open>
  Two revisions of a policy: the literal rule for \<open>x_a\<close> stays, the glob beside it goes from
  \<open>block\<close> to \<open>allow\<close>.
\<close>

definition glob_target :: "string \<Rightarrow> ci_target" where
  "glob_target action =
     policy_target ''policies'' []
       (''p.yaml'', Yaml (PDict [(PStr ''schema_version'', PInt 1),
          (PStr ''tools'', PDict [(PStr ''x_a'', PDict [(PStr ''action'', PStr ''block'')]),
                                  (PStr ''x_*'', PDict [(PStr ''action'', PStr action)])])]))"

definition glob_engine :: "string \<Rightarrow> policy_engine" where
  "glob_engine action = projr (engine_load sample_lib (tg_layers (glob_target action)))"

text \<open>
  The change is invisible: the glob matches a tool of the surface, so it does not stand for
  itself, and that tool has a rule of its own.
\<close>

lemma glob_loosening_is_invisible:
  "\<exists>p. diff_pack sample_lib ''p'' (Some (glob_target ''block'')) (Some (glob_target ''allow'')) = Inr p \<and> pd_state p = UNCHANGED"
  "action_of (glob_engine ''block'') (''x_b'', None) = Inr (PStr ''block'')"
  "action_of (glob_engine ''allow'') (''x_b'', None) = Inr (PStr ''allow'')"
proof -
  have "case diff_pack sample_lib ''p'' (Some (glob_target ''block'')) (Some (glob_target ''allow'')) of
      Inl _ \<Rightarrow> False | Inr p \<Rightarrow> pd_state p = UNCHANGED" by code_simp
  then show "\<exists>p. diff_pack sample_lib ''p'' (Some (glob_target ''block'')) (Some (glob_target ''allow'')) = Inr p \<and> pd_state p = UNCHANGED"
    by (auto split: sum.splits)
  show "action_of (glob_engine ''block'') (''x_b'', None) = Inr (PStr ''block'')" by code_simp
  show "action_of (glob_engine ''allow'') (''x_b'', None) = Inr (PStr ''allow'')" by code_simp
qed

lemma glob_layers_wf:
  "layers_wf sample_lib (tg_layers (glob_target ''block''))" "layers_wf sample_lib (tg_layers (glob_target ''allow''))"
proof -
  have wf: "layers_wf sample_lib (tg_layers (glob_target a))"
    if "case load_policy_file sample_lib (hd (tg_layers (glob_target a))) of Inl _ \<Rightarrow> True | Inr l \<Rightarrow>
        list_all (\<lambda>p. distinct (map fst (snd p)) \<and> dget (snd p) ''roles'' = None) (pl_rules l)" for a
  proof -
    have one: "set (tg_layers (glob_target a)) = {hd (tg_layers (glob_target a))}"
      by (simp add: glob_target_def policy_target_def Let_def)
    have "rules_wf l" if l: "load_policy_file sample_lib (hd (tg_layers (glob_target a))) = Inr l" for l
      using \<open>case load_policy_file _ _ of Inl _ \<Rightarrow> True | Inr l \<Rightarrow> _ l\<close> by (simp add: l rules_wf_def wf_dict_def list_all_iff)
    then show ?thesis by (simp add: layers_wf_def one)
  qed
  show "layers_wf sample_lib (tg_layers (glob_target ''block''))" by (rule wf) code_simp
  show "layers_wf sample_lib (tg_layers (glob_target ''allow''))" by (rule wf) code_simp
qed

lemma glob_engine_loads:
  "engine_load sample_lib (tg_layers (glob_target ''block'')) = Inr (glob_engine ''block'')"
  "engine_load sample_lib (tg_layers (glob_target ''allow'')) = Inr (glob_engine ''allow'')"
  by code_simp+

lemma glob_engine_plain: "plain_engine (glob_engine ''block'')" "plain_engine (glob_engine ''allow'')"
  using engine_load_plain [OF glob_engine_loads(1) glob_layers_wf(1)] engine_load_plain [OF glob_engine_loads(2) glob_layers_wf(2)]
  by simp_all

end
