(* ===== verification/Console_Auth.thy ===== *)
theory Console_Auth
  imports Audit_Spool Identity Connector_Packs "HOL-Library.Code_Target_Numeral"
begin

text \<open>
  \<open>console/auth.py\<close>: local users with PBKDF2 password hashes, and the signed session cookie. The
  key derivation and the keyed hash are parameters; base64 is modelled, with the lenient decoder
  the code uses (characters outside the alphabet are skipped, padding ends the input).

  The lemmas show that encoding is undone by decoding, that a password verifies against its own
  hash, that a minted cookie names the same user until it expires, and that a cookie is accepted
  only with the signature of its body, a known role and an expiry that has not passed.
\<close>

section \<open>URL-safe base64\<close>

definition b64_char :: "nat \<Rightarrow> char" where
  "b64_char n =
     (if n < 26 then char_of (65 + n) else if n < 52 then char_of (71 + n) else if n < 62 then char_of (n - 4)
      else if n = 62 then CHR ''-'' else CHR ''_'')"

definition b64_digit :: "char \<Rightarrow> nat option" where
  "b64_digit c =
     (let n = code_of c in
      if 65 \<le> n \<and> n \<le> 90 then Some (n - 65)
      else if 97 \<le> n \<and> n \<le> 122 then Some (n - 71)
      else if 48 \<le> n \<and> n \<le> 57 then Some (n + 4)
      else if c = CHR ''-'' \<or> c = CHR ''+'' then Some 62
      else if c = CHR ''_'' \<or> c = CHR ''/'' then Some 63 else None)"

fun b64_groups :: "nat list \<Rightarrow> nat list" where
  "b64_groups [] = []"
| "b64_groups [a] = [a div 4, a mod 4 * 16]"
| "b64_groups [a, b] = [a div 4, a mod 4 * 16 + b div 16, b mod 16 * 4]"
| "b64_groups (a # b # c # r) =
     [a div 4, a mod 4 * 16 + b div 16, b mod 16 * 4 + c div 64, c mod 64] @ b64_groups r"

text \<open>\<open>_b64\<close>: the padding is stripped, so it is not produced.\<close>

definition b64 :: "string \<Rightarrow> string" where
  "b64 bytes = map b64_char (b64_groups (map code_of bytes))"

text \<open>
  The decoder: the position in the group of four, the padding seen, and the bits left over. A
  pad that completes the group ends the input.
\<close>

fun a2b :: "nat \<Rightarrow> nat \<Rightarrow> nat \<Rightarrow> string \<Rightarrow> string res" where
  "a2b q pads l [] = (if q = 0 then Inr [] else Inl (ValueError ''binascii.Error''))"
| "a2b q pads l (c # cs) =
     (if c = CHR ''='' then
        (if 2 \<le> q \<and> 4 \<le> q + Suc pads then Inr [] else a2b q (if 2 \<le> q then Suc pads else pads) l cs)
      else
        (case b64_digit c of
           None \<Rightarrow> a2b q pads l cs
         | Some n \<Rightarrow>
             if q = 0 then a2b 1 0 n cs
             else if q = 1 then ebind (a2b 2 0 (n mod 16) cs) (\<lambda>s. Inr (char_of (l * 4 + n div 16) # s))
             else if q = 2 then ebind (a2b 3 0 (n mod 4) cs) (\<lambda>s. Inr (char_of (l * 16 + n div 4) # s))
             else ebind (a2b 0 0 0 cs) (\<lambda>s. Inr (char_of (l * 64 + n) # s))))"

definition b64d :: "string \<Rightarrow> string res" where
  "b64d s =
     (if \<exists>c \<in> set s. 128 \<le> code_of c then Inl (ValueError ''string argument should contain only ASCII characters'')
      else a2b 0 0 0 (s @ replicate ((4 - length s mod 4) mod 4) (CHR ''='')))"

section \<open>Passwords\<close>

definition PBKDF2_ROUNDS :: nat where "PBKDF2_ROUNDS = 200000"
definition ALGO :: string where "ALGO = ''pbkdf2_sha256''"

type_synonym pbkdf2 = "string \<Rightarrow> string \<Rightarrow> nat \<Rightarrow> string"

text \<open>\<open>salt or token_bytes(16)\<close>: the salt is an argument, fresh where the caller gives none.\<close>

definition hash_password :: "pbkdf2 \<Rightarrow> string \<Rightarrow> string \<Rightarrow> string" where
  "hash_password kdf salt password =
     ALGO @ ''$'' @ show_int (int PBKDF2_ROUNDS) @ ''$'' @ b64 salt @ ''$'' @
       b64 (kdf (utf8_encode password) salt PBKDF2_ROUNDS)"

text \<open>\<open>int(s)\<close>; underscores and digits outside ASCII lie outside the model.\<close>

definition py_int :: "string \<Rightarrow> int res" where
  "py_int s =
     (let t = strip s; body = (case t of c # cs \<Rightarrow> if c = CHR ''-'' \<or> c = CHR ''+'' then cs else t | [] \<Rightarrow> []) in
      if CHR ''_'' \<in> set t \<or> (\<exists>c \<in> set t. 128 \<le> code_of c) then Inl Beyond
      else if body = [] \<or> \<not> list_all is_decimal body then Inl (ValueError ''invalid literal for int()'')
      else Inr (if hd t = CHR ''-'' then - int (digits_val body) else int (digits_val body)))"

text \<open>The round count has to be positive and fit a C integer.\<close>

definition pbkdf2_hmac :: "pbkdf2 \<Rightarrow> string \<Rightarrow> string \<Rightarrow> int \<Rightarrow> string res" where
  "pbkdf2_hmac kdf password salt rounds =
     (if rounds < 1 then Inl (ValueError ''iteration value must be greater than 0.'')
      else if rounds > 2147483647 then Inl (OtherError ''OverflowError'')
      else Inr (kdf password salt (nat rounds)))"

definition no_value_error :: "bool res \<Rightarrow> bool res" where
  "no_value_error r = (case r of Inl (ValueError _) \<Rightarrow> Inr False | Inl KeyError \<Rightarrow> Inr False | _ \<Rightarrow> r)"

definition verify_password :: "pbkdf2 \<Rightarrow> string \<Rightarrow> string \<Rightarrow> bool res" where
  "verify_password kdf password encoded =
     no_value_error
       (case split_on (CHR ''$'') encoded of
          [algo, rounds, salt, hash] \<Rightarrow>
            if algo \<noteq> ALGO then Inr False
            else
              ebind (b64d salt) (\<lambda>salt.
              ebind (b64d hash) (\<lambda>expected.
              ebind (py_int rounds) (\<lambda>n.
              ebind (pbkdf2_hmac kdf (utf8_encode password) salt n) (\<lambda>dk.
              Inr (dk = expected)))))
        | _ \<Rightarrow> Inl (ValueError ''unpack''))"

section \<open>Users\<close>

record user =
  us_name :: string
  us_role :: string

definition can_approve :: "user \<Rightarrow> bool" where
  "can_approve u = (us_role u = ''approver'')"

definition USER_ROLES :: "string list" where "USER_ROLES = [''viewer'', ''approver'']"

type_synonym user_store = "(string \<times> user \<times> pyval) list"

definition password_of :: "pbkdf2 \<Rightarrow> string \<Rightarrow> pydict \<Rightarrow> string \<Rightarrow> pyval res" where
  "password_of kdf salt rec name =
     (if dhas rec ''password_hash'' then Inr (dget_none rec ''password_hash'')
      else if dhas rec ''password'' then
        (case dget_none rec ''password'' of
           PStr pw \<Rightarrow> Inr (PStr (hash_password kdf salt pw))
         | _ \<Rightarrow> Inl AttributeError)
      else Inl (ValueError (''user '' @ repr_str name @ '': needs 'password' or 'password_hash' '')))"

definition add_user :: "pbkdf2 \<Rightarrow> string \<Rightarrow> pyval \<Rightarrow> user_store \<Rightarrow> user_store res" where
  "add_user kdf salt entry users =
     (case entry of
        PDict rec \<Rightarrow>
          (let username = dget_none rec ''username''; role = dget_default rec ''role'' (PStr ''viewer'') in
           if \<not> truthy username then Inl (ValueError ''user entry missing 'username' '')
           else
             ebind (in_strset role USER_ROLES) (\<lambda>known.
             if \<not> known then Inl (ValueError ''unknown role'')
             else
               (case username of
                  PStr name \<Rightarrow>
                    ebind (password_of kdf salt rec name) (\<lambda>h.
                    Inr (AList.update name (\<lparr>us_name = name, us_role = the_str role\<rparr>, h) users))
                | _ \<Rightarrow> Inl Beyond)))
      | _ \<Rightarrow> Inl AttributeError)"

fun load_users :: "pbkdf2 \<Rightarrow> (nat \<Rightarrow> string) \<Rightarrow> nat \<Rightarrow> pyval list \<Rightarrow> user_store \<Rightarrow> user_store res" where
  "load_users kdf salts i [] users = Inr users"
| "load_users kdf salts i (r # rs) users =
     ebind (add_user kdf (salts i) r users) (load_users kdf salts (Suc i) rs)"

text \<open>An unknown name is hashed as well, for the time it takes; the result is thrown away.\<close>

definition authenticate :: "pbkdf2 \<Rightarrow> user_store \<Rightarrow> string \<Rightarrow> string \<Rightarrow> (user option) res" where
  "authenticate kdf users username password =
     (case map_of users username of
        None \<Rightarrow> Inr None
      | Some (u, h) \<Rightarrow>
          (case h of
             PStr encoded \<Rightarrow> ebind (verify_password kdf password encoded) (\<lambda>ok. Inr (if ok then Some u else None))
           | _ \<Rightarrow> Inl AttributeError))"

section \<open>Cookies\<close>

record cookie_signer =
  sg_secret :: string
  sg_ttl :: int
  sg_hmac :: "string \<Rightarrow> string \<Rightarrow> string"

definition cookie_sign :: "cookie_signer \<Rightarrow> string \<Rightarrow> string" where
  "cookie_sign sg body = b64 (sg_hmac sg (sg_secret sg) (utf8_encode body))"

text \<open>\<open>int(...)\<close> of a float cuts towards zero.\<close>

definition trunc_rat :: "rat \<Rightarrow> int" where
  "trunc_rat x = (if x < 0 then \<lceil>x\<rceil> else \<lfloor>x\<rfloor>)"

lemma floor_le_trunc: "\<lfloor>x\<rfloor> \<le> trunc_rat x"
  by (simp add: trunc_rat_def floor_le_ceiling)

definition cookie_payload :: "cookie_signer \<Rightarrow> user \<Rightarrow> rat \<Rightarrow> pydict" where
  "cookie_payload sg u now =
     [(PStr ''u'', PStr (us_name u)), (PStr ''r'', PStr (us_role u)), (PStr ''exp'', PInt (trunc_rat (now + of_int (sg_ttl sg))))]"

definition mint :: "pylib \<Rightarrow> cookie_signer \<Rightarrow> user \<Rightarrow> rat \<Rightarrow> string" where
  "mint lib sg u now =
     (let body = b64 (utf8_encode (json_text CompactAscii lib (PDict (cookie_payload sg u now)))) in
      body @ ''.'' @ cookie_sign sg body)"

text \<open>\<open>payload.get("exp", 0) < now\<close>\<close>

definition exp_passed :: "pyval \<Rightarrow> rat \<Rightarrow> bool res" where
  "exp_passed v now =
     (case v of
        PInt i \<Rightarrow> Inr (of_int i < now)
      | PFloat r \<Rightarrow> Inr (r < now)
      | PBool b \<Rightarrow> Inr ((if b then 1 else 0) < now)
      | _ \<Rightarrow> Inl TypeError)"

definition read_payload :: "pylib \<Rightarrow> string \<Rightarrow> (pyval option) res" where
  "read_payload lib body =
     (case ebind (b64d body) (json_loads_bytes lib) of
        Inr v \<Rightarrow> Inr (Some v)
      | Inl (ValueError _) \<Rightarrow> Inr None
      | Inl e \<Rightarrow> Inl e)"

definition cookie_user :: "pylib \<Rightarrow> pydict \<Rightarrow> rat \<Rightarrow> (user option) res" where
  "cookie_user lib p now =
     ebind (exp_passed (dget_default p ''exp'' (PInt 0)) now) (\<lambda>late.
     if late then Inr None
     else
       ebind (in_strset (dget_none p ''r'') USER_ROLES) (\<lambda>known.
       Inr (if known
            then Some \<lparr>us_name = py_str (lib_float_repr lib) (dget_default p ''u'' (PStr [])), us_role = the_str (dget_none p ''r'')\<rparr>
            else None)))"

definition cookie_verify :: "pylib \<Rightarrow> cookie_signer \<Rightarrow> rat \<Rightarrow> string \<Rightarrow> (user option) res" where
  "cookie_verify lib sg now token =
     (if CHR ''.'' \<notin> set token then Inr None
      else
        (let body = takeWhile (\<lambda>c. c \<noteq> CHR ''.'') token; sig = tl (dropWhile (\<lambda>c. c \<noteq> CHR ''.'') token) in
         ebind (compare_digest sig (cookie_sign sg body)) (\<lambda>ok.
         if \<not> ok then Inr None
         else
           ebind (read_payload lib body) (\<lambda>payload.
           case payload of
             Some (PDict p) \<Rightarrow> cookie_user lib p now
           | _ \<Rightarrow> Inr None))))"

section \<open>Host safety\<close>

definition LOOPBACK_HOSTS :: "string list" where
  "LOOPBACK_HOSTS = [''127.0.0.1'', ''localhost'', ''::1'']"

definition is_loopback_host :: "string \<Rightarrow> bool" where
  "is_loopback_host host =
     (let h = lower (strip host);
          h' = (if prefix ''['' h \<and> suffix '']'' h then butlast (tl h) else h)
      in h' \<in> set LOOPBACK_HOSTS \<or> prefix ''127.'' h')"

section \<open>Encoding and decoding\<close>

lemma b64_char_code:
  "n < 64 \<Longrightarrow> code_of (b64_char n) =
     (if n < 26 then 65 + n else if n < 52 then 71 + n else if n < 62 then n - 4 else if n = 62 then 45 else 95)"
  by (simp add: b64_char_def)

lemma b64_char_facts [simp]:
  assumes "n < 64"
  shows "b64_digit (b64_char n) = Some n" "b64_char n \<noteq> CHR ''=''" "code_of (b64_char n) < (128::nat)"
    "b64_char n \<noteq> CHR ''.''" "b64_char n \<noteq> CHR ''$''"
proof -
  note code = b64_char_code [OF assms]
  have iff: "b64_char n = c \<longleftrightarrow> code_of (b64_char n) = (code_of c :: nat)" for c by (rule of_char_eq_iff [symmetric])
  show "b64_digit (b64_char n) = Some n"
  proof (cases "n = 62")
    case True
    then show ?thesis by (simp add: b64_char_def b64_digit_def)
  qed (use assms in \<open>auto simp: b64_digit_def iff code Let_def\<close>)
  show "b64_char n \<noteq> CHR ''=''" "b64_char n \<noteq> CHR ''.''" "b64_char n \<noteq> CHR ''$''"
    unfolding iff code using assms by auto
  show "code_of (b64_char n) < (128::nat)" using assms by (auto simp: code)
qed

lemma b64_groups_bound: "\<forall>b \<in> set bs. b < 256 \<Longrightarrow> \<forall>n \<in> set (b64_groups bs). n < 64"
  by (induction bs rule: b64_groups.induct) auto

lemma b64_groups_length: "length (b64_groups bs) mod 4 = (if length bs mod 3 = 0 then 0 else length bs mod 3 + 1)"
  by (induction bs rule: b64_groups.induct) (auto simp: mod_Suc)

lemma b64_alphabet: "c \<in> set (b64 bytes) \<Longrightarrow> code_of c < (128::nat) \<and> c \<noteq> CHR ''.'' \<and> c \<noteq> CHR ''$''"
  using b64_groups_bound [of "map code_of bytes"] by (auto simp: b64_def)

lemma a2b_digit:
  "n < 64 \<Longrightarrow> a2b q p l (b64_char n # cs) =
     (if q = 0 then a2b 1 0 n cs
      else if q = 1 then ebind (a2b 2 0 (n mod 16) cs) (\<lambda>s. Inr (char_of (l * 4 + n div 16) # s))
      else if q = 2 then ebind (a2b 3 0 (n mod 4) cs) (\<lambda>s. Inr (char_of (l * 16 + n div 4) # s))
      else ebind (a2b 0 0 0 cs) (\<lambda>s. Inr (char_of (l * 64 + n) # s)))"
  by simp

lemma char_of_code [simp]: "char_of (code_of c) = c"
  by simp

definition b64_pad :: "nat \<Rightarrow> string" where
  "b64_pad k = (if k mod 3 = 1 then ''=='' else if k mod 3 = 2 then ''='' else [])"

lemma b64_pad_Suc3 [simp]: "b64_pad (Suc (Suc (Suc n))) = b64_pad n"
  by (simp add: b64_pad_def mod_Suc)

lemma a2b_groups:
  "\<forall>b \<in> set bs. b < 256 \<Longrightarrow> a2b 0 p 0 (map b64_char (b64_groups bs) @ b64_pad (length bs)) = Inr (map char_of bs)"
proof (induction bs arbitrary: p rule: b64_groups.induct)
  case 1
  then show ?case by (simp add: b64_pad_def)
next
  case (2 a)
  then have "a div 4 < 64" "a mod 4 * 16 < 64" by auto
  then show ?case by (simp add: a2b_digit b64_pad_def del: a2b.simps(2)) simp
next
  case (3 a b)
  then have "a div 4 < 64" "a mod 4 * 16 + b div 16 < 64" "b mod 16 * 4 < 64" by auto
  moreover have "(a mod 4 * 16 + b div 16) div 16 = a mod 4" "(a mod 4 * 16 + b div 16) mod 16 = b div 16" using 3 by auto
  ultimately show ?case by (simp add: a2b_digit b64_pad_def del: a2b.simps(2)) simp
next
  case (4 a b c r)
  then have "a div 4 < 64" "a mod 4 * 16 + b div 16 < 64" "b mod 16 * 4 + c div 64 < 64" "c mod 64 < 64" by auto
  moreover have "(a mod 4 * 16 + b div 16) div 16 = a mod 4" "(a mod 4 * 16 + b div 16) mod 16 = b div 16"
    "(b mod 16 * 4 + c div 64) div 4 = b mod 16" "(b mod 16 * 4 + c div 64) mod 4 = c div 64" using 4 by auto
  ultimately show ?case using 4 by (simp add: a2b_digit del: a2b.simps(2))
qed

lemma b64_pad_length:
  "replicate ((4 - length (b64_groups bs) mod 4) mod 4) (CHR ''='') = b64_pad (length bs)"
proof -
  have "length bs mod 3 = 0 \<or> length bs mod 3 = 1 \<or> length bs mod 3 = 2" by arith
  then show ?thesis by (auto simp: b64_groups_length b64_pad_def numeral_2_eq_2)
qed

lemma b64d_b64 [simp]: "b64d (b64 bytes) = Inr bytes"
proof -
  have ascii: "\<not> (\<exists>c \<in> set (b64 bytes). 128 \<le> (code_of c :: nat))" using b64_alphabet by (auto simp: not_le)
  have "a2b 0 0 0 (b64 bytes @ replicate ((4 - length (b64 bytes) mod 4) mod 4) (CHR ''='')) = Inr bytes"
    using a2b_groups [of "map code_of bytes" 0] b64_pad_length [of "map code_of bytes"] by (simp add: b64_def comp_def)
  with ascii show ?thesis by (simp add: b64d_def)
qed

section \<open>Passwords verify against their hash\<close>

lemma split_on_none: "c \<notin> set s \<Longrightarrow> split_on c s = [s]"
  by (induction s) auto

lemma split_on_append: "c \<notin> set s \<Longrightarrow> split_on c (s @ c # t) = s # split_on c t"
  by (induction s) auto

lemma hash_verifies: "verify_password kdf password (hash_password kdf salt password) = Inr True"
proof -
  have rounds: "CHR ''$'' \<notin> set (show_int (int PBKDF2_ROUNDS))" "py_int (show_int (int PBKDF2_ROUNDS)) = Inr (int PBKDF2_ROUNDS)"
    by code_simp+
  have "CHR ''$'' \<notin> set (b64 x)" for x using b64_alphabet [of "CHR ''$''"] by auto
  moreover have "CHR ''$'' \<notin> set ALGO" by (simp add: ALGO_def)
  ultimately have "split_on (CHR ''$'') (hash_password kdf salt password) =
      [ALGO, show_int (int PBKDF2_ROUNDS), b64 salt, b64 (kdf (utf8_encode password) salt PBKDF2_ROUNDS)]"
    by (simp add: hash_password_def split_on_append split_on_none rounds(1))
  moreover have "pbkdf2_hmac kdf x y (int PBKDF2_ROUNDS) = Inr (kdf x y PBKDF2_ROUNDS)" for x y
    by (simp add: pbkdf2_hmac_def PBKDF2_ROUNDS_def)
  ultimately show ?thesis by (simp add: verify_password_def rounds(2) no_value_error_def)
qed

section \<open>Cookies\<close>

lemma json_bytes_roundtrip:
  assumes "json_ok lib (PDict d)"
  shows "json_loads_bytes lib (utf8_encode (json_text ea lib (PDict d))) = Inr (PDict d)"
proof -
  obtain c s where s: "json_text ea lib (PDict d) = CHR ''{'' # c # s" and c: "c = CHR 34 \<or> c = CHR ''}''"
    using dumps_dict_shape by blast
  have t: "utf8_encode (json_text ea lib (PDict d)) = CHR ''{'' # c # utf8_encode s"
    using c unfolding s by (auto simp: utf8_encode_def utf8_char_def)
  have "json_loads_bytes lib (CHR ''{'' # c # w) = ebind (utf8_decode (CHR ''{'' # c # w)) (json_loads lib)" for w
    using c by (auto simp: json_loads_bytes_def)
  then have "json_loads_bytes lib (utf8_encode (json_text ea lib (PDict d))) = json_loads lib (json_text ea lib (PDict d))"
    using utf8_decode_encode ebind_simps(2) t by metis
  with json_roundtrip [OF assms] show ?thesis by simp
qed

lemma takeWhile_dot: "CHR ''.'' \<notin> set b \<Longrightarrow> takeWhile (\<lambda>c. c \<noteq> CHR ''.'') (b @ CHR ''.'' # s) = b"
  "CHR ''.'' \<notin> set b \<Longrightarrow> dropWhile (\<lambda>c. c \<noteq> CHR ''.'') (b @ CHR ''.'' # s) = CHR ''.'' # s"
  by (auto simp: takeWhile_append dropWhile_append takeWhile_eq_all_conv)

lemma minted_cookie_verifies:
  assumes "us_role u \<in> set USER_ROLES" and "now' \<le> of_int \<lfloor>now + of_int (sg_ttl sg)\<rfloor>"
  shows "cookie_verify lib sg now' (mint lib sg u now) = Inr (Some u)"
proof -
  let ?p = "cookie_payload sg u now"
  let ?body = "b64 (utf8_encode (json_text CompactAscii lib (PDict ?p)))"
  have dot: "CHR ''.'' \<notin> set ?body" using b64_alphabet [of "CHR ''.''"] by blast
  have ascii: "\<not> (\<exists>c \<in> set (cookie_sign sg ?body). 128 \<le> (code_of c :: nat))"
    using b64_alphabet by (auto simp: cookie_sign_def not_le)
  have "json_ok lib (PDict ?p)" by (simp add: cookie_payload_def wf_dict_def is_str_def)
  then have payload: "read_payload lib ?body = Inr (Some (PDict ?p))"
    by (simp add: read_payload_def json_bytes_roundtrip del: json_text.simps)
  have "now' \<le> of_int (trunc_rat (now + of_int (sg_ttl sg)))"
    using assms(2) floor_le_trunc [of "now + of_int (sg_ttl sg)"] by (meson of_int_le_iff order_trans)
  then have "cookie_user lib ?p now' = Inr (Some u)"
    using assms(1) by (auto simp: cookie_user_def cookie_payload_def exp_passed_def in_strset_def the_str_def dget_none_def
        dget_default_def dget_def)
  with payload ascii show ?thesis
    by (simp add: mint_def Let_def cookie_verify_def takeWhile_dot [OF dot] compare_digest_def del: json_text.simps)
qed

text \<open>What an accepted cookie proves: the signature of its body, a known role, an expiry to come.\<close>

lemma accepted_cookie_signed:
  assumes "cookie_verify lib sg now token = Inr (Some u)"
  shows "\<exists>body p. token = body @ ''.'' @ cookie_sign sg body \<and> CHR ''.'' \<notin> set body \<and>
    read_payload lib body = Inr (Some (PDict p)) \<and> cookie_user lib p now = Inr (Some u) \<and> us_role u \<in> set USER_ROLES"
proof -
  let ?body = "takeWhile (\<lambda>c. c \<noteq> CHR ''.'') token" and ?rest = "dropWhile (\<lambda>c. c \<noteq> CHR ''.'') token"
  have dot: "CHR ''.'' \<in> set token" using assms by (auto simp: cookie_verify_def split: if_splits)
  obtain sig where rest: "?rest = CHR ''.'' # sig"
    using dot hd_dropWhile [of "\<lambda>c. c \<noteq> CHR ''.''" token] by (cases ?rest) auto
  have eq: "compare_digest sig (cookie_sign sg ?body) = Inr True"
    using assms dot rest by (auto simp: cookie_verify_def Let_def ebind_eq_Inr split: if_splits)
  obtain payload where pl: "read_payload lib ?body = Inr payload"
    using assms dot rest eq by (auto simp: cookie_verify_def Let_def ebind_eq_Inr)
  obtain p where p: "payload = Some (PDict p)"
    using assms dot rest eq pl by (auto simp: cookie_verify_def Let_def split: option.splits pyval.splits)
  have u: "cookie_user lib p now = Inr (Some u)"
    using assms dot rest eq pl p by (simp add: cookie_verify_def Let_def)
  have "us_role u \<in> set USER_ROLES"
    using u by (auto simp: cookie_user_def ebind_eq_Inr in_strset_def the_str_def split: if_splits option.splits)
  moreover have "token = ?body @ ''.'' @ cookie_sign sg ?body"
    using takeWhile_dropWhile_id [of "\<lambda>c. c \<noteq> CHR ''.''" token] rest compare_digest_Inr [OF eq] by simp
  ultimately show ?thesis using pl p u by (intro exI [of _ ?body] exI [of _ p]) (auto dest: set_takeWhileD)
qed

end
