(* ===== verification/Console_App.thy ===== *)
theory Console_App
  imports Console_Auth Approvals Policy_Backtest
begin

text \<open>
  \<open>console/approvals.py\<close> and the routes of \<open>console/app.py\<close> that carry decisions: login, the queue
  of pending approvals (submit, list, resolve, wait), the backtest route and the live feed of
  the audit spool. A route returns a body or an HTTP error; an exception that no handler catches
  is the server's 500. The event loop interleaves the handlers, so the queue is a step relation:
  each step is one uninterrupted piece of a handler (the lock is never held across an await),
  and a wait ends either with the answer or, at any moment, with its timeout.

  The invariant ties an answer to the resolution of an authenticated approver for the very
  request that was submitted; the feed is shown to lose and repeat nothing across reconnects.
\<close>

section \<open>Requests and users\<close>

datatype http_error = HttpError nat string

type_synonym 'a http = "(http_error + 'a) res"

abbreviation reply :: "'a \<Rightarrow> 'a http" where "reply x \<equiv> Inr (Inr x)"
abbreviation refuse_with :: "nat \<Rightarrow> string \<Rightarrow> 'a http" where "refuse_with n msg \<equiv> Inr (Inl (HttpError n msg))"

definition hbind :: "'a http \<Rightarrow> ('a \<Rightarrow> 'b http) \<Rightarrow> 'b http" where
  "hbind r f = ebind r (\<lambda>x. case x of Inl e \<Rightarrow> Inr (Inl e) | Inr a \<Rightarrow> f a)"

lemma hbind_eq_reply: "hbind r f = reply b \<longleftrightarrow> (\<exists>a. r = reply a \<and> f a = reply b)"
proof (cases r)
  case (Inr x)
  then show ?thesis by (cases x) (auto simp: hbind_def)
qed (simp add: hbind_def)

record console_app =
  ca_lib :: pylib
  ca_signer :: cookie_signer
  ca_kdf :: pbkdf2
  ca_users :: user_store
  ca_gateway_token :: "string option"

definition current_user :: "console_app \<Rightarrow> rat \<Rightarrow> string option \<Rightarrow> user http" where
  "current_user app now cookie =
     ebind (case cookie of
              Some t \<Rightarrow> if t = [] then Inr None else cookie_verify (ca_lib app) (ca_signer app) now t
            | None \<Rightarrow> Inr None) (\<lambda>u.
     case u of None \<Rightarrow> refuse_with 401 ''authentication required'' | Some u \<Rightarrow> reply u)"

definition require_approver :: "console_app \<Rightarrow> rat \<Rightarrow> string option \<Rightarrow> user http" where
  "require_approver app now cookie =
     hbind (current_user app now cookie) (\<lambda>u.
     if can_approve u then reply u else refuse_with 403 ''approver role required'')"

text \<open>\<open>login\<close>: the reply and the cookie it sets.\<close>

definition login :: "console_app \<Rightarrow> rat \<Rightarrow> string \<Rightarrow> string \<Rightarrow> (user \<times> string) http" where
  "login app now username password =
     ebind (authenticate (ca_kdf app) (ca_users app) username password) (\<lambda>u.
     case u of
       None \<Rightarrow> refuse_with 401 ''invalid credentials''
     | Some u \<Rightarrow> reply (u, mint (ca_lib app) (ca_signer app) u now))"

section \<open>The approval queue\<close>

record pending_approval =
  pa_id :: string
  pa_request :: pydict
  pa_created :: rat
  pa_future :: "resolution option"

type_synonym approval_queue = "(string \<times> pending_approval) list"

definition public_view :: "pending_approval \<Rightarrow> pydict" where
  "public_view p =
     [(PStr ''approval_id'', PStr (pa_id p)), (PStr ''request_id'', dget_none (pa_request p) ''request_id''),
      (PStr ''session_id'', dget_none (pa_request p) ''session_id''), (PStr ''tool'', dget_none (pa_request p) ''tool''),
      (PStr ''arguments'', dget_none (pa_request p) ''arguments''), (PStr ''principal'', dget_none (pa_request p) ''principal''),
      (PStr ''reason'', dget_none (pa_request p) ''reason''), (PStr ''created_ts'', PFloat (pa_created p))]"

definition queue_submit :: "string \<Rightarrow> pydict \<Rightarrow> rat \<Rightarrow> approval_queue \<Rightarrow> approval_queue" where
  "queue_submit uid request now q =
     AList.update uid \<lparr>pa_id = uid, pa_request = request, pa_created = now, pa_future = None\<rparr> q"

definition queue_resolve :: "string \<Rightarrow> resolution \<Rightarrow> approval_queue \<Rightarrow> bool \<times> approval_queue" where
  "queue_resolve uid answer q =
     (case map_of q uid of
        None \<Rightarrow> (False, q)
      | Some item \<Rightarrow>
          if pa_future item \<noteq> None then (False, q)
          else (True, AList.update uid (item\<lparr>pa_future := Some answer\<rparr>) q))"

text \<open>
  The end of a wait: the answer if there is one, the refusal if the timeout fired, nothing while
  the handler still waits; either way the item leaves the queue.
\<close>

definition timeout_answer :: resolution where
  "timeout_answer = \<lparr>rn_approved = False, rn_approver = ''console'', rn_note = ''fail-closed: approval timed out''\<rparr>"

definition queue_wait :: "bool \<Rightarrow> string \<Rightarrow> approval_queue \<Rightarrow> (resolution \<times> approval_queue) option" where
  "queue_wait timed_out uid q =
     (case map_of q uid of
        None \<Rightarrow> None
      | Some item \<Rightarrow>
          if timed_out then Some (timeout_answer, AList.delete uid q)
          else (case pa_future item of None \<Rightarrow> None | Some a \<Rightarrow> Some (a, AList.delete uid q)))"

definition queue_pending :: "approval_queue \<Rightarrow> pydict list" where
  "queue_pending q = map (\<lambda>p. public_view (snd p)) q"

definition answer_wire :: "resolution \<Rightarrow> pydict" where
  "answer_wire a =
     [(PStr ''approved'', PBool (rn_approved a)), (PStr ''approver'', PStr (rn_approver a)), (PStr ''note'', PStr (rn_note a))]"

section \<open>Routes\<close>

text \<open>The body of a request, or the fact that it is not JSON.\<close>

definition submit_approval ::
  "console_app \<Rightarrow> string option \<Rightarrow> pyval option \<Rightarrow> string \<Rightarrow> rat \<Rightarrow> approval_queue \<Rightarrow> approval_queue http" where
  "submit_approval app token body uid now q =
     (if ca_gateway_token app \<noteq> None \<and> token \<noteq> ca_gateway_token app then refuse_with 401 ''bad gateway token''
      else
        (case body of
           None \<Rightarrow> refuse_with 400 ''expected JSON body''
         | Some (PDict payload) \<Rightarrow>
             if dhas payload ''tool'' then reply (queue_submit uid payload now q)
             else refuse_with 400 ''not an ApprovalRequest''
         | Some _ \<Rightarrow> refuse_with 400 ''not an ApprovalRequest''))"

definition pending_approvals :: "console_app \<Rightarrow> rat \<Rightarrow> string option \<Rightarrow> approval_queue \<Rightarrow> (pydict list) http" where
  "pending_approvals app now cookie q = hbind (current_user app now cookie) (\<lambda>u. reply (queue_pending q))"

definition resolve_approval ::
  "console_app \<Rightarrow> rat \<Rightarrow> string option \<Rightarrow> string \<Rightarrow> bool \<Rightarrow> string \<Rightarrow> approval_queue \<Rightarrow> approval_queue http" where
  "resolve_approval app now cookie uid approved note q =
     hbind (require_approver app now cookie) (\<lambda>u.
     case queue_resolve uid \<lparr>rn_approved = approved, rn_approver = us_name u, rn_note = note\<rparr> q of
       (True, q') \<Rightarrow> reply q'
     | (False, _) \<Rightarrow> refuse_with 404 ''unknown or already-resolved approval'')"

text \<open>The backtest route: a candidate document, or the policy the console was started with.\<close>

definition backtest_route ::
  "console_app \<Rightarrow> policy_engine option \<Rightarrow> string option \<Rightarrow> rat \<Rightarrow> string option \<Rightarrow> pydict option \<Rightarrow> string list option \<Rightarrow>
     backtest_report http" where
  "backtest_route app engine spool now cookie policy deny_set =
     hbind (current_user app now cookie) (\<lambda>u.
     hbind (case policy of
              Some doc \<Rightarrow>
                (case engine_from_documents (ca_lib app) [(PDict doc, ''candidate'')] of
                   Inr pe \<Rightarrow> reply pe
                 | Inl (PolicyError msg) \<Rightarrow> refuse_with 400 (''invalid policy: '' @ msg)
                 | Inl e \<Rightarrow> Inl e)
            | None \<Rightarrow> (case engine of Some pe \<Rightarrow> reply pe | None \<Rightarrow> refuse_with 400 ''no policy to backtest'')) (\<lambda>pe.
     ebind (backtest_policy (ca_lib app) spool pe
              (case deny_set of Some d \<Rightarrow> d | None \<Rightarrow> denying_actions (build_action_handlers False None))) reply))"

section \<open>The live feed\<close>

definition frame :: "pylib \<Rightarrow> spool_record \<Rightarrow> string" where
  "frame lib r = ''id: '' @ show_int (int (sr_offset r)) @ [CHR 10] @ ''data: '' @
     json_text CompactAscii lib (PDict (sr_event r)) @ [CHR 10, CHR 10]"

text \<open>
  The records each pass of the stream sends, over the contents the file has at the passes; a
  first pass that resumes skips the record the client has.
\<close>

fun stream_passes :: "pylib \<Rightarrow> nat option \<Rightarrow> nat \<Rightarrow> (string option) list \<Rightarrow> (spool_record list) res" where
  "stream_passes lib seen pos [] = Inr []"
| "stream_passes lib seen pos (file # files) =
     ebind (read_spool lib file pos) (\<lambda>result.
     ebind (stream_passes lib None (rr_next_offset result) files) (\<lambda>rest.
     Inr (filter (\<lambda>r. case seen of None \<Rightarrow> True | Some a \<Rightarrow> \<not> sr_offset r \<le> a) (rr_records result) @ rest)))"

definition event_stream :: "pylib \<Rightarrow> nat option \<Rightarrow> (string option) list \<Rightarrow> (spool_record list) res" where
  "event_stream lib cursor files = stream_passes lib cursor (case cursor of None \<Rightarrow> 0 | Some a \<Rightarrow> a) files"

section \<open>Steps of the queue\<close>

datatype console_event =
    Submitted string pydict
  | Resolved string string rat user resolution
  | Answered string pydict resolution

inductive console_step :: "console_app \<Rightarrow> approval_queue \<Rightarrow> console_event \<Rightarrow> approval_queue \<Rightarrow> bool" for app where
  submit: "submit_approval app token (Some (PDict payload)) uid now q = reply q' \<Longrightarrow> map_of q uid = None \<Longrightarrow>
     console_step app q (Submitted uid payload) q'"
| resolve: "resolve_approval app now (Some cookie) uid approved note q = reply q' \<Longrightarrow>
     cookie_verify (ca_lib app) (ca_signer app) now cookie = Inr (Some u) \<Longrightarrow>
     console_step app q (Resolved uid cookie now u \<lparr>rn_approved = approved, rn_approver = us_name u, rn_note = note\<rparr>) q'"
| answer: "queue_wait timed_out uid q = Some (a, q') \<Longrightarrow> map_of q uid = Some item \<Longrightarrow>
     console_step app q (Answered uid (pa_request item) a) q'"

inductive console_run :: "console_app \<Rightarrow> console_event list \<Rightarrow> approval_queue \<Rightarrow> bool" for app where
  start: "console_run app [] []"
| step: "console_run app tr q \<Longrightarrow> console_step app q e q' \<Longrightarrow> console_run app (tr @ [e]) q'"

inductive_cases console_stepE: "console_step app q e q'"

section \<open>Who can approve\<close>

lemma current_user_reply:
  "current_user app now cookie = reply u \<Longrightarrow>
     \<exists>t. cookie = Some t \<and> cookie_verify (ca_lib app) (ca_signer app) now t = Inr (Some u)"
  by (auto simp: current_user_def ebind_eq_Inr split: option.splits if_splits)

lemma require_approver_reply:
  "require_approver app now cookie = reply u \<longleftrightarrow> current_user app now cookie = reply u \<and> can_approve u"
  by (auto simp: require_approver_def hbind_eq_reply split: if_splits)

lemma resolve_approval_reply:
  assumes "resolve_approval app now cookie uid approved note q = reply q'"
  obtains u item where "current_user app now cookie = reply u" and "can_approve u"
    and "map_of q uid = Some item" and "pa_future item = None"
    and "q' = AList.update uid (item\<lparr>pa_future := Some \<lparr>rn_approved = approved, rn_approver = us_name u, rn_note = note\<rparr>\<rparr>) q"
proof -
  obtain u where u: "require_approver app now cookie = reply u"
    and r: "queue_resolve uid \<lparr>rn_approved = approved, rn_approver = us_name u, rn_note = note\<rparr> q = (True, q')"
  proof -
    obtain u where u: "require_approver app now cookie = reply u"
      and c: "(case queue_resolve uid \<lparr>rn_approved = approved, rn_approver = us_name u, rn_note = note\<rparr> q of
         (True, q') \<Rightarrow> reply q' | (False, _) \<Rightarrow> refuse_with 404 ''unknown or already-resolved approval'') = reply q'"
      using assms unfolding resolve_approval_def hbind_eq_reply by blast
    obtain b q1 where r: "queue_resolve uid \<lparr>rn_approved = approved, rn_approver = us_name u, rn_note = note\<rparr> q = (b, q1)"
      by (cases "queue_resolve uid \<lparr>rn_approved = approved, rn_approver = us_name u, rn_note = note\<rparr> q")
    with c have "b \<and> q1 = q'" by (cases b) simp_all
    with that u r show thesis by simp
  qed
  from r that u [unfolded require_approver_reply] show thesis
    by (auto simp: queue_resolve_def split: option.splits if_splits)
qed

text \<open>A resolution by an approver, as an event of the trace.\<close>

definition approver_resolved :: "console_app \<Rightarrow> console_event list \<Rightarrow> string \<Rightarrow> resolution \<Rightarrow> bool" where
  "approver_resolved app tr uid a \<longleftrightarrow>
     (\<exists>cookie now u. Resolved uid cookie now u a \<in> set tr \<and>
        cookie_verify (ca_lib app) (ca_signer app) now cookie = Inr (Some u) \<and> can_approve u \<and> rn_approver a = us_name u)"

lemma approver_resolved_mono: "approver_resolved app tr uid a \<Longrightarrow> approver_resolved app (tr @ es) uid a"
  unfolding approver_resolved_def by auto

text \<open>
  The invariant: a waiting item holds the request it was submitted with, and its answer, once
  there, is the resolution of an approver.
\<close>

definition queue_inv :: "console_app \<Rightarrow> console_event list \<Rightarrow> approval_queue \<Rightarrow> bool" where
  "queue_inv app tr q \<longleftrightarrow>
     (\<forall>uid item. map_of q uid = Some item \<longrightarrow> Submitted uid (pa_request item) \<in> set tr \<and>
        (\<forall>a. pa_future item = Some a \<longrightarrow> approver_resolved app tr uid a))"

lemma map_of_AList_delete: "map_of (AList.delete k xs) j = (if j = k then None else map_of xs j)"
  by (simp add: delete_conv')

lemma console_step_inv:
  assumes "console_step app q e q'" and "queue_inv app tr q"
  shows "queue_inv app (tr @ [e]) q'"
  using assms(1)
proof (cases rule: console_step.cases)
  case (submit token payload uid now)
  then have q': "q' = queue_submit uid payload now q"
    by (auto simp: submit_approval_def split: if_splits)
  show ?thesis using assms(2) submit(1)
    by (auto simp: q' queue_submit_def queue_inv_def approver_resolved_mono split: if_splits)
next
  case (resolve now cookie uid approved txt1 u)
  obtain u' item where r: "current_user app now (Some cookie) = reply u'" "can_approve u'" "map_of q uid = Some item"
    and q': "q' = AList.update uid (item\<lparr>pa_future := Some \<lparr>rn_approved = approved, rn_approver = us_name u', rn_note = txt1\<rparr>\<rparr>) q"
    using resolve(2) by (rule resolve_approval_reply)
  have "u' = u" using current_user_reply [OF r(1)] resolve(3) by auto
  then have "approver_resolved app (tr @ [e]) uid \<lparr>rn_approved = approved, rn_approver = us_name u, rn_note = txt1\<rparr>"
    using resolve(1,3) r(2) by (auto simp: approver_resolved_def)
  then show ?thesis using assms(2) r(3) \<open>u' = u\<close>
    by (auto simp: q' queue_inv_def approver_resolved_mono split: if_splits)
next
  case (answer timed_out uid a item)
  have q': "q' = AList.delete uid q" using answer(2,3) by (auto simp: queue_wait_def split: if_splits option.splits)
  show ?thesis using assms(2) unfolding queue_inv_def q' map_of_AList_delete
    by (auto simp: approver_resolved_mono)
qed

lemma console_run_inv: "console_run app tr q \<Longrightarrow> queue_inv app tr q"
  by (induction rule: console_run.induct) (auto simp: queue_inv_def [of app "[]"] intro: console_step_inv)

text \<open>Every answer the gateway gets that says yes was given by an approver, to the request submitted.\<close>

lemma approval_by_approver:
  assumes "console_run app tr q" and "Answered uid request a \<in> set tr" and "rn_approved a"
  shows "Submitted uid request \<in> set tr \<and> approver_resolved app tr uid a"
  using assms
proof (induction rule: console_run.induct)
  case (step tr q e q')
  show ?case
  proof (cases "e = Answered uid request a")
    case True
    with step.hyps(2) obtain timed_out item where w: "queue_wait timed_out uid q = Some (a, q')" "map_of q uid = Some item"
      "request = pa_request item" by (auto elim: console_stepE)
    have "\<not> timed_out" using w step.prems(2) by (auto simp: queue_wait_def timeout_answer_def split: if_splits)
    then have "pa_future item = Some a" using w(1,2) by (auto simp: queue_wait_def split: option.splits)
    with console_run_inv [OF step.hyps(1)] w(2,3) show ?thesis by (auto simp: queue_inv_def approver_resolved_mono)
  next
    case False
    with step show ?thesis by (auto simp: approver_resolved_mono)
  qed
qed simp

text \<open>With fresh identifiers a request is answered at most once.\<close>

definition submitted_ids :: "console_event list \<Rightarrow> string list" where
  "submitted_ids tr = List.map_filter (\<lambda>e. case e of Submitted uid _ \<Rightarrow> Some uid | _ \<Rightarrow> None) tr"

definition answered_ids :: "console_event list \<Rightarrow> string list" where
  "answered_ids tr = List.map_filter (\<lambda>e. case e of Answered uid _ _ \<Rightarrow> Some uid | _ \<Rightarrow> None) tr"

lemma ids_snoc:
  "submitted_ids (tr @ [e]) = submitted_ids tr @ (case e of Submitted uid _ \<Rightarrow> [uid] | _ \<Rightarrow> [])"
  "answered_ids (tr @ [e]) = answered_ids tr @ (case e of Answered uid _ _ \<Rightarrow> [uid] | _ \<Rightarrow> [])"
  by (cases e; simp add: submitted_ids_def answered_ids_def List.map_filter_def)+

lemma answered_once:
  assumes "console_run app tr q" and "distinct (submitted_ids tr)"
  shows "distinct (answered_ids tr) \<and> set (answered_ids tr) \<subseteq> set (submitted_ids tr) \<and>
    (\<forall>uid. map_of q uid \<noteq> None \<longrightarrow> uid \<in> set (submitted_ids tr) - set (answered_ids tr))"
  using assms
proof (induction rule: console_run.induct)
  case start
  then show ?case by (simp add: submitted_ids_def answered_ids_def List.map_filter_simps)
next
  case (step tr q e q')
  have "distinct (submitted_ids tr)" using step.prems by (simp add: ids_snoc)
  note IH = step.IH [OF this]
  from step.hyps(2) show ?case
  proof (cases rule: console_step.cases)
    case (submit token payload uid now)
    then have q': "q' = queue_submit uid payload now q" by (auto simp: submit_approval_def split: if_splits)
    show ?thesis using IH step.prems submit(1) by (auto simp: ids_snoc q' queue_submit_def split: if_splits)
  next
    case (resolve now cookie uid approved txt1 u)
    obtain item v where "map_of q uid = Some item" "q' = AList.update uid v q" using resolve(2) by (rule resolve_approval_reply) blast
    then show ?thesis using IH resolve(1) by (auto simp: ids_snoc split: if_splits)
  next
    case (answer timed_out uid a item)
    have q': "q' = AList.delete uid q" using answer(2,3) by (auto simp: queue_wait_def split: if_splits option.splits)
    show ?thesis using IH answer(1,3) unfolding q' map_of_AList_delete by (auto simp: ids_snoc)
  qed
qed

section \<open>The feed loses and repeats nothing\<close>

text \<open>Reading from where a record starts gives that record and the ones behind it.\<close>

lemma read_lines_from_record:
  "read_lines lib off b = Inr (xs @ r # ys, bad, torn) \<Longrightarrow>
     \<exists>bad'. read_lines lib (sr_offset r) (drop (sr_offset r - off) b) = Inr (r # ys, bad', torn)"
proof (induction b arbitrary: off xs bad rule: line_induct)
  case (torn b)
  then show ?case by (simp add: read_lines_none)
next
  case (line raw rest)
  let ?e = "off + length raw + 1"
  obtain kind rs' bad' where rest: "read_lines lib ?e rest = Inr (rs', bad', torn)"
    and rs: "add_line off ?e kind rs' = xs @ r # ys"
    using line.prems by (auto simp: read_lines_line [OF line.hyps] ebind_eq_Inr)
  have later: ?case if "rs' = zs @ r # ys" for zs
  proof -
    have "?e \<le> sr_offset r" using read_lines_offsets [OF rest, of r] that by simp
    then have "drop (sr_offset r - off) (raw @ CHR 10 # rest) = drop (sr_offset r - ?e) rest"
      by (simp add: drop_Cons' add.assoc)
    with line.IH [of ?e zs bad'] rest that show ?thesis by simp
  qed
  show ?case
  proof (cases kind)
    case (EventLine ev)
    show ?thesis
    proof (cases xs)
      case Nil
      with rs [symmetric] EventLine have "sr_offset r = off" by (auto simp: add_line_def)
      with line.prems Nil show ?thesis by auto
    next
      case (Cons x xs')
      with rs EventLine have "rs' = xs' @ r # ys" by (simp add: add_line_def)
      then show ?thesis by (rule later)
    qed
  qed (use rs later [of xs] in \<open>simp_all add: add_line_def\<close>)
qed

text \<open>Over a file that only grows, the passes together send what one reading of its end would.\<close>

lemma stream_complete:
  "bs \<noteq> [] \<Longrightarrow> sorted_wrt prefix bs \<Longrightarrow> pos \<le> length (hd bs) \<Longrightarrow>
     read_lines lib pos (drop pos (last bs)) = Inr (rs, bad, torn) \<Longrightarrow>
     stream_passes lib None pos (map Some bs) = Inr rs"
proof (induction bs arbitrary: pos rs bad)
  case (Cons b bs)
  show ?case
  proof (cases "bs = []")
    case True
    with Cons.prems show ?thesis by (simp add: read_spool_def)
  next
    case False
    have pre: "prefix b (last bs)" "prefix b (hd bs)" using Cons.prems(2) False by auto
    then obtain ext where ext: "last bs = b @ ext" by (auto simp: prefix_def)
    have "drop pos (last bs) = drop pos b @ ext" using Cons.prems(3) by (simp add: ext)
    then have whole: "read_lines lib pos (drop pos b @ ext) = Inr (rs, bad, torn)" using Cons.prems(4) False by simp
    obtain rs1 bad1 torn1 rs2 bad2 where one: "read_lines lib pos (drop pos b) = Inr (rs1, bad1, torn1)"
      and two: "read_lines lib (next_offset_of pos rs1) (drop (next_offset_of pos rs1 - pos) (drop pos b @ ext)) = Inr (rs2, bad2, torn)"
      and rs: "rs = rs1 @ rs2" using read_lines_resume [OF whole] by blast
    let ?n = "next_offset_of pos rs1"
    have n: "pos \<le> ?n" by (rule read_lines_next [OF one])
    have "?n \<le> length b" using read_lines_offsets [OF one, of "last rs1"] Cons.prems(3) by (auto simp: next_offset_of_def)
    then have le: "?n \<le> length (hd bs)" using prefix_length_le [OF pre(2)] by simp
    have "drop (?n - pos) (drop pos b @ ext) = drop ?n (last bs)" using n Cons.prems(3) by (simp add: ext drop_append)
    with two have "read_lines lib ?n (drop ?n (last bs)) = Inr (rs2, bad2, torn)" by simp
    with Cons.IH [OF False _ le] Cons.prems(2) have "stream_passes lib None ?n (map Some bs) = Inr rs2" by simp
    with one show ?thesis by (simp add: read_spool_def rs)
  qed
qed simp

lemma feed_complete:
  assumes "bs \<noteq> []" and "sorted_wrt prefix bs" and "read_lines lib 0 (last bs) = Inr (rs, bad, torn)"
  shows "event_stream lib None (map Some bs) = Inr rs"
  using stream_complete [of bs 0] assms by (simp add: event_stream_def)

lemma feed_resumes:
  assumes "bs \<noteq> []" and "sorted_wrt prefix bs"
    and "read_lines lib 0 (hd bs) = Inr (xs @ r # zs, bad0, torn0)" and "read_lines lib 0 (last bs) = Inr (rs, bad, torn)"
  shows "\<exists>ys. rs = xs @ r # ys \<and> event_stream lib (Some (sr_offset r)) (map Some bs) = Inr ys"
proof -
  obtain b bs' where bs: "bs = b # bs'" using assms(1) by (cases bs) auto
  have "prefix b (last bs)" using assms(2) by (cases "bs' = []") (auto simp: bs)
  then obtain ext where ext: "last bs = b @ ext" by (auto simp: prefix_def)
  obtain rs1 bad1 torn1 rs2 where one: "read_lines lib 0 b = Inr (rs1, bad1, torn1)" "rs = rs1 @ rs2"
    by (rule read_lines_resume [OF assms(4) [unfolded ext]])
  then have rs: "rs = xs @ r # (zs @ rs2)" using assms(3) by (simp add: bs)
  let ?p = "sr_offset r"
  obtain bad2 where whole: "read_lines lib ?p (drop ?p (last bs)) = Inr (r # zs @ rs2, bad2, torn)"
    using read_lines_from_record [OF assms(4) [unfolded rs]] by auto
  obtain bad3 where first: "read_lines lib ?p (drop ?p b) = Inr (r # zs, bad3, torn0)"
    using read_lines_from_record [OF assms(3)] by (auto simp: bs)
  have "?p \<le> length b" using read_lines_offsets [OF assms(3), of r] by (simp add: bs)
  then have all: "stream_passes lib None ?p (map Some bs) = Inr (r # zs @ rs2)"
    using stream_complete [OF assms(1,2) _ whole] by (simp add: bs)
  have "sorted_wrt (<) (map sr_offset (r # zs))" by (rule read_lines_sorted [OF first])
  then have keep: "filter (\<lambda>x. \<not> sr_offset x \<le> ?p) (r # zs) = zs" by (auto simp: filter_id_conv)
  have "event_stream lib (Some ?p) (map Some bs) = Inr (zs @ rs2)"
    using all first keep by (auto simp: event_stream_def bs read_spool_def ebind_eq_Inr)
  with rs show ?thesis by blast
qed

end
