(* ===== verification/Console_Chain.thy ===== *)
theory Console_Chain
  imports Console_App Gateway_Runs
begin

text \<open>
  From the gateway to the human and back: the approval broker of a gateway posts to the console,
  the console parks the request until somebody resolves it. A call that needs approval is
  forwarded only if an authenticated approver said yes to that very request.
\<close>

text \<open>What the gateway's requests were answered with, by a console whose history is the trace.\<close>

definition served_by :: "console_event list \<Rightarrow> http_post \<Rightarrow> bool" where
  "served_by tr post \<longleftrightarrow>
     (\<forall>n url payload data. post n url payload = Posted data \<longrightarrow>
        (\<exists>uid a. Answered uid payload a \<in> set tr \<and> data = PDict (answer_wire a)))"

lemma console_answer_approves:
  assumes "served_by tr post" and "br_channel b = HttpChannel url" and "\<not> br_fail_open b"
    and "rn_approved (broker_request lib post n b req)"
  obtains uid a where "Answered uid (to_wire req) a \<in> set tr" and "rn_approved a"
proof -
  obtain data where data: "post n url (to_wire req) = Posted data" "\<exists>r. read_answer lib data = Answer r \<and> rn_approved r"
    using assms(2-4)
    by (cases "post n url (to_wire req)")
      (auto simp: broker_request_def channel_request_def split: channel_outcome.splits)
  then obtain uid a where a: "Answered uid (to_wire req) a \<in> set tr" "data = PDict (answer_wire a)"
    using assms(1) unfolding served_by_def by blast
  have "rn_approved a" using data(2) unfolding a(2)
    by (auto simp: read_answer_def answer_wire_def dget_def)
  with a(1) that show thesis by blast
qed

lemma forwarded_call_was_approved:
  assumes "standard g pe hs" and "fp_pipeline (g_posture g) = CLOSED"
    and "upstream_lines (effects (handle_tool_call raw) g) \<noteq> []"
    and "evaluate pe (call_tool raw) (first_role (g_principal g)) = Inr d"
    and "d_action d = PStr act" and "map_of hs act = Some (RequireApproval (Some b))"
    and "br_channel b = HttpChannel url" and "\<not> br_fail_open b"
    and "console_run app tr q" and "served_by tr (e_post (g_env g))"
  shows "\<exists>uid a. Submitted uid (to_wire (approval_request_of (call_start raw g) d)) \<in> set tr \<and>
    rn_approved a \<and> approver_resolved app tr uid a"
proof -
  have "rn_approved (broker_request (e_lib (g_env g)) (e_post (g_env g)) (w_asked (g_world g)) b
      (approval_request_of (call_start raw g) d))"
    using forwarded_needs_approval [OF assms(1-6)] by simp
  then obtain uid a where a: "Answered uid (to_wire (approval_request_of (call_start raw g) d)) a \<in> set tr" "rn_approved a"
    by (rule console_answer_approves [OF assms(10,7,8)])
  with approval_by_approver [OF assms(9) a] show ?thesis by blast
qed

end
