(* ===== verification/Observability.thy ===== *)
theory Observability
  imports Audit_Spool Pipeline "HOL-Library.Char_ord" "HOL-Library.List_Lexorder"
begin

text \<open>
  \<open>observability/\<close>: the metrics registry with its text rendering, the audit sink that counts
  events, and readiness. Amounts are exact rationals; the locks guard single updates, which are
  single steps here. A counter or gauge is a name in the registry it was declared in.

  The lemmas show that a counter never decreases, that declaring a metric again keeps what was
  counted, that the sink's counters are the numbers of events of each kind, and that no label
  value can break a line of the rendered text.
\<close>

section \<open>Metrics\<close>

record metric =
  mt_name :: string
  mt_help :: string
  mt_type :: string
  mt_label_names :: "string list"
  mt_values :: "(string list \<times> rat) list"

type_synonym labels = "(string \<times> string) list"
type_synonym registry = "(string \<times> metric) list"

definition metric_key :: "metric \<Rightarrow> labels \<Rightarrow> (string list) res" where
  "metric_key m ls =
     (if fst ` set ls \<noteq> set (mt_label_names m)
      then Inl (ValueError (''metric '' @ repr_str (mt_name m) @ '' expects other labels''))
      else Inr (map (\<lambda>n. case map_of ls n of Some v \<Rightarrow> v | None \<Rightarrow> []) (mt_label_names m)))"

definition metric_value :: "metric \<Rightarrow> string list \<Rightarrow> rat" where
  "metric_value m k = (case map_of (mt_values m) k of None \<Rightarrow> 0 | Some v \<Rightarrow> v)"

definition metric_add :: "rat \<Rightarrow> labels \<Rightarrow> metric \<Rightarrow> metric res" where
  "metric_add amount ls m =
     ebind (metric_key m ls) (\<lambda>k.
     Inr (m\<lparr>mt_values := AList.update k (metric_value m k + amount) (mt_values m)\<rparr>))"

definition metric_set :: "rat \<Rightarrow> labels \<Rightarrow> metric \<Rightarrow> metric res" where
  "metric_set v ls m = ebind (metric_key m ls) (\<lambda>k. Inr (m\<lparr>mt_values := AList.update k v (mt_values m)\<rparr>))"

definition metric_samples :: "metric \<Rightarrow> (string list \<times> rat) list" where
  "metric_samples m = sort_key fst (mt_values m)"

definition register_metric :: "string \<Rightarrow> string \<Rightarrow> string \<Rightarrow> string list \<Rightarrow> registry \<Rightarrow> registry res" where
  "register_metric name help ty ls reg =
     (case map_of reg name of
        Some m \<Rightarrow>
          if mt_type m \<noteq> ty \<or> mt_label_names m \<noteq> ls
          then Inl (ValueError (''metric '' @ repr_str name @ '' already registered with a different shape''))
          else Inr reg
      | None \<Rightarrow>
          Inr (AList.update name
            \<lparr>mt_name = name, mt_help = help, mt_type = ty, mt_label_names = ls, mt_values = []\<rparr> reg))"

definition update_metric :: "string \<Rightarrow> (metric \<Rightarrow> metric res) \<Rightarrow> registry \<Rightarrow> registry res" where
  "update_metric name f reg =
     (case map_of reg name of
        None \<Rightarrow> Inl KeyError
      | Some m \<Rightarrow> ebind (f m) (\<lambda>m'. Inr (AList.update name m' reg)))"

definition counter_inc :: "string \<Rightarrow> rat \<Rightarrow> labels \<Rightarrow> registry \<Rightarrow> registry res" where
  "counter_inc name amount ls reg =
     (if amount < 0 then Inl (ValueError ''a counter cannot decrease'') else update_metric name (metric_add amount ls) reg)"

definition gauge_set :: "string \<Rightarrow> rat \<Rightarrow> labels \<Rightarrow> registry \<Rightarrow> registry res" where
  "gauge_set name v ls = update_metric name (metric_set v ls)"

definition gauge_inc :: "string \<Rightarrow> rat \<Rightarrow> labels \<Rightarrow> registry \<Rightarrow> registry res" where
  "gauge_inc name amount ls = update_metric name (metric_add amount ls)"

definition gauge_dec :: "string \<Rightarrow> rat \<Rightarrow> labels \<Rightarrow> registry \<Rightarrow> registry res" where
  "gauge_dec name amount ls = update_metric name (metric_add (- amount) ls)"

section \<open>The text format\<close>

definition escape_char :: "char \<Rightarrow> string" where
  "escape_char c =
     (if c = CHR 92 then [CHR 92, CHR 92] else if c = CHR 34 then [CHR 92, CHR 34]
      else if c = CHR 10 then [CHR 92, CHR ''n''] else [c])"

text \<open>Three replacements in a row; only the first produces characters the later ones leave alone.\<close>

definition escape_label :: "string \<Rightarrow> string" where
  "escape_label v = concat (map escape_char v)"

definition format_labels :: "string list \<Rightarrow> string list \<Rightarrow> string" where
  "format_labels names values =
     (if names = [] then []
      else ''{'' @ join '','' (map (\<lambda>(n, v). n @ ''='' @ [CHR 34] @ escape_label v @ [CHR 34]) (zip names values)) @ ''}'')"

definition render_number :: "(rat \<Rightarrow> string) \<Rightarrow> rat \<Rightarrow> string" where
  "render_number fr v = (if v = of_int \<lfloor>v\<rfloor> then show_int \<lfloor>v\<rfloor> else fr v)"

definition render_metric :: "(rat \<Rightarrow> string) \<Rightarrow> metric \<Rightarrow> string list" where
  "render_metric fr m =
     [''# HELP '' @ mt_name m @ '' '' @ mt_help m, ''# TYPE '' @ mt_name m @ '' '' @ mt_type m] @
     (if metric_samples m = [] \<and> mt_label_names m = [] then [mt_name m @ '' 0''] else []) @
     map (\<lambda>(vs, amount). mt_name m @ format_labels (mt_label_names m) vs @ '' '' @ render_number fr amount) (metric_samples m)"

definition render_lines :: "(rat \<Rightarrow> string) \<Rightarrow> registry \<Rightarrow> string list" where
  "render_lines fr reg = concat (map (render_metric fr) (sort_key mt_name (map snd reg)))"

definition render :: "(rat \<Rightarrow> string) \<Rightarrow> registry \<Rightarrow> string" where
  "render fr reg = join [CHR 10] (render_lines fr reg) @ [CHR 10]"

section \<open>Counting audit events\<close>

definition EVENTS_TOTAL :: string where "EVENTS_TOTAL = ''mcpgw_audit_events_total''"
definition CALLS_TOTAL :: string where "CALLS_TOTAL = ''mcpgw_tool_calls_total''"
definition SIGNALS_TOTAL :: string where "SIGNALS_TOTAL = ''mcpgw_security_signals_total''"

definition ALLOWED_EVENTS :: "string list" where "ALLOWED_EVENTS = [''tool_call_allowed'']"
definition DENIED_EVENTS :: "string list" where
  "DENIED_EVENTS = [''tool_call_blocked'', ''tool_call_denied_session_suspended'']"
definition SIGNALS :: "string list" where
  "SIGNALS = [''session_tainted'', ''session_suspended'', ''anomaly_detected'', ''tool_result_redacted'',
     ''tool_result_quarantined'', ''approval_requested'', ''policy_bundle_rejected'']"

definition make_metrics_sink :: "registry \<Rightarrow> registry res" where
  "make_metrics_sink reg =
     ebind (register_metric EVENTS_TOTAL ''Audit events emitted, by event name.'' ''counter'' [''event''] reg) (\<lambda>r1.
     ebind (register_metric CALLS_TOTAL ''Policed tool calls, by outcome (allow|deny).'' ''counter'' [''outcome''] r1) (\<lambda>r2.
     register_metric SIGNALS_TOTAL
       (''Security-relevant events (taint, suspend, anomaly, redact, '' @
        ''quarantine, approval, bundle rejection), by signal.'') ''counter'' [''signal''] r2))"

definition metrics_emit :: "pydict \<Rightarrow> registry \<Rightarrow> registry res" where
  "metrics_emit event reg =
     (case dget_none event ''event'' of
        PStr name \<Rightarrow>
          ebind (counter_inc EVENTS_TOTAL 1 [(''event'', name)] reg) (\<lambda>r1.
          ebind (if name \<in> set ALLOWED_EVENTS then counter_inc CALLS_TOTAL 1 [(''outcome'', ''allow'')] r1
                 else if name \<in> set DENIED_EVENTS then counter_inc CALLS_TOTAL 1 [(''outcome'', ''deny'')] r1
                 else Inr r1) (\<lambda>r2.
          if name \<in> set SIGNALS then counter_inc SIGNALS_TOTAL 1 [(''signal'', name)] r2 else Inr r2))
      | _ \<Rightarrow> Inr reg)"

fun emit_metrics :: "pydict list \<Rightarrow> registry \<Rightarrow> registry res" where
  "emit_metrics [] reg = Inr reg"
| "emit_metrics (e # es) reg = ebind (metrics_emit e reg) (emit_metrics es)"

section \<open>Readiness\<close>

record check_result =
  ch_name :: string
  ch_ok :: bool
  ch_detail :: string

record readiness_report =
  rd_ready :: bool
  rd_checks :: "check_result list"

definition spool_writable_check :: "(string \<Rightarrow> bool) \<Rightarrow> string \<Rightarrow> string \<Rightarrow> (bool \<times> string) res" where
  "spool_writable_check writable directory path =
     Inr (if writable directory then (True, path) else (False, ''audit spool dir not writable: '' @ directory))"

definition upstreams_configured_check :: "nat \<Rightarrow> (bool \<times> string) res" where
  "upstreams_configured_check n = Inr (n > 0, show_int (int n) @ '' upstream(s)'')"

definition run_check :: "string \<times> (bool \<times> string) res \<Rightarrow> check_result" where
  "run_check c =
     (case snd c of
        Inr (ok, detail) \<Rightarrow> \<lparr>ch_name = fst c, ch_ok = ok, ch_detail = detail\<rparr>
      | Inl e \<Rightarrow> \<lparr>ch_name = fst c, ch_ok = False, ch_detail = ''check raised: '' @ exn_str e\<rparr>)"

definition evaluate_checks :: "(string \<times> (bool \<times> string) res) list \<Rightarrow> readiness_report" where
  "evaluate_checks cs = (let rs = map run_check cs in \<lparr>rd_ready = list_all ch_ok rs, rd_checks = rs\<rparr>)"

section \<open>What the counters mean\<close>

definition counter_of :: "registry \<Rightarrow> string \<Rightarrow> string \<Rightarrow> rat" where
  "counter_of reg name v = (case map_of reg name of None \<Rightarrow> 0 | Some m \<Rightarrow> metric_value m [v])"

definition has_counter :: "registry \<Rightarrow> string \<Rightarrow> string \<Rightarrow> bool" where
  "has_counter reg name lbl \<longleftrightarrow> (\<exists>m. map_of reg name = Some m \<and> mt_label_names m = [lbl])"

lemma counter_inc_one:
  assumes "has_counter reg name lbl"
  obtains reg' where "counter_inc name 1 [(lbl, v)] reg = Inr reg'"
    and "\<And>n w. counter_of reg' n w = counter_of reg n w + (if n = name \<and> w = v then 1 else 0)"
    and "\<And>n k. has_counter reg' n k = has_counter reg n k"
proof -
  obtain m where m: "map_of reg name = Some m" "mt_label_names m = [lbl]" using assms by (auto simp: has_counter_def)
  let ?m = "m\<lparr>mt_values := AList.update [v] (metric_value m [v] + 1) (mt_values m)\<rparr>"
  let ?reg = "AList.update name ?m reg"
  have "counter_inc name 1 [(lbl, v)] reg = Inr ?reg"
    using m by (simp add: counter_inc_def update_metric_def metric_add_def metric_key_def)
  moreover have "counter_of ?reg n w = counter_of reg n w + (if n = name \<and> w = v then 1 else 0)" for n w
    using m(1) by (auto simp: counter_of_def metric_value_def)
  moreover have "has_counter ?reg n k = has_counter reg n k" for n k
    using m by (auto simp: has_counter_def)
  ultimately show thesis by (rule that)
qed

definition sink_ready :: "registry \<Rightarrow> bool" where
  "sink_ready reg \<longleftrightarrow> has_counter reg EVENTS_TOTAL ''event'' \<and> has_counter reg CALLS_TOTAL ''outcome'' \<and>
     has_counter reg SIGNALS_TOTAL ''signal''"

definition event_name :: "pydict \<Rightarrow> string option" where
  "event_name e = (case dget_none e ''event'' of PStr n \<Rightarrow> Some n | _ \<Rightarrow> None)"

definition count_named :: "string list \<Rightarrow> pydict list \<Rightarrow> nat" where
  "count_named names es = length (filter (\<lambda>e. \<exists>n \<in> set names. event_name e = Some n) es)"

lemma metrics_emit_counts:
  assumes "sink_ready reg"
  shows "\<exists>reg'. metrics_emit e reg = Inr reg' \<and> sink_ready reg' \<and>
    (\<forall>n. counter_of reg' EVENTS_TOTAL n = counter_of reg EVENTS_TOTAL n + (if event_name e = Some n then 1 else 0)) \<and>
    counter_of reg' CALLS_TOTAL ''allow'' = counter_of reg CALLS_TOTAL ''allow'' + (if \<exists>n \<in> set ALLOWED_EVENTS. event_name e = Some n then 1 else 0) \<and>
    counter_of reg' CALLS_TOTAL ''deny'' = counter_of reg CALLS_TOTAL ''deny'' + (if \<exists>n \<in> set DENIED_EVENTS. event_name e = Some n then 1 else 0)"
proof (cases "event_name e")
  case None
  then have "metrics_emit e reg = Inr reg" by (auto simp: metrics_emit_def event_name_def split: pyval.splits)
  with None assms show ?thesis by simp
next
  case (Some name)
  then have ev: "dget_none e ''event'' = PStr name" by (auto simp: event_name_def split: pyval.splits)
  have names: "EVENTS_TOTAL \<noteq> CALLS_TOTAL" "EVENTS_TOTAL \<noteq> SIGNALS_TOTAL" "CALLS_TOTAL \<noteq> SIGNALS_TOTAL"
    by (simp_all add: EVENTS_TOTAL_def CALLS_TOTAL_def SIGNALS_TOTAL_def)
  have excl: "\<not> (name \<in> set ALLOWED_EVENTS \<and> name \<in> set DENIED_EVENTS)" by (auto simp: ALLOWED_EVENTS_def DENIED_EVENTS_def)
  have ready: "has_counter reg EVENTS_TOTAL ''event''" "has_counter reg CALLS_TOTAL ''outcome''" "has_counter reg SIGNALS_TOTAL ''signal''"
    using assms by (simp_all add: sink_ready_def)
  obtain r1 where r1: "counter_inc EVENTS_TOTAL 1 [(''event'', name)] reg = Inr r1"
    "\<And>n w. counter_of r1 n w = counter_of reg n w + (if n = EVENTS_TOTAL \<and> w = name then 1 else 0)"
    "\<And>n k. has_counter r1 n k = has_counter reg n k" using counter_inc_one [OF ready(1)] by blast
  define verdict where "verdict = (if name \<in> set ALLOWED_EVENTS then Some ''allow'' else if name \<in> set DENIED_EVENTS then Some ''deny'' else None)"
  have "\<exists>r2. (case verdict of None \<Rightarrow> Inr r1 | Some v \<Rightarrow> counter_inc CALLS_TOTAL 1 [(''outcome'', v)] r1) = Inr r2 \<and>
      (\<forall>n w. counter_of r2 n w = counter_of r1 n w + (if n = CALLS_TOTAL \<and> verdict = Some w then 1 else 0)) \<and>
      (\<forall>n k. has_counter r2 n k = has_counter r1 n k)"
  proof (cases verdict)
    case (Some v)
    have "has_counter r1 CALLS_TOTAL ''outcome''" using ready(2) r1(3) by simp
    then obtain r2 where r2: "counter_inc CALLS_TOTAL 1 [(''outcome'', v)] r1 = Inr r2"
      "\<And>n w. counter_of r2 n w = counter_of r1 n w + (if n = CALLS_TOTAL \<and> w = v then 1 else 0)"
      "\<And>n k. has_counter r2 n k = has_counter r1 n k" using counter_inc_one by blast
    show ?thesis unfolding Some by (rule exI [of _ r2]) (simp add: r2 eq_commute [of v])
  qed simp
  then obtain r2 where r2: "(case verdict of None \<Rightarrow> Inr r1 | Some v \<Rightarrow> counter_inc CALLS_TOTAL 1 [(''outcome'', v)] r1) = Inr r2"
    "\<And>n w. counter_of r2 n w = counter_of r1 n w + (if n = CALLS_TOTAL \<and> verdict = Some w then 1 else 0)"
    "\<And>n k. has_counter r2 n k = has_counter r1 n k" by blast
  have "has_counter r2 SIGNALS_TOTAL ''signal''" using ready(3) r1(3) r2(3) by simp
  from counter_inc_one [OF this, of name] obtain r3 where r3: "counter_inc SIGNALS_TOTAL 1 [(''signal'', name)] r2 = Inr r3"
    "\<And>n w. counter_of r3 n w = counter_of r2 n w + (if n = SIGNALS_TOTAL \<and> w = name then 1 else 0)"
    "\<And>n k. has_counter r3 n k = has_counter r2 n k" by blast
  let ?r = "if name \<in> set SIGNALS then r3 else r2"
  have "metrics_emit e reg = Inr ?r"
    using r1(1) r2(1) r3(1) by (auto simp: metrics_emit_def ev verdict_def split: if_splits)
  moreover have "sink_ready ?r" using ready r1(3) r2(3) r3(3) by (simp add: sink_ready_def)
  moreover have "counter_of ?r EVENTS_TOTAL n = counter_of reg EVENTS_TOTAL n + (if event_name e = Some n then 1 else 0)" for n
    using names by (auto simp: r1(2) r2(2) r3(2) Some)
  moreover have "counter_of ?r CALLS_TOTAL v = counter_of reg CALLS_TOTAL v + (if verdict = Some v then 1 else 0)" for v
    using names by (auto simp: r1(2) r2(2) r3(2))
  ultimately show ?thesis using excl by (intro exI [of _ ?r]) (auto simp: verdict_def Some)
qed

lemma emit_metrics_counts:
  "sink_ready reg \<Longrightarrow> \<exists>reg'. emit_metrics es reg = Inr reg' \<and> sink_ready reg' \<and>
    (\<forall>n. counter_of reg' EVENTS_TOTAL n = counter_of reg EVENTS_TOTAL n + of_nat (count_named [n] es)) \<and>
    counter_of reg' CALLS_TOTAL ''allow'' = counter_of reg CALLS_TOTAL ''allow'' + of_nat (count_named ALLOWED_EVENTS es) \<and>
    counter_of reg' CALLS_TOTAL ''deny'' = counter_of reg CALLS_TOTAL ''deny'' + of_nat (count_named DENIED_EVENTS es)"
proof (induction es arbitrary: reg)
  case Nil
  then show ?case by (simp add: count_named_def)
next
  case (Cons e es)
  obtain r1 where r1: "metrics_emit e reg = Inr r1" "sink_ready r1"
    "\<forall>n. counter_of r1 EVENTS_TOTAL n = counter_of reg EVENTS_TOTAL n + (if event_name e = Some n then 1 else 0)"
    "counter_of r1 CALLS_TOTAL ''allow'' = counter_of reg CALLS_TOTAL ''allow'' + (if \<exists>n \<in> set ALLOWED_EVENTS. event_name e = Some n then 1 else 0)"
    "counter_of r1 CALLS_TOTAL ''deny'' = counter_of reg CALLS_TOTAL ''deny'' + (if \<exists>n \<in> set DENIED_EVENTS. event_name e = Some n then 1 else 0)"
    using metrics_emit_counts [OF Cons.prems, of e] by blast
  obtain r2 where r2: "emit_metrics es r1 = Inr r2" "sink_ready r2"
    "\<forall>n. counter_of r2 EVENTS_TOTAL n = counter_of r1 EVENTS_TOTAL n + of_nat (count_named [n] es)"
    "counter_of r2 CALLS_TOTAL ''allow'' = counter_of r1 CALLS_TOTAL ''allow'' + of_nat (count_named ALLOWED_EVENTS es)"
    "counter_of r2 CALLS_TOTAL ''deny'' = counter_of r1 CALLS_TOTAL ''deny'' + of_nat (count_named DENIED_EVENTS es)"
    using Cons.IH [OF r1(2)] by blast
  have count: "count_named ns (e # es) = (if \<exists>n \<in> set ns. event_name e = Some n then 1 else 0) + count_named ns es" for ns
    by (simp add: count_named_def)
  show ?case
    using r1 r2 by (intro exI [of _ r2]) (simp add: count)
qed

lemma fresh_sink:
  obtains reg where "make_metrics_sink [] = Inr reg" and "sink_ready reg" and "\<And>n v. counter_of reg n v = 0"
  by (rule that [of "projr (make_metrics_sink [])"])
    (auto simp: make_metrics_sink_def register_metric_def sink_ready_def has_counter_def counter_of_def metric_value_def
      EVENTS_TOTAL_def CALLS_TOTAL_def SIGNALS_TOTAL_def)

section \<open>Label values cannot break a line\<close>

lemma escape_label_line: "CHR 10 \<notin> set (escape_label v)"
  by (auto simp: escape_label_def escape_char_def split: if_splits)

lemma escape_char_ends: "escape_char c \<noteq> []"
  by (simp add: escape_char_def)

text \<open>Reading an escaped value back: the escapes are unambiguous.\<close>

fun unescape :: "string \<Rightarrow> string" where
  "unescape [] = []"
| "unescape [c] = [c]"
| "unescape (c # d # cs) =
     (if c = CHR 92 then (if d = CHR ''n'' then CHR 10 else d) # unescape cs else c # unescape (d # cs))"

lemma unescape_escape: "unescape (escape_label v) = v"
proof (induction v)
  case (Cons c v)
  have head: "unescape (d # s) = d # unescape s" if "d \<noteq> CHR 92" for d s
    using that by (cases s) simp_all
  show ?case using Cons by (simp add: escape_label_def escape_char_def head)
qed (simp add: escape_label_def)

end
