(* ===== verification/Sample_Console.thy ===== *)
theory Sample_Console
  imports Sample_Services Console_Chain Observability
begin

text \<open>
  A console with one approver, the history in which she approves one request, and a gateway
  that is served by it; a spool that grows by one record between two polls of the feed.
\<close>

definition console_signer :: cookie_signer where
  "console_signer = \<lparr>sg_secret = ''k'', sg_ttl = 3600, sg_hmac = (\<lambda>k m. ''tag'')\<rparr>"

definition console_alice :: user where
  "console_alice = \<lparr>us_name = ''alice'', us_role = ''approver''\<rparr>"

definition console_sample :: console_app where
  "console_sample =
     \<lparr>ca_lib = sample_lib, ca_signer = console_signer, ca_kdf = (\<lambda>p s n. p @ s), ca_users = [], ca_gateway_token = None\<rparr>"

definition admin_request :: pydict where
  "admin_request = to_wire (approval_request_of (call_start admin_call sample_gateway)
     (projr (evaluate sample_engine ''admin.reset'' None)))"

definition alice_cookie :: string where
  "alice_cookie = mint sample_lib console_signer console_alice 0"

definition alice_yes :: resolution where
  "alice_yes = \<lparr>rn_approved = True, rn_approver = ''alice'', rn_note = []\<rparr>"

definition console_trace :: "console_event list" where
  "console_trace =
     [Submitted ''u1'' admin_request, Resolved ''u1'' alice_cookie 5 console_alice alice_yes,
      Answered ''u1'' admin_request alice_yes]"

definition console_post :: http_post where
  "console_post n url payload = (if payload = admin_request then Posted (PDict (answer_wire alice_yes)) else PostTimeout)"

definition console_gateway :: gateway where
  "console_gateway = sample_gateway
     \<lparr>g_env := sample_env\<lparr>e_post := console_post\<rparr>,
      g_pipeline := \<lparr>pl_stages = default_stages (sample_env\<lparr>e_post := console_post\<rparr>) sample_engine sample_sequence sample_handlers,
        pl_handlers = Some sample_handlers\<rparr>\<rparr>"

lemma console_standard: "standard console_gateway sample_engine sample_handlers"
  using wf_handlers by (simp add: standard_def console_gateway_def sample_gateway_def sample_handlers_def)

lemma console_closed: "fp_pipeline (g_posture console_gateway) = CLOSED"
  by (simp add: console_gateway_def sample_gateway_def default_posture_def)

lemma alice_verified: "cookie_verify sample_lib console_signer 5 alice_cookie = Inr (Some console_alice)"
  unfolding alice_cookie_def
  by (rule minted_cookie_verifies) (simp_all add: console_alice_def console_signer_def USER_ROLES_def)

lemma alice_cookie_nonempty: "alice_cookie \<noteq> []"
  by (simp add: alice_cookie_def mint_def Let_def)

lemma console_trace_runs: "console_run console_sample console_trace []"
proof -
  let ?item = "\<lparr>pa_id = ''u1'', pa_request = admin_request, pa_created = 1, pa_future = None\<rparr>"
  let ?q1 = "[(''u1'', ?item)]" and ?q2 = "[(''u1'', ?item\<lparr>pa_future := Some alice_yes\<rparr>)]"
  have tool: "dhas admin_request ''tool''" by (simp add: admin_request_def to_wire_def dhas_def dget_def)
  have s1: "console_step console_sample [] (Submitted ''u1'' admin_request) ?q1"
    by (rule console_step.submit [where token = None and now = 1])
      (simp_all add: submit_approval_def console_sample_def tool queue_submit_def)
  have s2: "console_step console_sample ?q1 (Resolved ''u1'' alice_cookie 5 console_alice alice_yes) ?q2"
  proof -
    have "current_user console_sample 5 (Some alice_cookie) = reply console_alice"
      using alice_verified alice_cookie_nonempty by (simp add: current_user_def console_sample_def)
    then have "resolve_approval console_sample 5 (Some alice_cookie) ''u1'' True [] ?q1 = reply ?q2"
      by (simp add: resolve_approval_def require_approver_def hbind_def can_approve_def console_alice_def queue_resolve_def alice_yes_def)
    moreover have "cookie_verify (ca_lib console_sample) (ca_signer console_sample) 5 alice_cookie = Inr (Some console_alice)"
      using alice_verified by (simp add: console_sample_def)
    ultimately show ?thesis
      using console_step.resolve [of console_sample 5 alice_cookie "''u1''" True "[]" ?q1 ?q2 console_alice]
      by (simp add: alice_yes_def console_alice_def)
  qed
  have s3: "console_step console_sample ?q2 (Answered ''u1'' admin_request alice_yes) []"
    using console_step.answer [of False "''u1''" ?q2 alice_yes "[]" "?item\<lparr>pa_future := Some alice_yes\<rparr>" console_sample]
    by (simp add: queue_wait_def)
  from console_run.step [OF console_run.step [OF console_run.step [OF console_run.start s1] s2] s3]
  show ?thesis by (simp add: console_trace_def)
qed

lemma console_serves: "served_by console_trace (e_post (g_env console_gateway))"
  by (auto simp: served_by_def console_gateway_def console_post_def console_trace_def split: if_splits)

definition feed_one :: string where
  "feed_one = concat (map (spool_line sample_lib) [[(PStr ''event'', PStr ''a'')], [(PStr ''event'', PStr ''b'')]])"

definition feed_all :: string where
  "feed_all = feed_one @ spool_line sample_lib [(PStr ''event'', PStr ''c'')]"

end
