(* ===== verification/Streamable_Http.thy ===== *)
theory Streamable_Http
  imports Gateway_Runs Identity Session_Stores
begin

text \<open>
  \<open>transports/streamable_http.py\<close>: one gateway per HTTP session. A session plays the gateway's
  transport: a line for the upstream is written to it, a line for the client goes to the POST
  that waits for its id or else to the session's event stream. The hub authenticates every
  request, mints sessions on \<open>initialize\<close>, checks that a session is driven by the principal that
  opened it, and routes.

  The requests of many clients interleave, so a hub is a step relation. A step is one handler up
  to the point where it waits for the answer, the end of such a wait, one line of an upstream, or
  the end of an upstream. The objects the code shares between sessions (the redaction service,
  the behavioural monitor) are the hub's and are threaded through the steps.
\<close>

section \<open>Sessions\<close>

datatype future = Waiting | Fulfilled string | Cancelled

text \<open>
  A session object: \<open>hs_running\<close> is whether the upstream accepts lines, \<open>hs_sent\<close> what was written
  to it, \<open>hs_pending\<close> the table of in-flight ids, \<open>hs_waiters\<close> the POSTs that wait, each with the
  future it waits for and the id it asked with.
\<close>

record http_session =
  hs_id :: string
  hs_gateway :: gateway
  hs_running :: bool
  hs_sent :: "string list"
  hs_pending :: "(pykey \<times> nat) list"
  hs_futures :: "(nat \<times> future) list"
  hs_waiters :: "(nat \<times> pyval) list"
  hs_sse :: "string list"
  hs_closed :: bool

abbreviation hs_lib :: "http_session \<Rightarrow> pylib" where "hs_lib s \<equiv> e_lib (g_env (hs_gateway s))"

definition new_http_session :: "string \<Rightarrow> gateway \<Rightarrow> http_session" where
  "new_http_session sid g =
     \<lparr>hs_id = sid, hs_gateway = g, hs_running = True, hs_sent = [], hs_pending = [], hs_futures = [],
      hs_waiters = [], hs_sse = [], hs_closed = False\<rparr>"

definition upstream_send :: "string \<Rightarrow> http_session \<Rightarrow> exn option \<times> http_session" where
  "upstream_send line s =
     (if hs_running s then (None, s\<lparr>hs_sent := hs_sent s @ [line]\<rparr>)
      else (Some (OtherError ''upstream server is not running''), s))"

definition fulfil :: "nat \<Rightarrow> string \<Rightarrow> (nat \<times> future) list \<Rightarrow> (nat \<times> future) list" where
  "fulfil t line fs = (if map_of fs t = Some Waiting then AList.update t (Fulfilled line) fs else fs)"

definition session_send_client :: "string \<Rightarrow> http_session \<Rightarrow> exn option \<times> http_session" where
  "session_send_client line s =
     (let to_sse = (None, s\<lparr>hs_sse := hs_sse s @ [line]\<rparr>) in
      case decode_line (hs_lib s) line of
        Inl e \<Rightarrow> (Some e, s)
      | Inr None \<Rightarrow> to_sse
      | Inr (Some raw) \<Rightarrow>
          if is_response raw then
            (case py_key (msg_id raw) of
               None \<Rightarrow> (Some TypeError, s)
             | Some k \<Rightarrow>
                 (case map_of (hs_pending s) k of
                    Some t \<Rightarrow> (None, s\<lparr>hs_pending := AList.delete k (hs_pending s), hs_futures := fulfil t line (hs_futures s)\<rparr>)
                  | None \<Rightarrow> to_sse))
          else to_sse)"

text \<open>The sends of a handler in order; a send that raises ends it. The third component is what was done.\<close>

definition perform1 :: "effect \<Rightarrow> http_session \<Rightarrow> exn option \<times> http_session" where
  "perform1 ef s =
     (case ef of ToUpstream l \<Rightarrow> upstream_send l s | ToClient l \<Rightarrow> session_send_client l s | _ \<Rightarrow> (None, s))"

fun perform :: "effect list \<Rightarrow> http_session \<Rightarrow> exn option \<times> http_session \<times> effect list" where
  "perform [] s = (None, s, [])"
| "perform (ef # es) s =
     (case perform1 ef s of
        (Some e, s') \<Rightarrow> (Some e, s', [])
      | (None, s') \<Rightarrow> (case perform es s' of (r, s'', did) \<Rightarrow> (r, s'', ef # did)))"

text \<open>
  The state of a gateway whose handler was ended by its send: the only thing a handler does to
  its state after a send is to consult the monitor, which has not happened then.
\<close>

definition halted :: "gact \<Rightarrow> gateway \<Rightarrow> gateway" where
  "halted a g = (after a (g\<lparr>g_anomaly := None\<rparr>))\<lparr>g_anomaly := g_anomaly g\<rparr>"

definition feed :: "gact \<Rightarrow> http_session \<Rightarrow> exn option \<times> http_session \<times> effect list" where
  "feed a s =
     (case a (hs_gateway s) of
        (r, g, es) \<Rightarrow>
          (case perform es s of
             (None, s', did) \<Rightarrow> (r, s'\<lparr>hs_gateway := g\<rparr>, did)
           | (Some e, s', did) \<Rightarrow> (Some e, s'\<lparr>hs_gateway := halted a (hs_gateway s)\<rparr>, did)))"

definition ERROR_GATEWAY_TIMEOUT :: int where "ERROR_GATEWAY_TIMEOUT = - 32002"

definition register :: "nat \<Rightarrow> pykey \<Rightarrow> pyval \<Rightarrow> http_session \<Rightarrow> http_session" where
  "register t k request_id s =
     s\<lparr>hs_pending := AList.update k t (hs_pending s), hs_futures := AList.update t Waiting (hs_futures s),
       hs_waiters := AList.update t request_id (hs_waiters s)\<rparr>"

text \<open>\<open>handle_request\<close> up to its wait, with the future \<open>t\<close>, and from the end of the wait on; a POST
  whose gateway raised waits no more, but its entry stays in the table.\<close>

definition begin_request :: "nat \<Rightarrow> message \<Rightarrow> pyval \<Rightarrow> http_session \<Rightarrow> exn option \<times> http_session \<times> effect list" where
  "begin_request t raw request_id s =
     (case py_key request_id of
        None \<Rightarrow> (Some TypeError, s, [])
      | Some k \<Rightarrow>
          (case feed (on_client_line (encode (hs_lib s) raw))
                  (register t k request_id s) of
             (Some e, s', did) \<Rightarrow> (Some e, s'\<lparr>hs_waiters := AList.delete t (hs_waiters s')\<rparr>, did)
           | (None, s', did) \<Rightarrow> (None, s', did)))"

definition timeout_line :: "pylib \<Rightarrow> pyval \<Rightarrow> string" where
  "timeout_line lib request_id =
     encode lib (error_response request_id ERROR_GATEWAY_TIMEOUT ''upstream did not respond within the gateway deadline'')"

definition forget_key :: "pyval \<Rightarrow> (pykey \<times> nat) list \<Rightarrow> (pykey \<times> nat) list" where
  "forget_key v ps = (case py_key v of None \<Rightarrow> ps | Some k \<Rightarrow> AList.delete k ps)"

definition end_request :: "bool \<Rightarrow> nat \<Rightarrow> http_session \<Rightarrow> (string res \<times> http_session) option" where
  "end_request timed_out t s =
     (case map_of (hs_waiters s) t of
        None \<Rightarrow> None
      | Some request_id \<Rightarrow>
          (let s' = s\<lparr>hs_waiters := AList.delete t (hs_waiters s), hs_futures := AList.delete t (hs_futures s)\<rparr> in
           case map_of (hs_futures s) t of
             Some (Fulfilled line) \<Rightarrow> Some (Inr line, s')
           | Some Cancelled \<Rightarrow> Some (Inl (OtherError ''CancelledError''), s')
           | _ \<Rightarrow>
               if timed_out
               then Some (Inr (timeout_line (hs_lib s) request_id), s'\<lparr>hs_pending := forget_key request_id (hs_pending s)\<rparr>)
               else None))"

definition handle_notification :: "message \<Rightarrow> http_session \<Rightarrow> exn option \<times> http_session \<times> effect list" where
  "handle_notification raw s = feed (on_client_line (encode (hs_lib s) raw)) s"

text \<open>One turn of the event stream, entered while the session is open: a frame, and what it took from the queue.\<close>

definition sse_turn :: "http_session \<Rightarrow> string \<times> http_session" where
  "sse_turn s =
     (case hs_sse s of
        [] \<Rightarrow> ('': keep-alive'' @ [CHR 10, CHR 10], s)
      | l # ls \<Rightarrow> (''data: '' @ l @ [CHR 10, CHR 10], s\<lparr>hs_sse := ls\<rparr>))"

text \<open>\<open>_on_upstream_exit\<close>; whether the process still accepts lines is up to how it ended.\<close>

definition session_upstream_exit :: "pyval \<Rightarrow> bool \<Rightarrow> http_session \<Rightarrow> exn option \<times> http_session \<times> effect list" where
  "session_upstream_exit returncode still_running s =
     feed (on_upstream_exit returncode) (s\<lparr>hs_closed := True, hs_running := still_running\<rparr>)"

definition cancel_all :: "nat list \<Rightarrow> (nat \<times> future) list \<Rightarrow> (nat \<times> future) list" where
  "cancel_all ts fs = map (\<lambda>(t, f). (t, if t \<in> set ts \<and> f = Waiting then Cancelled else f)) fs"

definition session_close :: "pyval \<Rightarrow> http_session \<Rightarrow> exn option \<times> http_session \<times> effect list" where
  "session_close returncode s =
     feed (gseq (on_upstream_exit returncode) on_stop)
       (s\<lparr>hs_closed := True, hs_futures := cancel_all (map snd (hs_pending s)) (hs_futures s), hs_pending := [],
          hs_running := False\<rparr>)"

section \<open>The hub\<close>

text \<open>What \<open>build_session_parts\<close> closes over.\<close>

record session_parts =
  sp_env :: env
  sp_engine :: policy_engine
  sp_principal :: principal
  sp_redaction :: bool
  sp_broker :: "broker option"
  sp_command :: "string list"

text \<open>The gateway of a new session, over the session state the store has for its id.\<close>

definition make_session_gateway :: "session_parts \<Rightarrow> session \<Rightarrow> monitor option \<Rightarrow> world \<Rightarrow> gateway res" where
  "make_session_gateway sp s anomaly w =
     ebind (default_pipeline (sp_env sp) (sp_engine sp) (sp_redaction sp) (sp_broker sp)) (\<lambda>stages.
     make_gateway (sp_env sp)
       \<lparr>pl_stages = stages, pl_handlers = Some (build_action_handlers (sp_redaction sp) (sp_broker sp))\<rparr>
       (sp_principal sp) (Some (sp_engine sp)) (sp_redaction sp) s anomaly w)"

text \<open>
  \<open>hb_objects\<close> are the session objects by id, \<open>hb_listed\<close> the ids in the hub's table: a terminated
  session leaves the table while its waiting POSTs still end on the object.
\<close>

record hub =
  hb_parts :: session_parts
  hb_resolver :: "resolver option"
  hb_objects :: "(string \<times> http_session) list"
  hb_listed :: "string list"
  hb_monitor :: "monitor option"
  hb_world :: world

definition hub_get :: "string \<Rightarrow> hub \<Rightarrow> http_session option" where
  "hub_get sid hb = (if sid \<in> set (hb_listed hb) then map_of (hb_objects hb) sid else None)"

definition attach :: "hub \<Rightarrow> http_session \<Rightarrow> http_session" where
  "attach hb s = s\<lparr>hs_gateway := (hs_gateway s)\<lparr>g_anomaly := hb_monitor hb, g_world := hb_world hb\<rparr>\<rparr>"

definition store_session :: "string \<Rightarrow> http_session \<Rightarrow> hub \<Rightarrow> hub" where
  "store_session sid s hb =
     hb\<lparr>hb_objects := AList.update sid s (hb_objects hb), hb_monitor := g_anomaly (hs_gateway s),
        hb_world := g_world (hs_gateway s)\<rparr>"

definition on_session ::
  "string \<Rightarrow> http_session \<Rightarrow> (http_session \<Rightarrow> exn option \<times> http_session \<times> effect list) \<Rightarrow> hub \<Rightarrow>
     exn option \<times> hub \<times> effect list" where
  "on_session sid s f hb = (case f (attach hb s) of (r, s', did) \<Rightarrow> (r, store_session sid s' hb, did))"

text \<open>
  What the surroundings choose in a POST: the random id and the store's session of a new
  session, how starting its upstream ends, and the future of the wait.
\<close>

record draw =
  dr_uid :: string
  dr_session :: session
  dr_start :: "exn option"
  dr_ticket :: nat

text \<open>\<open>create\<close>: the session is listed only once its upstream has started.\<close>

definition create_session :: "draw \<Rightarrow> principal option \<Rightarrow> hub \<Rightarrow> http_session res" where
  "create_session d who hb =
     ebind (make_session_gateway (hb_parts hb) (dr_session d) (hb_monitor hb) (hb_world hb)) (\<lambda>g0.
     let g = (case who of None \<Rightarrow> g0 | Some p \<Rightarrow> g0\<lparr>g_principal := p\<rparr>) in
     case dr_start d of
       Some e \<Rightarrow> Inl e
     | None \<Rightarrow> Inr (new_http_session (dr_uid d) (after (on_start (sp_command (hb_parts hb))) g)))"

definition list_session :: "http_session \<Rightarrow> hub \<Rightarrow> hub" where
  "list_session s hb = (store_session (hs_id s) s hb)\<lparr>hb_listed := hs_id s # removeAll (hs_id s) (hb_listed hb)\<rparr>"

section \<open>Requests\<close>

record http_request =
  rq_body :: "pyval option"
  rq_session :: "string option"
  rq_authorization :: "string option"

datatype answer =
    JsonAnswer nat pydict
  | EmptyAnswer nat
  | Await string nat bool
  | EventStream string
  | Crash exn

definition rpc_error :: "pyval \<Rightarrow> int \<Rightarrow> string \<Rightarrow> nat \<Rightarrow> answer" where
  "rpc_error request_id code msg status = JsonAnswer status (error_response request_id code msg)"

definition ERROR_UNAUTHENTICATED :: int where "ERROR_UNAUTHENTICATED = - 32003"
definition ERROR_FORBIDDEN :: int where "ERROR_FORBIDDEN = - 32005"
definition METHOD_INITIALIZE :: string where "METHOD_INITIALIZE = ''initialize''"

definition http_authenticate ::
  "'k idp \<Rightarrow> resolver option \<Rightarrow> string option \<Rightarrow> pyval \<Rightarrow> 'k jwks_provider \<Rightarrow> (answer + principal option) \<times> 'k jwks_provider" where
  "http_authenticate p ir authorization request_id jp =
     (case ir of
        None \<Rightarrow> (Inr None, jp)
      | Some r \<Rightarrow>
          (case resolve p r authorization jp of
             (Inr pr, jp') \<Rightarrow> (Inr (Some pr), jp')
           | (Inl (IdentityError m), jp') \<Rightarrow>
               (Inl (rpc_error request_id ERROR_UNAUTHENTICATED (''unauthenticated: '' @ m) 401), jp')
           | (Inl e, jp') \<Rightarrow> (Inl (Crash e), jp')))"

definition enforce_session_owner :: "http_session \<Rightarrow> principal option \<Rightarrow> pyval \<Rightarrow> answer option" where
  "enforce_session_owner s who request_id =
     (case who of
        None \<Rightarrow> None
      | Some p \<Rightarrow>
          if pn_id (g_principal (hs_gateway s)) \<noteq> pn_id p
          then Some (rpc_error request_id ERROR_FORBIDDEN ''forbidden: this session belongs to a different principal'' 403)
          else None)"

text \<open>What a run of the hub is made of: the sessions opened, the lines a gateway was given, what clients got.\<close>

datatype hub_event =
    Opened string http_request "principal option"
  | Delivered string http_request "principal option" message "effect list"
  | Arrived string string "effect list"
  | Replied string pyval string
  | Framed string string

definition wait_or_crash :: "string \<Rightarrow> nat \<Rightarrow> bool \<Rightarrow> exn option \<Rightarrow> answer" where
  "wait_or_crash sid t minted r = (case r of None \<Rightarrow> Await sid t minted | Some e \<Rightarrow> Crash e)"

definition deliver ::
  "http_request \<Rightarrow> draw \<Rightarrow> principal option \<Rightarrow> message \<Rightarrow> message \<Rightarrow> bool \<Rightarrow> http_session \<Rightarrow> hub \<Rightarrow> answer \<times> hub \<times> hub_event list" where
  "deliver rq d who raw msg minted s hb =
     (if minted \<or> is_request msg
      then (case on_session (hs_id s) s (begin_request (dr_ticket d) raw (msg_id msg)) hb of
              (r, hb', did) \<Rightarrow> (wait_or_crash (hs_id s) (dr_ticket d) minted r, hb', [Delivered (hs_id s) rq who raw did]))
      else (case on_session (hs_id s) s (handle_notification raw) hb of
              (None, hb', did) \<Rightarrow> (EmptyAnswer 202, hb', [Delivered (hs_id s) rq who raw did])
            | (Some e, hb', did) \<Rightarrow> (Crash e, hb', [Delivered (hs_id s) rq who raw did])))"

definition route_post ::
  "http_request \<Rightarrow> draw \<Rightarrow> principal option \<Rightarrow> message \<Rightarrow> message \<Rightarrow> hub \<Rightarrow> answer \<times> hub \<times> hub_event list" where
  "route_post rq d who raw msg hb =
     (case rq_session rq of
        None \<Rightarrow>
          if msg_method msg = Some METHOD_INITIALIZE then
            (case create_session d who hb of
               Inl e \<Rightarrow> (Crash e, hb, [])
             | Inr s \<Rightarrow>
                 (case deliver rq d who raw msg True s (list_session s hb) of
                    (a, hb', evs) \<Rightarrow> (a, hb', Opened (hs_id s) rq who # evs)))
          else (rpc_error (msg_id msg) (- 32600) ''missing Mcp-Session-Id header'' 400, hb, [])
      | Some sid \<Rightarrow>
          (case hub_get sid hb of
             None \<Rightarrow> (rpc_error (msg_id msg) (- 32001) ''unknown or expired session'' 404, hb, [])
           | Some s \<Rightarrow>
               (case enforce_session_owner s who (msg_id msg) of
                  Some a \<Rightarrow> (a, hb, [])
                | None \<Rightarrow> deliver rq d who raw msg False s hb)))"

definition handle_post ::
  "'k idp \<Rightarrow> http_request \<Rightarrow> draw \<Rightarrow> hub \<Rightarrow> 'k jwks_provider \<Rightarrow> answer \<times> hub \<times> 'k jwks_provider \<times> hub_event list" where
  "handle_post p rq d hb jp =
     (case rq_body rq of
        None \<Rightarrow> (rpc_error PNone (- 32700) ''parse error: body is not JSON'' 400, hb, jp, [])
      | Some (PDict raw) \<Rightarrow>
          (let lib = e_lib (sp_env (hb_parts hb)) in
           case decode_line lib (encode lib raw) of
             Inl e \<Rightarrow> (Crash e, hb, jp, [])
           | Inr None \<Rightarrow> (Crash (AssertionError []), hb, jp, [])
           | Inr (Some msg) \<Rightarrow>
               (case http_authenticate p (hb_resolver hb) (rq_authorization rq) (msg_id msg) jp of
                  (Inl a, jp') \<Rightarrow> (a, hb, jp', [])
                | (Inr who, jp') \<Rightarrow> (case route_post rq d who raw msg hb of (a, hb', evs) \<Rightarrow> (a, hb', jp', evs))))
      | Some _ \<Rightarrow> (rpc_error PNone (- 32600) ''invalid request: expected one JSON-RPC object'' 400, hb, jp, []))"

definition session_of :: "http_request \<Rightarrow> hub \<Rightarrow> (string \<times> http_session) option" where
  "session_of rq hb =
     (case rq_session rq of
        None \<Rightarrow> None
      | Some sid \<Rightarrow> if sid = [] then None else map_option (Pair sid) (hub_get sid hb))"

definition handle_get :: "'k idp \<Rightarrow> http_request \<Rightarrow> hub \<Rightarrow> 'k jwks_provider \<Rightarrow> answer \<times> 'k jwks_provider" where
  "handle_get p rq hb jp =
     (case http_authenticate p (hb_resolver hb) (rq_authorization rq) PNone jp of
        (Inl a, jp') \<Rightarrow> (a, jp')
      | (Inr who, jp') \<Rightarrow>
          (case session_of rq hb of
             None \<Rightarrow> (rpc_error PNone (- 32001) ''unknown or expired session'' 404, jp')
           | Some (sid, s) \<Rightarrow>
               (case enforce_session_owner s who PNone of Some a \<Rightarrow> (a, jp') | None \<Rightarrow> (EventStream sid, jp'))))"

text \<open>\<open>terminate\<close> unlists a session, then closes it; \<open>shutdown_all\<close> does so for every listed one.\<close>

definition unlist :: "string \<Rightarrow> hub \<Rightarrow> hub" where
  "unlist sid hb = hb\<lparr>hb_listed := removeAll sid (hb_listed hb)\<rparr>"

definition terminate :: "pyval \<Rightarrow> string \<Rightarrow> hub \<Rightarrow> bool \<times> hub" where
  "terminate returncode sid hb =
     (case hub_get sid hb of
        None \<Rightarrow> (False, hb)
      | Some s \<Rightarrow> (case on_session sid s (session_close returncode) (unlist sid hb) of (r, hb', did) \<Rightarrow> (True, hb')))"

fun close_each :: "pyval \<Rightarrow> string list \<Rightarrow> hub \<Rightarrow> hub" where
  "close_each returncode [] hb = hb"
| "close_each returncode (sid # sids) hb =
     close_each returncode sids
       (case map_of (hb_objects hb) sid of
          None \<Rightarrow> hb
        | Some s \<Rightarrow> (case on_session sid s (session_close returncode) hb of (r, hb', did) \<Rightarrow> hb'))"

definition shutdown_all :: "pyval \<Rightarrow> hub \<Rightarrow> hub" where
  "shutdown_all returncode hb = close_each returncode (hb_listed hb) (hb\<lparr>hb_listed := []\<rparr>)"

definition handle_delete ::
  "'k idp \<Rightarrow> http_request \<Rightarrow> pyval \<Rightarrow> hub \<Rightarrow> 'k jwks_provider \<Rightarrow> answer \<times> hub \<times> 'k jwks_provider" where
  "handle_delete p rq returncode hb jp =
     (case http_authenticate p (hb_resolver hb) (rq_authorization rq) PNone jp of
        (Inl a, jp') \<Rightarrow> (a, hb, jp')
      | (Inr who, jp') \<Rightarrow>
          (case session_of rq hb of
             None \<Rightarrow> (EmptyAnswer 404, hb, jp')
           | Some (sid, s) \<Rightarrow>
               (case enforce_session_owner s who PNone of
                  Some a \<Rightarrow> (a, hb, jp')
                | None \<Rightarrow> (EmptyAnswer 204, snd (terminate returncode sid hb), jp'))))"

text \<open>The reply of a POST whose wait has ended: the line, parsed again.\<close>

definition json_line_answer :: "pylib \<Rightarrow> string res \<Rightarrow> pyval res" where
  "json_line_answer lib body = ebind body (json_loads lib)"

end
