(* ===== verification/Http_Sessions.thy ===== *)
theory Http_Sessions
  imports Streamable_Http
begin

text \<open>
  Runs of a hub and what they guarantee: every line an upstream received was sent by the
  session's own gateway for a request of the principal that opened the session, and everything
  a client got, in a reply or on its event stream, is what that gateway sent to it.
\<close>

section \<open>Steps and runs\<close>

definition fresh_draw :: "draw \<Rightarrow> hub \<Rightarrow> bool" where
  "fresh_draw d hb \<longleftrightarrow>
     map_of (hb_objects hb) (dr_uid d) = None \<and>
     (\<forall>sid s. map_of (hb_objects hb) sid = Some s \<longrightarrow>
        map_of (hs_futures s) (dr_ticket d) = None \<and> map_of (hs_waiters s) (dr_ticket d) = None \<and>
        (\<forall>k. map_of (hs_pending s) k \<noteq> Some (dr_ticket d)))"

definition put_object :: "string \<Rightarrow> http_session \<Rightarrow> hub \<Rightarrow> hub" where
  "put_object sid s hb = hb\<lparr>hb_objects := AList.update sid s (hb_objects hb)\<rparr>"

inductive hub_step ::
  "'k idp \<Rightarrow> hub \<Rightarrow> 'k jwks_provider \<Rightarrow> hub_event list \<Rightarrow> hub \<Rightarrow> 'k jwks_provider \<Rightarrow> bool" for p where
  post: "handle_post p rq d hb jp = (a, hb', jp', evs) \<Longrightarrow> fresh_draw d hb \<Longrightarrow> hub_step p hb jp evs hb' jp'"
| get: "handle_get p rq hb jp = (a, jp') \<Longrightarrow> hub_step p hb jp [] hb jp'"
| delete: "handle_delete p rq returncode hb jp = (a, hb', jp') \<Longrightarrow> hub_step p hb jp [] hb' jp'"
| arrive: "map_of (hb_objects hb) sid = Some s \<Longrightarrow>
    on_session sid s (feed (on_upstream_line line)) hb = (r, hb', did) \<Longrightarrow> hub_step p hb jp [Arrived sid line did] hb' jp"
| upstream_exit: "map_of (hb_objects hb) sid = Some s \<Longrightarrow>
    on_session sid s (session_upstream_exit returncode still_running) hb = (r, hb', did) \<Longrightarrow> hub_step p hb jp [] hb' jp"
| reply: "map_of (hb_objects hb) sid = Some s \<Longrightarrow> map_of (hs_waiters s) t = Some i \<Longrightarrow>
    end_request timed_out t s = Some (Inr body, s') \<Longrightarrow> hub_step p hb jp [Replied sid i body] (put_object sid s' hb) jp"
| cancelled: "map_of (hb_objects hb) sid = Some s \<Longrightarrow>
    end_request timed_out t s = Some (Inl e, s') \<Longrightarrow> hub_step p hb jp [] (put_object sid s' hb) jp"
| frame: "map_of (hb_objects hb) sid = Some s \<Longrightarrow> \<not> hs_closed s \<Longrightarrow> hs_sse s = l # ls \<Longrightarrow>
    sse_turn s = (fr, s') \<Longrightarrow> hub_step p hb jp [Framed sid l] (put_object sid s' hb) jp"
| shutdown: "hub_step p hb jp [] (shutdown_all returncode hb) jp"

inductive hub_run ::
  "'k idp \<Rightarrow> hub \<Rightarrow> 'k jwks_provider \<Rightarrow> hub_event list \<Rightarrow> hub \<Rightarrow> 'k jwks_provider \<Rightarrow> bool" for p hb0 jp0 where
  idle: "hub_run p hb0 jp0 [] hb0 jp0"
| next_step: "hub_run p hb0 jp0 tr hb jp \<Longrightarrow> hub_step p hb jp evs hb' jp' \<Longrightarrow> hub_run p hb0 jp0 (tr @ evs) hb' jp'"

section \<open>What feeding a gateway does to its session\<close>

text \<open>A line that answers a key: a response with an id equal to it.\<close>

definition answers :: "pylib \<Rightarrow> string \<Rightarrow> pykey \<Rightarrow> bool" where
  "answers lib line k \<longleftrightarrow> (\<exists>raw. decode_line lib line = Inr (Some raw) \<and> is_response raw \<and> py_key (msg_id raw) = Some k)"

definition moved :: "http_session \<Rightarrow> http_session \<Rightarrow> effect list \<Rightarrow> bool" where
  "moved s s' did \<longleftrightarrow>
     hs_id s' = hs_id s \<and> hs_waiters s' = hs_waiters s \<and> hs_sent s' = hs_sent s @ upstream_lines did \<and>
     set (hs_sse s') \<subseteq> set (hs_sse s) \<union> set (client_lines did) \<and>
     (\<forall>k t. map_of (hs_pending s') k = Some t \<longrightarrow> map_of (hs_pending s) k = Some t) \<and>
     (\<forall>t l. map_of (hs_futures s') t = Some (Fulfilled l) \<longrightarrow>
        map_of (hs_futures s) t = Some (Fulfilled l) \<or>
        l \<in> set (client_lines did) \<and> (\<exists>k. map_of (hs_pending s) k = Some t \<and> answers (hs_lib s) l k))"

lemma movedI:
  assumes "hs_id s' = hs_id s" and "hs_waiters s' = hs_waiters s" and "hs_sent s' = hs_sent s @ upstream_lines did"
    and "set (hs_sse s') \<subseteq> set (hs_sse s) \<union> set (client_lines did)"
    and "\<And>k t. map_of (hs_pending s') k = Some t \<Longrightarrow> map_of (hs_pending s) k = Some t"
    and "\<And>t l. map_of (hs_futures s') t = Some (Fulfilled l) \<Longrightarrow> map_of (hs_futures s) t = Some (Fulfilled l) \<or>
        l \<in> set (client_lines did) \<and> (\<exists>k. map_of (hs_pending s) k = Some t \<and> answers (hs_lib s) l k)"
  shows "moved s s' did"
  using assms unfolding moved_def by blast

lemma moved_refl [simp]: "moved s s []"
  by (simp add: moved_def)

lemma moved_trans:
  assumes "moved s s' a" and "moved s' s'' b" and "hs_lib s' = hs_lib s"
  shows "moved s s'' (a @ b)"
proof (rule movedI)
  fix k t assume "map_of (hs_pending s'') k = Some t"
  then show "map_of (hs_pending s) k = Some t" using assms(1,2) unfolding moved_def by blast
next
  fix t l assume "map_of (hs_futures s'') t = Some (Fulfilled l)"
  then have "map_of (hs_futures s') t = Some (Fulfilled l) \<or>
      l \<in> set (client_lines b) \<and> (\<exists>k. map_of (hs_pending s') k = Some t \<and> answers (hs_lib s') l k)"
    using assms(2) unfolding moved_def by blast
  then show "map_of (hs_futures s) t = Some (Fulfilled l) \<or>
      l \<in> set (client_lines (a @ b)) \<and> (\<exists>k. map_of (hs_pending s) k = Some t \<and> answers (hs_lib s) l k)"
  proof
    assume "map_of (hs_futures s') t = Some (Fulfilled l)"
    then have "map_of (hs_futures s) t = Some (Fulfilled l) \<or>
      l \<in> set (client_lines a) \<and> (\<exists>k. map_of (hs_pending s) k = Some t \<and> answers (hs_lib s) l k)"
      using assms(1) unfolding moved_def by blast
    then show ?thesis by auto
  next
    assume "l \<in> set (client_lines b) \<and> (\<exists>k. map_of (hs_pending s') k = Some t \<and> answers (hs_lib s') l k)"
    then show ?thesis using assms(1,3) unfolding moved_def by auto
  qed
qed (use assms in \<open>auto simp: moved_def\<close>)

lemma map_of_fulfil:
  "map_of (fulfil t line fs) u = Some (Fulfilled l) \<Longrightarrow> map_of fs u = Some (Fulfilled l) \<or> u = t \<and> l = line"
  by (auto simp: fulfil_def update_conv' split: if_splits)

lemma send_client_moved:
  assumes "session_send_client line s = (None, s')"
  shows "moved s s' [ToClient line] \<and> hs_gateway s' = hs_gateway s"
proof -
  from assms consider
      "s' = s\<lparr>hs_sse := hs_sse s @ [line]\<rparr>"
    | raw k t where "decode_line (hs_lib s) line = Inr (Some raw)" "is_response raw" "py_key (msg_id raw) = Some k"
        "map_of (hs_pending s) k = Some t"
        "s' = s\<lparr>hs_pending := AList.delete k (hs_pending s), hs_futures := fulfil t line (hs_futures s)\<rparr>"
    by (auto simp: session_send_client_def Let_def split: sum.splits option.splits if_splits)
  then show ?thesis
  proof cases
    case 1
    then show ?thesis by (simp add: moved_def)
  next
    case 2
    then have a: "answers (hs_lib s) line k" unfolding answers_def by blast
    have "moved s s' [ToClient line]"
    proof (rule movedI)
      fix u l assume "map_of (hs_futures s') u = Some (Fulfilled l)"
      with 2 have "map_of (hs_futures s) u = Some (Fulfilled l) \<or> u = t \<and> l = line" by (simp add: map_of_fulfil)
      with a 2(4) show "map_of (hs_futures s) u = Some (Fulfilled l) \<or> l \<in> set (client_lines [ToClient line]) \<and>
        (\<exists>k. map_of (hs_pending s) k = Some u \<and> answers (hs_lib s) l k)" by auto
    qed (auto simp: 2 delete_conv' split: if_splits)
    with 2 show ?thesis by simp
  qed
qed

lemma perform1_moved:
  assumes "perform1 ef s = (None, s')"
  shows "moved s s' [ef] \<and> hs_gateway s' = hs_gateway s"
  using assms send_client_moved
  by (cases ef) (auto simp: perform1_def upstream_send_def moved_def split: if_splits)

lemma perform1_raises: "perform1 ef s = (Some e, s') \<Longrightarrow> s' = s"
  by (auto simp: perform1_def upstream_send_def session_send_client_def Let_def
      split: effect.splits if_splits sum.splits option.splits)

lemma perform_moved:
  "perform es s = (r, s', did) \<Longrightarrow> moved s s' did \<and> hs_gateway s' = hs_gateway s \<and> prefix did es \<and> (r = None \<longrightarrow> did = es)"
proof (induction es arbitrary: s r s' did)
  case (Cons ef es)
  obtain r1 s1 where p1: "perform1 ef s = (r1, s1)" by fastforce
  show ?case
  proof (cases r1)
    case None
    obtain r2 s2 d2 where p2: "perform es s1 = (r2, s2, d2)" by (cases "perform es s1")
    with Cons.prems p1 None have eq: "r = r2" "s' = s2" "did = ef # d2" by simp_all
    from perform1_moved p1 None have m1: "moved s s1 [ef]" "hs_gateway s1 = hs_gateway s" by blast+
    from Cons.IH [OF p2] have m2: "moved s1 s2 d2" "hs_gateway s2 = hs_gateway s1" "prefix d2 es" "r2 = None \<longrightarrow> d2 = es" by simp_all
    have "moved s s2 ([ef] @ d2)" using m1(1) m2(1) by (rule moved_trans) (simp add: m1)
    with m1 m2 eq show ?thesis by simp
  next
    case (Some e)
    with p1 have "s1 = s" by (simp add: perform1_raises)
    with Cons.prems p1 Some show ?thesis by auto
  qed
qed simp

text \<open>Handlers that keep the gateway's state in order.\<close>

lemma evolves_shared [simp]:
  "evolves g (h\<lparr>g_anomaly := m\<rparr>) = evolves g h" "evolves (g\<lparr>g_anomaly := m\<rparr>) h = evolves g h"
  "evolves g (h\<lparr>g_world := w\<rparr>) = evolves g h" "evolves (g\<lparr>g_world := w\<rparr>) h = evolves g h"
  by (simp_all add: evolves_def static_def)

lemma standard_shared [simp]:
  "standard (g\<lparr>g_anomaly := m\<rparr>) pe hs = standard g pe hs" "standard (g\<lparr>g_world := w\<rparr>) pe hs = standard g pe hs"
  by (simp_all add: standard_def)

definition steady :: "gact \<Rightarrow> bool" where
  "steady a \<longleftrightarrow> (\<forall>g pe hs. standard g pe hs \<longrightarrow> evolves g (after a g))"

lemma steady_lines: "steady (on_client_line line)" "steady (on_upstream_line line)"
  using handle_input_facts [of _ _ _ "ClientLine line"] handle_input_facts [of _ _ _ "UpstreamLine line"]
  by (simp_all add: steady_def handle_input_def)

lemma steady_lifecycle: "steady (on_upstream_exit rc)" "steady (gseq (on_upstream_exit rc) on_stop)"
  by (simp_all add: steady_def on_upstream_exit_def on_stop_def ev.R_refl)

lemma halted_evolves:
  assumes "steady a" and "standard g pe hs"
  shows "evolves g (halted a g)"
proof -
  have "standard (g\<lparr>g_anomaly := None\<rparr>) pe hs" using assms(2) by simp
  with assms(1) have "evolves (g\<lparr>g_anomaly := None\<rparr>) (after a (g\<lparr>g_anomaly := None\<rparr>))" unfolding steady_def by blast
  then show ?thesis by (simp add: halted_def)
qed

lemma feed_facts:
  assumes "feed a s = (r, s', did)" and "steady a" and "standard (hs_gateway s) pe hs"
  shows "moved s s' did" and "evolves (hs_gateway s) (hs_gateway s')" and "prefix did (effects a (hs_gateway s))"
proof -
  obtain r1 g es where a: "a (hs_gateway s) = (r1, g, es)" by (cases "a (hs_gateway s)")
  obtain r2 s2 did2 where p: "perform es s = (r2, s2, did2)" by (cases "perform es s")
  define g2 where "g2 = (if r2 = None then g else halted a (hs_gateway s))"
  from assms(1) a p have s': "s' = s2\<lparr>hs_gateway := g2\<rparr>" "did = did2" by (auto simp: feed_def g2_def split: option.splits)
  from perform_moved [OF p] have m: "moved s s2 did" "prefix did es" using s' by simp_all
  from m(1) show "moved s s' did" by (simp add: moved_def s')
  have "evolves (hs_gateway s) g" using a assms(2,3) unfolding steady_def after_def by (metis fst_conv snd_conv)
  with halted_evolves [OF assms(2,3)] show "evolves (hs_gateway s) (hs_gateway s')" by (simp add: s' g2_def)
  show "prefix did (effects a (hs_gateway s))" using a m(2) by (simp add: effects_def)
qed

section \<open>The invariant of a session\<close>

text \<open>The principal a session acts for, and the lines its gateway is known to have sent to the client.\<close>

definition acts_for :: "session_parts \<Rightarrow> principal option \<Rightarrow> principal" where
  "acts_for sp who = (case who of None \<Rightarrow> sp_principal sp | Some p \<Rightarrow> p)"

definition to_client :: "hub_event list \<Rightarrow> string \<Rightarrow> string \<Rightarrow> bool" where
  "to_client tr sid l \<longleftrightarrow>
     (\<exists>rq who raw did. Delivered sid rq who raw did \<in> set tr \<and> l \<in> set (client_lines did)) \<or>
     (\<exists>line did. Arrived sid line did \<in> set tr \<and> l \<in> set (client_lines did))"

definition to_upstream :: "hub_event list \<Rightarrow> string \<Rightarrow> string \<Rightarrow> bool" where
  "to_upstream tr sid l \<longleftrightarrow> (\<exists>rq who raw did. Delivered sid rq who raw did \<in> set tr \<and> l \<in> set (upstream_lines did))"

lemma sent_mono:
  "to_client tr sid l \<Longrightarrow> to_client (tr @ evs) sid l" "to_upstream tr sid l \<Longrightarrow> to_upstream (tr @ evs) sid l"
  unfolding to_client_def to_upstream_def set_append by blast+

definition parts_handlers :: "session_parts \<Rightarrow> handlers" where
  "parts_handlers sp = build_action_handlers (sp_redaction sp) (sp_broker sp)"

abbreviation sp_lib :: "session_parts \<Rightarrow> pylib" where "sp_lib sp \<equiv> e_lib (sp_env sp)"

text \<open>The gateway of a session: built from the parts, acting for the principal that opened the session.\<close>

definition gateway_of :: "session_parts \<Rightarrow> principal option \<Rightarrow> gateway \<Rightarrow> bool" where
  "gateway_of sp who g \<longleftrightarrow>
     standard g (sp_engine sp) (parts_handlers sp) \<and> g_env g = sp_env sp \<and> g_principal g = acts_for sp who"

lemma gateway_of_evolves: "gateway_of sp who g \<Longrightarrow> evolves g h \<Longrightarrow> gateway_of sp who h"
  using standard_evolves unfolding gateway_of_def evolves_def static_def by (metis Pair_inject)

lemma gateway_of_shared [simp]:
  "gateway_of sp who (g\<lparr>g_anomaly := m\<rparr>) = gateway_of sp who g" "gateway_of sp who (g\<lparr>g_world := w\<rparr>) = gateway_of sp who g"
  by (simp_all add: gateway_of_def)

definition mail_ok :: "pylib \<Rightarrow> hub_event list \<Rightarrow> string \<Rightarrow> http_session \<Rightarrow> bool" where
  "mail_ok lib tr sid s \<longleftrightarrow>
     (\<forall>l \<in> set (hs_sent s). to_upstream tr sid l) \<and> (\<forall>l \<in> set (hs_sse s). to_client tr sid l) \<and>
     (\<forall>t l. map_of (hs_futures s) t = Some (Fulfilled l) \<longrightarrow>
        to_client tr sid l \<and> (\<forall>i. map_of (hs_waiters s) t = Some i \<longrightarrow> (\<exists>k. py_key i = Some k \<and> answers lib l k))) \<and>
     (\<forall>k t i. map_of (hs_pending s) k = Some t \<longrightarrow> map_of (hs_waiters s) t = Some i \<longrightarrow> py_key i = Some k)"

definition session_ok :: "session_parts \<Rightarrow> hub_event list \<Rightarrow> string \<Rightarrow> http_session \<Rightarrow> bool" where
  "session_ok sp tr sid s \<longleftrightarrow>
     hs_id s = sid \<and> mail_ok (sp_lib sp) tr sid s \<and>
     (\<exists>rq who. Opened sid rq who \<in> set tr \<and> gateway_of sp who (hs_gateway s))"

lemma mail_ok_mono: "mail_ok lib tr sid s \<Longrightarrow> mail_ok lib (tr @ evs) sid s"
  unfolding mail_ok_def using sent_mono by blast

lemma session_ok_mono: "session_ok sp tr sid s \<Longrightarrow> session_ok sp (tr @ evs) sid s"
  unfolding session_ok_def by (auto intro: mail_ok_mono)

text \<open>The lines of a step are accounted for by the event of the step.\<close>

definition accounts :: "hub_event list \<Rightarrow> string \<Rightarrow> effect list \<Rightarrow> bool" where
  "accounts tr sid did \<longleftrightarrow>
     (\<forall>l \<in> set (upstream_lines did). to_upstream tr sid l) \<and> (\<forall>l \<in> set (client_lines did). to_client tr sid l)"

lemma accounts_event:
  "accounts (tr @ [Delivered sid rq who raw did]) sid did"
  "upstream_lines did = [] \<Longrightarrow> accounts (tr @ [Arrived sid line did]) sid did"
  "upstream_lines did = [] \<Longrightarrow> client_lines did = [] \<Longrightarrow> accounts tr sid did"
  unfolding accounts_def to_upstream_def to_client_def by auto

lemma mail_ok_moved:
  assumes ok: "mail_ok (hs_lib s) tr sid s" and m: "moved s s' did" and acc: "accounts (tr @ evs) sid did"
  shows "mail_ok (hs_lib s) (tr @ evs) sid s'"
proof -
  have w: "hs_waiters s' = hs_waiters s" and pend: "map_of (hs_pending s') k = Some t \<Longrightarrow> map_of (hs_pending s) k = Some t" for k t
    using m unfolding moved_def by blast+
  have key: "map_of (hs_pending s) k = Some t \<Longrightarrow> map_of (hs_waiters s) t = Some i \<Longrightarrow> py_key i = Some k" for k t i
    using ok unfolding mail_ok_def by blast
  have fut: "to_client (tr @ evs) sid l \<and> (\<forall>i. map_of (hs_waiters s) t = Some i \<longrightarrow> (\<exists>k. py_key i = Some k \<and> answers (hs_lib s) l k))"
    if "map_of (hs_futures s') t = Some (Fulfilled l)" for t l
  proof -
    from m that consider "map_of (hs_futures s) t = Some (Fulfilled l)"
      | k where "l \<in> set (client_lines did)" "map_of (hs_pending s) k = Some t" "answers (hs_lib s) l k"
      unfolding moved_def by blast
    then show ?thesis
    proof cases
      case 1
      then have "to_client tr sid l" using ok unfolding mail_ok_def by blast
      with 1 ok show ?thesis using sent_mono(1) unfolding mail_ok_def by blast
    next
      case 2
      then have "to_client (tr @ evs) sid l" using acc unfolding accounts_def by blast
      with 2 key show ?thesis by blast
    qed
  qed
  have sent: "to_upstream (tr @ evs) sid l" if "l \<in> set (hs_sent s')" for l
    using that m ok acc sent_mono(2) unfolding moved_def mail_ok_def accounts_def by auto
  have sse: "to_client (tr @ evs) sid l" if "l \<in> set (hs_sse s')" for l
    using that m ok acc sent_mono(1) unfolding moved_def mail_ok_def accounts_def by auto
  show ?thesis unfolding mail_ok_def w using fut sent sse pend key by simp
qed

lemma session_ok_feed:
  assumes ok: "session_ok sp tr sid s" and f: "feed a s = (r, s', did)" and "steady a" and acc: "accounts (tr @ evs) sid did"
  shows "session_ok sp (tr @ evs) sid s'"
proof -
  obtain rq who where o: "Opened sid rq who \<in> set tr" "gateway_of sp who (hs_gateway s)" and i: "hs_id s = sid"
    and mail: "mail_ok (sp_lib sp) tr sid s" using ok unfolding session_ok_def by blast
  have std: "standard (hs_gateway s) (sp_engine sp) (parts_handlers sp)" and lib: "sp_lib sp = hs_lib s"
    using o(2) by (simp_all add: gateway_of_def)
  note ff = feed_facts [OF f \<open>steady a\<close> std]
  have "mail_ok (sp_lib sp) (tr @ evs) sid s'" using mail_ok_moved [OF _ ff(1) acc] mail lib by simp
  moreover have "gateway_of sp who (hs_gateway s')" using o(2) ff(2) by (rule gateway_of_evolves)
  moreover have "hs_id s' = sid" using ff(1) i by (simp add: moved_def)
  ultimately show ?thesis using o(1) unfolding session_ok_def by auto
qed

text \<open>Changes of the client side that need no gateway.\<close>

lemma session_ok_attach: "session_ok sp tr sid s \<Longrightarrow> session_ok sp tr sid (attach hb s)"
  by (auto simp: session_ok_def mail_ok_def attach_def)

lemma session_ok_register:
  assumes "session_ok sp tr sid s" and "map_of (hs_futures s) t = None" and "\<And>k. map_of (hs_pending s) k \<noteq> Some t"
    and "map_of (hs_waiters s) t = None" and "py_key i = Some k"
  shows "session_ok sp tr sid (register t k i s)"
proof -
  have "mail_ok (sp_lib sp) tr sid (register t k i s)"
    using assms unfolding session_ok_def mail_ok_def register_def by (simp add: update_conv')
  with assms(1) show ?thesis unfolding session_ok_def register_def by simp
qed

lemma session_ok_drop:
  assumes "session_ok sp tr sid s"
  shows "session_ok sp tr sid (s\<lparr>hs_waiters := AList.delete t (hs_waiters s)\<rparr>)"
    and "session_ok sp tr sid (s\<lparr>hs_waiters := AList.delete t (hs_waiters s), hs_futures := AList.delete t (hs_futures s)\<rparr>)"
    and "session_ok sp tr sid (s\<lparr>hs_pending := forget_key v (hs_pending s)\<rparr>)"
  using assms by (auto simp: session_ok_def mail_ok_def forget_key_def delete_conv' split: if_splits option.splits)

lemma map_of_cancel_all:
  "map_of (cancel_all ts fs) t = map_option (\<lambda>f. if t \<in> set ts \<and> f = Waiting then Cancelled else f) (map_of fs t)"
proof (induction fs)
  case (Cons x fs)
  then show ?case unfolding cancel_all_def by (cases x) simp
qed (simp add: cancel_all_def)

lemma session_ok_closing:
  assumes "session_ok sp tr sid s"
  shows "session_ok sp tr sid (s\<lparr>hs_closed := c, hs_running := b\<rparr>)"
    and "session_ok sp tr sid (s\<lparr>hs_closed := c, hs_futures := cancel_all ts (hs_futures s), hs_pending := [], hs_running := b\<rparr>)"
  using assms by (auto simp: session_ok_def mail_ok_def map_of_cancel_all split: if_splits)

section \<open>The invariant of a hub\<close>

definition authed :: "'k idp \<Rightarrow> resolver option \<Rightarrow> http_request \<Rightarrow> principal option \<Rightarrow> bool" where
  "authed p ir rq who \<longleftrightarrow>
     (case ir of
        None \<Rightarrow> who = None
      | Some r \<Rightarrow> (\<exists>jp jp' pr. cache_ok p jp \<and> resolve p r (rq_authorization rq) jp = (Inr pr, jp') \<and> who = Some pr))"

text \<open>What each event of a run stands for.\<close>

fun event_ok :: "'k idp \<Rightarrow> resolver option \<Rightarrow> session_parts \<Rightarrow> hub_event list \<Rightarrow> hub_event \<Rightarrow> bool" where
  "event_ok p ir sp tr (Opened sid rq who) = authed p ir rq who"
| "event_ok p ir sp tr (Delivered sid rq who raw did) =
     (authed p ir rq who \<and> rq_body rq = Some (PDict raw) \<and>
      (\<exists>h rq0 who0. Opened sid rq0 who0 \<in> set tr \<and> gateway_of sp who0 h \<and>
         prefix did (effects (on_client_line (encode (sp_lib sp) raw)) h) \<and>
         (\<forall>pr. who = Some pr \<longrightarrow> pn_id pr = pn_id (g_principal h))))"
| "event_ok p ir sp tr (Arrived sid line did) =
     (\<exists>h rq0 who0. Opened sid rq0 who0 \<in> set tr \<and> gateway_of sp who0 h \<and> prefix did (effects (on_upstream_line line) h))"
| "event_ok p ir sp tr (Replied sid i body) =
     (body = timeout_line (sp_lib sp) i \<or> to_client tr sid body \<and> (\<exists>k. py_key i = Some k \<and> answers (sp_lib sp) body k))"
| "event_ok p ir sp tr (Framed sid l) = to_client tr sid l"

lemma event_ok_mono: "event_ok p ir sp tr e \<Longrightarrow> event_ok p ir sp (tr @ evs) e"
proof (cases e)
  case (Delivered sid rq who raw did)
  assume "event_ok p ir sp tr e"
  then show ?thesis unfolding Delivered event_ok.simps set_append by blast
next
  case (Arrived sid line did)
  assume "event_ok p ir sp tr e"
  then show ?thesis unfolding Arrived event_ok.simps set_append by blast
next
  case (Replied sid i body)
  assume "event_ok p ir sp tr e"
  then show ?thesis unfolding Replied event_ok.simps using sent_mono(1) by blast
next
  case (Framed sid l)
  assume "event_ok p ir sp tr e"
  then show ?thesis unfolding Framed event_ok.simps by (rule sent_mono(1))
qed simp

definition sessions_ok :: "hub_event list \<Rightarrow> hub \<Rightarrow> bool" where
  "sessions_ok tr hb \<longleftrightarrow> (\<forall>sid s. map_of (hb_objects hb) sid = Some s \<longrightarrow> session_ok (hb_parts hb) tr sid s)"

definition opened_once :: "hub_event list \<Rightarrow> hub \<Rightarrow> bool" where
  "opened_once tr hb \<longleftrightarrow>
     (\<forall>sid rq who. Opened sid rq who \<in> set tr \<longrightarrow> map_of (hb_objects hb) sid \<noteq> None) \<and>
     (\<forall>sid rq who rq' who'. Opened sid rq who \<in> set tr \<longrightarrow> Opened sid rq' who' \<in> set tr \<longrightarrow> rq = rq' \<and> who = who')"

definition hub_inv :: "'k idp \<Rightarrow> resolver option \<Rightarrow> session_parts \<Rightarrow> hub_event list \<Rightarrow> hub \<Rightarrow> 'k jwks_provider \<Rightarrow> bool" where
  "hub_inv p ir sp tr hb jp \<longleftrightarrow>
     hb_parts hb = sp \<and> hb_resolver hb = ir \<and> cache_ok p jp \<and> sessions_ok tr hb \<and> opened_once tr hb \<and>
     (\<forall>e \<in> set tr. event_ok p ir sp tr e)"

lemma sessions_ok_mono: "sessions_ok tr hb \<Longrightarrow> sessions_ok (tr @ evs) hb"
  unfolding sessions_ok_def using session_ok_mono by blast

lemma sessions_ok_put:
  assumes "sessions_ok tr hb" and "session_ok (hb_parts hb) tr sid s"
  shows "sessions_ok tr (put_object sid s hb)" and "sessions_ok tr (store_session sid s hb)"
  using assms unfolding sessions_ok_def put_object_def store_session_def by (simp_all add: update_conv')

text \<open>
  A step that touches one session: the new state of the session is in order, the events are,
  and no session is opened.
\<close>

definition no_opening :: "hub_event list \<Rightarrow> bool" where
  "no_opening evs \<longleftrightarrow> (\<forall>sid rq who. Opened sid rq who \<notin> set evs)"

lemma hub_inv_step:
  assumes inv: "hub_inv p ir sp tr hb jp" and "sessions_ok (tr @ evs) hb'" and "no_opening evs"
    and "\<And>sid. map_of (hb_objects hb) sid \<noteq> None \<Longrightarrow> map_of (hb_objects hb') sid \<noteq> None"
    and "hb_parts hb' = hb_parts hb" and "hb_resolver hb' = hb_resolver hb" and "cache_ok p jp'"
    and "\<And>e. e \<in> set evs \<Longrightarrow> event_ok p ir sp (tr @ evs) e"
  shows "hub_inv p ir sp (tr @ evs) hb' jp'"
proof -
  have op: "Opened sid rq who \<in> set (tr @ evs) \<longleftrightarrow> Opened sid rq who \<in> set tr" for sid rq who
    using assms(3) unfolding no_opening_def by auto
  have "opened_once (tr @ evs) hb'" using inv assms(4) unfolding hub_inv_def opened_once_def op by blast
  moreover have "event_ok p ir sp (tr @ evs) e" if "e \<in> set (tr @ evs)" for e
  proof (cases "e \<in> set evs")
    case False
    with that have "e \<in> set tr" by simp
    then have "event_ok p ir sp tr e" using inv unfolding hub_inv_def by blast
    then show ?thesis by (rule event_ok_mono)
  qed (rule assms(8))
  ultimately show ?thesis using assms(2,5-7) inv unfolding hub_inv_def by simp
qed

lemma put_keeps:
  "hb_parts (put_object sid s hb) = hb_parts hb" "hb_resolver (put_object sid s hb) = hb_resolver hb"
  "hb_parts (store_session sid s hb) = hb_parts hb" "hb_resolver (store_session sid s hb) = hb_resolver hb"
  "map_of (hb_objects hb) u \<noteq> None \<Longrightarrow> map_of (hb_objects (put_object sid s hb)) u \<noteq> None"
  "map_of (hb_objects hb) u \<noteq> None \<Longrightarrow> map_of (hb_objects (store_session sid s hb)) u \<noteq> None"
  by (auto simp: put_object_def store_session_def update_conv')

lemma hub_inv_put:
  assumes inv: "hub_inv p ir sp tr hb jp" and ok: "session_ok sp (tr @ evs) sid s" and "no_opening evs"
    and "\<And>e. e \<in> set evs \<Longrightarrow> event_ok p ir sp (tr @ evs) e"
  shows "hub_inv p ir sp (tr @ evs) (put_object sid s hb) jp" and "hub_inv p ir sp (tr @ evs) (store_session sid s hb) jp"
proof -
  have i: "hb_parts hb = sp" "cache_ok p jp" and so: "sessions_ok (tr @ evs) hb"
    using inv sessions_ok_mono unfolding hub_inv_def by blast+
  note put = sessions_ok_put [OF so, of sid s, unfolded i(1), OF ok]
  show "hub_inv p ir sp (tr @ evs) (put_object sid s hb) jp"
    using inv put(1) assms(3) by (rule hub_inv_step) (simp_all add: put_keeps i assms(4))
  show "hub_inv p ir sp (tr @ evs) (store_session sid s hb) jp"
    using inv put(2) assms(3) by (rule hub_inv_step) (simp_all add: put_keeps i assms(4))
qed

lemma hub_inv_session: "hub_inv p ir sp tr hb jp \<Longrightarrow> map_of (hb_objects hb) sid = Some s \<Longrightarrow> session_ok sp tr sid s"
  unfolding hub_inv_def sessions_ok_def by blast

lemma hub_inv_jwks: "hub_inv p ir sp tr hb jp \<Longrightarrow> cache_ok p jp' \<Longrightarrow> hub_inv p ir sp tr hb jp'"
  unfolding hub_inv_def by blast

lemma authenticate_sound:
  assumes "http_authenticate p ir (rq_authorization rq) i jp = (Inr who, jp')" and "cache_ok p jp"
  shows "authed p ir rq who"
proof (cases ir)
  case None
  with assms show ?thesis by (simp add: http_authenticate_def authed_def)
next
  case (Some r)
  with assms(1) obtain pr where "resolve p r (rq_authorization rq) jp = (Inr pr, jp')" "who = Some pr"
    by (auto simp: http_authenticate_def split: prod.splits sum.splits exn.splits)
  with Some assms(2) show ?thesis unfolding authed_def by auto
qed

lemma authenticate_cache:
  assumes "http_authenticate p ir authorization i jp = (x, jp')" and "cache_ok p jp"
  shows "cache_ok p jp'"
proof (cases ir)
  case (Some r)
  obtain y jp1 where r: "resolve p r authorization jp = (y, jp1)" by fastforce
  with assms(1) Some have "jp' = jp1" by (auto simp: http_authenticate_def split: sum.splits exn.splits)
  with resolve_cache [OF assms(2) r] show ?thesis by simp
qed (use assms in \<open>simp add: http_authenticate_def\<close>)

section \<open>Each step keeps the invariant\<close>

text \<open>A client message given to a session.\<close>

abbreviation delivered_to :: "hub_event list \<Rightarrow> string \<Rightarrow> http_request \<Rightarrow> principal option \<Rightarrow> message \<Rightarrow> effect list \<Rightarrow> hub_event list" where
  "delivered_to tr sid rq who raw did \<equiv> tr @ [Delivered sid rq who raw did]"

lemma client_feed_ok:
  assumes ok: "session_ok sp tr sid s" and f: "feed (on_client_line line) s = (r, s', did)"
  shows "session_ok sp (delivered_to tr sid rq who raw did) sid s'" and "prefix did (effects (on_client_line line) (hs_gateway s))"
proof -
  show "session_ok sp (delivered_to tr sid rq who raw did) sid s'"
    using ok f steady_lines(1) accounts_event(1) by (rule session_ok_feed)
  obtain who0 where "gateway_of sp who0 (hs_gateway s)" using ok unfolding session_ok_def by blast
  then show "prefix did (effects (on_client_line line) (hs_gateway s))"
    unfolding gateway_of_def using feed_facts(3) [OF f steady_lines(1)] by blast
qed

lemma session_ok_lib: "session_ok sp tr sid s \<Longrightarrow> hs_lib s = sp_lib sp"
  unfolding session_ok_def gateway_of_def by auto

lemma begin_request_ok:
  assumes ok: "session_ok sp tr sid s" and b: "begin_request t raw i s = (r, s', did)"
    and fresh: "map_of (hs_futures s) t = None" "map_of (hs_waiters s) t = None" "\<And>k. map_of (hs_pending s) k \<noteq> Some t"
  shows "session_ok sp (delivered_to tr sid rq who raw did) sid s' \<and>
    prefix did (effects (on_client_line (encode (sp_lib sp) raw)) (hs_gateway s))"
proof (cases "py_key i")
  case None
  with b ok show ?thesis by (auto simp: begin_request_def intro: session_ok_mono)
next
  case (Some k)
  have reg: "session_ok sp tr sid (register t k i s)" using ok fresh(1,3,2) Some by (rule session_ok_register)
  obtain r1 s1 where f: "feed (on_client_line (encode (sp_lib sp) raw)) (register t k i s) = (r1, s1, did)"
    and s': "s' = s1 \<or> s' = s1\<lparr>hs_waiters := AList.delete t (hs_waiters s1)\<rparr>"
    using b Some session_ok_lib [OF ok] by (auto simp: begin_request_def split: prod.splits option.splits)
  note cf = client_feed_ok [OF reg f]
  have "session_ok sp (delivered_to tr sid rq who raw did) sid s'" using s' cf(1) session_ok_drop(1) [OF cf(1)] by auto
  moreover have "hs_gateway (register t k i s) = hs_gateway s" by (simp add: register_def)
  ultimately show ?thesis using cf(2) by simp
qed

lemma deliver_inv:
  assumes inv: "hub_inv p ir sp tr hb jp" and s: "map_of (hb_objects hb) (hs_id s) = Some s"
    and fresh: "map_of (hs_futures s) (dr_ticket d) = None" "map_of (hs_waiters s) (dr_ticket d) = None"
      "\<And>k. map_of (hs_pending s) k \<noteq> Some (dr_ticket d)"
    and auth: "authed p ir rq who" and body: "rq_body rq = Some (PDict raw)"
    and owner: "\<And>pr. who = Some pr \<Longrightarrow> pn_id pr = pn_id (g_principal (hs_gateway s))"
    and d: "deliver rq d who raw msg minted s hb = (a, hb', evs)"
  shows "hub_inv p ir sp (tr @ evs) hb' jp \<and> (\<exists>did. evs = [Delivered (hs_id s) rq who raw did] \<and>
    prefix did (effects (on_client_line (encode (sp_lib sp) raw)) (hs_gateway (attach hb s))))"
proof -
  have ok: "session_ok sp tr (hs_id s) (attach hb s)" using hub_inv_session [OF inv s] by (rule session_ok_attach)
  have same: "hs_futures (attach hb s) = hs_futures s" "hs_waiters (attach hb s) = hs_waiters s"
    "hs_pending (attach hb s) = hs_pending s" by (simp_all add: attach_def)
  obtain r s' did where hb': "hb' = store_session (hs_id s) s' hb" and evs: "evs = [Delivered (hs_id s) rq who raw did]"
    and f: "begin_request (dr_ticket d) raw (msg_id msg) (attach hb s) = (r, s', did) \<or>
      feed (on_client_line (encode (sp_lib sp) raw)) (attach hb s) = (r, s', did)"
    using d session_ok_lib [OF ok]
    by (auto simp: deliver_def on_session_def handle_notification_def split: if_splits prod.splits option.splits)
  from f have both: "session_ok sp (tr @ evs) (hs_id s) s' \<and>
      prefix did (effects (on_client_line (encode (sp_lib sp) raw)) (hs_gateway (attach hb s)))"
  proof
    assume "begin_request (dr_ticket d) raw (msg_id msg) (attach hb s) = (r, s', did)"
    from begin_request_ok [OF ok this] show ?thesis using fresh unfolding same evs by blast
  next
    assume "feed (on_client_line (encode (sp_lib sp) raw)) (attach hb s) = (r, s', did)"
    from client_feed_ok [OF ok this] show ?thesis unfolding evs by blast
  qed
  obtain rq0 who0 where o: "Opened (hs_id s) rq0 who0 \<in> set tr" and g: "gateway_of sp who0 (hs_gateway (attach hb s))"
    using ok unfolding session_ok_def by blast
  have same_p: "g_principal (hs_gateway (attach hb s)) = g_principal (hs_gateway s)" by (simp add: attach_def)
  have own: "\<forall>pr. who = Some pr \<longrightarrow> pn_id pr = pn_id (g_principal (hs_gateway (attach hb s)))"
    unfolding same_p using owner by blast
  have o2: "Opened (hs_id s) rq0 who0 \<in> set (tr @ evs)" using o by simp
  have e: "event_ok p ir sp (tr @ evs) (Delivered (hs_id s) rq who raw did)"
    unfolding event_ok.simps using auth body o2 g own both by blast
  have "no_opening evs" by (simp add: evs no_opening_def)
  moreover have "event_ok p ir sp (tr @ evs) ev" if "ev \<in> set evs" for ev using that e by (simp add: evs)
  ultimately have "hub_inv p ir sp (tr @ evs) hb' jp" unfolding hb' using inv both by (intro hub_inv_put(2)) blast+
  with evs both show ?thesis by blast
qed

text \<open>Opening a session.\<close>

lemma session_gateway_standard:
  assumes "make_session_gateway sp s m w = Inr g"
  shows "gateway_of sp None g"
  using assms wf_handlers
  by (auto simp: make_session_gateway_def make_gateway_def default_pipeline_def make_pipeline_def default_stages_def
      gateway_of_def standard_def parts_handlers_def acts_for_def ebind_eq_Inr)

lemma after_on_start [simp]: "after (on_start cmd) g = g"
  by (simp add: on_start_def after_def gemit_def Let_def)

lemma create_session_Inr:
  assumes "create_session d who hb = Inr s"
  shows "hs_id s = dr_uid d" and "gateway_of (hb_parts hb) who (hs_gateway s)"
    and "hs_futures s = [] \<and> hs_waiters s = [] \<and> hs_pending s = [] \<and> hs_sent s = [] \<and> hs_sse s = []"
proof -
  obtain g0 where g0: "make_session_gateway (hb_parts hb) (dr_session d) (hb_monitor hb) (hb_world hb) = Inr g0"
    and s: "s = new_http_session (dr_uid d) (case who of None \<Rightarrow> g0 | Some p \<Rightarrow> g0\<lparr>g_principal := p\<rparr>)"
    using assms by (auto simp: create_session_def ebind_eq_Inr Let_def split: option.splits)
  from session_gateway_standard [OF g0] have "gateway_of (hb_parts hb) None g0" .
  then show "gateway_of (hb_parts hb) who (hs_gateway s)"
    by (auto simp: s new_http_session_def gateway_of_def standard_def acts_for_def split: option.splits)
  show "hs_id s = dr_uid d"
    "hs_futures s = [] \<and> hs_waiters s = [] \<and> hs_pending s = [] \<and> hs_sent s = [] \<and> hs_sse s = []"
    by (simp_all add: s new_http_session_def)
qed

lemma open_inv:
  assumes inv: "hub_inv p ir sp tr hb jp" and c: "create_session d who hb = Inr s"
    and new: "map_of (hb_objects hb) (dr_uid d) = None" and auth: "authed p ir rq who"
  shows "hub_inv p ir sp (tr @ [Opened (hs_id s) rq who]) (list_session s hb) jp"
proof -
  let ?tr = "tr @ [Opened (hs_id s) rq who]"
  note cs = create_session_Inr [OF c]
  have parts: "hb_parts hb = sp" "hb_resolver hb = ir" "cache_ok p jp" "sessions_ok ?tr hb" "opened_once tr hb"
    and old: "\<forall>e \<in> set tr. event_ok p ir sp tr e"
    using inv sessions_ok_mono unfolding hub_inv_def by blast+
  have "mail_ok (sp_lib sp) ?tr (hs_id s) s" using cs(3) by (simp add: mail_ok_def)
  with cs(2) parts(1) have "session_ok (hb_parts hb) ?tr (hs_id s) s" unfolding session_ok_def by auto
  from sessions_ok_put(2) [OF parts(4) this] have "sessions_ok ?tr (list_session s hb)"
    unfolding sessions_ok_def list_session_def by simp
  moreover have "Opened (hs_id s) rq' who' \<notin> set tr" for rq' who'
    using parts(5) new cs(1) unfolding opened_once_def by metis
  then have "opened_once ?tr (list_session s hb)"
    using parts(5) unfolding opened_once_def list_session_def store_session_def by (auto simp: update_conv')
  moreover have "event_ok p ir sp ?tr e" if "e \<in> set ?tr" for e
  proof (cases "e \<in> set tr")
    case True
    with old event_ok_mono show ?thesis by blast
  next
    case False
    with that auth show ?thesis by simp
  qed
  ultimately show ?thesis using parts unfolding hub_inv_def by (simp add: list_session_def store_session_def)
qed

lemma owner_passes:
  "enforce_session_owner s who i = None \<Longrightarrow> who = Some pr \<Longrightarrow> pn_id pr = pn_id (g_principal (hs_gateway s))"
  by (auto simp: enforce_session_owner_def split: if_splits)

lemma hub_get_Some: "hub_get sid hb = Some s \<Longrightarrow> map_of (hb_objects hb) sid = Some s"
  by (auto simp: hub_get_def split: if_splits)

text \<open>
  The gateway that handles a message given to the session \<open>sid\<close>: the one the session has in the
  hub, with the hub's shared monitor and world, or, for a session the request opens, the one
  \<open>create\<close> has just built.
\<close>

definition serves :: "draw \<Rightarrow> principal option \<Rightarrow> hub \<Rightarrow> string \<Rightarrow> gateway \<Rightarrow> bool" where
  "serves d who hb sid h \<longleftrightarrow>
     (case map_of (hb_objects hb) sid of
        Some s \<Rightarrow> h = hs_gateway (attach hb s)
      | None \<Rightarrow> \<exists>s. create_session d who hb = Inr s \<and> hs_id s = sid \<and> h = hs_gateway s)"

definition handled :: "session_parts \<Rightarrow> draw \<Rightarrow> http_request \<Rightarrow> hub \<Rightarrow> hub_event \<Rightarrow> bool" where
  "handled sp d rq hb e \<longleftrightarrow>
     (\<forall>sid rq' who raw did. e = Delivered sid rq' who raw did \<longrightarrow> rq' = rq \<and> rq_body rq = Some (PDict raw) \<and>
        (\<exists>h. serves d who hb sid h \<and> prefix did (effects (on_client_line (encode (sp_lib sp) raw)) h))) \<and>
     (\<forall>sid line did. e \<noteq> Arrived sid line did)"

lemma attach_listed [simp]: "attach (list_session s hb) s = s"
  by (simp add: attach_def list_session_def store_session_def)

lemma route_post_inv:
  assumes inv: "hub_inv p ir sp tr hb jp" and fresh: "fresh_draw d hb" and auth: "authed p ir rq who"
    and body: "rq_body rq = Some (PDict raw)" and rp: "route_post rq d who raw msg hb = (a, hb', evs)"
  shows "hub_inv p ir sp (tr @ evs) hb' jp \<and> (\<forall>e \<in> set evs. handled sp d rq hb e)"
proof -
  from rp consider (quiet) "hb' = hb" "evs = []"
    | (minted) s evs1 where "create_session d who hb = Inr s" "deliver rq d who raw msg True s (list_session s hb) = (a, hb', evs1)"
        "evs = Opened (hs_id s) rq who # evs1"
    | (known) sid s where "hub_get sid hb = Some s" "enforce_session_owner s who (msg_id msg) = None"
        "deliver rq d who raw msg False s hb = (a, hb', evs)"
    unfolding route_post_def by (auto split: option.splits if_splits sum.splits prod.splits)
  then show ?thesis
  proof cases
    case quiet
    with inv show ?thesis by simp
  next
    case minted
    note cs = create_session_Inr [OF minted(1)]
    have new: "map_of (hb_objects hb) (dr_uid d) = None" using fresh by (simp add: fresh_draw_def)
    have stored: "map_of (hb_objects (list_session s hb)) (hs_id s) = Some s"
      by (simp add: list_session_def store_session_def update_conv')
    have own: "pn_id pr = pn_id (g_principal (hs_gateway s))" if "who = Some pr" for pr
      using cs(2) that by (simp add: gateway_of_def acts_for_def)
    have both: "hub_inv p ir sp ((tr @ [Opened (hs_id s) rq who]) @ evs1) hb' jp \<and>
        (\<exists>did. evs1 = [Delivered (hs_id s) rq who raw did] \<and>
          prefix did (effects (on_client_line (encode (sp_lib sp) raw)) (hs_gateway (attach (list_session s hb) s))))"
      using open_inv [OF inv minted(1) new auth] stored _ _ _ auth body own minted(2)
      by (rule deliver_inv) (simp_all add: cs(3))
    have "serves d who hb (hs_id s) (hs_gateway s)" using minted(1) new cs(1) by (simp add: serves_def)
    with both minted(3) body show ?thesis by (auto simp: handled_def)
  next
    case known
    from hub_get_Some [OF known(1)] have st: "map_of (hb_objects hb) sid = Some s" .
    with hub_inv_session [OF inv st] have sid: "map_of (hb_objects hb) (hs_id s) = Some s" by (simp add: session_ok_def)
    have f: "map_of (hs_futures s) (dr_ticket d) = None" "map_of (hs_waiters s) (dr_ticket d) = None"
      "map_of (hs_pending s) k \<noteq> Some (dr_ticket d)" for k
      using fresh st unfolding fresh_draw_def by blast+
    have "serves d who hb (hs_id s) (hs_gateway (attach hb s))" using sid by (simp add: serves_def)
    with deliver_inv [OF inv sid f auth body owner_passes [OF known(2)] known(3)] body show ?thesis
      by (auto simp: handled_def)
  qed
qed

lemma handle_post_inv:
  assumes inv: "hub_inv p ir sp tr hb jp" and "fresh_draw d hb" and hp: "handle_post p rq d hb jp = (a, hb', jp', evs)"
  shows "hub_inv p ir sp (tr @ evs) hb' jp' \<and> (\<forall>e \<in> set evs. handled sp d rq hb e)"
proof -
  have ir: "hb_resolver hb = ir" "cache_ok p jp" using inv by (simp_all add: hub_inv_def)
  have quiet: ?thesis if "hb' = hb" "evs = []" "cache_ok p jp'" using inv hub_inv_jwks that by simp
  show ?thesis
  proof (cases "\<exists>raw. rq_body rq = Some (PDict raw)")
    case False
    with hp have "hb' = hb" "evs = []" "jp' = jp" by (auto simp: handle_post_def split: option.splits pyval.splits)
    with ir(2) show ?thesis by (intro quiet) simp_all
  next
    case True
    then obtain raw where raw: "rq_body rq = Some (PDict raw)" by blast
    let ?lib = "e_lib (sp_env (hb_parts hb))"
    show ?thesis
    proof (cases "\<exists>msg. decode_line ?lib (encode ?lib raw) = Inr (Some msg)")
      case False
      with hp raw have "hb' = hb" "evs = []" "jp' = jp" by (auto simp: handle_post_def Let_def split: sum.splits option.splits)
      with ir(2) show ?thesis by (intro quiet) simp_all
    next
      case True
      then obtain msg where msg: "decode_line ?lib (encode ?lib raw) = Inr (Some msg)" by blast
      obtain x jp1 where x: "http_authenticate p ir (rq_authorization rq) (msg_id msg) jp = (x, jp1)" by fastforce
      note cache = authenticate_cache [OF x ir(2)]
      show ?thesis
      proof (cases x)
        case (Inl a1)
        with hp raw msg x ir(1) have "hb' = hb" "evs = []" "jp' = jp1" by (simp_all add: handle_post_def Let_def)
        with cache show ?thesis by (intro quiet) simp_all
      next
        case (Inr who)
        with hp raw msg x ir(1) have r: "route_post rq d who raw msg hb = (a, hb', evs)" "jp' = jp1"
          by (simp_all add: handle_post_def Let_def split: prod.splits)
        have "hub_inv p ir sp (tr @ evs) hb' jp \<and> (\<forall>e \<in> set evs. handled sp d rq hb e)"
          using inv assms(2) authenticate_sound [OF x [unfolded Inr] ir(2)] raw r(1) by (rule route_post_inv)
        then show ?thesis using cache hub_inv_jwks unfolding r(2) by blast
      qed
    qed
  qed
qed

text \<open>Closing sessions.\<close>

lemma lifecycle_effects:
  "effects (on_upstream_exit rc) g = [Audit ''upstream_exit'' [(PStr ''returncode'', rc)]]"
  "effects (gseq (on_upstream_exit rc) on_stop) g =
     [Audit ''upstream_exit'' [(PStr ''returncode'', rc)], Audit ''gateway_stop'' []]"
  by (simp_all add: on_upstream_exit_def on_stop_def)

lemma prefix_silent: "prefix did es \<Longrightarrow> upstream_lines es = [] \<Longrightarrow> upstream_lines did = []"
  "prefix did es \<Longrightarrow> client_lines es = [] \<Longrightarrow> client_lines did = []"
  by (auto simp: prefix_def)

lemma quiet_feed_ok:
  assumes "session_ok sp tr sid s" and f: "feed a s = (r, s', did)" and "steady a"
    and "upstream_lines (effects a (hs_gateway s)) = []" and "client_lines (effects a (hs_gateway s)) = []"
  shows "session_ok sp tr sid s'"
proof -
  obtain who0 where "gateway_of sp who0 (hs_gateway s)" using assms(1) unfolding session_ok_def by blast
  then have "prefix did (effects a (hs_gateway s))" unfolding gateway_of_def using feed_facts(3) [OF f assms(3)] by blast
  then have "accounts (tr @ []) sid did" using accounts_event(3) prefix_silent assms(4,5) by simp
  from session_ok_feed [OF assms(1) f assms(3) this] show ?thesis by simp
qed

lemma close_ok:
  assumes "session_ok sp tr sid s"
  shows "session_close rc s = (r, s', did) \<Longrightarrow> session_ok sp tr sid s'"
    and "session_upstream_exit rc b s = (r, s', did) \<Longrightarrow> session_ok sp tr sid s'"
proof -
  assume "session_close rc s = (r, s', did)"
  from quiet_feed_ok [OF session_ok_closing(2) [OF assms] this [unfolded session_close_def] steady_lifecycle(2)]
  show "session_ok sp tr sid s'" unfolding lifecycle_effects(2) by simp
next
  assume "session_upstream_exit rc b s = (r, s', did)"
  from quiet_feed_ok [OF session_ok_closing(1) [OF assms] this [unfolded session_upstream_exit_def] steady_lifecycle(1)]
  show "session_ok sp tr sid s'" unfolding lifecycle_effects(1) by simp
qed

lemma on_session_quiet_inv:
  assumes inv: "hub_inv p ir sp tr hb jp" and s: "map_of (hb_objects hb) sid = Some s"
    and "on_session sid s f hb = (r, hb', did)"
    and f: "\<And>x y r did. session_ok sp tr sid x \<Longrightarrow> f x = (r, y, did) \<Longrightarrow> session_ok sp tr sid y"
  shows "hub_inv p ir sp tr hb' jp"
proof -
  obtain s' where s': "f (attach hb s) = (r, s', did)" "hb' = store_session sid s' hb"
    using assms(3) by (auto simp: on_session_def split: prod.splits)
  have "session_ok sp tr sid (attach hb s)" using hub_inv_session [OF inv s] by (rule session_ok_attach)
  from f [OF this s'(1)] have "session_ok sp (tr @ []) sid s'" by simp
  then have "hub_inv p ir sp (tr @ []) (store_session sid s' hb) jp"
    using inv by (intro hub_inv_put(2)) (simp_all add: no_opening_def)
  then show ?thesis by (simp add: s'(2))
qed

lemma hub_inv_listed [simp]: "hub_inv p ir sp tr (hb\<lparr>hb_listed := xs\<rparr>) jp = hub_inv p ir sp tr hb jp"
  by (simp add: hub_inv_def sessions_ok_def opened_once_def)

lemma terminate_inv:
  assumes "hub_inv p ir sp tr hb jp"
  shows "hub_inv p ir sp tr (snd (terminate rc sid hb)) jp"
proof (cases "hub_get sid hb")
  case (Some s)
  obtain r hb' did where o: "on_session sid s (session_close rc) (unlist sid hb) = (r, hb', did)"
    by (cases "on_session sid s (session_close rc) (unlist sid hb)")
  have "hub_inv p ir sp tr (unlist sid hb) jp" using assms by (simp add: unlist_def)
  then have "hub_inv p ir sp tr hb' jp" using _ o close_ok(1)
    by (rule on_session_quiet_inv) (simp_all add: unlist_def hub_get_Some [OF Some])
  with o Some show ?thesis by (simp add: terminate_def)
qed (simp add: terminate_def assms)

lemma close_each_inv: "hub_inv p ir sp tr hb jp \<Longrightarrow> hub_inv p ir sp tr (close_each rc sids hb) jp"
proof (induction rc sids hb rule: close_each.induct)
  case (2 rc sid sids hb)
  show ?case
  proof (cases "map_of (hb_objects hb) sid")
    case (Some s)
    obtain r hb' did where o: "on_session sid s (session_close rc) hb = (r, hb', did)"
      by (cases "on_session sid s (session_close rc) hb")
    have "hub_inv p ir sp tr hb' jp" using 2(2) Some o close_ok(1) by (rule on_session_quiet_inv)
    with 2(1) Some o show ?thesis by simp
  qed (use 2 in simp)
qed simp

text \<open>The end of a wait.\<close>

lemma end_request_ok:
  assumes ok: "session_ok sp tr sid s" and i: "map_of (hs_waiters s) t = Some i" and e: "end_request timed_out t s = Some (x, s')"
  shows "session_ok sp tr sid s'"
    and "x = Inr body \<Longrightarrow> body = timeout_line (sp_lib sp) i \<or>
      to_client tr sid body \<and> (\<exists>k. py_key i = Some k \<and> answers (sp_lib sp) body k)"
proof -
  let ?s = "s\<lparr>hs_waiters := AList.delete t (hs_waiters s), hs_futures := AList.delete t (hs_futures s)\<rparr>"
  have d: "session_ok sp tr sid ?s" "session_ok sp tr sid (?s\<lparr>hs_pending := forget_key i (hs_pending s)\<rparr>)"
    using session_ok_drop(2) [OF ok, of t] session_ok_drop(3) [of sp tr sid ?s i] by simp_all
  have lib: "hs_lib s = sp_lib sp" using ok by (rule session_ok_lib)
  from e i consider (answered) l where "map_of (hs_futures s) t = Some (Fulfilled l)" "x = Inr l" "s' = ?s"
    | (cancelled) y where "x = Inl y" "s' = ?s"
    | (late) "x = Inr (timeout_line (sp_lib sp) i)" "s' = ?s\<lparr>hs_pending := forget_key i (hs_pending s)\<rparr>"
    unfolding lib [symmetric] by (auto simp: end_request_def Let_def split: option.splits future.splits if_splits)
  then have "session_ok sp tr sid s' \<and> (x = Inr body \<longrightarrow> body = timeout_line (sp_lib sp) i \<or>
      to_client tr sid body \<and> (\<exists>k. py_key i = Some k \<and> answers (sp_lib sp) body k))"
  proof cases
    case answered
    from ok have "to_client tr sid l \<and> (\<exists>k. py_key i = Some k \<and> answers (sp_lib sp) l k)"
      using answered(1) i unfolding session_ok_def mail_ok_def by blast
    with answered d(1) show ?thesis by auto
  qed (use d in simp_all)
  then show "session_ok sp tr sid s'" "x = Inr body \<Longrightarrow> body = timeout_line (sp_lib sp) i \<or>
      to_client tr sid body \<and> (\<exists>k. py_key i = Some k \<and> answers (sp_lib sp) body k)" by blast+
qed

lemma end_request_waiter: "end_request timed_out t s = Some x \<Longrightarrow> \<exists>i. map_of (hs_waiters s) t = Some i"
  by (auto simp: end_request_def split: option.splits)

lemma arrive_inv:
  assumes inv: "hub_inv p ir sp tr hb jp" and s: "map_of (hb_objects hb) sid = Some s"
    and "on_session sid s (feed (on_upstream_line line)) hb = (r, hb', did)"
  shows "hub_inv p ir sp (tr @ [Arrived sid line did]) hb' jp"
proof -
  obtain s' where f: "feed (on_upstream_line line) (attach hb s) = (r, s', did)" and hb': "hb' = store_session sid s' hb"
    using assms(3) by (auto simp: on_session_def split: prod.splits)
  have ok: "session_ok sp tr sid (attach hb s)" using hub_inv_session [OF inv s] by (rule session_ok_attach)
  then obtain rq0 who0 where o: "Opened sid rq0 who0 \<in> set tr" and g: "gateway_of sp who0 (hs_gateway (attach hb s))"
    unfolding session_ok_def by blast
  from g have pre: "prefix did (effects (on_upstream_line line) (hs_gateway (attach hb s)))"
    unfolding gateway_of_def using feed_facts(3) [OF f steady_lines(2)] by blast
  have "upstream_lines (effects (on_upstream_line line) h) = []" for h
    using dispatch_upstream_facts by (simp add: on_upstream_line_def)
  from prefix_silent(1) [OF pre this] have silent: "upstream_lines did = []" .
  have ok': "session_ok sp (tr @ [Arrived sid line did]) sid s'"
    using ok f steady_lines(2) accounts_event(2) [OF silent] by (rule session_ok_feed)
  have "Opened sid rq0 who0 \<in> set (tr @ [Arrived sid line did])" using o by simp
  then have "event_ok p ir sp (tr @ [Arrived sid line did]) (Arrived sid line did)"
    unfolding event_ok.simps using g pre by blast
  then show ?thesis unfolding hb' using inv ok' by (intro hub_inv_put(2)) (simp_all add: no_opening_def)
qed

lemma step_inv:
  assumes "hub_step p hb jp evs hb' jp'" and inv: "hub_inv p ir sp tr hb jp"
  shows "hub_inv p ir sp (tr @ evs) hb' jp'"
  using assms(1)
proof cases
  case (post rq d a)
  from handle_post_inv [OF inv post(2,1)] show ?thesis by blast
next
  case (get rq a)
  then obtain x where "http_authenticate p (hb_resolver hb) (rq_authorization rq) PNone jp = (x, jp')"
    by (auto simp: handle_get_def split: prod.splits sum.splits option.splits)
  then have "cache_ok p jp'" using inv authenticate_cache unfolding hub_inv_def by blast
  with get inv hub_inv_jwks show ?thesis by simp
next
  case (delete rq returncode a)
  then obtain x sid where x: "http_authenticate p (hb_resolver hb) (rq_authorization rq) PNone jp = (x, jp')"
    and "hb' = hb \<or> hb' = snd (terminate returncode sid hb)"
    by (auto simp: handle_delete_def split: prod.splits sum.splits option.splits)
  then have "hub_inv p ir sp tr hb' jp" using inv terminate_inv by blast
  moreover have "cache_ok p jp'" using inv x authenticate_cache unfolding hub_inv_def by blast
  ultimately show ?thesis using delete(1) hub_inv_jwks by simp
next
  case (arrive sid s line r did)
  with inv show ?thesis using arrive_inv by simp
next
  case (upstream_exit sid s returncode still_running r did)
  from inv upstream_exit(3,4) close_ok(2) have "hub_inv p ir sp tr hb' jp" by (rule on_session_quiet_inv)
  with upstream_exit show ?thesis by simp
next
  case (reply sid s t i timed_out body s')
  note e = end_request_ok [OF hub_inv_session [OF inv reply(4)] reply(5,6)]
  have "event_ok p ir sp (tr @ evs) (Replied sid i body)"
    using e(2) [OF refl] sent_mono(1) unfolding event_ok.simps by blast
  then show ?thesis unfolding reply(1-3) using inv session_ok_mono [OF e(1)]
    by (intro hub_inv_put(1)) (simp_all add: no_opening_def reply(1))
next
  case (cancelled sid s timed_out t e s')
  from end_request_waiter [OF cancelled(5)] obtain i where "map_of (hs_waiters s) t = Some i" by blast
  from end_request_ok(1) [OF hub_inv_session [OF inv cancelled(4)] this cancelled(5)] have "session_ok sp (tr @ []) sid s'" by simp
  then have "hub_inv p ir sp (tr @ []) (put_object sid s' hb) jp" using inv by (intro hub_inv_put(1)) (simp_all add: no_opening_def)
  with cancelled show ?thesis by simp
next
  case (frame sid s l ls fr s')
  note ok = hub_inv_session [OF inv frame(4)]
  have s': "s' = s\<lparr>hs_sse := ls\<rparr>" using frame(6,7) by (simp add: sse_turn_def)
  have "session_ok sp tr sid s'" using ok frame(6) unfolding s' session_ok_def mail_ok_def by simp
  moreover have "to_client tr sid l" using ok frame(6) unfolding session_ok_def mail_ok_def by simp
  ultimately show ?thesis unfolding frame(1-3) using inv session_ok_mono sent_mono(1)
    by (intro hub_inv_put(1)) (simp_all add: no_opening_def)
next
  case (shutdown returncode)
  have "hub_inv p ir sp tr (hb\<lparr>hb_listed := []\<rparr>) jp" using inv by simp
  from close_each_inv [OF this] show ?thesis by (simp add: shutdown shutdown_all_def)
qed

lemma run_inv:
  assumes "hub_run p hb0 jp0 tr hb jp" and "hb_objects hb0 = []" and "cache_ok p jp0"
  shows "hub_inv p (hb_resolver hb0) (hb_parts hb0) tr hb jp"
  using assms
proof (induction rule: hub_run.induct)
  case idle
  then show ?case by (simp add: hub_inv_def sessions_ok_def opened_once_def)
next
  case (next_step tr hb jp evs hb' jp')
  then show ?case using step_inv by blast
qed

section \<open>What a run guarantees\<close>

text \<open>The credential of a request proves a principal (\<open>Identity\<close>).\<close>

definition credential_proves :: "'k idp \<Rightarrow> resolver \<Rightarrow> 'k jwks_provider \<Rightarrow> http_request \<Rightarrow> principal \<Rightarrow> bool" where
  "credential_proves p ir jp rq pr \<longleftrightarrow>
     (\<exists>a scheme rest. rq_authorization rq = Some a \<and> split_scheme a = Some (scheme, rest) \<and>
        (lower scheme = ''bearer'' \<and> token_proves p ir jp (strip rest) pr \<or>
         lower scheme = ''apikey'' \<and> key_proves p ir (strip rest) pr))"

lemma authed_proves:
  assumes "authed p (Some r) rq who" and "ir_anonymous r = None"
  shows "\<exists>pr jp. who = Some pr \<and> credential_proves p r jp rq pr"
proof -
  obtain jp jp' pr where "cache_ok p jp" "resolve p r (rq_authorization rq) jp = (Inr pr, jp')" and who: "who = Some pr"
    using assms(1) unfolding authed_def by auto
  from resolve_proves [OF this(1,2) assms(2)] obtain a scheme rest where "rq_authorization rq = Some a"
    "split_scheme a = Some (scheme, rest)" "lower scheme = ''bearer'' \<and> token_proves p r jp (strip rest) pr \<or>
      lower scheme = ''apikey'' \<and> key_proves p r (strip rest) pr" .
  then have "credential_proves p r jp rq pr" unfolding credential_proves_def by blast
  with who show ?thesis by blast
qed

lemma inv_line_owned:
  assumes inv: "hub_inv p (Some r) sp tr hb jp" and anon: "ir_anonymous r = None"
    and s: "map_of (hb_objects hb) sid = Some s" and l: "l \<in> set (hs_sent s)"
  shows "\<exists>owner rq0 rq pr jp1 raw did h. Opened sid rq0 (Some owner) \<in> set tr \<and> Delivered sid rq (Some pr) raw did \<in> set tr \<and>
     credential_proves p r jp1 rq pr \<and> pn_id pr = pn_id owner \<and> rq_body rq = Some (PDict raw) \<and>
     g_principal h = owner \<and> standard h (sp_engine sp) (parts_handlers sp) \<and>
     l \<in> set (upstream_lines (effects (on_client_line (encode (sp_lib sp) raw)) h))"
proof -
  obtain rq who raw did where d: "Delivered sid rq who raw did \<in> set tr" and ld: "l \<in> set (upstream_lines did)"
    using hub_inv_session [OF inv s] l unfolding session_ok_def mail_ok_def to_upstream_def by blast
  have "event_ok p (Some r) sp tr (Delivered sid rq who raw did)" using inv d unfolding hub_inv_def by blast
  then obtain h rq0 who0 where auth: "authed p (Some r) rq who" and body: "rq_body rq = Some (PDict raw)"
    and o: "Opened sid rq0 who0 \<in> set tr" and g: "gateway_of sp who0 h"
    and pre: "prefix did (effects (on_client_line (encode (sp_lib sp) raw)) h)"
    and own: "\<And>pr. who = Some pr \<Longrightarrow> pn_id pr = pn_id (g_principal h)"
    unfolding event_ok.simps by blast
  obtain pr jp1 where pr: "who = Some pr" "credential_proves p r jp1 rq pr" using authed_proves [OF auth anon] by blast
  have "event_ok p (Some r) sp tr (Opened sid rq0 who0)" using inv o unfolding hub_inv_def by blast
  then obtain owner where owner: "who0 = Some owner" using authed_proves anon unfolding event_ok.simps by blast
  have "l \<in> set (upstream_lines (effects (on_client_line (encode (sp_lib sp) raw)) h))"
    using pre ld by (auto simp: prefix_def)
  moreover have "g_principal h = owner" "standard h (sp_engine sp) (parts_handlers sp)"
    using g owner by (simp_all add: gateway_of_def acts_for_def)
  ultimately show ?thesis using d o pr owner own [OF pr(1)] body by blast
qed

lemma inv_opened_unique:
  "hub_inv p ir sp tr hb jp \<Longrightarrow> Opened sid rq who \<in> set tr \<Longrightarrow> Opened sid rq' who' \<in> set tr \<Longrightarrow> rq = rq' \<and> who = who'"
  unfolding hub_inv_def opened_once_def by blast

text \<open>Any event of a run belongs to one of its steps.\<close>

lemma run_splits:
  "hub_run p hb0 jp0 tr hb jp \<Longrightarrow> e \<in> set tr \<Longrightarrow>
     \<exists>tr1 hb1 jp1 evs hb2 jp2 tr2. hub_run p hb0 jp0 tr1 hb1 jp1 \<and> hub_step p hb1 jp1 evs hb2 jp2 \<and>
       hub_run p hb2 jp2 tr2 hb jp \<and> tr = tr1 @ evs @ tr2 \<and> e \<in> set evs"
proof (induction rule: hub_run.induct)
  case (next_step tr hb jp evs hb' jp')
  show ?case
  proof (cases "e \<in> set tr")
    case True
    then obtain tr1 hb1 jp1 evs1 hb2 jp2 tr2 where "hub_run p hb0 jp0 tr1 hb1 jp1" "hub_step p hb1 jp1 evs1 hb2 jp2"
      "hub_run p hb2 jp2 tr2 hb jp" "tr = tr1 @ evs1 @ tr2" "e \<in> set evs1" using next_step.IH by blast
    moreover from this(3) next_step.hyps(2) have "hub_run p hb2 jp2 (tr2 @ evs) hb' jp'" by (rule hub_run.next_step)
    ultimately show ?thesis by (metis append_assoc)
  next
    case False
    with next_step.prems have "e \<in> set evs" by simp
    moreover have "hub_run p hb' jp' [] hb' jp'" by (rule hub_run.idle)
    ultimately show ?thesis using next_step.hyps by (metis append_Nil2)
  qed
qed simp

text \<open>
  What the gateway of a session says to its client in one step of the hub: a client line among
  the effects that were carried out when that gateway, in the state it has at this step, handled
  the body of the request or the line from its upstream.
\<close>

fun event_says :: "'k idp \<Rightarrow> hub \<Rightarrow> 'k jwks_provider \<Rightarrow> hub_event list \<Rightarrow> hub \<Rightarrow> 'k jwks_provider \<Rightarrow> hub_event \<Rightarrow> string \<Rightarrow> string \<Rightarrow> bool" where
  "event_says p hb jp evs hb' jp' (Delivered sid' rq who raw did) sid l =
     (sid' = sid \<and> l \<in> set (client_lines did) \<and> rq_body rq = Some (PDict raw) \<and>
      (\<exists>d a h. handle_post p rq d hb jp = (a, hb', jp', evs) \<and> serves d who hb sid h \<and>
         prefix did (effects (handle_input (ClientLine (encode (sp_lib (hb_parts hb)) raw))) h)))"
| "event_says p hb jp evs hb' jp' (Arrived sid' line did) sid l =
     (sid' = sid \<and> l \<in> set (client_lines did) \<and>
      (\<exists>s r. map_of (hb_objects hb) sid = Some s \<and> on_session sid s (feed (on_upstream_line line)) hb = (r, hb', did) \<and>
         prefix did (effects (handle_input (UpstreamLine line)) (hs_gateway (attach hb s)))))"
| "event_says p hb jp evs hb' jp' _ sid l = False"

definition gateway_said ::
  "'k idp \<Rightarrow> hub \<Rightarrow> 'k jwks_provider \<Rightarrow> hub_event list \<Rightarrow> hub \<Rightarrow> 'k jwks_provider \<Rightarrow> string \<Rightarrow> string \<Rightarrow> bool" where
  "gateway_said p hb0 jp0 tr hb jp sid l \<longleftrightarrow>
     (\<exists>tr1 hb1 jp1 evs hb2 jp2 tr2. hub_run p hb0 jp0 tr1 hb1 jp1 \<and> hub_step p hb1 jp1 evs hb2 jp2 \<and>
        hub_run p hb2 jp2 tr2 hb jp \<and> tr = tr1 @ evs @ tr2 \<and>
        (\<exists>e \<in> set evs. event_says p hb1 jp1 evs hb2 jp2 e sid l))"

lemma step_says:
  assumes step: "hub_step p hb jp evs hb' jp'" and inv: "hub_inv p ir sp tr hb jp" and e: "e \<in> set evs"
    and l: "(\<exists>rq who raw did. e = Delivered sid rq who raw did \<and> l \<in> set (client_lines did)) \<or>
      (\<exists>line did. e = Arrived sid line did \<and> l \<in> set (client_lines did))"
  shows "event_says p hb jp evs hb' jp' e sid l"
  using step
proof cases
  case (post rq d a)
  have parts: "hb_parts hb = sp" using inv by (simp add: hub_inv_def)
  have ok: "handled sp d rq hb e" using handle_post_inv [OF inv post(2,1)] e by blast
  have "e \<noteq> Arrived sid line did" for line did using ok unfolding handled_def by simp
  with l obtain rq' who raw did where ev: "e = Delivered sid rq' who raw did" "l \<in> set (client_lines did)" by blast
  from ok have rq: "rq' = rq" "rq_body rq = Some (PDict raw)"
    and "\<exists>h. serves d who hb sid h \<and> prefix did (effects (on_client_line (encode (sp_lib sp) raw)) h)"
    unfolding ev(1) handled_def by simp_all
  then obtain h where h: "serves d who hb sid h" "prefix did (effects (on_client_line (encode (sp_lib sp) raw)) h)" by blast
  from h(2) parts have "prefix did (effects (handle_input (ClientLine (encode (sp_lib (hb_parts hb)) raw))) h)"
    by (simp add: handle_input_def)
  with post(1) h(1) ev(2) rq(2) show ?thesis unfolding ev(1) rq(1) event_says.simps by blast
next
  case (arrive sid' s line r did)
  from arrive(4) obtain s' where f: "feed (on_upstream_line line) (attach hb s) = (r, s', did)"
    by (auto simp: on_session_def split: prod.splits)
  have "session_ok sp tr sid' (attach hb s)" using hub_inv_session [OF inv arrive(3)] by (rule session_ok_attach)
  then obtain who0 where "gateway_of sp who0 (hs_gateway (attach hb s))" unfolding session_ok_def by blast
  then have "prefix did (effects (on_upstream_line line) (hs_gateway (attach hb s)))"
    unfolding gateway_of_def using feed_facts(3) [OF f steady_lines(2)] by blast
  moreover have "e = Arrived sid' line did" using e arrive(1) by simp
  ultimately show ?thesis using l arrive(3,4) by (auto simp: handle_input_def)
qed (use e l in auto)

lemma to_client_said:
  assumes run: "hub_run p hb0 jp0 tr hb jp" and init: "hb_objects hb0 = []" "cache_ok p jp0" and "to_client tr sid l"
  shows "gateway_said p hb0 jp0 tr hb jp sid l"
proof -
  from assms(4) obtain e where e: "e \<in> set tr"
    and l: "(\<exists>rq who raw did. e = Delivered sid rq who raw did \<and> l \<in> set (client_lines did)) \<or>
      (\<exists>line did. e = Arrived sid line did \<and> l \<in> set (client_lines did))" unfolding to_client_def by blast
  from run_splits [OF run e] obtain tr1 hb1 jp1 evs hb2 jp2 tr2 where parts: "hub_run p hb0 jp0 tr1 hb1 jp1"
    "hub_step p hb1 jp1 evs hb2 jp2" "hub_run p hb2 jp2 tr2 hb jp" "tr = tr1 @ evs @ tr2" "e \<in> set evs" by blast
  from step_says [OF parts(2) run_inv [OF parts(1) init] parts(5) l] parts show ?thesis unfolding gateway_said_def by blast
qed

lemma client_hears_its_gateway:
  assumes run: "hub_run p hb0 jp0 tr hb jp" and init: "hb_objects hb0 = []" "cache_ok p jp0"
  shows "(Framed sid l \<in> set tr \<longrightarrow> gateway_said p hb0 jp0 tr hb jp sid l) \<and>
    (Replied sid i body \<in> set tr \<longrightarrow> body = timeout_line (sp_lib (hb_parts hb0)) i \<or>
       gateway_said p hb0 jp0 tr hb jp sid body \<and> (\<exists>k. py_key i = Some k \<and> answers (sp_lib (hb_parts hb0)) body k))"
proof -
  note inv = run_inv [OF run init]
  have ok: "\<And>e. e \<in> set tr \<Longrightarrow> event_ok p (hb_resolver hb0) (hb_parts hb0) tr e" using inv unfolding hub_inv_def by blast
  show ?thesis using ok [of "Framed sid l"] ok [of "Replied sid i body"] to_client_said [OF run init]
    unfolding event_ok.simps by blast
qed

end
