(* ===== verification/Central_Mode.thy ===== *)
theory Central_Mode
  imports Http_Sessions Connector_Packs "HOL-Library.Char_ord" "HOL-Library.List_Lexorder"
begin

text \<open>
  Central mode: \<open>central/config.py\<close> (the configuration of the service and how it is assembled) and
  the routing of \<open>create_central_app\<close>. A configuration file is its decoded content. Each named
  upstream has a hub of its own over the engine of its policy files; all share one resolver and
  one cache of signing keys.

  The lemmas carry the guarantees of a hub to the assembled service: hubs do not see each
  other's sessions, and what an upstream receives went through the gateway over its own policy.
\<close>

section \<open>The configuration\<close>

record upstream_config =
  uc_name :: string
  uc_command :: "string list"
  uc_policy :: "string list"

record gateway_config =
  gc_upstreams :: "upstream_config list"
  gc_spool_path :: string
  gc_state_backend :: string
  gc_state_url :: pyval
  gc_names :: "string list"
  gc_identity_path :: "string option"

definition SUPPORTED_STATE :: "string list" where
  "SUPPORTED_STATE = [''memory'', ''redis'']"

definition string_list :: "pyval \<Rightarrow> (string list) option" where
  "string_list v =
     (case v of PList xs \<Rightarrow> if xs \<noteq> [] \<and> list_all is_str xs then Some (map the_str xs) else None | _ \<Rightarrow> None)"

definition policy_paths :: "pyval \<Rightarrow> (string list) option" where
  "policy_paths v = string_list (case v of PStr s \<Rightarrow> PList [PStr s] | _ \<Rightarrow> v)"

definition parse_upstream :: "string \<Rightarrow> string \<Rightarrow> string list \<Rightarrow> pyval \<Rightarrow> upstream_config res" where
  "parse_upstream path whr seen entry =
     (case entry of
        PDict d \<Rightarrow>
          (let name = the_str (dget_none d ''name''); loc = whr @ '' ('' @ name @ '')'' in
           ebind (ensure (nonempty_str (dget_none d ''name'')) (OtherError (whr @ '': 'name' is required''))) (\<lambda>_.
           ebind (ensure (name \<notin> set seen) (OtherError (path @ '': duplicate upstream name '' @ quoted name))) (\<lambda>_.
           case string_list (dget_none d ''command'') of
             None \<Rightarrow> Inl (OtherError (loc @ '': 'command' must be a non-empty list of strings''))
           | Some command \<Rightarrow>
               (case policy_paths (dget_none d ''policy'') of
                  None \<Rightarrow> Inl (OtherError (loc @ '': 'policy' must be one or more file paths''))
                | Some policy \<Rightarrow> Inr \<lparr>uc_name = name, uc_command = command, uc_policy = policy\<rparr>))))
      | _ \<Rightarrow> Inl (OtherError (whr @ '': expected a mapping'')))"

fun parse_upstreams :: "string \<Rightarrow> string list \<Rightarrow> (string \<times> pyval) list \<Rightarrow> (upstream_config list) res" where
  "parse_upstreams path seen [] = Inr []"
| "parse_upstreams path seen ((whr, entry) # es) =
     ebind (parse_upstream path whr seen entry) (\<lambda>u.
     ebind (parse_upstreams path (uc_name u # seen) es) (\<lambda>us. Inr (u # us)))"

text \<open>\<open>x or {}\<close> for a key of the document.\<close>

definition or_empty :: "pydict \<Rightarrow> string \<Rightarrow> pyval" where
  "or_empty d k = (if truthy (dget_none d k) then dget_none d k else PDict [])"

definition spool_path_of :: "pylib \<Rightarrow> pydict \<Rightarrow> string" where
  "spool_path_of lib d =
     (case or_empty d ''audit'' of PDict a \<Rightarrow> pstr lib (dget_default a ''spool'' (PStr ''audit.log'')) | _ \<Rightarrow> ''audit.log'')"

definition state_of :: "string \<Rightarrow> pydict \<Rightarrow> (string \<times> pyval) res" where
  "state_of path d =
     (let st = (case or_empty d ''state'' of PDict s \<Rightarrow> s | _ \<Rightarrow> []);
          backend = dget_default st ''backend'' (PStr ''memory'') in
      if py_key backend = None then Inl TypeError
      else if \<not> (is_str backend \<and> the_str backend \<in> set SUPPORTED_STATE)
      then Inl (OtherError (path @ '': state.backend not supported''))
      else if the_str backend = ''redis'' \<and> \<not> truthy (dget_none st ''url'')
      then Inl (OtherError (path @ '': state.backend 'redis' requires state.url''))
      else Inr (the_str backend, dget_none st ''url''))"

definition identity_path_of :: "string \<Rightarrow> (string \<Rightarrow> string) \<Rightarrow> pydict \<Rightarrow> (string option) res" where
  "identity_path_of path beside d =
     (case or_empty d ''identity'' of
        PDict i \<Rightarrow>
          (let r = dget_none i ''config'' in
           if \<not> truthy r then Inr None
           else if \<not> is_str r then Inl (OtherError (path @ '': identity.config must be a file path''))
           else Inr (Some (beside (the_str r))))
      | _ \<Rightarrow> Inl (OtherError (path @ '': 'identity' must be a mapping'')))"

text \<open>\<open>beside\<close> resolves a path against the directory of the configuration file.\<close>

definition parse_gateway_config :: "pylib \<Rightarrow> string \<Rightarrow> (string \<Rightarrow> string) \<Rightarrow> pyval \<Rightarrow> gateway_config res" where
  "parse_gateway_config lib path beside document =
     (case document of
        PDict d \<Rightarrow>
          (case dget_none d ''upstreams'' of
             PList raw \<Rightarrow>
               if raw = [] then Inl (OtherError (path @ '': 'upstreams' must be a non-empty list''))
               else
                 ebind (parse_upstreams path [] (indexed (path @ '': upstreams'') raw)) (\<lambda>ups.
                 ebind (state_of path d) (\<lambda>(backend, url).
                 ebind (identity_path_of path beside d) (\<lambda>ident.
                 Inr \<lparr>gc_upstreams = ups, gc_spool_path = spool_path_of lib d, gc_state_backend = backend,
                      gc_state_url = url, gc_names = map uc_name ups, gc_identity_path = ident\<rparr>)))
           | _ \<Rightarrow> Inl (OtherError (path @ '': 'upstreams' must be a non-empty list'')))
      | _ \<Rightarrow> Inl (OtherError (path @ '': expected a mapping at the top level'')))"

definition load_gateway_config :: "pylib \<Rightarrow> string \<Rightarrow> (string \<Rightarrow> string) \<Rightarrow> file_content option \<Rightarrow> gateway_config res" where
  "load_gateway_config lib path beside content =
     (case content of
        None \<Rightarrow> Inl (OtherError (''cannot read config '' @ path))
      | Some Undecodable \<Rightarrow> Inl (ValueError ''UnicodeDecodeError'')
      | Some (BadYaml msg) \<Rightarrow> Inl (OtherError msg)
      | Some (Yaml document) \<Rightarrow> parse_gateway_config lib path beside document)"

section \<open>Assembly\<close>

text \<open>
  What the service finds around it: the policy files and the identity document by path, the
  standard library and the approver, and a redaction service for each upstream.
\<close>

record site =
  st_env :: env
  st_policy_file :: "string \<Rightarrow> layer_file"
  st_identity :: "string \<Rightarrow> pyval option"
  st_service :: redaction_service

record 'k central =
  cn_hubs :: "(string \<times> hub) list"
  cn_jwks :: "'k jwks_provider"
  cn_store_url :: "pyval option"

definition build_store :: "gateway_config \<Rightarrow> pyval option" where
  "build_store c = (if gc_state_backend c = ''redis'' then Some (gc_state_url c) else None)"

definition deny_broker :: broker where
  "deny_broker = projr (build_broker ''deny'' None 300 False)"

definition build_hub :: "site \<Rightarrow> resolver option \<Rightarrow> upstream_config \<Rightarrow> hub res" where
  "build_hub st ir up =
     ebind (engine_load (e_lib (st_env st)) (map (st_policy_file st) (uc_policy up))) (\<lambda>engine.
     Inr \<lparr>hb_parts = \<lparr>sp_env = st_env st, sp_engine = engine, sp_principal = default_principal, sp_redaction = True,
                     sp_broker = Some deny_broker, sp_command = uc_command up\<rparr>,
          hb_resolver = ir, hb_objects = [], hb_listed = [], hb_monitor = None,
          hb_world = \<lparr>w_service = st_service st, w_asked = 0\<rparr>\<rparr>)"

definition central_resolver :: "site \<Rightarrow> gateway_config \<Rightarrow> (resolver option \<times> 'k jwks_provider) res" where
  "central_resolver st c =
     (case gc_identity_path c of
        Some path \<Rightarrow>
          if path = [] then Inr (None, make_provider PNone 0)
          else ebind (load_identity_config (e_lib (st_env st)) path (st_identity st path)) (\<lambda>(ir, jp).
               Inr (Some ir, (case jp of None \<Rightarrow> make_provider PNone 0 | Some q \<Rightarrow> q)))
      | None \<Rightarrow> Inr (None, make_provider PNone 0))"

definition build_central_app :: "site \<Rightarrow> gateway_config \<Rightarrow> ('k central) res" where
  "build_central_app st c =
     ebind (central_resolver st c) (\<lambda>(ir, jp).
     ebind (emap (build_hub st ir) (gc_upstreams c)) (\<lambda>hubs.
     Inr \<lparr>cn_hubs = zip (map uc_name (gc_upstreams c)) hubs, cn_jwks = jp, cn_store_url = build_store c\<rparr>))"

section \<open>Routing\<close>

definition unknown_upstream :: "string \<Rightarrow> answer" where
  "unknown_upstream name = rpc_error PNone (- 32004) (''unknown upstream '' @ quoted name) 404"

definition set_hub :: "string \<Rightarrow> hub \<Rightarrow> 'k jwks_provider \<Rightarrow> 'k central \<Rightarrow> 'k central" where
  "set_hub name hb jp c = c\<lparr>cn_hubs := AList.update name hb (cn_hubs c), cn_jwks := jp\<rparr>"

definition central_post ::
  "'k idp \<Rightarrow> string \<Rightarrow> http_request \<Rightarrow> draw \<Rightarrow> 'k central \<Rightarrow> answer \<times> 'k central \<times> hub_event list" where
  "central_post p name rq d c =
     (case map_of (cn_hubs c) name of
        None \<Rightarrow> (unknown_upstream name, c, [])
      | Some hb \<Rightarrow> (case handle_post p rq d hb (cn_jwks c) of (a, hb', jp', evs) \<Rightarrow> (a, set_hub name hb' jp' c, evs)))"

definition central_get :: "'k idp \<Rightarrow> string \<Rightarrow> http_request \<Rightarrow> 'k central \<Rightarrow> answer \<times> 'k central" where
  "central_get p name rq c =
     (case map_of (cn_hubs c) name of
        None \<Rightarrow> (unknown_upstream name, c)
      | Some hb \<Rightarrow> (case handle_get p rq hb (cn_jwks c) of (a, jp') \<Rightarrow> (a, c\<lparr>cn_jwks := jp'\<rparr>)))"

definition central_delete :: "'k idp \<Rightarrow> string \<Rightarrow> http_request \<Rightarrow> pyval \<Rightarrow> 'k central \<Rightarrow> answer \<times> 'k central" where
  "central_delete p name rq returncode c =
     (case map_of (cn_hubs c) name of
        None \<Rightarrow> (EmptyAnswer 404, c)
      | Some hb \<Rightarrow> (case handle_delete p rq returncode hb (cn_jwks c) of (a, hb', jp') \<Rightarrow> (a, set_hub name hb' jp' c)))"

definition list_servers :: "'k central \<Rightarrow> string list" where
  "list_servers c = sort (map fst (cn_hubs c))"

text \<open>A step of the service is a step of one of its hubs, with the shared key cache.\<close>

inductive central_step :: "'k idp \<Rightarrow> 'k central \<Rightarrow> string \<Rightarrow> hub_event list \<Rightarrow> 'k central \<Rightarrow> bool" for p where
  on_hub: "map_of (cn_hubs c) name = Some hb \<Longrightarrow> hub_step p hb (cn_jwks c) evs hb' jp' \<Longrightarrow>
    central_step p c name evs (set_hub name hb' jp' c)"

inductive central_run :: "'k idp \<Rightarrow> 'k central \<Rightarrow> (string \<times> hub_event) list \<Rightarrow> 'k central \<Rightarrow> bool" for p c0 where
  central_idle: "central_run p c0 [] c0"
| central_next: "central_run p c0 tr c \<Longrightarrow> central_step p c name evs c' \<Longrightarrow> central_run p c0 (tr @ map (Pair name) evs) c'"

definition of_hub :: "string \<Rightarrow> (string \<times> hub_event) list \<Rightarrow> hub_event list" where
  "of_hub name tr = map snd (filter (\<lambda>e. fst e = name) tr)"

text \<open>The routes are such steps (or, for an unknown name, change nothing).\<close>

lemma central_post_step:
  assumes "central_post p name rq d c = (a, c', evs)" and "\<And>hb. map_of (cn_hubs c) name = Some hb \<Longrightarrow> fresh_draw d hb"
  shows "central_step p c name evs c' \<or> c' = c \<and> evs = [] \<and> a = unknown_upstream name"
proof (cases "map_of (cn_hubs c) name")
  case (Some hb)
  obtain a1 hb' jp' evs1 where h: "handle_post p rq d hb (cn_jwks c) = (a1, hb', jp', evs1)"
    by (cases "handle_post p rq d hb (cn_jwks c)")
  with assms(1) Some have "c' = set_hub name hb' jp' c" "evs = evs1" by (simp_all add: central_post_def)
  with hub_step.post [OF h assms(2) [OF Some]] Some show ?thesis by (simp add: central_step.on_hub)
qed (use assms(1) in \<open>simp add: central_post_def\<close>)

lemma central_get_step:
  assumes "central_get p name rq c = (a, c')"
  shows "central_step p c name [] c' \<or> c' = c \<and> a = unknown_upstream name"
proof (cases "map_of (cn_hubs c) name")
  case (Some hb)
  obtain a1 jp' where h: "handle_get p rq hb (cn_jwks c) = (a1, jp')" by fastforce
  with assms Some have "c' = set_hub name hb jp' c" by (simp add: central_get_def set_hub_def update_triv)
  with hub_step.get [OF h] Some show ?thesis by (simp add: central_step.on_hub)
qed (use assms in \<open>simp add: central_get_def\<close>)

lemma central_delete_step:
  assumes "central_delete p name rq rc c = (a, c')"
  shows "central_step p c name [] c' \<or> c' = c \<and> a = EmptyAnswer 404"
proof (cases "map_of (cn_hubs c) name")
  case (Some hb)
  obtain a1 hb' jp' where h: "handle_delete p rq rc hb (cn_jwks c) = (a1, hb', jp')"
    by (cases "handle_delete p rq rc hb (cn_jwks c)")
  with assms Some have "c' = set_hub name hb' jp' c" by (simp add: central_delete_def)
  with hub_step.delete [OF h] Some show ?thesis by (simp add: central_step.on_hub)
qed (use assms in \<open>simp add: central_delete_def\<close>)

section \<open>A configuration that loads\<close>

lemma parse_upstream_Inr:
  assumes "parse_upstream path whr seen entry = Inr u"
  shows "uc_name u \<noteq> [] \<and> uc_name u \<notin> set seen \<and> uc_command u \<noteq> [] \<and> uc_policy u \<noteq> []"
  using assms
  by (auto simp: parse_upstream_def policy_paths_def string_list_def Let_def ebind_eq_Inr nonempty_str_def the_str_def
      split: pyval.splits option.splits if_splits)

lemma parse_upstreams_Inr:
  "parse_upstreams path seen es = Inr us \<Longrightarrow>
     length us = length es \<and> distinct (map uc_name us) \<and> set (map uc_name us) \<inter> set seen = {} \<and>
     (\<forall>u \<in> set us. uc_name u \<noteq> [] \<and> uc_command u \<noteq> [] \<and> uc_policy u \<noteq> [])"
proof (induction path seen es arbitrary: us rule: parse_upstreams.induct)
  case (2 path seen whr entry es)
  then obtain u vs where u: "parse_upstream path whr seen entry = Inr u"
    and vs: "parse_upstreams path (uc_name u # seen) es = Inr vs" and us: "us = u # vs" by (auto simp: ebind_eq_Inr)
  from 2 u vs have "length vs = length es \<and> distinct (map uc_name vs) \<and> set (map uc_name vs) \<inter> set (uc_name u # seen) = {} \<and>
     (\<forall>u \<in> set vs. uc_name u \<noteq> [] \<and> uc_command u \<noteq> [] \<and> uc_policy u \<noteq> [])" by blast
  with parse_upstream_Inr [OF u] us show ?case by auto
qed simp

definition config_ok :: "gateway_config \<Rightarrow> bool" where
  "config_ok c \<longleftrightarrow>
     gc_upstreams c \<noteq> [] \<and> distinct (map uc_name (gc_upstreams c)) \<and> gc_names c = map uc_name (gc_upstreams c) \<and>
     (\<forall>u \<in> set (gc_upstreams c). uc_name u \<noteq> [] \<and> uc_command u \<noteq> [] \<and> uc_policy u \<noteq> []) \<and>
     gc_state_backend c \<in> set SUPPORTED_STATE \<and> (gc_state_backend c = ''redis'' \<longrightarrow> truthy (gc_state_url c))"

lemma parse_gateway_config_ok:
  assumes "parse_gateway_config lib path beside document = Inr c"
  shows "config_ok c"
proof -
  obtain d raw ups backend url ident where raw: "raw \<noteq> []"
    and ups: "parse_upstreams path [] (indexed (path @ '': upstreams'') raw) = Inr ups"
    and st: "state_of path d = Inr (backend, url)"
    and c: "c = \<lparr>gc_upstreams = ups, gc_spool_path = spool_path_of lib d, gc_state_backend = backend,
                 gc_state_url = url, gc_names = map uc_name ups, gc_identity_path = ident\<rparr>"
    using assms unfolding parse_gateway_config_def by (auto simp: ebind_eq_Inr split: pyval.splits if_splits)
  have "length (indexed (path @ '': upstreams'') raw) = length raw" by (simp add: indexed_def)
  with parse_upstreams_Inr [OF ups] raw have "ups \<noteq> []" by auto
  moreover have "backend \<in> set SUPPORTED_STATE \<and> (backend = ''redis'' \<longrightarrow> truthy url)"
    using st by (auto simp: state_of_def Let_def split: if_splits)
  ultimately show ?thesis using parse_upstreams_Inr [OF ups] by (simp add: c config_ok_def)
qed

lemma load_gateway_config_ok: "load_gateway_config lib path beside content = Inr c \<Longrightarrow> config_ok c"
  by (auto simp: load_gateway_config_def split: option.splits file_content.splits dest: parse_gateway_config_ok)

text \<open>
  The module says that a malformed configuration is an error at startup, never a silently
  degraded service; a state section that is not a mapping is read as the in-memory default.
\<close>

lemma malformed_state_degrades: "state_of path [(PStr ''state'', PStr ''redis'')] = Inr (''memory'', PNone)"
  by (simp add: state_of_def or_empty_def dget_none_def dget_default_def dget_def SUPPORTED_STATE_def py_type_defs the_str_def)

section \<open>The assembled service\<close>

lemma build_hub_Inr:
  assumes "build_hub st ir up = Inr hb"
  obtains engine where "engine_load (e_lib (st_env st)) (map (st_policy_file st) (uc_policy up)) = Inr engine"
    and "hb_resolver hb = ir" and "hb_objects hb = []"
    and "sp_engine (hb_parts hb) = engine" and "sp_lib (hb_parts hb) = e_lib (st_env st)"
    and "parts_handlers (hb_parts hb) = build_action_handlers True (Some deny_broker)"
proof -
  obtain engine where "engine_load (e_lib (st_env st)) (map (st_policy_file st) (uc_policy up)) = Inr engine"
    and "hb = \<lparr>hb_parts = \<lparr>sp_env = st_env st, sp_engine = engine, sp_principal = default_principal, sp_redaction = True,
                     sp_broker = Some deny_broker, sp_command = uc_command up\<rparr>,
          hb_resolver = ir, hb_objects = [], hb_listed = [], hb_monitor = None,
          hb_world = \<lparr>w_service = st_service st, w_asked = 0\<rparr>\<rparr>"
    using assms unfolding build_hub_def ebind_eq_Inr by blast
  then show thesis by (intro that) (simp_all add: parts_handlers_def)
qed

lemma central_resolver_ok:
  assumes "central_resolver st c = Inr (ir, jp :: 'k jwks_provider)"
  shows "cache_ok p jp"
    and "gc_identity_path c = Some path \<Longrightarrow> path \<noteq> [] \<Longrightarrow>
      \<exists>r q. ir = Some r \<and> ir_anonymous r = None \<and>
        load_identity_config (e_lib (st_env st)) path (st_identity st path) = Inr (r, q :: 'k jwks_provider option)"
proof -
  have fresh: "cache_ok p (make_provider u ttl)" for u ttl by (simp add: cache_ok_def make_provider_def)
  consider "jp = make_provider PNone 0" "gc_identity_path c = None \<or> gc_identity_path c = Some []"
    | path1 r q where "gc_identity_path c = Some path1" "path1 \<noteq> []" "ir = Some r"
        "load_identity_config (e_lib (st_env st)) path1 (st_identity st path1) = Inr (r, q)"
        "jp = (case q of None \<Rightarrow> make_provider PNone 0 | Some q \<Rightarrow> q)"
    using assms by (auto simp: central_resolver_def ebind_eq_Inr split: option.splits if_splits)
  then have "cache_ok p jp \<and> (gc_identity_path c = Some path \<longrightarrow> path \<noteq> [] \<longrightarrow>
      (\<exists>r q. ir = Some r \<and> ir_anonymous r = None \<and>
        load_identity_config (e_lib (st_env st)) path (st_identity st path) = Inr (r, q :: 'k jwks_provider option)))"
  proof cases
    case 2
    from load_identity_Inr [OF 2(4), of p] have "ir_anonymous r = None" "\<forall>x. q = Some x \<longrightarrow> cache_ok p x" by blast+
    with 2 fresh show ?thesis by (auto split: option.splits)
  qed (use fresh in auto)
  then show "cache_ok p jp" and "gc_identity_path c = Some path \<Longrightarrow> path \<noteq> [] \<Longrightarrow>
      \<exists>r q. ir = Some r \<and> ir_anonymous r = None \<and>
        load_identity_config (e_lib (st_env st)) path (st_identity st path) = Inr (r, q :: 'k jwks_provider option)" by blast+
qed

lemma map_of_zip_emap:
  assumes "emap f xs = Inr ys" and "map_of (zip (map g xs) ys) n = Some y"
  shows "\<exists>x \<in> set xs. g x = n \<and> f x = Inr y"
  using assms by (induction xs arbitrary: ys) (auto simp: ebind_eq_Inr split: if_splits)

lemma built_hub:
  assumes "build_central_app st cfg = Inr c0" and "map_of (cn_hubs c0) name = Some hb0"
  obtains ir up where "central_resolver st cfg = Inr (ir, cn_jwks c0)" and "up \<in> set (gc_upstreams cfg)" and "uc_name up = name"
    and "build_hub st ir up = Inr hb0"
proof -
  obtain ir jp hubs where "central_resolver st cfg = Inr (ir, jp)" and "emap (build_hub st ir) (gc_upstreams cfg) = Inr hubs"
    and "c0 = \<lparr>cn_hubs = zip (map uc_name (gc_upstreams cfg)) hubs, cn_jwks = jp, cn_store_url = build_store cfg\<rparr>"
    using assms(1) unfolding build_central_app_def by (auto simp: ebind_eq_Inr)
  with map_of_zip_emap [of "build_hub st ir" "gc_upstreams cfg" hubs uc_name name hb0] assms(2) show thesis
    by (auto intro: that)
qed

section \<open>Runs of the service\<close>

lemma of_hub_simps [simp]:
  "of_hub n [] = []" "of_hub n (a @ b) = of_hub n a @ of_hub n b"
  "of_hub n (map (Pair m) evs) = (if n = m then evs else [])"
  by (auto simp: of_hub_def filter_map comp_def)

lemma in_of_hub: "e \<in> set (of_hub n tr) \<longleftrightarrow> (n, e) \<in> set tr"
  by (force simp: of_hub_def)

definition central_inv :: "'k idp \<Rightarrow> 'k central \<Rightarrow> (string \<times> hub_event) list \<Rightarrow> 'k central \<Rightarrow> bool" where
  "central_inv p c0 tr c \<longleftrightarrow>
     cache_ok p (cn_jwks c) \<and>
     (\<forall>name hb. map_of (cn_hubs c) name = Some hb \<longrightarrow>
        (\<exists>hb0. map_of (cn_hubs c0) name = Some hb0 \<and>
           hub_inv p (hb_resolver hb0) (hb_parts hb0) (of_hub name tr) hb (cn_jwks c)))"

lemma central_step_inv:
  assumes "central_step p c name evs c'" and inv: "central_inv p c0 tr c"
  shows "central_inv p c0 (tr @ map (Pair name) evs) c'"
  using assms(1)
proof cases
  case (on_hub hb hb' jp')
  from inv on_hub(2) obtain hb0 where hb0: "map_of (cn_hubs c0) name = Some hb0"
    "hub_inv p (hb_resolver hb0) (hb_parts hb0) (of_hub name tr) hb (cn_jwks c)" unfolding central_inv_def by blast
  have here: "hub_inv p (hb_resolver hb0) (hb_parts hb0) (of_hub name tr @ evs) hb' jp'"
    using on_hub(3) hb0(2) by (rule step_inv)
  then have cache: "cache_ok p jp'" unfolding hub_inv_def by blast
  have "\<exists>hb0. map_of (cn_hubs c0) n = Some hb0 \<and> hub_inv p (hb_resolver hb0) (hb_parts hb0) (of_hub n (tr @ map (Pair name) evs)) h jp'"
    if n: "map_of (cn_hubs c') n = Some h" for n h
  proof (cases "n = name")
    case True
    with n on_hub(1) have "h = hb'" by (simp add: set_hub_def update_conv')
    with True hb0 here show ?thesis by simp
  next
    case False
    with n on_hub(1) have "map_of (cn_hubs c) n = Some h" by (simp add: set_hub_def update_conv')
    with inv obtain hb1 where "map_of (cn_hubs c0) n = Some hb1"
      "hub_inv p (hb_resolver hb1) (hb_parts hb1) (of_hub n tr) h (cn_jwks c)" unfolding central_inv_def by blast
    with hub_inv_jwks cache False show ?thesis by auto
  qed
  with cache show ?thesis unfolding central_inv_def on_hub(1) by (simp add: set_hub_def)
qed

lemma central_run_inv:
  assumes "central_run p c0 tr c" and "build_central_app st cfg = Inr c0"
  shows "central_inv p c0 tr c"
  using assms
proof (induction rule: central_run.induct)
  case central_idle
  have "cache_ok p (cn_jwks c0)"
    using central_idle central_resolver_ok(1) by (auto simp: build_central_app_def ebind_eq_Inr)
  moreover have "hub_inv p (hb_resolver hb) (hb_parts hb) [] hb (cn_jwks c0)" if hb: "map_of (cn_hubs c0) name = Some hb" for name hb
  proof -
    obtain ir up where "build_hub st ir up = Inr hb" using built_hub [OF central_idle hb] by metis
    then obtain engine where "hb_objects hb = []" by (rule build_hub_Inr)
    with calculation show ?thesis by (simp add: hub_inv_def sessions_ok_def opened_once_def)
  qed
  ultimately show ?case unfolding central_inv_def by simp
next
  case (central_next tr c name evs c')
  then show ?case using central_step_inv by blast
qed

lemma central_line_owned:
  assumes cfg: "gc_identity_path cfg = Some path" "path \<noteq> []"
    and b: "build_central_app st cfg = Inr (c0 :: 'k central)" and run: "central_run p c0 tr c"
    and hb: "map_of (cn_hubs c) name = Some hb" and s: "map_of (hb_objects hb) sid = Some s" and l: "l \<in> set (hs_sent s)"
  shows "\<exists>up engine r q. up \<in> set (gc_upstreams cfg) \<and> uc_name up = name \<and>
     engine_load (e_lib (st_env st)) (map (st_policy_file st) (uc_policy up)) = Inr engine \<and>
     load_identity_config (e_lib (st_env st)) path (st_identity st path) = Inr (r, q :: 'k jwks_provider option) \<and>
     (\<exists>owner rq0 rq pr jp1 raw did h. (name, Opened sid rq0 (Some owner)) \<in> set tr \<and>
        (\<forall>rq' who'. (name, Opened sid rq' who') \<in> set tr \<longrightarrow> who' = Some owner) \<and>
        (name, Delivered sid rq (Some pr) raw did) \<in> set tr \<and>
        credential_proves p r jp1 rq pr \<and> pn_id pr = pn_id owner \<and> rq_body rq = Some (PDict raw) \<and>
        g_principal h = owner \<and> standard h engine (build_action_handlers True (Some deny_broker)) \<and>
        l \<in> set (upstream_lines (effects (on_client_line (encode (e_lib (st_env st)) raw)) h)))"
proof -
  from central_run_inv [OF run b] hb obtain hb0 where hb0: "map_of (cn_hubs c0) name = Some hb0"
    and inv: "hub_inv p (hb_resolver hb0) (hb_parts hb0) (of_hub name tr) hb (cn_jwks c)" unfolding central_inv_def by blast
  obtain ir up where ir: "central_resolver st cfg = Inr (ir, cn_jwks c0)" and up: "up \<in> set (gc_upstreams cfg)" "uc_name up = name"
    and bh: "build_hub st ir up = Inr hb0" using built_hub [OF b hb0] by metis
  obtain engine where e: "engine_load (e_lib (st_env st)) (map (st_policy_file st) (uc_policy up)) = Inr engine"
    "hb_resolver hb0 = ir" "sp_engine (hb_parts hb0) = engine" "sp_lib (hb_parts hb0) = e_lib (st_env st)"
    "parts_handlers (hb_parts hb0) = build_action_handlers True (Some deny_broker)" by (rule build_hub_Inr [OF bh])
  from central_resolver_ok(2) [OF ir cfg] obtain r q where r: "ir = Some r" "ir_anonymous r = None"
    "load_identity_config (e_lib (st_env st)) path (st_identity st path) = Inr (r, q :: 'k jwks_provider option)" by blast
  have inv2: "hub_inv p (Some r) (hb_parts hb0) (of_hub name tr) hb (cn_jwks c)" using inv e(2) r(1) by simp
  from inv_line_owned [OF inv2 r(2) s l, unfolded e(3,4,5) in_of_hub] obtain owner rq0 rq pr jp1 raw did h where
    o: "(name, Opened sid rq0 (Some owner)) \<in> set tr" and rest: "(name, Delivered sid rq (Some pr) raw did) \<in> set tr"
    "credential_proves p r jp1 rq pr" "pn_id pr = pn_id owner" "rq_body rq = Some (PDict raw)" "g_principal h = owner"
    "standard h engine (build_action_handlers True (Some deny_broker))"
    "l \<in> set (upstream_lines (effects (on_client_line (encode (e_lib (st_env st)) raw)) h))" by (elim exE conjE)
  have one: "\<forall>rq' who'. (name, Opened sid rq' who') \<in> set tr \<longrightarrow> who' = Some owner"
    using inv_opened_unique [OF inv2, unfolded in_of_hub] o by blast
  show ?thesis
    using up e(1) r(3) o one rest by blast
qed

end
