(* ===== verification/Sample_Http.thy ===== *)
theory Sample_Http
  imports Central_Mode Sample_Services
begin

text \<open>
  A central service with one upstream and one API key, and requests to it: a session is opened, a tool call is made and
  answered. Also the two places where a session does less than it says: a session whose
  upstream was given up on still forwards, and a repeated in-flight id loses an answer.
\<close>

definition bot_secret :: string where
  "bot_secret = replicate 64 (CHR ''a'')"

definition bot_key :: api_key_record where
  "bot_key = \<lparr>ak_principal_id = ''bot'', ak_key_sha256 = bot_secret, ak_roles = []\<rparr>"

definition hub_resolver :: resolver where
  "hub_resolver = \<lparr>ir_oidc = None, ir_mapping = None, ir_api_keys = Some [bot_key], ir_anonymous = None\<rparr>"

definition hub_parts :: session_parts where
  "hub_parts =
     \<lparr>sp_env = sample_env, sp_engine = sample_engine, sp_principal = default_principal, sp_redaction = True,
      sp_broker = Some deny_broker, sp_command = [''server'']\<rparr>"

definition hub0 :: hub where
  "hub0 = \<lparr>hb_parts = hub_parts, hb_resolver = Some hub_resolver, hb_objects = [], hb_listed = [], hb_monitor = None,
           hb_world = sample_world\<rparr>"

definition jwks0 :: "string jwks_provider" where
  "jwks0 = make_provider PNone 0"

definition init_message :: message where
  "init_message = [(PStr ''jsonrpc'', PStr ''2.0''), (PStr ''id'', PInt 1), (PStr ''method'', PStr ''initialize'')]"

definition bot_request :: "string option \<Rightarrow> message \<Rightarrow> http_request" where
  "bot_request sid m = \<lparr>rq_body = Some (PDict m), rq_session = sid, rq_authorization = Some (''ApiKey '' @ bot_secret)\<rparr>"

definition sample_draw :: "nat \<Rightarrow> draw" where
  "sample_draw t = \<lparr>dr_uid = ''h1'', dr_session = session_new ''h1'' ''t0'', dr_start = None, dr_ticket = t\<rparr>"

definition fetch_call :: message where
  "fetch_call = sample_call 2 ''web.fetch'' []"

definition post1 :: "answer \<times> hub \<times> string jwks_provider \<times> hub_event list" where
  "post1 = handle_post sample_idp (bot_request None init_message) (sample_draw 0) hub0 jwks0"

definition hub1 :: hub where "hub1 = fst (snd post1)"

definition post2 :: "answer \<times> hub \<times> string jwks_provider \<times> hub_event list" where
  "post2 = handle_post sample_idp (bot_request (Some ''h1'') fetch_call) ((sample_draw 1)\<lparr>dr_uid := ''h2''\<rparr>) hub1 jwks0"

definition hub2 :: hub where "hub2 = fst (snd post2)"

lemma draw_fresh_code:
  assumes "list_all (\<lambda>(sid, s). sid \<noteq> dr_uid d \<and> dr_ticket d \<notin> set (map fst (hs_futures s)) \<and>
    dr_ticket d \<notin> set (map fst (hs_waiters s)) \<and> dr_ticket d \<notin> set (map snd (hs_pending s))) (hb_objects hb)"
  shows "fresh_draw d hb"
proof -
  have el: "sid \<noteq> dr_uid d \<and> dr_ticket d \<notin> fst ` set (hs_futures s) \<and> dr_ticket d \<notin> fst ` set (hs_waiters s) \<and>
      dr_ticket d \<notin> snd ` set (hs_pending s)" if "(sid, s) \<in> set (hb_objects hb)" for sid s
    using assms that by (auto simp: list_all_iff)
  have "dr_uid d \<notin> fst ` set (hb_objects hb)"
  proof
    assume "dr_uid d \<in> fst ` set (hb_objects hb)"
    then obtain s where "(dr_uid d, s) \<in> set (hb_objects hb)" by force
    from el [OF this] show False by simp
  qed
  then have "map_of (hb_objects hb) (dr_uid d) = None" by (simp add: map_of_eq_None_iff)
  moreover have "map_of (hs_futures s) (dr_ticket d) = None \<and> map_of (hs_waiters s) (dr_ticket d) = None \<and>
      (\<forall>k. map_of (hs_pending s) k \<noteq> Some (dr_ticket d))" if "map_of (hb_objects hb) sid = Some s" for sid s
    using el [OF map_of_SomeD [OF that]] map_of_SomeD [of "hs_pending s"] by (force simp: map_of_eq_None_iff)
  ultimately show ?thesis unfolding fresh_draw_def by blast
qed

lemma post1_jwks: "fst (snd (snd post1)) = jwks0" by code_simp
lemma post2_jwks: "fst (snd (snd post2)) = jwks0" by code_simp

lemma post1_fresh: "fresh_draw (sample_draw 0) hub0"
  by (rule draw_fresh_code) (simp add: hub0_def)

lemma post2_fresh: "fresh_draw ((sample_draw 1)\<lparr>dr_uid := ''h2''\<rparr>) hub1"
  by (rule draw_fresh_code) code_simp

definition http_trace :: "hub_event list" where
  "http_trace = snd (snd (snd post1)) @ snd (snd (snd post2))"

lemma sample_steps:
  "hub_step sample_idp hub0 jwks0 (snd (snd (snd post1))) hub1 jwks0"
  "hub_step sample_idp hub1 jwks0 (snd (snd (snd post2))) hub2 jwks0"
proof -
  show "hub_step sample_idp hub0 jwks0 (snd (snd (snd post1))) hub1 jwks0"
    using post1_fresh post1_jwks
    by (intro hub_step.post [where rq = "bot_request None init_message" and d = "sample_draw 0" and a = "fst post1"])
      (simp_all add: post1_def hub1_def prod_eq_iff)
  show "hub_step sample_idp hub1 jwks0 (snd (snd (snd post2))) hub2 jwks0"
    using post2_fresh post2_jwks
    by (intro hub_step.post [where rq = "bot_request (Some ''h1'') fetch_call" and d = "(sample_draw 1)\<lparr>dr_uid := ''h2''\<rparr>" and a = "fst post2"])
      (simp_all add: post2_def hub2_def prod_eq_iff)
qed

lemma sample_hub_runs: "hub_run sample_idp hub0 jwks0 http_trace hub2 jwks0"
  using hub_run.next_step [OF hub_run.next_step [OF hub_run.idle sample_steps(1)] sample_steps(2)]
  by (simp add: http_trace_def)

lemma sample_hub_start: "hb_objects hub0 = []" "cache_ok sample_idp jwks0" "hb_resolver hub0 = Some hub_resolver" "ir_anonymous hub_resolver = None"
  by (simp_all add: hub0_def jwks0_def cache_ok_def make_provider_def hub_resolver_def)

lemma sample_hub_sent: "\<exists>s l. map_of (hb_objects hub2) ''h1'' = Some s \<and> l \<in> set (hs_sent s)"
proof -
  have "case map_of (hb_objects hub2) ''h1'' of None \<Rightarrow> False | Some s \<Rightarrow> length (hs_sent s) = 2" by code_simp
  then obtain s where "map_of (hb_objects hub2) ''h1'' = Some s" "length (hs_sent s) = 2" by (auto split: option.splits)
  then show ?thesis by (cases "hs_sent s") auto
qed

text \<open>A call that is refused is answered at once: the wait ends with the denial.\<close>

definition post3 :: "answer \<times> hub \<times> string jwks_provider \<times> hub_event list" where
  "post3 = handle_post sample_idp (bot_request (Some ''h1'') (sample_call 3 ''mail.send'' []))
     ((sample_draw 2)\<lparr>dr_uid := ''h2''\<rparr>) hub2 jwks0"

definition hub3 :: hub where "hub3 = fst (snd post3)"

lemma sample_hub_replies:
  "\<exists>tr hb body. hub_run sample_idp hub0 jwks0 tr hb jwks0 \<and> Replied ''h1'' (PInt 3) body \<in> set tr"
proof -
  have fresh: "fresh_draw ((sample_draw 2)\<lparr>dr_uid := ''h2''\<rparr>) hub2" by (rule draw_fresh_code) code_simp
  have jp: "fst (snd (snd post3)) = jwks0" by code_simp
  have "hub_step sample_idp hub2 jwks0 (snd (snd (snd post3))) hub3 jwks0"
    using fresh jp by (intro hub_step.post [where rq = "bot_request (Some ''h1'') (sample_call 3 ''mail.send'' [])"
        and d = "(sample_draw 2)\<lparr>dr_uid := ''h2''\<rparr>" and a = "fst post3"]) (simp_all add: post3_def hub3_def prod_eq_iff)
  with sample_hub_runs have run: "hub_run sample_idp hub0 jwks0 (http_trace @ snd (snd (snd post3))) hub3 jwks0"
    by (rule hub_run.next_step)
  have "case map_of (hb_objects hub3) ''h1'' of None \<Rightarrow> False | Some s \<Rightarrow> map_of (hs_waiters s) 2 = Some (PInt 3) \<and>
      (case end_request False 2 s of Some (Inr _, _) \<Rightarrow> True | _ \<Rightarrow> False)" by code_simp
  then obtain s body s' where "map_of (hb_objects hub3) ''h1'' = Some s" "map_of (hs_waiters s) 2 = Some (PInt 3)"
    "end_request False 2 s = Some (Inr body, s')" by (auto split: option.splits sum.splits)
  from hub_run.next_step [OF run hub_step.reply [OF this]]
  have "hub_run sample_idp hub0 jwks0 ((http_trace @ snd (snd (snd post3))) @ [Replied ''h1'' (PInt 3) body])
      (put_object ''h1'' s' hub3) jwks0" .
  moreover have "Replied ''h1'' (PInt 3) body \<in> set ((http_trace @ snd (snd (snd post3))) @ [Replied ''h1'' (PInt 3) body])" by simp
  ultimately show ?thesis by blast
qed

section \<open>The service around the hub\<close>

definition crm_document :: pyval where
  "crm_document =
     PDict [(PStr ''upstreams'', PList [PDict [(PStr ''name'', PStr ''crm''), (PStr ''command'', PList [PStr ''server'']),
              (PStr ''policy'', PStr ''pack'')]]),
            (PStr ''identity'', PDict [(PStr ''config'', PStr ''identity.yaml'')])]"

definition crm_config :: gateway_config where
  "crm_config =
     \<lparr>gc_upstreams = [\<lparr>uc_name = ''crm'', uc_command = [''server''], uc_policy = [''pack'']\<rparr>], gc_spool_path = ''audit.log'',
      gc_state_backend = ''memory'', gc_state_url = PNone, gc_names = [''crm''], gc_identity_path = Some ''/etc/identity.yaml''\<rparr>"

lemma crm_config_loads:
  "load_gateway_config sample_lib ''gateway.yaml'' ((@) ''/etc/'') (Some (Yaml crm_document)) = Inr crm_config"
  by code_simp

definition crm_identity :: pyval where
  "crm_identity =
     PDict [(PStr ''schema_version'', PInt 1),
            (PStr ''api_keys'', PList [PDict [(PStr ''id'', PStr ''bot''), (PStr ''key_sha256'', PStr bot_secret)]])]"

definition crm_site :: site where
  "crm_site =
     \<lparr>st_env = sample_env,
      st_policy_file = (\<lambda>f. \<lparr>lf_path = f, lf_stem = f, lf_json = False, lf_content = Some (Yaml sample_doc)\<rparr>),
      st_identity = (\<lambda>f. Some crm_identity), st_service = sample_service\<rparr>"

definition central0 :: "string central" where
  "central0 = \<lparr>cn_hubs = [(''crm'', hub0)], cn_jwks = jwks0, cn_store_url = None\<rparr>"

lemma crm_identity_loads:
  "load_identity_config sample_lib ''/etc/identity.yaml'' (Some crm_identity) = Inr (hub_resolver, None :: string jwks_provider option)"
  by code_simp

lemma central0_built: "build_central_app crm_site crm_config = Inr central0"
proof -
  have "central_resolver crm_site crm_config = Inr (Some hub_resolver, jwks0)"
    by (simp add: central_resolver_def crm_config_def crm_site_def sample_env_def crm_identity_loads jwks0_def)
  moreover have "engine_load sample_lib [\<lparr>lf_path = ''pack'', lf_stem = ''pack'', lf_json = False, lf_content = Some (Yaml sample_doc)\<rparr>]
      = Inr sample_engine"
    by (simp add: engine_load_def load_policy_file_def sample_layer_parsed sample_engine_built)
  ultimately show ?thesis
    by (simp add: build_central_app_def build_hub_def crm_config_def crm_site_def central0_def hub0_def hub_parts_def
        sample_env_def sample_world_def build_store_def)
qed

definition central2 :: "string central" where
  "central2 = central0\<lparr>cn_hubs := [(''crm'', hub2)]\<rparr>"

lemma sample_central_runs: "central_run sample_idp central0 (map (Pair ''crm'') http_trace) central2"
proof -
  let ?c1 = "central0\<lparr>cn_hubs := [(''crm'', hub1)]\<rparr>"
  have "central_step sample_idp central0 ''crm'' (snd (snd (snd post1))) (set_hub ''crm'' hub1 jwks0 central0)"
    using sample_steps(1) by (intro central_step.on_hub) (simp_all add: central0_def)
  moreover have "set_hub ''crm'' hub1 jwks0 central0 = ?c1" by (simp add: set_hub_def central0_def)
  ultimately have s1: "central_step sample_idp central0 ''crm'' (snd (snd (snd post1))) ?c1" by simp
  have "central_step sample_idp ?c1 ''crm'' (snd (snd (snd post2))) (set_hub ''crm'' hub2 jwks0 ?c1)"
    using sample_steps(2) by (intro central_step.on_hub) (simp_all add: central0_def)
  moreover have "set_hub ''crm'' hub2 jwks0 ?c1 = central2" by (simp add: set_hub_def central2_def central0_def)
  ultimately have s2: "central_step sample_idp ?c1 ''crm'' (snd (snd (snd post2))) central2" by simp
  from central_run.central_next [OF central_run.central_next [OF central_run.central_idle s1] s2]
  show ?thesis by (simp add: http_trace_def)
qed

section \<open>Where a session does less than it says\<close>

text \<open>
  \<open>_on_upstream_exit\<close> says that further requests fail closed, but nothing reads the mark: after an
  over-long upstream line ended the reader, a call is still written to the running server, whose
  answer nobody reads.
\<close>

definition session1 :: http_session where
  "session1 = attach hub1 (the (map_of (hb_objects hub1) ''h1''))"

definition given_up :: http_session where
  "given_up = fst (snd (session_upstream_exit PNone True session1))"

lemma given_up_session_forwards:
  "hs_closed given_up \<and> (case begin_request 1 fetch_call (PInt 2) given_up of
     (r, s, did) \<Rightarrow> r = None \<and> hs_sent s = hs_sent given_up @ upstream_lines did \<and> upstream_lines did \<noteq> [])"
  by code_simp

text \<open>
  Two calls in flight with one id: the second takes over the entry of the first, the timeout of
  the first removes the entry of the second, and the answer goes to the event stream while the
  second call still waits.
\<close>

definition twice :: http_session where
  "twice = fst (snd (begin_request 2 fetch_call (PInt 2) (fst (snd (begin_request 1 fetch_call (PInt 2) session1)))))"

definition web_answer :: string where
  "web_answer = encode sample_lib (sample_result 2 ''page'')"

lemma repeated_id_loses_answer:
  "case end_request True 1 twice of
     Some (Inr _, s) \<Rightarrow>
       (case feed (on_upstream_line web_answer) s of
          (r, s', did) \<Rightarrow> r = None \<and> hs_sse s' = client_lines did \<and> client_lines did \<noteq> [] \<and>
            map_of (hs_waiters s') 2 = Some (PInt 2) \<and> map_of (hs_futures s') 2 = Some Waiting)
   | _ \<Rightarrow> False"
  by code_simp

end
