(* ===== verification/Audit_Sinks.thy ===== *)
theory Audit_Sinks
  imports Audit_Forwarder Connector_Packs Console_Auth
begin

text \<open>
  \<open>audit/sinks/webhook.py\<close>, \<open>splunk.py\<close> and \<open>s3.py\<close>: how a batch of events becomes one request, and
  when it counts as delivered. The HTTP exchange, the S3 client, gzip and the parser of
  timestamps are parameters; requests are numbered, so that the other side may answer each
  attempt as it likes.

  The contract every sink keeps is a locale: a delivery succeeds only if the other side
  acknowledged a request that carries the whole batch. With it, a pump that moves the watermark
  past events has their acknowledgement.
\<close>

section \<open>Bodies\<close>

text \<open>\<open>json.dumps\<close> with its default separators.\<close>

abbreviation json_spaced :: "pylib \<Rightarrow> pyval \<Rightarrow> string" where
  "json_spaced \<equiv> json_text SpacedAscii"

definition ndjson :: "pylib \<Rightarrow> pydict list \<Rightarrow> string" where
  "ndjson lib batch = join [CHR 10] (map (\<lambda>e. json_spaced lib (PDict e)) batch) @ [CHR 10]"

section \<open>Requests\<close>

datatype http_outcome = Status int | NoAnswer string

type_synonym headers = "(string \<times> string) list"
type_synonym exchange = "nat \<Rightarrow> string \<Rightarrow> headers \<Rightarrow> string \<Rightarrow> http_outcome"

definition http_scheme :: "string \<Rightarrow> bool" where
  "http_scheme url = (prefix ''http://'' (lower url) \<or> prefix ''https://'' (lower url))"

definition urllib_post :: "exchange \<Rightarrow> nat \<Rightarrow> string \<Rightarrow> headers \<Rightarrow> string \<Rightarrow> int res" where
  "urllib_post ex n url headers body =
     (if \<not> http_scheme url then Inl (OtherError (''webhook url must be http(s): '' @ quoted url))
      else case ex n url headers body of
        Status code \<Rightarrow> Inr code
      | NoAnswer e \<Rightarrow> Inl (OtherError (''webhook POST to '' @ url @ '' failed: '' @ e)))"

definition judge_status :: "string \<Rightarrow> int \<Rightarrow> nat \<Rightarrow> unit res" where
  "judge_status who status events =
     (if 200 \<le> status \<and> status < 300 then Inr ()
      else Inl (OtherError (who @ '' returned HTTP '' @ show_int status @ '' for '' @ show_nat events @ '' event(s)'')))"

section \<open>Webhook\<close>

record webhook =
  wh_url :: string
  wh_headers :: headers
  wh_as_array :: bool

definition webhook_encode :: "pylib \<Rightarrow> webhook \<Rightarrow> pydict list \<Rightarrow> string \<times> string" where
  "webhook_encode lib wh batch =
     (if wh_as_array wh then (utf8_encode (json_spaced lib (PList (map PDict batch))), ''application/json'')
      else (utf8_encode (ndjson lib batch), ''application/x-ndjson''))"

text \<open>\<open>{"Content-Type": ..., **self.headers}\<close>: a configured header of the same name wins.\<close>

definition webhook_headers :: "webhook \<Rightarrow> string \<Rightarrow> headers" where
  "webhook_headers wh content_type = fold (\<lambda>(k, v) h. AList.update k v h) (wh_headers wh) [(''Content-Type'', content_type)]"

definition webhook_deliver :: "pylib \<Rightarrow> exchange \<Rightarrow> webhook \<Rightarrow> nat \<Rightarrow> pydict list \<Rightarrow> unit res" where
  "webhook_deliver lib ex wh n batch =
     (let (body, content_type) = webhook_encode lib wh batch in
      ebind (urllib_post ex n (wh_url wh) (webhook_headers wh content_type) body) (\<lambda>status.
      judge_status ''webhook'' status (length batch)))"

section \<open>Splunk\<close>

record splunk =
  sk_url :: string
  sk_token :: string
  sk_sourcetype :: string
  sk_index :: "string option"

definition rstrip_slashes :: "string \<Rightarrow> string" where
  "rstrip_slashes s = rev (dropWhile (\<lambda>c. c = CHR ''/'') (rev s))"

definition make_splunk :: "string \<Rightarrow> string \<Rightarrow> string \<Rightarrow> string option \<Rightarrow> splunk res" where
  "make_splunk base_url token sourcetype index =
     (if token = [] then Inl (OtherError ''Splunk HEC needs a token'')
      else Inr \<lparr>sk_url = rstrip_slashes base_url @ ''/services/collector/event'', sk_token = token,
                sk_sourcetype = sourcetype, sk_index = index\<rparr>)"

definition event_time :: "pydict \<Rightarrow> pyval" where
  "event_time event = (if truthy (dget_none event ''ts'') then dget_none event ''ts'' else dget_none event ''time'')"

definition splunk_time :: "pydict \<Rightarrow> pyval" where
  "splunk_time event =
     (if truthy (event_time event) then event_time event
      else case dget_none event ''unmapped'' of PDict u \<Rightarrow> dget_none u ''ts'' | _ \<Rightarrow> event_time event)"

definition splunk_envelope :: "splunk \<Rightarrow> pydict \<Rightarrow> pydict" where
  "splunk_envelope sk event =
     [(PStr ''event'', PDict event), (PStr ''sourcetype'', PStr (sk_sourcetype sk))]
     @ (if truthy (splunk_time event) then [(PStr ''time'', splunk_time event)] else [])
     @ (case sk_index sk of None \<Rightarrow> [] | Some i \<Rightarrow> if i = [] then [] else [(PStr ''index'', PStr i)])"

definition splunk_deliver :: "pylib \<Rightarrow> exchange \<Rightarrow> splunk \<Rightarrow> nat \<Rightarrow> pydict list \<Rightarrow> unit res" where
  "splunk_deliver lib ex sk n batch =
     ebind (urllib_post ex n (sk_url sk)
              [(''Authorization'', ''Splunk '' @ sk_token sk), (''Content-Type'', ''application/json'')]
              (utf8_encode (ndjson lib (map (splunk_envelope sk) batch)))) (\<lambda>status.
     judge_status ''Splunk HEC'' status (length batch))"

section \<open>S3\<close>

text \<open>
  The client's \<open>put_object\<close> by attempt, bucket, key and body, with the error if it raised; the day
  and hour (UTC) of an ISO timestamp, and the clock: its day and hour and its milliseconds.
\<close>

record s3_world =
  s3_put :: "nat \<Rightarrow> string \<Rightarrow> string \<Rightarrow> string \<Rightarrow> string option"
  s3_gzip :: "string \<Rightarrow> string"
  s3_when :: "string \<Rightarrow> (string \<times> string) option"
  s3_now :: "nat \<Rightarrow> string \<times> string"
  s3_millis :: "nat \<Rightarrow> nat"

record s3_sink =
  s3_bucket :: string
  s3_prefix :: string

definition strip_slashes :: "string \<Rightarrow> string" where
  "strip_slashes s = rstrip_slashes (dropWhile (\<lambda>c. c = CHR ''/'') s)"

definition make_s3 :: "string \<Rightarrow> string \<Rightarrow> s3_sink res" where
  "make_s3 bucket pre =
     (if bucket = [] then Inl (OtherError ''the S3 sink needs a bucket'')
      else Inr \<lparr>s3_bucket = bucket, s3_prefix = strip_slashes pre\<rparr>)"

fun partition_time :: "s3_world \<Rightarrow> nat \<Rightarrow> pydict list \<Rightarrow> string \<times> string" where
  "partition_time w n [] = s3_now w n"
| "partition_time w n (event # events) =
     (case event_time event of
        PStr ts \<Rightarrow> (case s3_when w ts of Some t \<Rightarrow> t | None \<Rightarrow> partition_time w n events)
      | _ \<Rightarrow> partition_time w n events)"

definition s3_key :: "s3_world \<Rightarrow> s3_sink \<Rightarrow> nat \<Rightarrow> pydict list \<Rightarrow> string" where
  "s3_key w s n batch =
     (let (day, hour) = partition_time w n batch in
      s3_prefix s @ ''/dt='' @ day @ ''/hour='' @ hour @ ''/'' @
      show_nat (s3_millis w n) @ ''-'' @ show_nat (length batch) @ ''.ndjson.gz'')"

definition s3_deliver :: "pylib \<Rightarrow> s3_world \<Rightarrow> s3_sink \<Rightarrow> nat \<Rightarrow> pydict list \<Rightarrow> unit res" where
  "s3_deliver lib w s n batch =
     (case s3_put w n (s3_bucket s) (s3_key w s n batch) (s3_gzip w (utf8_encode (ndjson lib batch))) of
        None \<Rightarrow> Inr ()
      | Some e \<Rightarrow> Inl (OtherError (''S3 put_object to s3://'' @ s3_bucket s @ '' failed: '' @ e)))"

section \<open>One line per event\<close>

lemma split_on_join:
  assumes "\<forall>x \<in> set xs. c \<notin> set x" and "xs \<noteq> []"
  shows "split_on c (join [c] xs @ [c]) = xs @ [[]]"
  using assms by (induction "[c]" xs rule: join.induct) (simp_all add: split_on_append split_on_none)

text \<open>An event cannot break out of its line: a body splits at its newlines into the events, in order.\<close>

lemma ndjson_lines:
  assumes "plain_floats lib" and "batch \<noteq> []"
  shows "split_on (CHR 10) (ndjson lib batch) = map (\<lambda>e. json_spaced lib (PDict e)) batch @ [[]]"
  unfolding ndjson_def using json_dumps_no_newline [of lib] assms
  by (intro split_on_join) (simp_all add: plain_floats_def del: json_text.simps)

section \<open>The contract of a sink\<close>

text \<open>
  What a delivery is to the forwarder. Whether a batch landed although the sink raised (a timeout
  after the request went out) is not for the sink to know.
\<close>

definition sink_answer :: "bool \<Rightarrow> unit res \<Rightarrow> delivery" where
  "sink_answer landed r =
     (case r of Inr _ \<Rightarrow> Accepted | Inl e \<Rightarrow> if landed then InDoubt (exn_str e) else SinkDown (exn_str e))"

locale event_sink =
  fixes deliver :: "nat \<Rightarrow> pydict list \<Rightarrow> unit res"
    and acknowledged :: "nat \<Rightarrow> pydict list \<Rightarrow> bool"
  assumes delivered_acknowledged: "deliver n batch = Inr () \<Longrightarrow> acknowledged n batch"
    and refused_is_error: "deliver n batch = Inl e \<Longrightarrow> \<exists>msg. e = OtherError msg"
begin

lemma answer_cases: "sink_answer landed (deliver n batch) = Accepted \<and> acknowledged n batch \<or>
    (\<exists>msg. sink_answer landed (deliver n batch) = (if landed then InDoubt msg else SinkDown msg))"
  using delivered_acknowledged by (cases "deliver n batch") (auto simp: sink_answer_def)

text \<open>A pump that reports events as delivered has the acknowledgement of their batch; a failed one keeps its watermark.\<close>

lemma pump_acknowledged:
  assumes "watermark_load lib (fs_watermark st) = Inr start" and "read_spool lib spool (nat start) = Inr res"
    and "rr_records res \<noteq> []" and "map_batch fw (take (nat (fw_batch_size fw)) (rr_records res)) = Inr batch" and "batch \<noteq> []"
    and "pump_once lib fw spool (sink_answer landed (deliver n batch)) st = Inr (Some r, st')"
  shows "fr_ok r \<and> fr_delivered r = length batch \<and> acknowledged n batch \<and> fs_accepted st' = fs_accepted st @ batch \<or>
    \<not> fr_ok r \<and> fs_watermark st' = fs_watermark st \<and>
      fs_accepted st' = (if landed then fs_accepted st @ batch else fs_accepted st)"
  using answer_cases [of landed n batch] assms by (auto simp: pump_once_def Let_def split: if_splits)

end

definition http_ok :: "http_outcome \<Rightarrow> bool" where
  "http_ok h = (case h of Status code \<Rightarrow> 200 \<le> code \<and> code < 300 | NoAnswer _ \<Rightarrow> False)"

lemma post_judged:
  assumes "ebind (urllib_post ex n url hs body) (\<lambda>status. judge_status who status k) = Inr ()"
  shows "http_scheme url \<and> http_ok (ex n url hs body)"
  using assms by (auto simp: urllib_post_def judge_status_def http_ok_def ebind_eq_Inr split: if_splits http_outcome.splits)

lemma post_refused:
  assumes "ebind (urllib_post ex n url hs body) (\<lambda>status. judge_status who status k) = Inl e"
  shows "\<exists>msg. e = OtherError msg"
  using assms by (auto simp: urllib_post_def judge_status_def ebind_eq_Inl split: if_splits http_outcome.splits)

definition webhook_acknowledged :: "pylib \<Rightarrow> exchange \<Rightarrow> webhook \<Rightarrow> nat \<Rightarrow> pydict list \<Rightarrow> bool" where
  "webhook_acknowledged lib ex wh n batch \<longleftrightarrow>
     (case webhook_encode lib wh batch of (body, ct) \<Rightarrow> http_ok (ex n (wh_url wh) (webhook_headers wh ct) body))"

definition splunk_acknowledged :: "pylib \<Rightarrow> exchange \<Rightarrow> splunk \<Rightarrow> nat \<Rightarrow> pydict list \<Rightarrow> bool" where
  "splunk_acknowledged lib ex sk n batch \<longleftrightarrow>
     http_ok (ex n (sk_url sk) [(''Authorization'', ''Splunk '' @ sk_token sk), (''Content-Type'', ''application/json'')]
       (utf8_encode (ndjson lib (map (splunk_envelope sk) batch))))"

definition s3_stored :: "pylib \<Rightarrow> s3_world \<Rightarrow> s3_sink \<Rightarrow> nat \<Rightarrow> pydict list \<Rightarrow> bool" where
  "s3_stored lib w s n batch \<longleftrightarrow>
     s3_put w n (s3_bucket s) (s3_key w s n batch) (s3_gzip w (utf8_encode (ndjson lib batch))) = None"

interpretation wh: event_sink "webhook_deliver lib ex hook" "webhook_acknowledged lib ex hook"
  by unfold_locales
    (auto simp: webhook_deliver_def webhook_acknowledged_def Let_def split: prod.splits dest: post_judged post_refused)

interpretation hec: event_sink "splunk_deliver lib ex sp" "splunk_acknowledged lib ex sp"
  by unfold_locales (auto simp: splunk_deliver_def splunk_acknowledged_def dest: post_judged post_refused)

interpretation s3: event_sink "s3_deliver lib w bucket" "s3_stored lib w bucket"
  by unfold_locales (auto simp: s3_deliver_def s3_stored_def split: option.splits)

text \<open>
  The module says that two batches of an hour never collide; two of equal length in the same
  millisecond have the same key, and the second object replaces the first.
\<close>

lemma s3_keys_collide:
  assumes "s3_millis w n = s3_millis w m" and "length a = length b" and "partition_time w n a = partition_time w m b"
  shows "s3_key w s n a = s3_key w s m b"
  using assms by (simp add: s3_key_def)

end
