(* ===== verification/Policy_Signing.thy ===== *)
theory Policy_Signing
  imports Policy_Bundles
begin

text \<open>
  \<open>policy/signing.py\<close>: Ed25519 keys of policy bundles and their files. The \<open>cryptography\<close> package is
  a parameter (and may be missing, which every operation that needs it answers with an error).
  What the code relies on in it is \<open>ed_ok\<close>: a signature verifies under the public half, raw and PEM
  forms read back, and a private PEM is not a public one.

  The lemmas show that a key written out and loaded again signs and verifies as before, that the
  public half is the same whichever file it comes from, and that the keys so obtained are what
  \<open>Policy_Bundles\<close> asks of its signatures.
\<close>

section \<open>Keys\<close>

text \<open>A key found in a PEM file: an Ed25519 key, or one of another type, by the name of its class.\<close>

datatype 'k pem_key = Ed25519Key 'k | OtherKey string

record ('priv, 'pub) ed25519 =
  ed_installed :: bool
  ed_public :: "'priv \<Rightarrow> 'pub"
  ed_raw :: "'pub \<Rightarrow> string"
  ed_from_raw :: "string \<Rightarrow> 'pub option"
  ed_sign :: "'priv \<Rightarrow> string \<Rightarrow> string"
  ed_verify :: "'pub \<Rightarrow> string \<Rightarrow> string \<Rightarrow> bool"
  ed_private_pem :: "'priv \<Rightarrow> string"
  ed_public_pem :: "'pub \<Rightarrow> string"
  ed_load_private :: "string \<Rightarrow> 'priv pem_key option"
  ed_load_public :: "string \<Rightarrow> 'pub pem_key option"

definition ed_ok :: "('priv, 'pub) ed25519 \<Rightarrow> bool" where
  "ed_ok ed \<longleftrightarrow>
     ed_installed ed \<and>
     (\<forall>k m. ed_verify ed (ed_public ed k) (ed_sign ed k m) m) \<and> (\<forall>v. ed_from_raw ed (ed_raw ed v) = Some v) \<and>
     (\<forall>v. ed_load_public ed (ed_public_pem ed v) = Some (Ed25519Key v)) \<and>
     (\<forall>k. ed_load_private ed (ed_private_pem ed k) = Some (Ed25519Key k)) \<and>
     (\<forall>k. ed_load_public ed (ed_private_pem ed k) = None)"

definition require_crypto :: "('priv, 'pub) ed25519 \<Rightarrow> unit res" where
  "require_crypto ed =
     ensure (ed_installed ed) (OtherError ''policy-bundle signing needs the [vault] extra (cryptography)'')"

definition key_id :: "(string \<Rightarrow> string) \<Rightarrow> string \<Rightarrow> string" where
  "key_id sha256_hex public_raw = take 16 (sha256_hex public_raw)"

record 'priv sign_key =
  sk_key :: 'priv
  sk_public_raw :: string

record 'pub verify_key =
  vk_key :: 'pub
  vk_public_raw :: string

definition verifying_from_raw :: "('priv, 'pub) ed25519 \<Rightarrow> string \<Rightarrow> 'pub verify_key res" where
  "verifying_from_raw ed public_raw =
     ebind (require_crypto ed) (\<lambda>_.
     case ed_from_raw ed public_raw of
       None \<Rightarrow> Inl (OtherError ''not a valid Ed25519 public key'')
     | Some k \<Rightarrow> Inr \<lparr>vk_key = k, vk_public_raw = public_raw\<rparr>)"

definition sign_bytes :: "('priv, 'pub) ed25519 \<Rightarrow> 'priv sign_key \<Rightarrow> string \<Rightarrow> string" where
  "sign_bytes ed sk msg = ed_sign ed (sk_key sk) msg"

definition verifying_key_of :: "('priv, 'pub) ed25519 \<Rightarrow> 'priv sign_key \<Rightarrow> 'pub verify_key res" where
  "verifying_key_of ed sk = verifying_from_raw ed (sk_public_raw sk)"

text \<open>\<open>verify\<close> turns the exception of the package into a truth value.\<close>

definition verify_bytes :: "('priv, 'pub) ed25519 \<Rightarrow> 'pub verify_key \<Rightarrow> string \<Rightarrow> string \<Rightarrow> bool" where
  "verify_bytes ed vk signature msg = ed_verify ed (vk_key vk) signature msg"

text \<open>The key the package drew.\<close>

definition generate_keypair :: "('priv, 'pub) ed25519 \<Rightarrow> 'priv \<Rightarrow> 'priv sign_key res" where
  "generate_keypair ed drawn =
     ebind (require_crypto ed) (\<lambda>_. Inr \<lparr>sk_key = drawn, sk_public_raw = ed_raw ed (ed_public ed drawn)\<rparr>)"

section \<open>Files\<close>

definition private_key_to_pem :: "('priv, 'pub) ed25519 \<Rightarrow> 'priv sign_key \<Rightarrow> string res" where
  "private_key_to_pem ed sk = ebind (require_crypto ed) (\<lambda>_. Inr (ed_private_pem ed (sk_key sk)))"

definition public_key_to_pem :: "('priv, 'pub) ed25519 \<Rightarrow> string \<Rightarrow> string res" where
  "public_key_to_pem ed public_raw =
     ebind (require_crypto ed) (\<lambda>_.
     case ed_from_raw ed public_raw of
       None \<Rightarrow> Inl (ValueError ''An Ed25519 public key is 32 bytes long'')
     | Some k \<Rightarrow> Inr (ed_public_pem ed k))"

definition public_key_b64 :: "(string \<Rightarrow> string) \<Rightarrow> string \<Rightarrow> string" where
  "public_key_b64 b64encode public_raw = b64encode public_raw"

definition public_raw_from_b64 :: "(string \<Rightarrow> string option) \<Rightarrow> string \<Rightarrow> string res" where
  "public_raw_from_b64 b64decode txt =
     (case b64decode txt of None \<Rightarrow> Inl (OtherError ''public key is not valid base64'') | Some raw \<Rightarrow> Inr raw)"

datatype key_file = MissingFile | UnreadableFile string | KeyBytes string

definition read_key_file :: "string \<Rightarrow> key_file \<Rightarrow> string res" where
  "read_key_file path f =
     (case f of
        MissingFile \<Rightarrow> Inl (OtherError (''key file not found: '' @ path))
      | UnreadableFile e \<Rightarrow> Inl (OtherError (''cannot read key file '' @ path @ '': '' @ e))
      | KeyBytes data \<Rightarrow> Inr data)"

definition load_signing_key :: "('priv, 'pub) ed25519 \<Rightarrow> string \<Rightarrow> key_file \<Rightarrow> 'priv sign_key res" where
  "load_signing_key ed path f =
     ebind (require_crypto ed) (\<lambda>_.
     ebind (read_key_file path f) (\<lambda>data.
     case ed_load_private ed data of
       None \<Rightarrow> Inl (OtherError (path @ '': not a valid PEM private key''))
     | Some (OtherKey t) \<Rightarrow> Inl (OtherError (path @ '': expected an Ed25519 private key, got '' @ t))
     | Some (Ed25519Key k) \<Rightarrow> Inr \<lparr>sk_key = k, sk_public_raw = ed_raw ed (ed_public ed k)\<rparr>))"

text \<open>\<open>load_verifying_key\<close> falls back to the public half of a private PEM.\<close>

definition public_half :: "('priv, 'pub) ed25519 \<Rightarrow> string \<Rightarrow> string \<Rightarrow> 'pub pem_key res" where
  "public_half ed path data =
     (case ed_load_public ed data of
        Some k \<Rightarrow> Inr k
      | None \<Rightarrow>
          (case ed_load_private ed data of
             None \<Rightarrow> Inl (OtherError (path @ '': not a valid PEM public key''))
           | Some (OtherKey t) \<Rightarrow> Inl (OtherError (path @ '': not an Ed25519 key''))
           | Some (Ed25519Key k) \<Rightarrow> Inr (Ed25519Key (ed_public ed k))))"

definition load_verifying_key :: "('priv, 'pub) ed25519 \<Rightarrow> string \<Rightarrow> key_file \<Rightarrow> 'pub verify_key res" where
  "load_verifying_key ed path f =
     ebind (require_crypto ed) (\<lambda>_.
     ebind (read_key_file path f) (\<lambda>data.
     ebind (public_half ed path data) (\<lambda>k.
     case k of
       OtherKey t \<Rightarrow> Inl (OtherError (path @ '': expected an Ed25519 public key, got '' @ t))
     | Ed25519Key v \<Rightarrow> Inr \<lparr>vk_key = v, vk_public_raw = ed_raw ed v\<rparr>)))"

section \<open>Round trips\<close>

definition public_part :: "('priv, 'pub) ed25519 \<Rightarrow> 'priv sign_key \<Rightarrow> 'pub verify_key" where
  "public_part ed sk = \<lparr>vk_key = ed_public ed (sk_key sk), vk_public_raw = ed_raw ed (ed_public ed (sk_key sk))\<rparr>"

definition coherent :: "('priv, 'pub) ed25519 \<Rightarrow> 'priv sign_key \<Rightarrow> bool" where
  "coherent ed sk \<longleftrightarrow> sk_public_raw sk = ed_raw ed (ed_public ed (sk_key sk))"

lemma made_coherent:
  "generate_keypair ed drawn = Inr sk \<Longrightarrow> coherent ed sk"
  "load_signing_key ed path f = Inr sk \<Longrightarrow> coherent ed sk"
  by (auto simp: generate_keypair_def load_signing_key_def coherent_def ebind_def split: sum.splits option.splits pem_key.splits)

lemma keys_survive_files:
  assumes "ed_ok ed" and "coherent ed sk"
  obtains priv pub where "private_key_to_pem ed sk = Inr priv" and "public_key_to_pem ed (sk_public_raw sk) = Inr pub"
    and "load_signing_key ed p1 (KeyBytes priv) = Inr sk"
    and "load_verifying_key ed p2 (KeyBytes pub) = Inr (public_part ed sk)"
    and "load_verifying_key ed p3 (KeyBytes priv) = Inr (public_part ed sk)"
    and "verifying_key_of ed sk = Inr (public_part ed sk)"
  using assms
  by (intro that [of "ed_private_pem ed (sk_key sk)" "ed_public_pem ed (ed_public ed (sk_key sk))"])
    (simp_all add: ed_ok_def coherent_def private_key_to_pem_def public_key_to_pem_def load_signing_key_def load_verifying_key_def
      public_half_def verifying_key_of_def verifying_from_raw_def require_crypto_def read_key_file_def public_part_def)

text \<open>Nothing loads without the package, nor a key of another type.\<close>

lemma no_crypto_no_keys:
  assumes "\<not> ed_installed ed"
  shows "isl (load_signing_key ed path f)" and "isl (load_verifying_key ed path f)" and "isl (verifying_from_raw ed raw)"
  using assms by (simp_all add: load_signing_key_def load_verifying_key_def verifying_from_raw_def require_crypto_def ensure_def)

lemma other_keys_refused:
  assumes "load_verifying_key ed path (KeyBytes data) = Inr vk"
  shows "ed_load_public ed data = Some (Ed25519Key (vk_key vk)) \<or>
    ed_load_public ed data = None \<and> (\<exists>k. ed_load_private ed data = Some (Ed25519Key k) \<and> vk_key vk = ed_public ed k)"
  using assms
  by (auto simp: load_verifying_key_def public_half_def read_key_file_def ebind_eq_Inr split: option.splits pem_key.splits)

section \<open>The keys of a bundle\<close>

text \<open>The signatures of \<open>Policy_Bundles\<close>, made of these keys.\<close>

definition bundle_crypto ::
  "('priv, 'pub) ed25519 \<Rightarrow> (string \<Rightarrow> string) \<Rightarrow> (string \<Rightarrow> string) \<Rightarrow> (string \<Rightarrow> string option) \<Rightarrow>
     ('priv sign_key, 'pub verify_key) crypto" where
  "bundle_crypto ed sha256 b64encode b64decode =
     \<lparr>cr_sha256 = sha256, cr_b64encode = b64encode, cr_b64decode = b64decode,
      cr_sign = sign_bytes ed, cr_public = public_part ed, cr_verify = verify_bytes ed,
      cr_key_id = (\<lambda>vk. key_id sha256 (vk_public_raw vk))\<rparr>"

lemma bundle_crypto_ok:
  assumes "ed_ok ed" and "\<And>s. b64decode (b64encode s) = Some s"
  shows "crypto_ok (bundle_crypto ed sha256 b64encode b64decode)"
  using assms by (simp add: crypto_ok_def bundle_crypto_def ed_ok_def sign_bytes_def verify_bytes_def public_part_def)

text \<open>A bundle signed with a loaded key verifies with the public key from either file.\<close>

lemma released_bundle_verifies:
  fixes ed sha256 b64encode b64decode
  defines "cr \<equiv> bundle_crypto ed sha256 b64encode b64decode"
  assumes ok: "ed_ok ed" "\<And>s. b64decode (b64encode s) = Some s"
    and sk: "load_signing_key ed p1 f = Inr sk"
    and h: "pb_content_hash b = computed_hash lib cr (pb_layers b)"
  obtains priv pub where "private_key_to_pem ed sk = Inr priv" and "public_key_to_pem ed (sk_public_raw sk) = Inr pub"
    and "\<And>data vk. data = priv \<or> data = pub \<Longrightarrow> load_verifying_key ed p2 (KeyBytes data) = Inr vk \<Longrightarrow>
      verify_ok (verify_bundle lib cr (sign_bundle lib cr sk b) (Some vk))"
proof -
  obtain priv pub where k: "private_key_to_pem ed sk = Inr priv" "public_key_to_pem ed (sk_public_raw sk) = Inr pub"
    "load_verifying_key ed p2 (KeyBytes pub) = Inr (public_part ed sk)" "load_verifying_key ed p2 (KeyBytes priv) = Inr (public_part ed sk)"
    by (rule keys_survive_files [OF ok(1) made_coherent(2) [OF sk], where ?p2.0 = p2 and ?p3.0 = p2]) blast
  have cr: "crypto_ok cr" unfolding cr_def using ok by (rule bundle_crypto_ok)
  have "cr_public cr sk = public_part ed sk" by (simp add: cr_def bundle_crypto_def)
  with sign_verifies [OF cr h, of sk] have "verify_ok (verify_bundle lib cr (sign_bundle lib cr sk b) (Some (public_part ed sk)))" by simp
  with k show thesis by (intro that [of priv pub]) auto
qed

end
