(* ===== verification/Redaction_Eval.thy ===== *)
theory Redaction_Eval
  imports Redaction_Engine
begin

text \<open>
  \<open>redaction/eval.py\<close>: the accuracy of a redaction engine over a labelled corpus, by counts per
  entity and by spans. Sets are lists without repetition: the order in which the code visits the
  entities of a text does not show in the totals.

  The lemmas show that the counts add up (every finding is a true or a false positive, every
  label found or missed), that the rates lie between 0 and 1, and that a perfect score means that
  every text got exactly the findings its labels ask for.
\<close>

section \<open>Metrics\<close>

record metrics =
  m_tp :: nat
  m_fp :: nat
  m_fn :: nat

definition rate :: "nat \<Rightarrow> nat \<Rightarrow> rat" where
  "rate hits n = (if n = 0 then 1 else of_nat hits / of_nat n)"

definition precision :: "metrics \<Rightarrow> rat" where
  "precision m = rate (m_tp m) (m_tp m + m_fp m)"

definition recall :: "metrics \<Rightarrow> rat" where
  "recall m = rate (m_tp m) (m_tp m + m_fn m)"

definition f1 :: "metrics \<Rightarrow> rat" where
  "f1 m = (let p = precision m; r = recall m in if p + r = 0 then 0 else 2 * p * r / (p + r))"

definition add_metrics :: "metrics \<Rightarrow> metrics \<Rightarrow> metrics" where
  "add_metrics a b = \<lparr>m_tp = m_tp a + m_tp b, m_fp = m_fp a + m_fp b, m_fn = m_fn a + m_fn b\<rparr>"

definition no_metrics :: metrics where
  "no_metrics = \<lparr>m_tp = 0, m_fp = 0, m_fn = 0\<rparr>"

type_synonym entity_metrics = "(string \<times> metrics) list"

definition bump_entity :: "string \<Rightarrow> metrics \<Rightarrow> entity_metrics \<Rightarrow> entity_metrics" where
  "bump_entity e m acc =
     AList.update e (add_metrics (case map_of acc e of None \<Rightarrow> no_metrics | Some x \<Rightarrow> x) m) acc"

section \<open>Scoring by counts\<close>

type_synonym labelled = "string \<times> (string \<times> nat) list"

definition entity_count :: "report \<Rightarrow> string \<Rightarrow> nat" where
  "entity_count r e = length (filter (\<lambda>f. fi_entity f = e) r)"

definition expected_count :: "(string \<times> nat) list \<Rightarrow> string \<Rightarrow> nat" where
  "expected_count g e = (case map_of g e of None \<Rightarrow> 0 | Some n \<Rightarrow> n)"

definition entities_seen :: "report \<Rightarrow> (string \<times> nat) list \<Rightarrow> string list" where
  "entities_seen r g = remdups (map fi_entity r @ map fst g)"

definition compare_counts :: "nat \<Rightarrow> nat \<Rightarrow> metrics" where
  "compare_counts d g = \<lparr>m_tp = min d g, m_fp = d - g, m_fn = g - d\<rparr>"

fun score_entities :: "report \<Rightarrow> (string \<times> nat) list \<Rightarrow> string list \<Rightarrow> metrics \<times> entity_metrics \<Rightarrow> metrics \<times> entity_metrics" where
  "score_entities r g [] acc = acc"
| "score_entities r g (e # es) (overall, per) =
     (let m = compare_counts (entity_count r e) (expected_count g e) in
      score_entities r g es (add_metrics overall m, bump_entity e m per))"

fun evaluate_entries ::
  "redaction_engine \<Rightarrow> labelled list \<Rightarrow> metrics \<times> entity_metrics \<Rightarrow> vault \<Rightarrow> (metrics \<times> entity_metrics) res \<times> vault" where
  "evaluate_entries en [] acc v = (Inr acc, v)"
| "evaluate_entries en ((t, g) # entries) acc v =
     (case redact_text en t (make_context [] [] []) v of
        (Inl e, v') \<Rightarrow> (Inl e, v')
      | (Inr (out, r), v') \<Rightarrow> evaluate_entries en entries (score_entities r g (entities_seen r g) acc) v')"

definition evaluate_counts :: "redaction_engine \<Rightarrow> labelled list \<Rightarrow> vault \<Rightarrow> (metrics \<times> entity_metrics) res \<times> vault" where
  "evaluate_counts en corpus v = evaluate_entries en corpus (no_metrics, []) v"

section \<open>Scoring by spans\<close>

type_synonym gold = "nat \<times> nat \<times> string"

definition overlaps_gold :: "gold \<Rightarrow> span \<Rightarrow> bool" where
  "overlaps_gold g d = (case g of (gs, ge, gent) \<Rightarrow> sp_entity d = gent \<and> sp_start d < ge \<and> gs < sp_end d)"

text \<open>The first detected span, not matched before, that overlaps a label of its entity.\<close>

definition first_hit :: "gold \<Rightarrow> nat list \<Rightarrow> span list \<Rightarrow> nat option" where
  "first_hit g matched ds = find (\<lambda>i. i \<notin> set matched \<and> overlaps_gold g (ds ! i)) [0..<length ds]"

abbreviation one_tp :: metrics where "one_tp \<equiv> \<lparr>m_tp = 1, m_fp = 0, m_fn = 0\<rparr>"
abbreviation one_fp :: metrics where "one_fp \<equiv> \<lparr>m_tp = 0, m_fp = 1, m_fn = 0\<rparr>"
abbreviation one_fn :: metrics where "one_fn \<equiv> \<lparr>m_tp = 0, m_fp = 0, m_fn = 1\<rparr>"

definition count_one :: "string \<Rightarrow> metrics \<Rightarrow> metrics \<times> entity_metrics \<Rightarrow> metrics \<times> entity_metrics" where
  "count_one e m acc = (add_metrics (fst acc) m, bump_entity e m (snd acc))"

fun match_gold ::
  "span list \<Rightarrow> gold list \<Rightarrow> nat list \<Rightarrow> metrics \<times> entity_metrics \<Rightarrow> nat list \<times> metrics \<times> entity_metrics" where
  "match_gold ds [] matched acc = (matched, acc)"
| "match_gold ds (g # gs) matched acc =
     (case first_hit g matched ds of
        Some i \<Rightarrow> match_gold ds gs (i # matched) (count_one (snd (snd g)) one_tp acc)
      | None \<Rightarrow> match_gold ds gs matched (count_one (snd (snd g)) one_fn acc))"

definition unmatched_spans :: "span list \<Rightarrow> nat list \<Rightarrow> span list" where
  "unmatched_spans ds matched = map (\<lambda>i. ds ! i) (filter (\<lambda>i. i \<notin> set matched) [0..<length ds])"

definition score_spans :: "span list \<Rightarrow> gold list \<Rightarrow> metrics \<times> entity_metrics \<Rightarrow> metrics \<times> entity_metrics" where
  "score_spans ds gs acc =
     (case match_gold ds gs [] acc of
        (matched, acc') \<Rightarrow> fold (\<lambda>d. count_one (sp_entity d) one_fp) (unmatched_spans ds matched) acc')"

fun evaluate_spans :: "redaction_engine \<Rightarrow> (string \<times> gold list) list \<Rightarrow> metrics \<times> entity_metrics \<Rightarrow> (metrics \<times> entity_metrics) res" where
  "evaluate_spans en [] acc = Inr acc"
| "evaluate_spans en ((t, gs) # entries) acc =
     ebind (detect_spans en t (make_context [] [] [])) (\<lambda>ds. evaluate_spans en entries (score_spans ds gs acc))"

section \<open>Rates\<close>

lemma rate_bounds: "hits \<le> n \<Longrightarrow> 0 \<le> rate hits n \<and> rate hits n \<le> 1"
  by (simp add: rate_def divide_le_eq)

lemma rates_bounds: "0 \<le> precision m" "precision m \<le> 1" "0 \<le> recall m" "recall m \<le> 1"
  using rate_bounds [of "m_tp m" "m_tp m + m_fp m"] rate_bounds [of "m_tp m" "m_tp m + m_fn m"]
  by (simp_all add: precision_def recall_def)

lemma harmonic_bounds:
  fixes p r :: rat
  assumes "0 \<le> p" "p \<le> 1" "0 \<le> r" "r \<le> 1"
  shows "0 \<le> 2 * p * r / (p + r)" and "2 * p * r / (p + r) \<le> 1"
proof -
  show "0 \<le> 2 * p * r / (p + r)" using assms by simp
  have "p * r \<le> p" "p * r \<le> r" using assms by (simp_all add: mult_left_le mult_right_le_one_le mult_left_le_one_le)
  then have "2 * p * r \<le> p + r" by simp
  then show "2 * p * r / (p + r) \<le> 1" using assms by (cases "p + r = 0") (simp_all add: divide_le_eq)
qed

lemma f1_bounds: "0 \<le> f1 m \<and> f1 m \<le> 1"
  using harmonic_bounds [OF rates_bounds] by (simp add: f1_def Let_def)

lemma perfect_rates: "m_fp m = 0 \<Longrightarrow> m_fn m = 0 \<Longrightarrow> precision m = 1 \<and> recall m = 1 \<and> f1 m = 1"
  by (simp add: precision_def recall_def rate_def f1_def Let_def)

section \<open>The counts add up\<close>

lemma add_metrics_fields [simp]:
  "m_tp (add_metrics a b) = m_tp a + m_tp b" "m_fp (add_metrics a b) = m_fp a + m_fp b" "m_fn (add_metrics a b) = m_fn a + m_fn b"
  by (simp_all add: add_metrics_def)

lemma score_entities_totals:
  "score_entities r g es (o1, p1) = (o2, p2) \<Longrightarrow>
     m_tp o2 + m_fp o2 = m_tp o1 + m_fp o1 + sum_list (map (entity_count r) es) \<and>
     m_tp o2 + m_fn o2 = m_tp o1 + m_fn o1 + sum_list (map (expected_count g) es) \<and>
     m_fp o1 \<le> m_fp o2 \<and> m_fn o1 \<le> m_fn o2 \<and>
     (m_fp o2 = m_fp o1 \<and> m_fn o2 = m_fn o1 \<longrightarrow> (\<forall>e \<in> set es. entity_count r e = expected_count g e))"
proof (induction es arbitrary: o1 p1)
  case (Cons e es)
  let ?m = "compare_counts (entity_count r e) (expected_count g e)"
  from Cons.prems have "score_entities r g es (add_metrics o1 ?m, bump_entity e ?m p1) = (o2, p2)" by (simp add: Let_def)
  note ih = Cons.IH [OF this, unfolded add_metrics_fields]
  have m: "m_tp ?m + m_fp ?m = entity_count r e" "m_tp ?m + m_fn ?m = expected_count g e"
    "m_fp ?m = 0 \<and> m_fn ?m = 0 \<longleftrightarrow> entity_count r e = expected_count g e" by (auto simp: compare_counts_def)
  from ih have t: "m_tp o2 + m_fp o2 = m_tp o1 + m_tp ?m + (m_fp o1 + m_fp ?m) + sum_list (map (entity_count r) es)"
    "m_tp o2 + m_fn o2 = m_tp o1 + m_tp ?m + (m_fn o1 + m_fn ?m) + sum_list (map (expected_count g) es)"
    "m_fp o1 + m_fp ?m \<le> m_fp o2" "m_fn o1 + m_fn ?m \<le> m_fn o2"
    and perfect: "m_fp o2 = m_fp o1 + m_fp ?m \<and> m_fn o2 = m_fn o1 + m_fn ?m \<longrightarrow> (\<forall>e \<in> set es. entity_count r e = expected_count g e)"
    by blast+
  have "(\<forall>x \<in> set (e # es). entity_count r x = expected_count g x)" if "m_fp o2 = m_fp o1" "m_fn o2 = m_fn o1"
  proof -
    from that t(3,4) have z: "m_fp ?m = 0" "m_fn ?m = 0" by simp_all
    with perfect that m(3) show ?thesis by simp
  qed
  with t m(1,2) show ?case by simp
qed simp

lemma sum_counts_seen:
  "set (map fi_entity r) \<subseteq> set es \<Longrightarrow> distinct es \<Longrightarrow> sum_list (map (entity_count r) es) = length r"
proof (induction r)
  case (Cons f r)
  have split: "map (entity_count (f # r)) es = map (\<lambda>e. (if fi_entity f = e then 1 else 0) + entity_count r e) es"
    by (simp add: entity_count_def)
  have "sum_list (map (\<lambda>e. if fi_entity f = e then 1 else (0::nat)) es) = 1"
    using Cons.prems by (simp add: sum_list_distinct_conv_sum_set)
  with Cons show ?case by (simp add: split sum_list_addf)
qed (simp add: entity_count_def)

lemma sum_expected_seen:
  "distinct (map fst g) \<Longrightarrow> set (map fst g) \<subseteq> set es \<Longrightarrow> distinct es \<Longrightarrow>
     sum_list (map (expected_count g) es) = sum_list (map snd g)"
proof (induction g)
  case (Cons p g)
  obtain e n where p: "p = (e, n)" by fastforce
  have "expected_count (p # g) x = (if x = e then n else 0) + expected_count g x" for x
  proof (cases "x = e")
    case True
    have "map_of g e = None" using Cons.prems(1) p by (simp add: map_of_eq_None_iff)
    with True p show ?thesis by (simp add: expected_count_def)
  qed (simp add: p expected_count_def)
  then have split: "map (expected_count (p # g)) es = map (\<lambda>x. (if x = e then n else 0) + expected_count g x) es" by simp
  have "sum_list (map (\<lambda>x. if x = e then n else 0) es) = n"
    using Cons.prems p by (simp add: sum_list_distinct_conv_sum_set)
  moreover have "sum_list (map (expected_count (p # g)) es) =
      sum_list (map (\<lambda>x. if x = e then n else 0) es) + sum_list (map (expected_count g) es)"
    unfolding split by (rule sum_list_addf)
  ultimately show ?case using Cons p by simp
qed (simp add: expected_count_def)

text \<open>What a run of the evaluation found and what its labels ask for.\<close>

fun findings_total :: "redaction_engine \<Rightarrow> labelled list \<Rightarrow> vault \<Rightarrow> nat" where
  "findings_total en [] v = 0"
| "findings_total en ((t, g) # entries) v =
     (case redact_text en t (make_context [] [] []) v of
        (Inl e, v') \<Rightarrow> 0 | (Inr (out, r), v') \<Rightarrow> length r + findings_total en entries v')"

fun all_exact :: "redaction_engine \<Rightarrow> labelled list \<Rightarrow> vault \<Rightarrow> bool" where
  "all_exact en [] v = True"
| "all_exact en ((t, g) # entries) v =
     (case redact_text en t (make_context [] [] []) v of
        (Inl e, v') \<Rightarrow> False
      | (Inr (out, r), v') \<Rightarrow> (\<forall>e \<in> set (entities_seen r g). entity_count r e = expected_count g e) \<and> all_exact en entries v')"

definition labels_total :: "labelled list \<Rightarrow> nat" where
  "labels_total corpus = sum_list (map (\<lambda>(t, g). sum_list (map snd g)) corpus)"

lemma evaluate_entries_totals:
  assumes "evaluate_entries en corpus (o1, p1) v = (Inr (o2, p2), v')" and "\<forall>(t, g) \<in> set corpus. distinct (map fst g)"
  shows "m_tp o2 + m_fp o2 = m_tp o1 + m_fp o1 + findings_total en corpus v \<and>
    m_tp o2 + m_fn o2 = m_tp o1 + m_fn o1 + labels_total corpus \<and> m_fp o1 \<le> m_fp o2 \<and> m_fn o1 \<le> m_fn o2 \<and>
    (m_fp o2 = m_fp o1 \<and> m_fn o2 = m_fn o1 \<longrightarrow> all_exact en corpus v)"
  using assms
proof (induction corpus arbitrary: o1 p1 v)
  case (Cons entry corpus)
  obtain t g where e: "entry = (t, g)" by fastforce
  obtain out r v1 where r: "redact_text en t (make_context [] [] []) v = (Inr (out, r), v1)"
    using Cons.prems(1) e by (auto split: prod.splits sum.splits)
  obtain om pm where s: "score_entities r g (entities_seen r g) (o1, p1) = (om, pm)" by fastforce
  with Cons.prems(1) e r have rest: "evaluate_entries en corpus (om, pm) v1 = (Inr (o2, p2), v')" by simp
  have g: "distinct (map fst g)" using Cons.prems(2) e by simp
  have sums: "sum_list (map (entity_count r) (entities_seen r g)) = length r"
    "sum_list (map (expected_count g) (entities_seen r g)) = sum_list (map snd g)"
    using sum_counts_seen [of r "entities_seen r g"] sum_expected_seen [OF g, of "entities_seen r g"]
    by (simp_all add: entities_seen_def)
  note one = score_entities_totals [OF s, unfolded sums]
  have ih: "m_tp o2 + m_fp o2 = m_tp om + m_fp om + findings_total en corpus v1"
    "m_tp o2 + m_fn o2 = m_tp om + m_fn om + labels_total corpus" "m_fp om \<le> m_fp o2" "m_fn om \<le> m_fn o2"
    "m_fp o2 = m_fp om \<and> m_fn o2 = m_fn om \<longrightarrow> all_exact en corpus v1"
    using Cons.IH [OF rest] Cons.prems(2) by simp_all
  have "all_exact en (entry # corpus) v" if "m_fp o2 = m_fp o1" "m_fn o2 = m_fn o1"
  proof -
    from one ih(3,4) that have "m_fp om = m_fp o1" "m_fn om = m_fn o1" by simp_all
    with one ih(5) that show ?thesis by (simp add: e r)
  qed
  with one ih(1-4) show ?case by (simp add: e r labels_total_def)
qed (simp add: labels_total_def)

section \<open>Greedy matching of spans\<close>

lemma first_hit_Some:
  assumes "first_hit g matched ds = Some i"
  shows "i < length ds \<and> i \<notin> set matched \<and> overlaps_gold g (ds ! i)"
  using assms unfolding first_hit_def by (auto simp: find_Some_iff)

lemma match_gold_totals:
  assumes "match_gold ds gs matched (o1, p1) = (matched', o2, p2)" and "distinct matched" and "set matched \<subseteq> {..<length ds}"
  shows "distinct matched' \<and> set matched' \<subseteq> {..<length ds} \<and> m_fp o2 = m_fp o1 \<and>
    m_tp o2 + length matched = m_tp o1 + length matched' \<and> m_tp o2 + m_fn o2 = m_tp o1 + m_fn o1 + length gs"
  using assms
proof (induction gs arbitrary: matched o1 p1)
  case (Cons g gs)
  show ?case
  proof (cases "first_hit g matched ds")
    case None
    with Cons.prems have m: "match_gold ds gs matched (add_metrics o1 one_fn, bump_entity (snd (snd g)) one_fn p1) = (matched', o2, p2)"
      by (simp add: count_one_def)
    from Cons.IH [OF m Cons.prems(2,3)] show ?thesis by simp
  next
    case (Some i)
    with Cons.prems have m: "match_gold ds gs (i # matched) (add_metrics o1 one_tp, bump_entity (snd (snd g)) one_tp p1) = (matched', o2, p2)"
      by (simp add: count_one_def)
    from first_hit_Some [OF Some] Cons.prems(2,3) have "distinct (i # matched)" "set (i # matched) \<subseteq> {..<length ds}" by auto
    from Cons.IH [OF m this] show ?thesis by simp
  qed
qed simp

lemma count_fps: "fst (fold (\<lambda>d. count_one (sp_entity d) one_fp) ds acc) = (fst acc)\<lparr>m_fp := m_fp (fst acc) + length ds\<rparr>"
  by (induction ds arbitrary: acc) (simp_all add: count_one_def add_metrics_def)

lemma length_unmatched:
  assumes "distinct matched" and "set matched \<subseteq> {..<length ds}"
  shows "length matched + length (unmatched_spans ds matched) = length ds"
proof -
  have "length (unmatched_spans ds matched) = card {i. i < length ds \<and> i \<notin> set matched}"
    unfolding unmatched_spans_def by (simp add: distinct_length_filter Int_def conj_commute lessThan_def atLeast0LessThan)
  also have "{i. i < length ds \<and> i \<notin> set matched} = {..<length ds} - set matched" by auto
  also have "card ({..<length ds} - set matched) = length ds - length matched"
    using assms by (simp add: card_Diff_subset distinct_card)
  finally have "length (unmatched_spans ds matched) = length ds - length matched" .
  moreover have "length matched \<le> length ds"
    using assms card_mono [of "{..<length ds}" "set matched"] by (simp add: distinct_card)
  ultimately show ?thesis by simp
qed

lemma score_spans_totals:
  assumes "score_spans ds gs (o1, p1) = (o2, p2)"
  shows "m_tp o2 + m_fp o2 = m_tp o1 + m_fp o1 + length ds" and "m_tp o2 + m_fn o2 = m_tp o1 + m_fn o1 + length gs"
proof -
  obtain matched om pm where m: "match_gold ds gs [] (o1, p1) = (matched, om, pm)" by (cases "match_gold ds gs [] (o1, p1)")
  note t = match_gold_totals [OF m]
  have fold: "fold (\<lambda>d. count_one (sp_entity d) one_fp) (unmatched_spans ds matched) (om, pm) = (o2, p2)"
    using assms m by (simp add: score_spans_def)
  have "o2 = om\<lparr>m_fp := m_fp om + length (unmatched_spans ds matched)\<rparr>"
    using count_fps [of "unmatched_spans ds matched" "(om, pm)"] unfolding fold by simp
  with t length_unmatched [of matched ds]
  show "m_tp o2 + m_fp o2 = m_tp o1 + m_fp o1 + length ds" "m_tp o2 + m_fn o2 = m_tp o1 + m_fn o1 + length gs" by simp_all
qed

end
