(* ===== verification/Stdio_Transport.thy ===== *)
theory Stdio_Transport
  imports Streamable_Http Console_Auth
begin

text \<open>
  \<open>transports/stdio.py\<close> and the line pump of \<open>transports/upstream.py\<close>: the sidecar mode, one client and
  one upstream process over pipes. What a pipe yields is a sequence of reads (a line, the end of
  the stream, or an over-long frame); the two pumps interleave, each turn running one handler to
  its end, and the first pump that ends, ends the session. Bytes that are no UTF-8 are decoded
  by \<open>repair\<close>, the part of Python's \<open>errors="replace"\<close> the eight-bit strings of this model cannot
  express.

  The lemmas show that a session without an exception is a run of the gateway on the decoded
  lines, that each pipe carries exactly the lines the gateway sent, and that no line, whatever
  the peers write, can be split into two on the other side.
\<close>

section \<open>Pumps\<close>

definition LINE_LIMIT :: nat where "LINE_LIMIT = 16 * 1024 * 1024"

datatype pipe_read = ReadLine string | Overrun

datatype direction = ClientToUpstream | UpstreamToClient

definition direction_str :: "direction \<Rightarrow> string" where
  "direction_str d = (case d of ClientToUpstream \<Rightarrow> ''client_to_upstream'' | UpstreamToClient \<Rightarrow> ''upstream_to_client'')"

definition line_text :: "(string \<Rightarrow> string) \<Rightarrow> string \<Rightarrow> string" where
  "line_text repair b = strip (case utf8_decode b of Inr s \<Rightarrow> s | Inl _ \<Rightarrow> repair b)"

record stdio =
  io_gateway :: gateway
  io_running :: bool
  io_to_client :: string
  io_to_upstream :: string

definition framed :: "string \<Rightarrow> string" where
  "framed line = utf8_encode line @ [CHR 10]"

definition stdio_send_client :: "string \<Rightarrow> stdio \<Rightarrow> exn option \<times> stdio" where
  "stdio_send_client line st = (None, st\<lparr>io_to_client := io_to_client st @ framed line\<rparr>)"

definition stdio_send_upstream :: "string \<Rightarrow> stdio \<Rightarrow> exn option \<times> stdio" where
  "stdio_send_upstream line st =
     (if io_running st then (None, st\<lparr>io_to_upstream := io_to_upstream st @ framed line\<rparr>)
      else (Some (OtherError ''upstream server is not running''), st))"

fun stdio_perform :: "effect list \<Rightarrow> stdio \<Rightarrow> exn option \<times> stdio \<times> effect list" where
  "stdio_perform [] st = (None, st, [])"
| "stdio_perform (ef # es) st =
     (case (case ef of ToUpstream l \<Rightarrow> stdio_send_upstream l st | ToClient l \<Rightarrow> stdio_send_client l st | _ \<Rightarrow> (None, st)) of
        (Some e, st') \<Rightarrow> (Some e, st', [])
      | (None, st') \<Rightarrow> (case stdio_perform es st' of (r, st'', did) \<Rightarrow> (r, st'', ef # did)))"

definition stdio_feed :: "gact \<Rightarrow> stdio \<Rightarrow> exn option \<times> stdio \<times> effect list" where
  "stdio_feed a st =
     (case a (io_gateway st) of
        (r, g, es) \<Rightarrow>
          (case stdio_perform es st of
             (None, st', did) \<Rightarrow> (r, st'\<lparr>io_gateway := g\<rparr>, did)
           | (Some e, st', did) \<Rightarrow> (Some e, st'\<lparr>io_gateway := halted a (io_gateway st)\<rparr>, did)))"

datatype turn = GoOn | PumpEnds | PumpRaises exn

definition line_input :: "direction \<Rightarrow> string \<Rightarrow> input" where
  "line_input d l = (case d of ClientToUpstream \<Rightarrow> ClientLine l | UpstreamToClient \<Rightarrow> UpstreamLine l)"

definition pump_turn :: "(string \<Rightarrow> string) \<Rightarrow> direction \<Rightarrow> pipe_read \<Rightarrow> stdio \<Rightarrow> turn \<times> stdio \<times> effect list" where
  "pump_turn repair d rd st =
     (case rd of
        Overrun \<Rightarrow>
          (PumpEnds, st, [Audit ''transport_overrun''
             [(PStr ''direction'', PStr (direction_str d)), (PStr ''limit'', PInt (int LINE_LIMIT))]])
      | ReadLine b \<Rightarrow>
          if b = [] then (PumpEnds, st, [])
          else if line_text repair b = [] then (GoOn, st, [])
          else (case stdio_feed (handle_input (line_input d (line_text repair b))) st of
                  (None, st', did) \<Rightarrow> (GoOn, st', did)
                | (Some e, st', did) \<Rightarrow> (PumpRaises e, st', did)))"

section \<open>A session\<close>

text \<open>
  The reads of both pipes in the order the loop takes them. The result: the exception that ended
  the session, whether it has ended, and what was done.
\<close>

fun pump_both :: "(string \<Rightarrow> string) \<Rightarrow> (direction \<times> pipe_read) list \<Rightarrow> stdio \<Rightarrow> (exn option \<times> bool) \<times> stdio \<times> effect list" where
  "pump_both repair [] st = ((None, False), st, [])"
| "pump_both repair ((d, rd) # rds) st =
     (case pump_turn repair d rd st of
        (GoOn, st', did) \<Rightarrow> (case pump_both repair rds st' of (r, st'', rest_did) \<Rightarrow> (r, st'', did @ rest_did))
      | (PumpEnds, st', did) \<Rightarrow> ((None, True), st', did)
      | (PumpRaises e, st', did) \<Rightarrow> ((Some e, True), st', did))"

definition start_stdio :: "string list \<Rightarrow> gateway \<Rightarrow> stdio res" where
  "start_stdio command g =
     (if command = [] then Inl (OtherError ''no upstream server command given'')
      else Inr \<lparr>io_gateway = after (on_start command) g, io_running = True, io_to_client = [], io_to_upstream = []\<rparr>)"

text \<open>\<open>run\<close>: the events around the pumps, and the exception, if any, once everything is shut down.\<close>

definition run_stdio ::
  "(string \<Rightarrow> string) \<Rightarrow> string list \<Rightarrow> (direction \<times> pipe_read) list \<Rightarrow> pyval \<Rightarrow> gateway \<Rightarrow> (exn option \<times> stdio \<times> effect list) res" where
  "run_stdio repair command rds returncode g =
     ebind (start_stdio command g) (\<lambda>st.
     case pump_both repair rds st of
       ((r, ended), st', did) \<Rightarrow>
         Inr (r, st'\<lparr>io_running := False\<rparr>,
              effects (on_start command) g @ did @
              effects (gseq (on_upstream_exit returncode) on_stop) (io_gateway st')))"

section \<open>A session is a run of its gateway\<close>

text \<open>The lines a schedule of reads gives to the gateway, up to the first pump that ends.\<close>

fun inputs_of :: "(string \<Rightarrow> string) \<Rightarrow> (direction \<times> pipe_read) list \<Rightarrow> input list" where
  "inputs_of repair [] = []"
| "inputs_of repair ((d, Overrun) # rds) = []"
| "inputs_of repair ((d, ReadLine b) # rds) =
     (if b = [] then []
      else if line_text repair b = [] then inputs_of repair rds
      else line_input d (line_text repair b) # inputs_of repair rds)"

definition wire :: "string list \<Rightarrow> string" where
  "wire ls = concat (map framed ls)"

lemma wire_simps [simp]: "wire [] = []" "wire (a @ b) = wire a @ wire b" "wire [l] = framed l"
  by (simp_all add: wire_def)

lemma stdio_perform_running:
  "io_running st \<Longrightarrow> stdio_perform es st =
     (None, st\<lparr>io_to_client := io_to_client st @ wire (client_lines es), io_to_upstream := io_to_upstream st @ wire (upstream_lines es)\<rparr>, es)"
proof (induction es arbitrary: st)
  case (Cons ef es)
  then show ?case
    by (cases ef) (simp_all add: stdio_send_upstream_def stdio_send_client_def wire_def)
qed simp

lemma stdio_feed_running:
  assumes "io_running st"
  shows "stdio_feed a st = (raised a (io_gateway st),
    st\<lparr>io_gateway := after a (io_gateway st), io_to_client := io_to_client st @ wire (client_lines (effects a (io_gateway st))),
       io_to_upstream := io_to_upstream st @ wire (upstream_lines (effects a (io_gateway st)))\<rparr>, effects a (io_gateway st))"
  using stdio_perform_running [OF assms]
  by (cases "a (io_gateway st)") (simp add: stdio_feed_def raised_def after_def effects_def)

lemma pump_both_run:
  assumes "pump_both repair rds st = ((None, ended), st', did)" and "io_running st"
  shows "\<exists>tr. gateway_run (io_gateway st) tr (io_gateway st') \<and> map fst tr = inputs_of repair rds \<and>
    io_to_client st' = io_to_client st @ wire (client_lines (concat (map snd tr))) \<and>
    io_to_upstream st' = io_to_upstream st @ wire (upstream_lines (concat (map snd tr)))"
  using assms
proof (induction repair rds arbitrary: st did rule: inputs_of.induct)
  case (1 repair)
  then show ?case by (auto intro!: exI [of _ "[]"] gateway_run.intros)
next
  case (2 repair d rds)
  then show ?case by (auto simp: pump_turn_def intro!: exI [of _ "[]"] gateway_run.intros)
next
  case (3 repair d b rds)
  show ?case
  proof (cases "b = [] \<or> line_text repair b = []")
    case True
    with 3 show ?thesis
      by (cases "b = []") (auto simp: pump_turn_def split: prod.splits intro!: exI [of _ "[]"] gateway_run.intros)
  next
    case False
    let ?a = "handle_input (line_input d (line_text repair b))" and ?g = "io_gateway st"
    let ?st1 = "st\<lparr>io_gateway := after ?a ?g, io_to_client := io_to_client st @ wire (client_lines (effects ?a ?g)),
       io_to_upstream := io_to_upstream st @ wire (upstream_lines (effects ?a ?g))\<rparr>"
    obtain rest_did where rest: "pump_both repair rds ?st1 = ((None, ended), st', rest_did)"
      using 3(3) False stdio_feed_running [OF 3(4), of ?a]
      by (auto simp: pump_turn_def split: option.splits prod.splits)
    have "io_running ?st1" using 3(4) by simp
    from 3(2) [OF _ _ rest this] False obtain tr where
      tr: "gateway_run (after ?a ?g) tr (io_gateway st')" "map fst tr = inputs_of repair rds"
      "io_to_client st' = io_to_client ?st1 @ wire (client_lines (concat (map snd tr)))"
      "io_to_upstream st' = io_to_upstream ?st1 @ wire (upstream_lines (concat (map snd tr)))" by auto
    have "gateway_run ?g ((line_input d (line_text repair b), effects ?a ?g) # tr) (io_gateway st')"
      using tr(1) by (rule gateway_run.gateway_step)
    with tr False show ?thesis by (intro exI [of _ "(line_input d (line_text repair b), effects ?a ?g) # tr"]) simp
  qed
qed

section \<open>A line stays one line\<close>

text \<open>Everything a gateway sends is an encoded message, or the opaque line it was given.\<close>

definition sent_lines :: "effect list \<Rightarrow> string set" where
  "sent_lines es = set (upstream_lines es) \<union> set (client_lines es)"

lemma sent_lines_simps [simp]:
  "sent_lines [] = {}" "sent_lines (a @ b) = sent_lines a \<union> sent_lines b" "sent_lines [Persist] = {}"
  by (auto simp: sent_lines_def)

lemma handle_denial_sends: "sent_lines (effects (handle_denial raw tool oc d) g) \<subseteq> range (encode (e_lib (g_env g)))"
proof (cases "oc_internal_error oc \<and> fp_pipeline (g_posture g) = OPEN")
  case True
  with handle_denial_open [of oc g raw tool d] show ?thesis by (auto simp: sent_lines_def)
next
  case False
  then have "\<not> oc_internal_error oc \<or> fp_pipeline (g_posture g) = CLOSED" by (cases "fp_pipeline (g_posture g)") auto
  with handle_denial_closed [of oc g raw tool d] show ?thesis by (simp add: sent_lines_def)
qed

lemma tool_call_sends: "sent_lines (effects (handle_tool_call raw) g) \<subseteq> range (encode (e_lib (g_env g)))"
proof -
  obtain oc ctx w where r: "call_run raw g = (oc, ctx, w)" by (cases "call_run raw g")
  let ?g1 = "g\<lparr>g_world := w, g_session := cx_session ctx\<rparr>"
  have "sent_lines (effects (settle_call raw (e_lib (g_env g)) oc ctx) ?g1) \<subseteq> range (encode (e_lib (g_env g)))"
  proof (cases "denied oc")
    case True
    then show ?thesis using handle_denial_sends [of raw "call_tool raw" oc "cx_decision ctx" ?g1] by (simp add: settle_call_def)
  next
    case False
    then show ?thesis
      using forward_call_lines [of "e_lib (g_env g)" raw "call_tool raw" ctx _ ?g1]
      by (cases "cx_decision ctx") (auto simp: settle_call_def sent_lines_def)
  qed
  then show ?thesis using handle_tool_call_parts(1) [OF r] by (simp add: sent_lines_def)
qed

lemma client_line_sends:
  "sent_lines (effects (dispatch_client_line line) g) \<subseteq> insert line (range (encode (e_lib (g_env g))))"
proof (cases rule: dispatch_client_cases [where g = g and line = line])
  case (opaque n fs)
  then show ?thesis by (simp add: effects_def gemit_def sent_lines_def)
next
  case (beyond e)
  then show ?thesis by (simp add: effects_def graise_def)
next
  case (call raw)
  then have "effects (dispatch_client_line line) g = effects (handle_tool_call raw) g" by (simp add: effects_def)
  with tool_call_sends [of raw g] show ?thesis by auto
next
  case (other raw)
  then have "effects (dispatch_client_line line) g = effects (pass_client (e_lib (g_env g)) raw) g" by (simp add: effects_def)
  then show ?thesis by (simp add: pass_client_def sent_lines_def)
qed

lemma result_line_encoded: "result_line raw p g \<in> range (encode (e_lib (g_env g)))"
  by (simp add: result_line_def redacted_line_def split: disposition.splits)

lemma tools_list_sends: "sent_lines (effects (deliver_tools_list raw k) g) \<subseteq> range (encode (e_lib (g_env g)))"
  by (auto simp: effects_def deliver_tools_list_def gemit_def graise_def Let_def sent_lines_def split: sum.splits prod.splits)

lemma upstream_line_sends:
  "sent_lines (effects (dispatch_upstream_line line) g) \<subseteq> insert line (range (encode (e_lib (g_env g))))"
proof (cases "decode_line (e_lib (g_env g)) line")
  case (Inl e)
  then show ?thesis by (simp add: effects_def dispatch_upstream_line_def graise_def)
next
  case (Inr m)
  show ?thesis
  proof (cases m)
    case None
    with Inr show ?thesis by (simp add: effects_def dispatch_upstream_line_def gemit_def sent_lines_def)
  next
    case (Some raw)
    show ?thesis
    proof (cases "is_response raw")
      case False
      with Inr Some show ?thesis by (simp add: effects_def dispatch_upstream_line_def gemit_def sent_lines_def)
    next
      case True
      note d = Inr Some True
      show ?thesis
      proof (cases "resolve_pending (msg_id raw) (g_session g)")
        case (Inl e)
        with d show ?thesis by (simp add: effects_def dispatch_upstream_line_def graise_def)
      next
        case (Inr x)
        obtain q s' where x: "x = (q, s')" by fastforce
        let ?g = "g\<lparr>g_session := s'\<rparr>"
        show ?thesis
        proof (cases q)
          case (Some p)
          with d Inr x have "effects (dispatch_upstream_line line) g = effects (deliver_tool_result raw p) ?g"
            by (simp add: effects_def dispatch_upstream_line_def)
          then show ?thesis
            using deliver_tool_result_facts [of raw p ?g] result_line_encoded [of raw p ?g] by (simp add: sent_lines_def)
        next
          case None
          show ?thesis
          proof (cases "py_key (msg_id raw)")
            case None
            with \<open>q = None\<close> d Inr x show ?thesis by (simp add: effects_def dispatch_upstream_line_def graise_def)
          next
            case (Some k)
            note h = this \<open>q = None\<close> d Inr x
            show ?thesis
            proof (cases "k \<in> set (g_pending_tools_list g)")
              case True
              with h have "effects (dispatch_upstream_line line) g = effects (deliver_tools_list raw k) ?g"
                by (simp add: effects_def dispatch_upstream_line_def)
              with tools_list_sends [of raw k ?g] show ?thesis by auto
            next
              case False
              with h show ?thesis by (simp add: effects_def dispatch_upstream_line_def gemit_def sent_lines_def)
            qed
          qed
        qed
      qed
    qed
  qed
qed

definition input_line :: "input \<Rightarrow> string" where
  "input_line i = (case i of ClientLine l \<Rightarrow> l | UpstreamLine l \<Rightarrow> l)"

lemma handle_input_sends:
  "sent_lines (effects (handle_input i) g) \<subseteq> insert (input_line i) (range (encode (e_lib (g_env g))))"
  using client_line_sends upstream_line_sends
  by (cases i) (simp_all add: handle_input_def input_line_def on_client_line_def on_upstream_line_def)

lemma handle_input_one_line:
  assumes "plain_floats (e_lib (g_env g))" and "CHR 10 \<notin> set (input_line i)" and "l \<in> sent_lines (effects (handle_input i) g)"
  shows "CHR 10 \<notin> set l"
proof -
  have "CHR 10 \<notin> set (encode (e_lib (g_env g)) d)" for d
    using json_dumps_no_newline [of "e_lib (g_env g)"] assms(1) unfolding encode_def plain_floats_def by blast
  with assms(2,3) handle_input_sends [of i g] show ?thesis by blast
qed

text \<open>Reads are lines: a newline can only end them, and \<open>repair\<close> makes none up.\<close>

definition is_line :: "string \<Rightarrow> bool" where
  "is_line b \<longleftrightarrow> CHR 10 \<notin> set (butlast b)"

definition repair_ok :: "(string \<Rightarrow> string) \<Rightarrow> bool" where
  "repair_ok repair \<longleftrightarrow> (\<forall>b. is_line b \<longrightarrow> is_line (repair b))"

lemma decode_is_line: "utf8_decode b = Inr s \<Longrightarrow> is_line b \<Longrightarrow> is_line s"
proof (induction b arbitrary: s rule: utf8_decode.induct)
  case (2 c cs)
  have high: "char_of ((n - 192) * 64 + (m - 128)) \<noteq> CHR 10" if "n = 194 \<or> n = 195" "128 \<le> m" "m < (192::nat)" for n m :: nat
    using that by (auto simp: char_of_eq_iff take_bit_eq_mod)
  consider (ascii) s0 where "code_of c < (128::nat)" "utf8_decode cs = Inr s0" "s = c # s0"
    | (two) d ds s0 where "\<not> code_of c < (128::nat)" "code_of c = (194::nat) \<or> code_of c = (195::nat)" "cs = d # ds"
        "128 \<le> code_of d" "code_of d < (192::nat)" "utf8_decode ds = Inr s0"
        "s = char_of ((code_of c - 192) * 64 + (code_of d - 128)) # s0"
    using 2(3) by (auto simp: Let_def ebind_eq_Inr split: if_splits list.splits)
  then show ?case
  proof cases
    case ascii
    show ?thesis
    proof (cases "cs = []")
      case False
      with 2(4) have "c \<noteq> CHR 10" "is_line cs" by (auto simp: is_line_def)
      with 2(1) ascii have "is_line s0" by simp
      with \<open>c \<noteq> CHR 10\<close> ascii(3) show ?thesis by (simp add: is_line_def)
    qed (use ascii in \<open>simp add: is_line_def\<close>)
  next
    case two
    from 2(4) two(3) have "is_line ds" by (cases ds) (simp_all add: is_line_def split: if_splits)
    with 2(2) two have "is_line s0" by (auto simp: Let_def)
    with two(7) high [OF two(2,4,5)] show ?thesis by (simp add: is_line_def)
  qed
qed simp

lemma strip_subset: "set (strip s) \<subseteq> set s"
  by (auto simp: strip_def dest!: set_dropWhileD)

lemma strip_is_line:
  assumes "is_line s"
  shows "CHR 10 \<notin> set (strip s)"
proof (cases s rule: rev_cases)
  case (snoc t x)
  with assms have t: "CHR 10 \<notin> set t" by (simp add: is_line_def)
  show ?thesis
  proof (cases "x = CHR 10")
    case True
    have "is_space (CHR 10)" by (simp add: is_space_def)
    then have "strip s = strip t" unfolding strip_def snoc True by (auto simp: dropWhile_append dropWhile_eq_Nil_conv [THEN iffD2])
    with strip_subset [of t] t show ?thesis by auto
  next
    case False
    with t snoc strip_subset [of s] show ?thesis by auto
  qed
qed (simp add: strip_def)

lemma line_text_one_line: "repair_ok repair \<Longrightarrow> is_line b \<Longrightarrow> CHR 10 \<notin> set (line_text repair b)"
  unfolding line_text_def by (rule strip_is_line) (auto simp: repair_ok_def decode_is_line split: sum.splits)

definition reads_lines :: "(direction \<times> pipe_read) list \<Rightarrow> bool" where
  "reads_lines rds \<longleftrightarrow> (\<forall>d b. (d, ReadLine b) \<in> set rds \<longrightarrow> is_line b)"

lemma inputs_one_line:
  "repair_ok repair \<Longrightarrow> reads_lines rds \<Longrightarrow> i \<in> set (inputs_of repair rds) \<Longrightarrow> CHR 10 \<notin> set (input_line i)"
proof (induction repair rds rule: inputs_of.induct)
  case (3 repair d b rds)
  then have "is_line b" "reads_lines rds" by (auto simp: reads_lines_def)
  with 3 line_text_one_line [of repair b] show ?case
    by (auto simp: input_line_def line_input_def split: if_splits direction.splits)
qed simp_all

lemma split_wire:
  assumes "\<forall>l \<in> set ls. CHR 10 \<notin> set l"
  shows "split_on (CHR 10) (wire ls) = map utf8_encode ls @ [[]]"
  using assms
proof (induction ls)
  case (Cons l ls)
  then have "CHR 10 \<notin> set (utf8_encode l)" by (simp add: utf8_encode_newline)
  with Cons show ?case by (simp add: wire_def framed_def split_on_append)
qed simp

text \<open>A session, pipe by pipe.\<close>

lemma stdio_session:
  assumes start: "start_stdio command g = Inr st" and run: "pump_both repair rds st = ((None, ended), st', did)"
    and std: "standard g pe hs" and floats: "plain_floats (e_lib (g_env g))" and lines: "repair_ok repair" "reads_lines rds"
  shows "\<exists>tr. gateway_run g tr (io_gateway st') \<and> map fst tr = inputs_of repair rds \<and>
    split_on (CHR 10) (io_to_client st') = map utf8_encode (client_lines (concat (map snd tr))) @ [[]] \<and>
    split_on (CHR 10) (io_to_upstream st') = map utf8_encode (upstream_lines (concat (map snd tr))) @ [[]]"
proof -
  have st: "io_gateway st = g" "io_running st" "io_to_client st = []" "io_to_upstream st = []"
    using start by (auto simp: start_stdio_def on_start_def after_def gemit_def Let_def split: if_splits)
  from pump_both_run [OF run st(2), unfolded st] obtain tr where tr: "gateway_run g tr (io_gateway st')"
    "map fst tr = inputs_of repair rds" "io_to_client st' = wire (client_lines (concat (map snd tr)))"
    "io_to_upstream st' = wire (upstream_lines (concat (map snd tr)))" by auto
  have one: "CHR 10 \<notin> set l" if "(i, es) \<in> set tr" "l \<in> sent_lines es" for i es l
  proof -
    from run_element [OF tr(1) std that(1)] obtain h where h: "evolves g h" "es = effects (handle_input i) h" by blast
    have "i \<in> set (inputs_of repair rds)" using that(1) tr(2) by (force simp flip: tr(2))
    then have "CHR 10 \<notin> set (input_line i)" using lines by (rule_tac inputs_one_line)
    moreover have "g_env h = g_env g" using h(1) by (simp add: evolves_def static_def)
    ultimately show ?thesis using handle_input_one_line [of h i l] floats h(2) that(2) by simp
  qed
  have sent: "set (upstream_lines (concat (map snd xs))) \<union> set (client_lines (concat (map snd xs))) = (\<Union>(i, es) \<in> set xs. sent_lines es)"
    for xs :: "(input \<times> effect list) list" by (induction xs) (auto simp: sent_lines_def)
  have "\<forall>l \<in> set (client_lines (concat (map snd tr))). CHR 10 \<notin> set l"
    "\<forall>l \<in> set (upstream_lines (concat (map snd tr))). CHR 10 \<notin> set l"
    using one sent [of tr] by blast+
  with tr split_wire show ?thesis by auto
qed

section \<open>The upstream process\<close>

text \<open>
  \<open>SubprocessUpstream\<close>, the same pump per session of the HTTP hub. A process is its exit code, once
  it has one, and what it was sent; \<open>obeyed\<close> is the code it exits with within the grace period after
  \<open>terminate\<close>, if it does, \<open>killed\<close> the code after \<open>kill\<close>.
\<close>

record child =
  ch_returncode :: "int option"
  ch_stdin :: string

record subprocess_upstream =
  su_command :: "string list"
  su_proc :: "child option"

definition make_upstream :: "string list \<Rightarrow> subprocess_upstream res" where
  "make_upstream command =
     (if command = [] then Inl (OtherError ''no upstream server command given'')
      else Inr \<lparr>su_command = command, su_proc = None\<rparr>)"

definition upstream_start :: "subprocess_upstream \<Rightarrow> subprocess_upstream" where
  "upstream_start u = u\<lparr>su_proc := Some \<lparr>ch_returncode = None, ch_stdin = []\<rparr>\<rparr>"

definition proc_send :: "string \<Rightarrow> subprocess_upstream \<Rightarrow> subprocess_upstream res" where
  "proc_send line u =
     (case su_proc u of
        Some p \<Rightarrow>
          if ch_returncode p = None then Inr (u\<lparr>su_proc := Some (p\<lparr>ch_stdin := ch_stdin p @ framed line\<rparr>)\<rparr>)
          else Inl (OtherError ''upstream server is not running'')
      | None \<Rightarrow> Inl (OtherError ''upstream server is not running''))"

definition stop_child :: "int option \<Rightarrow> int \<Rightarrow> child \<Rightarrow> child" where
  "stop_child obeyed killed p =
     (case ch_returncode p of
        Some c \<Rightarrow> p
      | None \<Rightarrow> p\<lparr>ch_returncode := Some (case obeyed of Some c \<Rightarrow> c | None \<Rightarrow> killed)\<rparr>)"

definition upstream_shutdown :: "int option \<Rightarrow> int \<Rightarrow> subprocess_upstream \<Rightarrow> int option \<times> subprocess_upstream" where
  "upstream_shutdown obeyed killed u =
     (case su_proc u of
        None \<Rightarrow> (None, u)
      | Some p \<Rightarrow> (ch_returncode (stop_child obeyed killed p), u\<lparr>su_proc := Some (stop_child obeyed killed p)\<rparr>))"

text \<open>What the pump hands to its callbacks: lines, then the exit, with no code when framing is lost.\<close>

datatype upstream_event = OnLine string | OnExit "int option"

fun pump_stdout :: "(string \<Rightarrow> string) \<Rightarrow> int \<Rightarrow> pipe_read list \<Rightarrow> upstream_event list" where
  "pump_stdout repair code [] = []"
| "pump_stdout repair code (Overrun # rds) = [OnExit None]"
| "pump_stdout repair code (ReadLine b # rds) =
     (if b = [] then [OnExit (Some code)]
      else if line_text repair b = [] then pump_stdout repair code rds
      else OnLine (line_text repair b) # pump_stdout repair code rds)"

lemma shutdown_stops:
  assumes "upstream_shutdown obeyed killed u = (c, u')"
  shows "proc_send line u' = Inl (OtherError ''upstream server is not running'')"
    "upstream_shutdown obeyed' killed' u' = (c, u')"
    "su_proc u \<noteq> None \<Longrightarrow> c \<noteq> None"
  using assms by (auto simp: upstream_shutdown_def proc_send_def stop_child_def split: option.splits)

text \<open>
  The pump reports the end once, last, and exactly when the stream has ended; before that it reports
  the lines the sidecar's pump would have handed to the gateway.
\<close>

lemma pump_stdout_lines:
  "\<exists>ls ex. pump_stdout repair code rds = map OnLine ls @ ex \<and> length ex \<le> 1 \<and> (\<forall>l. OnLine l \<notin> set ex) \<and>
     inputs_of repair (map (Pair UpstreamToClient) rds) = map UpstreamLine ls \<and>
     (ex = [] \<longleftrightarrow> Overrun \<notin> set rds \<and> ReadLine [] \<notin> set rds)"
proof (induction repair code rds rule: pump_stdout.induct)
  case (1 repair code)
  then show ?case by (intro exI [of _ "[]"]) simp
next
  case (2 repair code rds)
  then show ?case by (intro exI [of _ "[]"] exI [of _ "[OnExit None]"]) simp
next
  case (3 repair code b rds)
  show ?case
  proof (cases "b = []")
    case True
    then show ?thesis by (intro exI [of _ "[]"] exI [of _ "[OnExit (Some code)]"]) simp
  next
    case False
    show ?thesis
    proof (cases "line_text repair b = []")
      case True
      with 3 False show ?thesis by auto
    next
      case nonblank: False
      from 3(2) [OF False nonblank] obtain ls ex where ih: "pump_stdout repair code rds = map OnLine ls @ ex" "length ex \<le> 1"
        "\<forall>l. OnLine l \<notin> set ex" "inputs_of repair (map (Pair UpstreamToClient) rds) = map UpstreamLine ls"
        "ex = [] \<longleftrightarrow> Overrun \<notin> set rds \<and> ReadLine [] \<notin> set rds" by blast
      then show ?thesis using False nonblank
        by (intro exI [of _ "line_text repair b # ls"] exI [of _ ex]) (simp add: line_input_def)
    qed
  qed
qed

end
