(* ===== verification/Sample_Stdio.thy ===== *)
theory Sample_Stdio
  imports Stdio_Transport Sample_Services
begin

text \<open>A short sidecar session: a refused call, a forwarded one, a blank line, a line of the server, the end.\<close>

definition sample_reads :: "(direction \<times> pipe_read) list" where
  "sample_reads = [(ClientToUpstream, ReadLine (drop_line @ [CHR 10])), (ClientToUpstream, ReadLine [CHR 13, CHR 10]),
     (ClientToUpstream, ReadLine (CHR 32 # web_line @ [CHR 10])), (UpstreamToClient, ReadLine (''ready'' @ [CHR 10])),
     (ClientToUpstream, ReadLine [])]"

lemma sample_reads_inputs: "inputs_of id sample_reads = [ClientLine drop_line, ClientLine web_line, UpstreamLine ''ready'']"
  by code_simp

lemma sample_reads_all_lines: "list_all (\<lambda>x. case snd x of ReadLine b \<Rightarrow> is_line b | Overrun \<Rightarrow> True) sample_reads"
  by code_simp

lemma sample_reads_lines: "reads_lines sample_reads"
  using sample_reads_all_lines by (fastforce simp: reads_lines_def list_all_iff)

lemma sample_reads_pumped_code:
  "(case start_stdio [''server''] sample_gateway of Inr st \<Rightarrow> fst (pump_both id sample_reads st) = (None, True) | Inl _ \<Rightarrow> False)"
  by code_simp

lemma sample_reads_pumped:
  assumes "start_stdio [''server''] sample_gateway = Inr st"
  shows "\<exists>st' did. pump_both id sample_reads st = ((None, True), st', did)"
  using sample_reads_pumped_code assms by (cases "pump_both id sample_reads st") simp

end
