(* ===== verification/Command_Wrap.thy ===== *)
theory Command_Wrap
  imports Stdio_Transport Policy_Signing Redaction_Detectors
begin

text \<open>
  The \<open>wrap\<close> command of \<open>cli/__init__.py\<close>: how options become an engine, a redaction service, a broker
  and a gateway, and the session that follows. What the process finds around it (files by path, the
  environment, keys, randomness) is a record; a handler returns the audit events it emitted with
  its result, so that a refused start shows what it left on the trail.

  The lemmas show that the gateway of a \<open>wrap\<close> session is a standard one, enforcing the engine that
  was loaded, and that in bundle mode nothing is sent to either side unless the policy came from
  a bundle the given key verifies.
\<close>

section \<open>Options and surroundings\<close>

record wrap_args =
  wa_connector :: "string option"
  wa_policy :: "string list"
  wa_override :: "string list"
  wa_bundle :: "string option"
  wa_bundle_store :: "string option"
  wa_bundle_name :: "string option"
  wa_public_key :: "string option"
  wa_principal :: string
  wa_role :: "string option"
  wa_vault :: "string option"
  wa_recognizers :: "string option"
  wa_approvals :: string
  wa_approvals_url :: "string option"
  wa_anomaly :: string
  wa_anomaly_debounce :: int
  wa_upstream_cmd :: "string list"

text \<open>An option is taken as given when it is a non-empty string.\<close>

definition given :: "string option \<Rightarrow> bool" where
  "given x = (case x of None \<Rightarrow> False | Some s \<Rightarrow> s \<noteq> [])"

record ('priv, 'pub) host =
  ho_env :: env
  ho_roots :: "search_root list"
  ho_layer :: "string \<Rightarrow> layer_file"
  ho_bundle :: "string \<Rightarrow> json_file"
  ho_store :: "string \<Rightarrow> disk"
  ho_key :: "string \<Rightarrow> key_file"
  ho_ed :: "('priv, 'pub) ed25519"
  ho_crypto :: "('priv sign_key, 'pub verify_key) Policy_Bundles.crypto"
  ho_yaml :: "string \<Rightarrow> pyval option"
  ho_document :: "string \<Rightarrow> pyval res"
  ho_kek :: "string option"
  ho_vault_crypto :: "Redaction_Vault.crypto"
  ho_vault_db :: "string \<Rightarrow> vault_db"
  ho_random :: "nat \<Rightarrow> string"
  ho_mac :: "string \<Rightarrow> string"
  ho_hmac :: "string \<Rightarrow> string"
  ho_analyzer :: "analyzer option"
  ho_finditer :: user_finditer
  ho_entities :: entities
  ho_claude :: bool
  ho_uid :: string
  ho_now :: string
  ho_version :: string

abbreviation ho_lib :: "('priv, 'pub) host \<Rightarrow> pylib" where
  "ho_lib ho \<equiv> e_lib (ho_env ho)"

section \<open>Vault and recognizers\<close>

definition load_kek_from_env :: "(string \<Rightarrow> string option) \<Rightarrow> string option \<Rightarrow> (string option) res" where
  "load_kek_from_env b64decode raw =
     (case raw of
        None \<Rightarrow> Inr None
      | Some s \<Rightarrow>
          if s = [] then Inr None
          else (case b64decode s of
                  None \<Rightarrow> Inl (ValueError ''MCP_GATEWAY_VAULT_KEK is not valid base64'')
                | Some kek \<Rightarrow>
                    if length kek < 32 then Inl (ValueError ''MCP_GATEWAY_VAULT_KEK must decode to at least 32 bytes'')
                    else Inr (Some kek)))"

definition open_wrap_vault :: "('priv, 'pub) host \<Rightarrow> string option \<Rightarrow> vault res" where
  "open_wrap_vault ho path =
     (case path of
        None \<Rightarrow> Inr (MemVault (new_mem_vault (ho_mac ho)))
      | Some p \<Rightarrow>
          ebind (load_kek_from_env (cr_b64decode (ho_crypto ho)) (ho_kek ho)) (\<lambda>kek.
          case kek of
            None \<Rightarrow> Inl (OtherError ''--vault needs a base64 key'')
          | Some k \<Rightarrow> ebind (open_vault (ho_vault_crypto ho) (ho_random ho) (ho_vault_db ho p) k) (\<lambda>v. Inr (EncVault v))))"

definition load_config_file :: "string \<Rightarrow> pyval res \<Rightarrow> (pyval list) res" where
  "load_config_file path decoded =
     ebind decoded (\<lambda>doc.
     case (case doc of PDict d \<Rightarrow> if dhas d ''recognizers'' then dget_none d ''recognizers'' else doc | _ \<Rightarrow> doc) of
       PList xs \<Rightarrow> Inr xs
     | _ \<Rightarrow> Inl (OtherError (path @ '': expected a list of recognizers'')))"

definition wrap_recognizers :: "('priv, 'pub) host \<Rightarrow> string option \<Rightarrow> (recognizer list) res" where
  "wrap_recognizers ho path =
     (if given path
      then ebind (load_config_file (the path) (ho_document ho (the path))) (\<lambda>xs.
           fst (load_recognizers (ho_lib ho) 0 xs (ho_entities ho)))
      else Inr [])"

section \<open>Engines\<close>

definition build_wrap_engine :: "('priv, 'pub) host \<Rightarrow> wrap_args \<Rightarrow> policy_engine res" where
  "build_wrap_engine ho a =
     (if given (wa_connector a) then
        ebind (find_connector (the (wa_connector a)) (ho_roots ho)) (\<lambda>c.
        engine_load (ho_lib ho) (policy_layers c @ map (ho_layer ho) (wa_policy a) @ map (ho_layer ho) (wa_override a)))
      else if wa_policy a \<noteq> [] then
        engine_load (ho_lib ho) (map (ho_layer ho) (wa_policy a) @ map (ho_layer ho) (wa_override a))
      else Inl (OtherError ''wrap: provide --connector NAME or --policy FILE''))"

text \<open>Bundle mode: the events on the trail, and the engine with the annotations of \<open>gateway_start\<close>.\<close>

type_synonym bundle_load = "effect list \<times> (policy_engine \<times> pydict) res"

definition bundle_event :: "string \<Rightarrow> string \<Rightarrow> string \<Rightarrow> pydict \<Rightarrow> effect" where
  "bundle_event event name version rest_fields =
     Audit event ([(PStr ''bundle'', PStr name), (PStr ''version'', PStr version)] @ rest_fields)"

definition reject_bundle :: "string \<Rightarrow> string \<Rightarrow> string \<Rightarrow> bundle_load" where
  "reject_bundle name version reason =
     ([bundle_event ''policy_bundle_rejected'' name version [(PStr ''reason'', PStr reason)]],
      Inl (OtherError (''policy bundle rejected: '' @ reason)))"

definition enforce_bundle :: "('priv, 'pub) host \<Rightarrow> effect list \<Rightarrow> string \<Rightarrow> policy_bundle \<Rightarrow> bundle_load" where
  "enforce_bundle ho evs source b =
     (case engine_from_bundle (ho_lib ho) (ho_yaml ho) b of
        Inl e \<Rightarrow> (evs, Inl e)
      | Inr pe \<Rightarrow>
          (evs @ [bundle_event ''policy_bundle_loaded'' (pb_name b) (pb_version b)
                    [(PStr ''signer_key_id'', pb_signer_key_id b), (PStr ''content_hash'', PStr (pb_content_hash b))]],
           Inr (pe, [(PStr ''bundle_source'', PStr source), (PStr ''bundle_name'', PStr (pb_name b)),
                     (PStr ''bundle_version'', PStr (pb_version b)), (PStr ''bundle_signer'', pb_signer_key_id b)])))"

definition store_engine :: "('priv, 'pub) host \<Rightarrow> wrap_args \<Rightarrow> 'pub verify_key \<Rightarrow> bundle_load" where
  "store_engine ho a vk =
     (if \<not> given (wa_bundle_name a) then ([], Inl (OtherError ''wrap --bundle-store requires --bundle-name NAME''))
      else case current (ho_lib ho) (ho_crypto ho) vk (ho_store ho (the (wa_bundle_store a))) (the (wa_bundle_name a)) of
             Inl e \<Rightarrow> ([], Inl e)
           | Inr None \<Rightarrow> reject_bundle (the (wa_bundle_name a)) [] ''no usable current or last-known-good bundle''
           | Inr (Some r) \<Rightarrow>
               enforce_bundle ho
                 (if rv_fell_back r
                  then [bundle_event ''policy_bundle_fallback'' (pb_name (rv_bundle r)) (pb_version (rv_bundle r))
                          [(PStr ''reason'', PStr ''current bundle unusable; served last-known-good'')]]
                  else [])
                 (rv_source r) (rv_bundle r))"

definition file_engine :: "('priv, 'pub) host \<Rightarrow> wrap_args \<Rightarrow> 'pub verify_key \<Rightarrow> bundle_load" where
  "file_engine ho a vk =
     (case load_bundle (ho_bundle ho (the (wa_bundle a))) (the (wa_bundle a)) of
        Inl e \<Rightarrow> ([], Inl e)
      | Inr b \<Rightarrow>
          (let result = verify_bundle (ho_lib ho) (ho_crypto ho) b (Some vk) in
           if verify_ok result then enforce_bundle ho [] ''file'' b
           else reject_bundle (pb_name b) (pb_version b)
                  (if vr_reasons result \<noteq> [] then hd (vr_reasons result) else verify_summary result)))"

definition load_bundle_engine :: "('priv, 'pub) host \<Rightarrow> wrap_args \<Rightarrow> bundle_load" where
  "load_bundle_engine ho a =
     (if wa_override a \<noteq> [] \<or> wa_policy a \<noteq> [] \<or> given (wa_connector a) then
        ([], Inl (OtherError ''wrap: --bundle/--bundle-store cannot be combined with --connector/--policy/--override''))
      else if \<not> given (wa_public_key a) then
        ([], Inl (OtherError ''wrap --bundle/--bundle-store requires --public-key to verify the signature''))
      else case load_verifying_key (ho_ed ho) (the (wa_public_key a)) (ho_key ho (the (wa_public_key a))) of
             Inl e \<Rightarrow> ([], Inl e)
           | Inr vk \<Rightarrow> if given (wa_bundle_store a) then store_engine ho a vk else file_engine ho a vk)"

definition bundle_mode :: "wrap_args \<Rightarrow> bool" where
  "bundle_mode a = (given (wa_bundle a) \<or> given (wa_bundle_store a))"

definition wrap_engine :: "('priv, 'pub) host \<Rightarrow> wrap_args \<Rightarrow> bundle_load" where
  "wrap_engine ho a =
     (if bundle_mode a then load_bundle_engine ho a
      else ([], ebind (build_wrap_engine ho a) (\<lambda>pe. Inr (pe, []))))"

section \<open>Assembly\<close>

definition wrap_broker :: "wrap_args \<Rightarrow> policy_engine \<Rightarrow> broker res" where
  "wrap_broker a pe =
     (case build_broker (wa_approvals a) (wa_approvals_url a) 300 (fp_approval (pe_posture pe) = OPEN) of
        Inl (ValueError s) \<Rightarrow> Inl (OtherError s)
      | r \<Rightarrow> r)"

definition wrap_principal :: "wrap_args \<Rightarrow> principal" where
  "wrap_principal a = \<lparr>pn_id = wa_principal a, pn_roles = (if given (wa_role a) then [the (wa_role a)] else [])\<rparr>"

definition wrap_gateway :: "('priv, 'pub) host \<Rightarrow> wrap_args \<Rightarrow> policy_engine \<Rightarrow> (gateway \<times> broker) res" where
  "wrap_gateway ho a pe =
     ebind (open_wrap_vault ho (wa_vault a)) (\<lambda>v.
     ebind (wrap_recognizers ho (wa_recognizers a)) (\<lambda>recs.
     ebind (wrap_broker a pe) (\<lambda>br.
     ebind (build_monitor (ho_claude ho) (wa_anomaly a) (wa_anomaly_debounce a)) (\<lambda>mon.
     ebind (default_pipeline (ho_env ho) pe True (Some br)) (\<lambda>stages.
     ebind (make_gateway (ho_env ho) \<lparr>pl_stages = stages, pl_handlers = Some (build_action_handlers True (Some br))\<rparr>
              (wrap_principal a) (Some pe) True (session_new (ho_uid ho) (ho_now ho)) mon
              \<lparr>w_service = make_service (ho_analyzer ho) (ho_finditer ho) recs v (ho_hmac ho), w_asked = 0\<rparr>) (\<lambda>g.
     Inr (g, br)))))))"

definition upstream_command :: "string list \<Rightarrow> string list" where
  "upstream_command c = (case c of [] \<Rightarrow> [] | w # ws \<Rightarrow> if w = ''--'' then ws else c)"

text \<open>
  \<open>_run_wrap\<close>. The pipes yield \<open>rds\<close> and the upstream ends with \<open>returncode\<close>. The result is everything
  on the trail and the wires, the exit code or the exception, and the session when one was run.
\<close>

record wrap_run =
  wr_effects :: "effect list"
  wr_exit :: "int res"
  wr_annotations :: pydict
  wr_session :: "stdio option"

definition wrap_annotations :: "policy_engine \<Rightarrow> broker \<Rightarrow> gateway \<Rightarrow> pydict \<Rightarrow> string \<Rightarrow> pydict" where
  "wrap_annotations pe br g bundle_notes version =
     [(PStr ''policy_source'', PStr (join '' + '' (pe_layer_names pe))), (PStr ''default_action'', PStr (pe_default_action pe)),
      (PStr ''transport'', PStr ''stdio''), (PStr ''approval_mode'', PStr (channel_name (br_channel br))),
      (PStr ''anomaly_backend'', PStr (case g_anomaly g of Some m \<Rightarrow> backend_name (mo_backend m) | None \<Rightarrow> ''off'')),
      (PStr ''gateway_version'', PStr version)] @ bundle_notes"

definition run_wrap ::
  "('priv, 'pub) host \<Rightarrow> wrap_args \<Rightarrow> (string \<Rightarrow> string) \<Rightarrow> (direction \<times> pipe_read) list \<Rightarrow> pyval \<Rightarrow> wrap_run" where
  "run_wrap ho a repair rds returncode =
     (let command = upstream_command (wa_upstream_cmd a);
          (evs, loaded) = wrap_engine ho a;
          failed = (\<lambda>e. \<lparr>wr_effects = evs, wr_exit = Inl e, wr_annotations = [], wr_session = None\<rparr>) in
      if command = [] then \<lparr>wr_effects = [], wr_exit = Inr 2, wr_annotations = [], wr_session = None\<rparr>
      else case loaded of
        Inl e \<Rightarrow> failed e
      | Inr (pe, bundle_notes) \<Rightarrow>
          (case wrap_gateway ho a pe of
             Inl e \<Rightarrow> failed e
           | Inr (g, br) \<Rightarrow>
               (case run_stdio repair command rds returncode g of
                  Inl e \<Rightarrow> failed e
                | Inr (r, st, es) \<Rightarrow>
                    \<lparr>wr_effects = evs @ es, wr_exit = (case r of None \<Rightarrow> Inr 0 | Some e \<Rightarrow> Inl e),
                     wr_annotations = wrap_annotations pe br g bundle_notes (ho_version ho), wr_session = Some st\<rparr>)))"

section \<open>What a start can leave behind\<close>

definition silent :: "effect list \<Rightarrow> bool" where
  "silent es \<longleftrightarrow> sent_lines es = {}"

lemma silent_simps [simp]: "silent []" "silent (a @ b) = (silent a \<and> silent b)" "silent (Audit n fs # es) = silent es"
  by (auto simp: silent_def sent_lines_def)

text \<open>An engine that came out of bundle mode was compiled from a bundle the given key verifies.\<close>

definition vouched :: "('priv, 'pub) host \<Rightarrow> wrap_args \<Rightarrow> policy_bundle \<Rightarrow> bool" where
  "vouched ho a b \<longleftrightarrow> (\<exists>vk. load_verifying_key (ho_ed ho) (the (wa_public_key a)) (ho_key ho (the (wa_public_key a))) = Inr vk \<and>
     verify_ok (verify_bundle (ho_lib ho) (ho_crypto ho) b (Some vk)))"

lemma enforce_bundle_facts:
  "silent evs \<Longrightarrow> silent (fst (enforce_bundle ho evs src b))"
  "enforce_bundle ho evs src b = (es, Inr (pe, ann)) \<Longrightarrow> engine_from_bundle (ho_lib ho) (ho_yaml ho) b = Inr pe"
  by (auto simp: enforce_bundle_def bundle_event_def split: sum.splits)

lemma reject_bundle_facts: "silent (fst (reject_bundle n v r))" "isl (snd (reject_bundle n v r))"
  by (simp_all add: reject_bundle_def bundle_event_def)

lemma wrap_engine_silent: "silent (fst (wrap_engine ho a))"
  by (auto simp: wrap_engine_def load_bundle_engine_def store_engine_def file_engine_def Let_def reject_bundle_facts
      bundle_event_def intro!: enforce_bundle_facts(1) split: sum.splits option.splits)

lemma bundle_engine_vouched:
  assumes "load_bundle_engine ho a = (evs, Inr (pe, ann))"
  shows "\<exists>b. vouched ho a b \<and> engine_from_bundle (ho_lib ho) (ho_yaml ho) b = Inr pe"
proof -
  obtain vk where vk: "load_verifying_key (ho_ed ho) (the (wa_public_key a)) (ho_key ho (the (wa_public_key a))) = Inr vk"
    "(if given (wa_bundle_store a) then store_engine ho a vk else file_engine ho a vk) = (evs, Inr (pe, ann))"
    using assms by (auto simp: load_bundle_engine_def split: if_splits sum.splits)
  have "\<exists>b evs' src. verify_ok (verify_bundle (ho_lib ho) (ho_crypto ho) b (Some vk)) \<and>
      enforce_bundle ho evs' src b = (evs, Inr (pe, ann))"
  proof (cases "given (wa_bundle_store a)")
    case True
    with vk(2) show ?thesis
      by (auto simp: store_engine_def reject_bundle_def dest: current_is_verified split: if_splits sum.splits option.splits)
  next
    case False
    with vk(2) show ?thesis by (auto simp: file_engine_def reject_bundle_def Let_def split: if_splits sum.splits)
  qed
  with vk(1) enforce_bundle_facts(2) show ?thesis unfolding vouched_def by blast
qed

section \<open>The gateway of a session\<close>

lemma wrap_gateway_standard:
  assumes "wrap_gateway ho a pe = Inr (g, br)"
  shows "standard g pe (build_action_handlers True (Some br))" and "g_env g = ho_env ho" and "g_principal g = wrap_principal a"
    and "g_posture g = pe_posture pe" and "g_session g = session_new (ho_uid ho) (ho_now ho)" and "wrap_broker a pe = Inr br"
  using assms wf_handlers
  by (auto simp: wrap_gateway_def make_gateway_def default_pipeline_def make_pipeline_def default_stages_def
      standard_def ebind_eq_Inr)

text \<open>The broker of a session opens on failure only where the policy says so, and approves unasked only in the development mode.\<close>

lemma wrap_broker_closed:
  assumes "wrap_broker a pe = Inr br"
  shows "br_fail_open br \<longleftrightarrow> fp_approval (pe_posture pe) = OPEN" and "br_channel br = AllowChannel \<longleftrightarrow> wa_approvals a = ''allow''"
  using assms by (auto simp: wrap_broker_def build_broker_def make_http_channel_def split: if_splits option.splits)

text \<open>With a command there is a session.\<close>

lemma run_stdio_Inr:
  assumes "command \<noteq> []"
  obtains out where "run_stdio repair command rds rc g = Inr out"
proof -
  obtain st where st: "start_stdio command g = Inr st" using assms by (simp add: start_stdio_def)
  obtain r ended st' did where "pump_both repair rds st = ((r, ended), st', did)" by (metis surj_pair)
  with st show thesis by (intro that) (simp add: run_stdio_def)
qed

text \<open>Nothing leaves the process unless a session ran, and then its gateway enforces the loaded engine.\<close>

lemma run_wrap_session:
  assumes "\<not> silent (wr_effects (run_wrap ho a repair rds rc)) \<or> wr_session (run_wrap ho a repair rds rc) \<noteq> None"
  obtains evs pe ann g br r st es where "wrap_engine ho a = (evs, Inr (pe, ann))" "wrap_gateway ho a pe = Inr (g, br)"
    "run_stdio repair (upstream_command (wa_upstream_cmd a)) rds rc g = Inr (r, st, es)"
    "wr_effects (run_wrap ho a repair rds rc) = evs @ es" "wr_session (run_wrap ho a repair rds rc) = Some st"
proof -
  obtain evs loaded where w: "wrap_engine ho a = (evs, loaded)" by fastforce
  then have "silent evs" using wrap_engine_silent [of ho a] by simp
  with assms w show thesis
    by (auto simp: run_wrap_def Let_def intro!: that split: if_splits sum.splits prod.splits)
qed

lemma wrap_session_vouched:
  assumes "bundle_mode a" and "\<not> silent (wr_effects (run_wrap ho a repair rds rc)) \<or> wr_session (run_wrap ho a repair rds rc) \<noteq> None"
  shows "\<exists>b pe g br r st es. vouched ho a b \<and> engine_from_bundle (ho_lib ho) (ho_yaml ho) b = Inr pe \<and>
    wrap_gateway ho a pe = Inr (g, br) \<and> standard g pe (build_action_handlers True (Some br)) \<and>
    run_stdio repair (upstream_command (wa_upstream_cmd a)) rds rc g = Inr (r, st, es) \<and>
    sent_lines (wr_effects (run_wrap ho a repair rds rc)) = sent_lines es \<and> wr_session (run_wrap ho a repair rds rc) = Some st"
  using assms(2)
proof (rule run_wrap_session)
  fix evs pe ann g br r st es
  assume h: "wrap_engine ho a = (evs, Inr (pe, ann))" "wrap_gateway ho a pe = Inr (g, br)"
    "run_stdio repair (upstream_command (wa_upstream_cmd a)) rds rc g = Inr (r, st, es)"
    "wr_effects (run_wrap ho a repair rds rc) = evs @ es" "wr_session (run_wrap ho a repair rds rc) = Some st"
  have "sent_lines (wr_effects (run_wrap ho a repair rds rc)) = sent_lines es"
    using h(1,4) wrap_engine_silent [of ho a] by (simp add: silent_def)
  moreover from h(1) obtain b where "vouched ho a b" "engine_from_bundle (ho_lib ho) (ho_yaml ho) b = Inr pe"
    using assms(1) bundle_engine_vouched by (fastforce simp: wrap_engine_def)
  ultimately show ?thesis using h wrap_gateway_standard(1) [OF h(2)] by blast
qed

section \<open>Only released policy is enforced\<close>

text \<open>
  What the chain of trust rests on: the key in the given file verifies only manifests of released
  bundles, whose hashes are their own, and no other payload has the hash of a released one.
\<close>

definition trusted_releases :: "('priv, 'pub) host \<Rightarrow> wrap_args \<Rightarrow> policy_bundle set \<Rightarrow> bool" where
  "trusted_releases ho a released \<longleftrightarrow>
     (\<forall>vk s m. load_verifying_key (ho_ed ho) (the (wa_public_key a)) (ho_key ho (the (wa_public_key a))) = Inr vk \<longrightarrow>
        cr_verify (ho_crypto ho) vk s m \<longrightarrow> m \<in> manifest_bytes (ho_lib ho) ` released) \<and>
     (\<forall>r \<in> released. pb_content_hash r = computed_hash (ho_lib ho) (ho_crypto ho) (pb_layers r)) \<and>
     (\<forall>r \<in> released. \<forall>ls. cr_sha256 (ho_crypto ho) (payload_bytes (ho_lib ho) ls) =
          cr_sha256 (ho_crypto ho) (payload_bytes (ho_lib ho) (pb_layers r)) \<longrightarrow>
        payload_bytes (ho_lib ho) ls = payload_bytes (ho_lib ho) (pb_layers r))"

lemma vouched_is_released:
  assumes "vouched ho a b" and "trusted_releases ho a released"
  shows "\<exists>r \<in> released. pb_layers b = pb_layers r \<and> pb_name b = pb_name r \<and> pb_version b = pb_version r"
proof -
  from assms(1) obtain vk where vk: "load_verifying_key (ho_ed ho) (the (wa_public_key a)) (ho_key ho (the (wa_public_key a))) = Inr vk"
    "verify_ok (verify_bundle (ho_lib ho) (ho_crypto ho) b (Some vk))" by (auto simp: vouched_def)
  have "inj_on (cr_sha256 (ho_crypto ho)) ((\<lambda>x. payload_bytes (ho_lib ho) (pb_layers x)) ` insert b released)"
    unfolding inj_on_def using assms(2) by (auto simp: trusted_releases_def)
  then show ?thesis
    using verified_is_released [OF vk(2), of released] assms(2) vk(1) unfolding trusted_releases_def by blast
qed

lemma engine_from_layers: "pb_layers b = pb_layers r \<Longrightarrow> engine_from_bundle lib yaml b = engine_from_bundle lib yaml r"
  by (simp add: engine_from_bundle_def)

lemma wrap_enforces_released:
  assumes "bundle_mode a" and "trusted_releases ho a released"
    and "\<not> silent (wr_effects (run_wrap ho a repair rds rc)) \<or> wr_session (run_wrap ho a repair rds rc) \<noteq> None"
  shows "\<exists>r \<in> released. \<exists>pe g br x st es. engine_from_bundle (ho_lib ho) (ho_yaml ho) r = Inr pe \<and> wrap_gateway ho a pe = Inr (g, br) \<and>
    standard g pe (build_action_handlers True (Some br)) \<and>
    run_stdio repair (upstream_command (wa_upstream_cmd a)) rds rc g = Inr (x, st, es) \<and>
    sent_lines (wr_effects (run_wrap ho a repair rds rc)) = sent_lines es \<and> wr_session (run_wrap ho a repair rds rc) = Some st"
proof -
  from wrap_session_vouched [OF assms(1,3)] obtain b pe g br x st es where
    b: "vouched ho a b" "engine_from_bundle (ho_lib ho) (ho_yaml ho) b = Inr pe" "wrap_gateway ho a pe = Inr (g, br)"
    "standard g pe (build_action_handlers True (Some br))"
    "run_stdio repair (upstream_command (wa_upstream_cmd a)) rds rc g = Inr (x, st, es)"
    "sent_lines (wr_effects (run_wrap ho a repair rds rc)) = sent_lines es" "wr_session (run_wrap ho a repair rds rc) = Some st" by blast
  from vouched_is_released [OF b(1) assms(2)] obtain r where r: "r \<in> released" "pb_layers b = pb_layers r" by blast
  with b(2) engine_from_layers have "engine_from_bundle (ho_lib ho) (ho_yaml ho) r = Inr pe" by metis
  with r b show ?thesis by blast
qed

text \<open>A tampered bundle file leaves one event, and no session.\<close>

lemma tampered_bundle_refused:
  assumes "wa_override a = []" "wa_policy a = []" "\<not> given (wa_connector a)" "\<not> given (wa_bundle_store a)" "given (wa_bundle a)"
    and "given (wa_public_key a)" "upstream_command (wa_upstream_cmd a) \<noteq> []"
    and "load_verifying_key (ho_ed ho) (the (wa_public_key a)) (ho_key ho (the (wa_public_key a))) = Inr vk"
    and "load_bundle (ho_bundle ho (the (wa_bundle a))) (the (wa_bundle a)) = Inr b"
    and "\<not> verify_ok (verify_bundle (ho_lib ho) (ho_crypto ho) b (Some vk))"
  shows "\<exists>reason. wr_effects (run_wrap ho a repair rds rc) =
      [bundle_event ''policy_bundle_rejected'' (pb_name b) (pb_version b) [(PStr ''reason'', PStr reason)]] \<and>
    wr_exit (run_wrap ho a repair rds rc) = Inl (OtherError (''policy bundle rejected: '' @ reason)) \<and>
    wr_session (run_wrap ho a repair rds rc) = None"
proof -
  let ?result = "verify_bundle (ho_lib ho) (ho_crypto ho) b (Some vk)"
  let ?reason = "if vr_reasons ?result \<noteq> [] then hd (vr_reasons ?result) else verify_summary ?result"
  have "wrap_engine ho a = reject_bundle (pb_name b) (pb_version b) ?reason"
    using assms by (simp add: wrap_engine_def bundle_mode_def load_bundle_engine_def file_engine_def Let_def)
  then show ?thesis using assms(7) by (intro exI [of _ ?reason]) (simp add: run_wrap_def reject_bundle_def)
qed

text \<open>
  A bundle file that no longer parses, or a verified one whose layers do not compile, is refused as
  well, but without an event on the trail.
\<close>

lemma unreadable_bundle_leaves_no_trace:
  assumes "bundle_mode a" and "\<not> given (wa_bundle_store a)" and "load_bundle (ho_bundle ho (the (wa_bundle a))) (the (wa_bundle a)) = Inl e"
  shows "wr_effects (run_wrap ho a repair rds rc) = []" and "wr_session (run_wrap ho a repair rds rc) = None"
  using assms by (auto simp: run_wrap_def wrap_engine_def load_bundle_engine_def file_engine_def Let_def split: sum.splits)

text \<open>A bad key for the vault raises an exception that is no gateway error.\<close>

lemma bad_kek_is_value_error:
  assumes "ho_kek ho = Some s" and "s \<noteq> []" and "cr_b64decode (ho_crypto ho) s = None"
  shows "open_wrap_vault ho (Some p) = Inl (ValueError ''MCP_GATEWAY_VAULT_KEK is not valid base64'')"
  using assms by (simp add: open_wrap_vault_def load_kek_from_env_def)

end
