(* ===== verification/Sample_Wrap.thy ===== *)
theory Sample_Wrap
  imports Command_Wrap Sample_Stdio
begin

text \<open>A sidecar started from a signed bundle file: one released bundle, a key that verifies nothing else.\<close>

definition wrap_layers :: "bundle_layer list" where
  "wrap_layers = [\<lparr>bl_name = ''policy.yaml'', bl_text = ''schema_version: 1''\<rparr>]"

definition wrap_unsigned :: policy_bundle where
  "wrap_unsigned =
     \<lparr>pb_name = ''github'', pb_version = ''v1'', pb_created = ''t'', pb_layers = wrap_layers,
      pb_content_hash = HASH_PREFIX @ payload_bytes sample_lib wrap_layers, pb_signer_key_id = PNone, pb_signature = None\<rparr>"

definition wrap_ed :: "(string, string) ed25519" where
  "wrap_ed =
     \<lparr>ed_installed = True, ed_public = id, ed_raw = id, ed_from_raw = Some, ed_sign = (\<lambda>k m. k @ m),
      ed_verify = (\<lambda>k s m. s = k @ m \<and> m = manifest_bytes sample_lib wrap_unsigned),
      ed_private_pem = (\<lambda>k. CHR ''S'' # k), ed_public_pem = (\<lambda>k. CHR ''P'' # k),
      ed_load_private = (\<lambda>d. if d \<noteq> [] \<and> hd d = CHR ''S'' then Some (Ed25519Key (tl d)) else None),
      ed_load_public = (\<lambda>d. if d \<noteq> [] \<and> hd d = CHR ''P'' then Some (Ed25519Key (tl d)) else None)\<rparr>"

definition wrap_crypto :: "(string sign_key, string verify_key) Policy_Bundles.crypto" where
  "wrap_crypto = bundle_crypto wrap_ed id id Some"

definition wrap_signed :: policy_bundle where
  "wrap_signed = sign_bundle sample_lib wrap_crypto \<lparr>sk_key = ''release'', sk_public_raw = ''release''\<rparr> wrap_unsigned"

definition wrap_host :: "(string, string) host" where
  "wrap_host =
     \<lparr>ho_env = sample_env, ho_roots = [],
      ho_layer = (\<lambda>p. \<lparr>lf_path = p, lf_stem = p, lf_json = False, lf_content = None\<rparr>),
      ho_bundle = (\<lambda>p. if p = ''github.bundle'' then Some (Inr (PDict (bundle_to_dict wrap_signed))) else None),
      ho_store = (\<lambda>p q. None), ho_key = (\<lambda>p. if p = ''release.pub.pem'' then KeyBytes ''Prelease'' else MissingFile),
      ho_ed = wrap_ed, ho_crypto = wrap_crypto, ho_yaml = (\<lambda>t. Some sample_doc), ho_document = (\<lambda>p. Inl Beyond), ho_kek = None,
      ho_vault_crypto = \<lparr>cx_hkdf = id, cx_mac = (\<lambda>k s. s), cx_encrypt = (\<lambda>k n s aad. s), cx_decrypt = (\<lambda>k n s aad. Some s)\<rparr>,
      ho_vault_db = (\<lambda>p. \<lparr>db_meta = Map.empty, db_tokens = Map.empty\<rparr>), ho_random = (\<lambda>n. []), ho_mac = id, ho_hmac = id,
      ho_analyzer = None, ho_finditer = (\<lambda>p i t. []), ho_entities = [], ho_claude = False, ho_uid = ''s1'', ho_now = ''t0'',
      ho_version = ''1''\<rparr>"

definition wrap_options :: wrap_args where
  "wrap_options =
     \<lparr>wa_connector = None, wa_policy = [], wa_override = [], wa_bundle = Some ''github.bundle'', wa_bundle_store = None,
      wa_bundle_name = None, wa_public_key = Some ''release.pub.pem'', wa_principal = ''local'', wa_role = None, wa_vault = None,
      wa_recognizers = None, wa_approvals = ''deny'', wa_approvals_url = None, wa_anomaly = ''off'', wa_anomaly_debounce = 1,
      wa_upstream_cmd = [''--'', ''server'']\<rparr>"

lemma wrap_options_bundle: "bundle_mode wrap_options"
  by (simp add: bundle_mode_def wrap_options_def given_def)

lemma wrap_key: "load_verifying_key wrap_ed p (KeyBytes ''Prelease'') = Inr \<lparr>vk_key = ''release'', vk_public_raw = ''release''\<rparr>"
  by (simp add: load_verifying_key_def wrap_ed_def require_crypto_def read_key_file_def public_half_def)

lemma wrap_releases: "trusted_releases wrap_host wrap_options {wrap_unsigned}"
  by (simp add: trusted_releases_def wrap_host_def wrap_options_def wrap_crypto_def bundle_crypto_def verify_bytes_def
      computed_hash_def sample_env_def wrap_unsigned_def) (simp add: wrap_ed_def wrap_unsigned_def)

definition wrap_ready :: "bundle_load \<Rightarrow> bool" where
  "wrap_ready l =
     (case snd l of
        Inl _ \<Rightarrow> False
      | Inr (pe, _) \<Rightarrow>
          isOk (wrap_broker wrap_options pe) \<and> isOk (build_risk_engine pe) \<and> isOk (build_sequence_policy pe))"

lemma wrap_engine_ready: "wrap_ready (wrap_engine wrap_host wrap_options)"
  by code_simp

lemma wrap_session_runs: "wr_session (run_wrap wrap_host wrap_options id sample_reads (PInt 0)) \<noteq> None"
proof -
  obtain evs pe ann br rk sq where e: "wrap_engine wrap_host wrap_options = (evs, Inr (pe, ann))" "wrap_broker wrap_options pe = Inr br"
    "build_risk_engine pe = Inr rk" "build_sequence_policy pe = Inr sq"
    using wrap_engine_ready by (cases "wrap_engine wrap_host wrap_options") (auto simp: wrap_ready_def isOk_def split: sum.splits)
  have "\<exists>g. wrap_gateway wrap_host wrap_options pe = Inr (g, br)"
    using e by (simp add: wrap_gateway_def wrap_options_def open_wrap_vault_def wrap_recognizers_def given_def build_monitor_def
      default_pipeline_def make_pipeline_def default_stages_def make_gateway_def)
  then obtain g where g: "wrap_gateway wrap_host wrap_options pe = Inr (g, br)" by blast
  obtain out where "run_stdio id [''server''] sample_reads (PInt 0) g = Inr out"
    by (rule run_stdio_Inr [of "[''server'']"]) simp
  moreover have "upstream_command (wa_upstream_cmd wrap_options) = [''server'']" by (simp add: upstream_command_def wrap_options_def)
  ultimately show ?thesis using e(1) g by (cases out) (simp add: run_wrap_def)
qed

end
