(* ===== verification/Command_Line.thy ===== *)
theory Command_Line
  imports Command_Wrap Policy_CI Policy_Diff Audit_Sinks Audit_Index Console_App
begin

text \<open>
  The other commands of \<open>cli/__init__.py\<close>: what each does to files, stores and indexes, and the code
  it exits with. A command returns its code or the exception it lets through; what it prints is
  left out, except where the printed value is what matters.

  The lemmas say what a code of zero promises: \<open>policy validate\<close> accepts exactly what an engine can be
  built from, a key pair made by \<open>policy keygen\<close> signs bundles that \<open>policy bundle verify\<close> accepts and
  overwrites nothing unasked, a value leaves \<open>detokenize\<close> only after it is on the audit trail, and the
  console does not open its approval endpoint to a network without a token.
\<close>

section \<open>Exit codes\<close>

text \<open>A gateway error is reported and any other exception ends the interpreter: the status is 1 either way.\<close>

definition exit_status :: "int res \<Rightarrow> int" where
  "exit_status r = (case r of Inr code \<Rightarrow> code | Inl _ \<Rightarrow> 1)"

section \<open>Policy files\<close>

fun validate_files :: "pylib \<Rightarrow> layer_file list \<Rightarrow> (policy_layer list \<times> bool) res" where
  "validate_files lib [] = Inr ([], False)"
| "validate_files lib (f # fs) =
     (case load_policy_file lib f of
        Inr l \<Rightarrow> ebind (validate_files lib fs) (\<lambda>(ls, failed). Inr (l # ls, failed))
      | Inl (PolicyError _) \<Rightarrow> ebind (validate_files lib fs) (\<lambda>(ls, _). Inr (ls, True))
      | Inl e \<Rightarrow> Inl e)"

definition run_policy_validate :: "pylib \<Rightarrow> layer_file list \<Rightarrow> int res" where
  "run_policy_validate lib files =
     ebind (validate_files lib files) (\<lambda>(layers, failed).
     if failed then Inr 1
     else if layers = [] then Inr 0
     else (case make_engine lib layers of
             Inr _ \<Rightarrow> Inr 0
           | Inl (PolicyError _) \<Rightarrow> Inr 1
           | Inl e \<Rightarrow> Inl e))"

definition run_policy_test ::
  "env \<Rightarrow> string \<Rightarrow> string \<Rightarrow> world \<Rightarrow> layer_file list \<Rightarrow> string \<Rightarrow> file_content option \<Rightarrow> int res" where
  "run_policy_test ev sid now w layers path tests =
     ebind (run_policy_tests ev sid now w layers path tests) (\<lambda>results.
     Inr (if filter (\<lambda>r. \<not> gr_passed r) results \<noteq> [] then 1 else 0))"

definition run_policy_ci_command :: "ci_env \<Rightarrow> nat \<Rightarrow> bool \<Rightarrow> string list \<Rightarrow> repo \<Rightarrow> int res" where
  "run_policy_ci_command ce min_goldens no_backtest only rp =
     ebind (run_policy_ci ce min_goldens (\<not> no_backtest) only rp) (\<lambda>report. Inr (if ci_ok report then 0 else 1))"

definition run_policy_diff :: "pylib \<Rightarrow> bool \<Rightarrow> repo \<Rightarrow> repo \<Rightarrow> int res" where
  "run_policy_diff lib fail_on_crossing base hd_root =
     ebind (diff_roots lib base hd_root) (\<lambda>result.
     Inr (if fail_on_crossing \<and> sum_list (map pd_newly_allowed result) \<noteq> 0 then 1 else 0))"

section \<open>Keys and bundles\<close>

text \<open>A directory of key files: content and mode.\<close>

type_synonym key_dir = "string \<rightharpoonup> string \<times> nat"

definition run_policy_keygen ::
  "('priv, 'pub) ed25519 \<Rightarrow> 'priv \<Rightarrow> nat \<Rightarrow> string \<Rightarrow> bool \<Rightarrow> key_dir \<Rightarrow> int res \<times> key_dir" where
  "run_policy_keygen ed drawn umask out force fs =
     (let priv_path = out @ ''.pem''; pub_path = out @ ''.pub.pem'' in
      if \<not> force \<and> fs priv_path \<noteq> None then (Inl (OtherError (priv_path @ '' exists (use --force to overwrite)'')), fs)
      else if \<not> force \<and> fs pub_path \<noteq> None then (Inl (OtherError (pub_path @ '' exists (use --force to overwrite)'')), fs)
      else case generate_keypair ed drawn of
             Inl e \<Rightarrow> (Inl e, fs)
           | Inr key \<Rightarrow>
               (case private_key_to_pem ed key of
                  Inl e \<Rightarrow> (Inl e, fs)
                | Inr pem \<Rightarrow>
                    let fs1 = fs(priv_path \<mapsto> (pem, 384)) in
                    (case public_key_to_pem ed (sk_public_raw key) of
                       Inl e \<Rightarrow> (Inl e, fs1)
                     | Inr pub \<Rightarrow>
                         (Inr 0, fs1(pub_path \<mapsto> (pub, case fs1 pub_path of Some (_, m) \<Rightarrow> m | None \<Rightarrow> umask))))))"

definition key_at :: "key_dir \<Rightarrow> string \<Rightarrow> key_file" where
  "key_at fs p = (case fs p of None \<Rightarrow> MissingFile | Some (data, _) \<Rightarrow> KeyBytes data)"

text \<open>The paths of the layers to bundle; the texts at those paths are a parameter of the build.\<close>

definition bundle_build_layers :: "('priv, 'pub) host \<Rightarrow> string option \<Rightarrow> string list \<Rightarrow> (string list) res" where
  "bundle_build_layers ho connector policy =
     (if given connector \<and> policy \<noteq> [] then Inl (OtherError ''bundle build: use --connector or --policy, not both'')
      else if given connector then
        ebind (find_connector (the connector) (ho_roots ho)) (\<lambda>c. Inr (map lf_path (policy_layers c)))
      else if policy \<noteq> [] then Inr policy
      else Inl (OtherError ''bundle build: provide --connector NAME or --policy FILE''))"

definition base_name :: "string \<Rightarrow> string" where
  "base_name p = rev (takeWhile (\<lambda>c. c \<noteq> CHR ''/'') (rev p))"

record build_args =
  ba_connector :: "string option"
  ba_policy :: "string list"
  ba_name :: "string option"
  ba_version :: "string option"
  ba_sign_key :: "string option"

text \<open>The bundle that is written out; \<open>stamp\<close> and \<open>created\<close> are the build time.\<close>

definition run_policy_bundle_build ::
  "('priv, 'pub) host \<Rightarrow> (string \<Rightarrow> string option) \<Rightarrow> string \<Rightarrow> string \<Rightarrow> build_args \<Rightarrow> policy_bundle res" where
  "run_policy_bundle_build ho texts stamp created a =
     ebind (bundle_build_layers ho (ba_connector a) (ba_policy a)) (\<lambda>paths.
     ebind (build_bundle (ho_lib ho) (ho_yaml ho) (ho_crypto ho) (map (\<lambda>p. (base_name p, texts p)) paths)
              (ba_name a) (ba_version a) stamp created) (\<lambda>b.
     if given (ba_sign_key a)
     then ebind (load_signing_key (ho_ed ho) (the (ba_sign_key a)) (ho_key ho (the (ba_sign_key a)))) (\<lambda>sk.
          Inr (sign_bundle (ho_lib ho) (ho_crypto ho) sk b))
     else Inr b))"

definition run_policy_bundle_verify :: "('priv, 'pub) host \<Rightarrow> string \<Rightarrow> string option \<Rightarrow> int res" where
  "run_policy_bundle_verify ho path public_key =
     ebind (load_bundle (ho_bundle ho path) path) (\<lambda>b.
     ebind (if given public_key
            then ebind (load_verifying_key (ho_ed ho) (the public_key) (ho_key ho (the public_key))) (\<lambda>vk. Inr (Some vk))
            else Inr None) (\<lambda>key.
     let result = verify_bundle (ho_lib ho) (ho_crypto ho) b key in
     Inr (if key = None then if vr_integrity_ok result then 0 else 1
          else if verify_ok result then 0 else 1)))"

definition open_bundle_store :: "('priv, 'pub) host \<Rightarrow> string \<Rightarrow> 'pub verify_key res" where
  "open_bundle_store ho public_key = load_verifying_key (ho_ed ho) public_key (ho_key ho public_key)"

definition run_policy_bundle_install ::
  "('priv, 'pub) host \<Rightarrow> string \<Rightarrow> string \<Rightarrow> disk \<Rightarrow> int res \<times> disk" where
  "run_policy_bundle_install ho public_key path dk =
     (case ebind (open_bundle_store ho public_key) (\<lambda>vk.
           ebind (load_bundle (ho_bundle ho path) path) (\<lambda>b.
           install (ho_lib ho) (ho_crypto ho) vk (ho_now ho) b dk)) of
        Inl e \<Rightarrow> (Inl e, dk)
      | Inr (res, dk') \<Rightarrow> (Inr (if in_accepted res then 0 else 1), dk'))"

definition run_policy_bundle_rollback ::
  "('priv, 'pub) host \<Rightarrow> string \<Rightarrow> string \<Rightarrow> disk \<Rightarrow> int res \<times> disk" where
  "run_policy_bundle_rollback ho public_key name dk =
     (case ebind (open_bundle_store ho public_key) (\<lambda>vk. rollback (ho_lib ho) (ho_crypto ho) vk name dk) of
        Inl e \<Rightarrow> (Inl e, dk)
      | Inr (res, dk') \<Rightarrow> (Inr (if in_accepted res then 0 else 1), dk'))"

definition run_policy_bundle_current :: "('priv, 'pub) host \<Rightarrow> string \<Rightarrow> string \<Rightarrow> disk \<Rightarrow> int res" where
  "run_policy_bundle_current ho public_key name dk =
     ebind (open_bundle_store ho public_key) (\<lambda>vk.
     ebind (current (ho_lib ho) (ho_crypto ho) vk dk name) (\<lambda>resolved.
     Inr (case resolved of None \<Rightarrow> 1 | Some _ \<Rightarrow> 0)))"

section \<open>Audit trail\<close>

definition run_audit_reindex :: "pylib \<Rightarrow> bool \<Rightarrow> string option \<Rightarrow> audit_index \<Rightarrow> (int \<times> audit_index) res" where
  "run_audit_reindex lib incremental spool ix =
     ebind (if incremental then sq_catch_up lib spool ix else sq_rebuild lib spool ix) (\<lambda>(stats, ix'). Inr (0, ix'))"

record forward_args =
  fa_sink :: string
  fa_url :: "string option"
  fa_header :: "string list"
  fa_token_env :: "string option"
  fa_sourcetype :: string
  fa_bucket :: "string option"
  fa_prefix :: string
  fa_batch_size :: int
  fa_format :: string

datatype cli_sink = ToWebhook webhook | ToSplunk splunk | ToS3 s3_sink

fun sink_headers :: "string list \<Rightarrow> headers \<Rightarrow> headers res" where
  "sink_headers [] acc = Inr acc"
| "sink_headers (item # items) acc =
     (if CHR '':'' \<in> set item
      then sink_headers items (AList.update (strip (takeWhile (\<lambda>c. c \<noteq> CHR '':'') item))
             (strip (tl (dropWhile (\<lambda>c. c \<noteq> CHR '':'') item))) acc)
      else Inl (OtherError (''--header must be 'Key: Value', got '' @ repr_str item)))"

definition sink_token :: "(string \<Rightarrow> string option) \<Rightarrow> forward_args \<Rightarrow> string option" where
  "sink_token environ a = (if given (fa_token_env a) then environ (the (fa_token_env a)) else None)"

text \<open>\<open>_build_sink\<close>: a missing required option is an error, never a default destination.\<close>

definition build_sink :: "(string \<Rightarrow> string option) \<Rightarrow> forward_args \<Rightarrow> cli_sink res" where
  "build_sink environ a =
     (if fa_sink a = ''webhook'' then
        if \<not> given (fa_url a) then Inl (OtherError ''--sink webhook requires --url'')
        else ebind (sink_headers (fa_header a) []) (\<lambda>hs.
             let hs' = (case sink_token environ a of
                          Some t \<Rightarrow> if t \<noteq> [] \<and> map_of hs ''Authorization'' = None
                                   then hs @ [(''Authorization'', ''Bearer '' @ t)] else hs
                        | None \<Rightarrow> hs) in
             Inr (ToWebhook \<lparr>wh_url = the (fa_url a), wh_headers = hs', wh_as_array = False\<rparr>))
      else if fa_sink a = ''splunk'' then
        if \<not> given (fa_url a) then Inl (OtherError ''--sink splunk requires --url (the HEC base URL)'')
        else if \<not> given (sink_token environ a) then
          Inl (OtherError ''--sink splunk requires --token-env naming the HEC token var'')
        else ebind (make_splunk (the (fa_url a)) (the (sink_token environ a)) (fa_sourcetype a) None) (\<lambda>sk. Inr (ToSplunk sk))
      else if fa_sink a = ''s3'' then
        if \<not> given (fa_bucket a) then Inl (OtherError ''--sink s3 requires --bucket'')
        else ebind (make_s3 (the (fa_bucket a)) (fa_prefix a)) (\<lambda>sk. Inr (ToS3 sk))
      else Inl (OtherError (''unknown sink '' @ repr_str (fa_sink a))))"

text \<open>\<open>audit forward --once\<close>, given the sink's answers; \<open>None\<close> while it has not returned.\<close>

definition run_audit_forward_once ::
  "pylib \<Rightarrow> string \<Rightarrow> (string \<Rightarrow> string option) \<Rightarrow> forward_args \<Rightarrow> string option \<Rightarrow> delivery list \<Rightarrow> fstate \<Rightarrow> (int option \<times> fstate) res" where
  "run_audit_forward_once lib version environ a spool dls st =
     ebind (build_sink environ a) (\<lambda>sink.
     case map_of (MAPPERS lib version) (fa_format a) of
       None \<Rightarrow> Inl KeyError
     | Some mapper \<Rightarrow>
         ebind (drain lib (make_forwarder (fa_batch_size a) mapper DEFAULT_ALARM_LAG_BYTES True) spool dls st) (\<lambda>(r, st').
         Inr (map_option (\<lambda>res. if fr_ok res then 0 else 1) r, st')))"

section \<open>Console\<close>

definition load_users_file :: "pbkdf2 \<Rightarrow> (nat \<Rightarrow> string) \<Rightarrow> string \<Rightarrow> pyval res \<Rightarrow> user_store res" where
  "load_users_file kdf salts path decoded =
     ebind decoded (\<lambda>doc.
     case (case doc of PDict d \<Rightarrow> if dhas d ''users'' then dget_none d ''users'' else doc | _ \<Rightarrow> doc) of
       PList xs \<Rightarrow>
         (case load_users kdf salts 0 xs [] of
            Inl (ValueError msg) \<Rightarrow> Inl (OtherError (path @ '': '' @ msg))
          | r \<Rightarrow> r)
     | _ \<Rightarrow> Inl (OtherError (path @ '': expected a list of users (or a 'users:' key)'')))"

record console_args =
  co_users :: string
  co_host :: string
  co_gateway_token_env :: "string option"
  co_allow_insecure_approvals :: bool
  co_secret_env :: string
  co_policy :: "layer_file list"

text \<open>
  \<open>_run_console_serve\<close> up to the application it serves: \<open>environ\<close> is the environment, \<open>random_secret\<close> what
  \<open>secrets\<close> draws when no cookie secret is set.
\<close>

definition run_console_serve ::
  "pylib \<Rightarrow> pbkdf2 \<Rightarrow> (nat \<Rightarrow> string) \<Rightarrow> (string \<Rightarrow> string \<Rightarrow> string) \<Rightarrow> (string \<Rightarrow> string option) \<Rightarrow> string \<Rightarrow> int \<Rightarrow>
     pyval res \<Rightarrow> console_args \<Rightarrow> (console_app \<times> policy_engine option) res" where
  "run_console_serve lib kdf salts hmac environ random_secret ttl decoded a =
     ebind (load_users_file kdf salts (co_users a) decoded) (\<lambda>users.
     let token = (if given (co_gateway_token_env a) then environ (the (co_gateway_token_env a)) else None) in
     if users = [] then Inl (OtherError (co_users a @ '': no users defined''))
     else if token = None \<and> \<not> is_loopback_host (co_host a) \<and> \<not> co_allow_insecure_approvals a then
       Inl (OtherError ''console serve would expose the cookieless approvals endpoint'')
     else
       let secret = (if given (environ (co_secret_env a)) then utf8_encode (the (environ (co_secret_env a))) else random_secret) in
       ebind (if co_policy a = [] then Inr None else ebind (engine_load lib (co_policy a)) (\<lambda>pe. Inr (Some pe))) (\<lambda>engine.
       Inr (\<lparr>ca_lib = lib, ca_signer = \<lparr>sg_secret = secret, sg_ttl = ttl, sg_hmac = hmac\<rparr>, ca_kdf = kdf, ca_users = users,
             ca_gateway_token = token\<rparr>, engine)))"

definition run_console_hash_password :: "pbkdf2 \<Rightarrow> string \<Rightarrow> string \<Rightarrow> int \<times> string option" where
  "run_console_hash_password kdf salt password =
     (if password = [] then (2, None) else (0, Some (hash_password kdf salt password)))"

section \<open>Detokenization\<close>

text \<open>The events on the trail, and the code with the value that is printed.\<close>

definition run_detokenize ::
  "('priv, 'pub) host \<Rightarrow> string \<Rightarrow> string \<Rightarrow> string \<Rightarrow> effect list \<times> (int \<times> string option) res" where
  "run_detokenize ho vault_path token who =
     (case ebind (load_kek_from_env (cr_b64decode (ho_crypto ho)) (ho_kek ho)) (\<lambda>kek.
           case kek of
             None \<Rightarrow> Inl (OtherError ''detokenize needs a base64 key'')
           | Some k \<Rightarrow>
               ebind (open_vault (ho_vault_crypto ho) (ho_random ho) (ho_vault_db ho vault_path) k) (\<lambda>v.
               enc_detokenize v token)) of
        Inl e \<Rightarrow> ([], Inl e)
      | Inr value \<Rightarrow>
          ([Audit ''detokenize''
              [(PStr ''principal'', PStr who), (PStr ''token'', PStr token), (PStr ''found'', PBool (value \<noteq> None))]],
           Inr (if value = None then 1 else 0, value)))"

section \<open>What a zero promises\<close>

lemma validate_files_all:
  "validate_files lib fs = Inr (ls, False) \<longleftrightarrow> emap (load_policy_file lib) fs = Inr ls"
proof (induction fs arbitrary: ls)
  case (Cons f fs)
  show ?case
  proof (cases "load_policy_file lib f")
    case (Inl e)
    then show ?thesis by (cases e) (auto simp: ebind_eq_Inr)
  next
    case (Inr l)
    then have "validate_files lib (f # fs) = Inr (ls, False) \<longleftrightarrow> (\<exists>ms. validate_files lib fs = Inr (ms, False) \<and> ls = l # ms)"
      by (auto simp: ebind_eq_Inr)
    also have "\<dots> \<longleftrightarrow> (\<exists>ms. emap (load_policy_file lib) fs = Inr ms \<and> ls = l # ms)" by (simp only: Cons.IH)
    finally show ?thesis using Inr by (auto simp: ebind_eq_Inr)
  qed
qed auto

text \<open>\<open>policy validate\<close> accepts a list of files exactly when the gateway could load it as a policy.\<close>

lemma validate_is_load:
  assumes "files \<noteq> []"
  shows "exit_status (run_policy_validate lib files) = 0 \<longleftrightarrow> isOk (engine_load lib files)"
proof
  assume "exit_status (run_policy_validate lib files) = 0"
  then have "run_policy_validate lib files = Inr 0" by (cases "run_policy_validate lib files") (simp_all add: exit_status_def)
  then obtain ls failed where ls: "validate_files lib files = Inr (ls, failed)" "\<not> failed"
    "ls = [] \<or> isOk (make_engine lib ls)"
    unfolding run_policy_validate_def ebind_eq_Inr by (auto simp: isOk_def split: if_splits sum.splits exn.splits)
  then have load: "emap (load_policy_file lib) files = Inr ls" by (simp add: validate_files_all)
  then have "ls \<noteq> []" using assms emap_Inr_length [OF load] by auto
  with ls(3) load show "isOk (engine_load lib files)" by (simp add: engine_load_def)
next
  assume "isOk (engine_load lib files)"
  then obtain pe where "engine_load lib files = Inr pe" by (auto simp: isOk_def split: sum.splits)
  then obtain ls where ls: "emap (load_policy_file lib) files = Inr ls" "make_engine lib ls = Inr pe"
    by (auto simp: engine_load_def ebind_eq_Inr)
  then have "validate_files lib files = Inr (ls, False)" by (simp add: validate_files_all)
  with ls(2) show "exit_status (run_policy_validate lib files) = 0" by (simp add: run_policy_validate_def exit_status_def)
qed

lemma policy_test_zero:
  assumes "exit_status (run_policy_test ev sid now w layers path tests) = 0"
  shows "\<exists>rs. run_policy_tests ev sid now w layers path tests = Inr rs \<and> (\<forall>r \<in> set rs. gr_passed r)"
  using assms by (auto simp: exit_status_def run_policy_test_def ebind_eq_Inr filter_empty_conv split: sum.splits if_splits)

lemma policy_ci_zero:
  assumes "exit_status (run_policy_ci_command ce k nb only rp) = 0"
  shows "\<exists>report. run_policy_ci ce k (\<not> nb) only rp = Inr report \<and> ci_ok report"
  using assms by (auto simp: exit_status_def run_policy_ci_command_def ebind_eq_Inr split: sum.splits if_splits)

text \<open>The gate on a diff: with the flag, zero means that no examined decision that was refused now goes through.\<close>

lemma policy_diff_zero:
  assumes "exit_status (run_policy_diff lib True base hd_root) = 0"
  shows "\<exists>ds. diff_roots lib base hd_root = Inr ds \<and> (\<forall>d \<in> set ds. \<forall>c \<in> set (pd_changed d). \<not> cd_crosses c)"
  using assms
  by (auto simp: exit_status_def run_policy_diff_def ebind_eq_Inr pd_newly_allowed_def filter_empty_conv
      split: sum.splits if_splits)

subsection \<open>Keys\<close>

lemma keygen_keeps_files:
  assumes "run_policy_keygen ed drawn umask out False fs = (r, fs')" and "fs p = Some x"
  shows "fs' p = Some x"
proof (cases "fs (out @ ''.pem'') = None \<and> fs (out @ ''.pub.pem'') = None")
  case True
  then have "p \<noteq> out @ ''.pem''" "p \<noteq> out @ ''.pub.pem''" using assms(2) by auto
  with True assms show ?thesis by (auto simp: run_policy_keygen_def Let_def split: sum.splits)
next
  case False
  then have "fs' = fs" using assms(1) by (auto simp: run_policy_keygen_def Let_def split: if_splits)
  with assms(2) show ?thesis by simp
qed

text \<open>A successful run leaves a private key only its owner can read, and both files load as the halves of one pair.\<close>

lemma keygen_makes_pair:
  assumes ok: "ed_ok ed" and run: "run_policy_keygen ed drawn umask out force fs = (Inr 0, fs')"
  obtains sk where "load_signing_key ed p1 (key_at fs' (out @ ''.pem'')) = Inr sk"
    and "load_verifying_key ed p2 (key_at fs' (out @ ''.pub.pem'')) = Inr (public_part ed sk)"
    and "map_option snd (fs' (out @ ''.pem'')) = Some 384"
proof -
  obtain sk priv pub m where k: "generate_keypair ed drawn = Inr sk" "private_key_to_pem ed sk = Inr priv"
    "public_key_to_pem ed (sk_public_raw sk) = Inr pub"
    "fs' = fs(out @ ''.pem'' \<mapsto> (priv, 384), out @ ''.pub.pem'' \<mapsto> (pub, m))"
    using run by (auto simp: run_policy_keygen_def Let_def split: if_splits sum.splits)
  obtain priv' pub' where f: "private_key_to_pem ed sk = Inr priv'" "public_key_to_pem ed (sk_public_raw sk) = Inr pub'"
    "load_signing_key ed p1 (KeyBytes priv') = Inr sk" "load_verifying_key ed p2 (KeyBytes pub') = Inr (public_part ed sk)"
    by (rule keys_survive_files [OF ok made_coherent(1) [OF k(1)], where ?p1.0 = p1 and ?p2.0 = p2 and ?p3.0 = p2]) blast
  with k show thesis by (intro that [of sk]) (simp_all add: key_at_def)
qed

subsection \<open>Bundles\<close>

lemma bundle_verify_zero:
  assumes "exit_status (run_policy_bundle_verify ho path (Some pk)) = 0" and "pk \<noteq> []"
  shows "\<exists>b vk. load_bundle (ho_bundle ho path) path = Inr b \<and> load_verifying_key (ho_ed ho) pk (ho_key ho pk) = Inr vk \<and>
    verify_ok (verify_bundle (ho_lib ho) (ho_crypto ho) b (Some vk))"
  using assms by (auto simp: exit_status_def run_policy_bundle_verify_def given_def ebind_eq_Inr Let_def split: sum.splits if_splits)

text \<open>What \<open>bundle build\<close> signs, \<open>bundle verify\<close> accepts under the public key of the pair, in a file of either form.\<close>

lemma built_bundle_verifies:
  assumes ok: "ed_ok (ho_ed ho)" "\<And>s. b64decode (b64encode s) = Some s"
    and cr: "ho_crypto ho = bundle_crypto (ho_ed ho) sha256 b64encode b64decode"
    and build: "run_policy_bundle_build ho texts stamp created a = Inr b" and signed: "given (ba_sign_key a)"
    and on_disk: "ho_bundle ho path = Some (Inr (PDict (bundle_to_dict b)))" and wf: "bundle_wf b"
    and sk: "load_signing_key (ho_ed ho) (the (ba_sign_key a)) (ho_key ho (the (ba_sign_key a))) = Inr sk"
    and pk: "pk \<noteq> []" "load_verifying_key (ho_ed ho) pk (ho_key ho pk) = Inr (public_part (ho_ed ho) sk)"
  shows "exit_status (run_policy_bundle_verify ho path (Some pk)) = 0"
proof -
  obtain paths b0 where b0: "build_bundle (ho_lib ho) (ho_yaml ho) (ho_crypto ho) paths (ba_name a) (ba_version a) stamp created = Inr b0"
    "b = sign_bundle (ho_lib ho) (ho_crypto ho) sk b0"
    using build signed sk by (auto simp: run_policy_bundle_build_def ebind_eq_Inr)
  have "crypto_ok (ho_crypto ho)" unfolding cr using ok by (rule bundle_crypto_ok)
  from sign_verifies [OF this build_bundle_hash(1) [OF b0(1)], of sk]
  have v: "verify_ok (verify_bundle (ho_lib ho) (ho_crypto ho) b (Some (public_part (ho_ed ho) sk)))"
    by (simp add: b0(2) cr) (simp add: bundle_crypto_def)
  have "load_bundle (ho_bundle ho path) path = Inr b" using bundle_roundtrip [OF wf] by (simp add: load_bundle_def on_disk)
  with v pk show ?thesis by (simp add: run_policy_bundle_verify_def given_def exit_status_def)
qed

text \<open>A refused push leaves the store as it was.\<close>

lemma failed_install_keeps_store:
  assumes "run_policy_bundle_install ho pk path dk = (r, dk')" and "exit_status r \<noteq> 0"
  shows "dk' = dk"
proof -
  have "dk2 = dk" if "install lib cr vk now b dk = Inr (res, dk2)" "\<not> in_accepted res" for lib cr vk now b res dk2
    using that by (auto simp: install_def Let_def ebind_eq_Inr split: if_splits)
  with assms show ?thesis
    by (auto simp: run_policy_bundle_install_def exit_status_def ebind_eq_Inr split: sum.splits if_splits)
qed

subsection \<open>Detokenization is audited\<close>

lemma detokenize_audited:
  assumes "run_detokenize ho vp token who = (evs, Inr (code, Some value))"
  shows "evs = [Audit ''detokenize'' [(PStr ''principal'', PStr who), (PStr ''token'', PStr token), (PStr ''found'', PBool True)]]"
    and "code = 0"
  using assms by (auto simp: run_detokenize_def split: sum.splits)

lemma detokenize_attempts_audited:
  assumes "run_detokenize ho vp token who = (evs, Inr (code, value))"
  shows "\<exists>found. evs = [Audit ''detokenize'' [(PStr ''principal'', PStr who), (PStr ''token'', PStr token), (PStr ''found'', PBool found)]] \<and>
    (found \<longleftrightarrow> value \<noteq> None)"
  using assms by (auto simp: run_detokenize_def split: sum.splits)

subsection \<open>The console is not opened by accident\<close>

lemma console_serve_closed:
  assumes "run_console_serve lib kdf salts hmac environ rnd ttl decoded a = Inr (app, engine)"
  shows "ca_gateway_token app \<noteq> None \<or> is_loopback_host (co_host a) \<or> co_allow_insecure_approvals a"
    and "ca_users app \<noteq> []"
  using assms by (auto simp: run_console_serve_def ebind_eq_Inr Let_def split: if_splits)

text \<open>
  A limit of the guard: a token variable that is set but empty counts as a token, on any address, and
  a request that sends an empty token is then let in.
\<close>

lemma empty_token_opens_console:
  assumes "load_users_file kdf salts (co_users a) decoded = Inr users" and "users \<noteq> []"
    and "co_policy a = []" and "co_gateway_token_env a = Some v" and "v \<noteq> []" and "environ v = Some []" and "dhas payload ''tool''"
  shows "\<exists>app. run_console_serve lib kdf salts hmac environ rnd ttl decoded a = Inr (app, None) \<and>
    submit_approval app (Some []) (Some (PDict payload)) uid now q = reply (queue_submit uid payload now q)"
  using assms by (simp add: run_console_serve_def given_def submit_approval_def Let_def)

end
