(* ===== verification/Spec2Isabelle.thy ===== *)
theory Spec2Isabelle
  imports Sample_Services Detector_Guarantees Connector_Packs Sample_Policies Sample_Console Sample_Http Audit_Sinks Policy_Signing Redaction_Eval Sample_Stdio Sample_Wrap Command_Line
begin

text \<open>
  A verification library for an inline MCP gateway (the Python package \<open>mcp_gateway\<close> under
  \<open>src/src/mcp_gateway\<close>): a process that stands between an agent and a tool server, decides every
  tool call against a policy, watches the session for risk, and filters what comes back.

  \<^bold>\<open>The program and the theories that model it.\<close> A client line is decoded
  (\<open>protocol/jsonrpc.py\<close>, \<open>protocol/mcp.py\<close>: \<open>Json_Codec\<close>, \<open>Jsonrpc\<close>); a tool call runs through the
  stages of \<open>core/pipeline.py\<close> (\<open>Pipeline\<close>): session gate, policy, constraints, sequence, action. The
  policy comes from documents (\<open>policy/loader.py\<close>: \<open>Policy_Rules\<close>, \<open>Policy_Loader\<close>) that are merged
  and compiled (\<open>policy/merge.py\<close>, \<open>policy/matcher.py\<close>, \<open>policy/engine.py\<close>: \<open>Rule_Matcher\<close>,
  \<open>Policy_Engine\<close>); the sequence rules are \<open>sequence/policy.py\<close> (\<open>Sequence_Policy\<close>), the score is
  \<open>risk/scoring.py\<close> (\<open>Risk_Engine\<close>), the session \<open>core/session.py\<close> and the failure posture
  \<open>core/failure.py\<close> (\<open>Session_State\<close>), a human decision \<open>approvals/\<close> (\<open>Approvals\<close>), the behaviour
  monitor \<open>anomaly/\<close> (\<open>Anomaly\<close>). \<open>core/gateway.py\<close> (\<open>Gateway\<close>) composes them, forwards, denies,
  audits, and on the way back quarantines or redacts. Redaction is \<open>redaction/\<close>: spans and overlap
  (\<open>Redaction_Spans\<close>), operators and the token vault (\<open>Redaction_Vault\<close>), engine, profiles and
  service (\<open>Redaction_Engine\<close>), the detectors and their validators (\<open>Redaction_Detectors\<close>, over the
  matcher of \<open>Regex_Engine\<close>). Around the gateway: session stores (\<open>state/\<close>: \<open>Session_Stores\<close>),
  identity (\<open>identity/\<close>: \<open>Identity\<close>), the audit spool, its indexes and its forwarding (\<open>audit/\<close>,
  \<open>state/postgres.py\<close>: \<open>Audit_Spool\<close>, \<open>Audit_Index\<close>, \<open>Audit_Forwarder\<close>) and signed policy bundles
  (\<open>policy/bundle.py\<close>, \<open>policy/bundle_store.py\<close>: \<open>Policy_Bundles\<close>).

  Beside the running gateway stand the tools that keep its policies: connector packs on disk
  (\<open>connectors/base.py\<close>, \<open>connectors/registry.py\<close>: \<open>Connector_Packs\<close>), replay of recorded calls
  (\<open>policy/backtest.py\<close>: \<open>Policy_Backtest\<close>), golden decision tests (\<open>policy/testing.py\<close>:
  \<open>Policy_Golden\<close>), the checks of a repository of packs (\<open>policy/ci.py\<close>: \<open>Policy_CI\<close>) and the
  decision diff of two revisions (\<open>policy/diff.py\<close>: \<open>Policy_Diff\<close>). Files are their decoded contents;
  \<open>Policy_Actions\<close> shows which actions an engine can decide at all.

  The console is where a human answers: \<open>console/auth.py\<close> is \<open>Console_Auth\<close> (passwords, users, signed
  cookies), \<open>console/approvals.py\<close> and the routes of \<open>console/app.py\<close> are \<open>Console_App\<close>, and
  \<open>Console_Chain\<close> joins its queue to the gateway's approval broker over the HTTP channel.
  \<open>observability/\<close> (metrics registry, counting sink, readiness) is \<open>Observability\<close>.

  Central mode serves many clients: \<open>transports/streamable_http.py\<close> is \<open>Streamable_Http\<close> (sessions, the
  hub, requests), and \<open>central/config.py\<close> with the routing of the service is \<open>Central_Mode\<close>.

  The destinations of the audit forwarder (\<open>audit/sinks/\<close>) are \<open>Audit_Sinks\<close>, the keys of policy bundles
  (\<open>policy/signing.py\<close>) are \<open>Policy_Signing\<close>, and the accuracy of detectors over a labelled corpus
  (\<open>redaction/eval.py\<close>) is \<open>Redaction_Eval\<close>.

  Sidecar mode (\<open>transports/stdio.py\<close>) and the upstream process of a session (\<open>transports/upstream.py\<close>)
  are \<open>Stdio_Transport\<close>: a pipe is the sequence of reads it yields.

  The command line (\<open>cli/__init__.py\<close>) assembles all of this: \<open>Command_Wrap\<close> is \<open>wrap\<close> from its options to
  the end of the session, \<open>Command_Line\<close> the commands that keep policies, keys, bundles, indexes,
  the console and the vault.
  \<^bold>\<open>State and operations.\<close> A class is a record with its fields in the order of the source, an enum
  a datatype, a method a definition of the same name that returns the new state. Python values that
  come from documents are the datatype \<^typ>\<open>pyval\<close>, dicts are association lists in insertion order.
  An exception is a value: \<^typ>\<open>'a res\<close> is \<open>Inl\<close> the exception or \<open>Inr\<close> the result, and every
  \<open>try\<close>/\<open>except\<close> of the source is a case distinction. A gateway handler returns its effects (lines
  sent to either side, audit events, writes of the session) in the order the code issues them; a
  stream of inputs is the inductive relation \<open>gateway_run\<close>. Each handler is one
  atomic step of the model, in any order of the inputs. In the code two handlers of a session may
  interleave at an \<open>await\<close>, and a handler may be cancelled when its transport ends; neither is
  modelled.

  \<^bold>\<open>Parameters.\<close> What the package calls but does not contain is an argument: compiling and searching
  the patterns an operator writes (\<open>lib_compiles\<close>, \<open>lib_search\<close>, \<open>user_finditer\<close>), printing and
  reading floats, keyed hashing and encryption, Ed25519, the JWT library and the key endpoint, the
  Redis client, the approver's HTTP endpoint, the anomaly model, the named-entity model, sinks and
  the clock. Where a theorem needs something of them it is a named hypothesis
  (\<open>client_ok\<close>, \<open>crypto_ok\<close>, \<open>analyzer_ok\<close>, \<open>user_finditer_ok\<close>, and the like), and a witness shows
  an instance for which it holds. The built-in detection patterns are not parameters: they run on a
  model of the backtracking matcher.

  \<^bold>\<open>Bounds.\<close> Characters are the code points below 256. Floats (scores, confidences, timeouts) are
  exact rationals, the entropy of a token is a real number; rounding is not modelled. Integers are
  unbounded, as in Python. JSON parsing and every other loop is a total function with a
  termination proof; no fuel is used except that a drain of the forwarder is given one answer of the
  sink more than there are records, which is what it can ask for at most. The outcome \<open>Beyond\<close>
  marks documents whose treatment lies outside the model (values of unexpected type deep inside a
  stored blob); no theorem concludes success from it. Error messages are kept where a theorem or
  another component reads them and abbreviated elsewhere. Durations and timestamps in audit
  events are left out.

  \<^bold>\<open>What the lemmas show.\<close> \<open>Gateway_Safety\<close> and \<open>Gateway_Runs\<close> carry the request path: what a denied,
  forwarded or crashed call sends, that suspension and taint last through any traffic, that every
  client line is audited before it is acted on, that results are withheld, scrubbed or listed as the
  policy says. \<open>Session_Stores\<close> states the store contract as a locale and interprets it for memory
  and Redis; \<open>Audit_Index\<close> does the same for the two indexes of the spool. \<open>Audit_Spool\<close> shows the
  file is crash tolerant, \<open>Audit_Forwarder\<close> that forwarding loses nothing, \<open>Policy_Bundles\<close> that only
  released policy is served and that a push cannot take the service down, \<open>Identity\<close> that a
  principal is always proved. \<open>Regex_Engine\<close> shows what a match is and that searching overlooks none;
  \<open>Detector_Guarantees\<close> that the built-in detectors return on every text, report ranges of it, and
  do not miss a well-formed number. \<open>Samples\<close> and \<open>Sample_Services\<close> hold the concrete deployment on
  which the witnesses are evaluated. This theory states the properties that span components.
  \<open>Policy_Golden\<close> shows that the test harness decides as the gateway does, \<open>Policy_Backtest\<close> that a
  policy replayed against itself shows no difference, \<open>Policy_CI\<close> what a green run means, and
  \<open>Policy_Diff\<close> that the diff is exact on its surface (and where the surface has a gap);
  \<open>Sample_Policies\<close> holds the packs their witnesses use.

  \<open>Console_App\<close> shows by rule induction over the steps of the queue that every approving answer is
  the resolution of an authenticated approver for the very request submitted, and \<open>Console_Chain\<close>
  carries that to the calls the gateway forwards; \<open>Sample_Console\<close> holds a run that does so.

  \<open>Http_Sessions\<close> shows by rule induction over the steps of a hub that an upstream receives only what
  the session's gateway sent for its owner and that a client hears only its gateway; \<open>Central_Mode\<close>
  carries this to the service assembled from a configuration file, and \<open>Sample_Http\<close> runs one.

  \<open>Audit_Sinks\<close> states the contract of a sink as a locale and interprets it on the three shipped ones;
  \<open>Policy_Signing\<close> shows that keys survive their files and meet what \<open>Policy_Bundles\<close> asks of
  signatures; \<open>Redaction_Eval\<close> shows that the counts add up and what a perfect score means.

  \<open>Stdio_Transport\<close> shows that a sidecar session is a run of its gateway and that a line one side
  writes stays one line on the other; \<open>Sample_Stdio\<close> holds a session.

  \<open>Command_Wrap\<close> shows that the gateway a start assembles is a standard one and that bundle mode
  enforces only verified policy; \<open>Command_Line\<close> says what an exit code of zero promises;
  \<open>Sample_Wrap\<close> starts a sidecar from a signed bundle.
  \<^bold>\<open>Not modelled.\<close> Opening pipes and starting processes, the web framework's own decoding of
  requests and its headers, the read-only index routes and static pages of the console, the parser
  and the printed text of the command line, and reading documents from disk, which are input and output around the interfaces modelled
  here; wall-clock timings; report texts with characters beyond the first 256 code points; the plugin
  hooks that mutate registries (\<open>register_action\<close>, \<open>register_detector\<close>); connector scaffolding and
  the demo programs.
\<close>

section \<open>Enforcement on the request path\<close>

text \<open>
  C1 (denied_call_never_forwarded). A tool call the pipeline denies, by any stage of any
  pipeline and for any reason, sends nothing upstream and exactly one JSON-RPC denial to the
  client, unless the denial is a crash of a stage and the operator opened the pipeline posture.
\<close>

theorem denied_call_never_forwarded:
  assumes "call_run raw g = (oc, ctx, w)" and "denied oc"
    and "\<not> oc_internal_error oc \<or> fp_pipeline (g_posture g) = CLOSED"
  shows "upstream_lines (effects (handle_tool_call raw) g) = [] \<and>
    client_lines (effects (handle_tool_call raw) g) =
      [encode (e_lib (g_env g)) (denied_response (e_lib (g_env g)) (msg_id raw) (call_tool raw) (oc_reason oc))]"
  using denied_call_lines [OF assms] by blast

theorem denied_call_never_forwarded_witness:
  "upstream_lines (effects (handle_tool_call drop_call) sample_gateway) = [] \<and>
   length (client_lines (effects (handle_tool_call drop_call) sample_gateway)) = 1"
proof -
  let ?r = "call_run drop_call sample_gateway"
  have "call_run drop_call sample_gateway = (fst ?r, fst (snd ?r), snd (snd ?r))" by simp
  moreover have "denied (fst ?r)" by code_simp
  moreover have "\<not> oc_internal_error (fst ?r) \<or> fp_pipeline (g_posture sample_gateway) = CLOSED" by code_simp
  ultimately show ?thesis using denied_call_never_forwarded by fastforce
qed

text \<open>
  C2 (stage_crash_denies). A stage that raises denies the call: the runner tags the outcome as
  an internal error of that stage, and the stages after it never run, whatever they are.
\<close>

theorem stage_crash_denies:
  assumes "run_stages pre ctx w = (oc0, ctx1, w1)" and "\<not> denied oc0"
    and "snd st ctx1 w1 = (Inl e, ctx2, w2)"
  shows "\<exists>oc. run_stages (pre @ st # post) ctx w = (oc, ctx2, w2) \<and> denied oc \<and> oc_internal_error oc \<and>
    oc_stage oc = fst st"
proof -
  have "run_stages (pre @ st # post) ctx w = ((settle (fst st) (Inl e))\<lparr>oc_stage := fst st\<rparr>, ctx2, w2)"
    by (rule run_stages_first_denial [OF assms(1,2,3)]) simp
  moreover have "oc_internal_error ((settle (fst st) (Inl e))\<lparr>oc_stage := fst st\<rparr>)"
    by (simp add: settle_def stage_crash_def)
  ultimately show ?thesis by simp
qed

theorem stage_crash_denies_witness:
  "\<exists>oc. run_stages ([(''session_gate'', session_gate_handle)] @ (''plugin'', crash_handle) # [])
     (call_start drop_call sample_gateway) sample_world =
     (oc, call_start drop_call sample_gateway, sample_world) \<and> denied oc \<and> oc_internal_error oc \<and> oc_stage oc = ''plugin''"
proof -
  have "run_stages [(''session_gate'', session_gate_handle)] (call_start drop_call sample_gateway) sample_world =
      (proceed, call_start drop_call sample_gateway, sample_world)"
    by (simp add: session_gate_handle_def sample_gateway_def sample_session_def session_new_def)
  moreover have "snd (''plugin'', crash_handle) (call_start drop_call sample_gateway) sample_world =
      (Inl TypeError, call_start drop_call sample_gateway, sample_world)"
    by (simp add: crash_handle_def)
  ultimately show ?thesis using stage_crash_denies [of _ _ _ proceed _ _ "(''plugin'', crash_handle)"] by fastforce
qed

text \<open>
  C3 (forwarded_call_passed_every_gate). Under the closed posture, whatever a default gateway
  sends upstream for a tool call passed every gate on the arguments as the agent sent them (not
  suspended, a policy decision, no constraint violated before any rewrite, no taint or sequence
  rule hit, the handler of the decided action returned an outcome that is not a denial), and the
  line is the encoding of the message with the arguments the action stage decided on.
\<close>

theorem forwarded_call_passed_every_gate:
  assumes "standard g pe hs" and "fp_pipeline (g_posture g) = CLOSED"
    and "upstream_lines (effects (handle_tool_call raw) g) \<noteq> []"
  shows "\<not> s_suspended (g_session g) \<and>
    (\<exists>d h oc ctx w.
       evaluate pe (call_tool raw) (first_role (g_principal g)) = Inr d \<and>
       (\<forall>c \<in> set (d_constraints d). constraint_check (e_lib (g_env g)) c (snd (tool_call_parts raw)) = None) \<and>
       sequence_check (g_sequence g) (call_tool raw) (g_session g) = None \<and>
       find_handler hs (d_action d) = Inr (Some h) \<and>
       on_request (g_env g) hs h d ((call_start raw g)\<lparr>cx_decision := Some d\<rparr>) (g_world g) = (Inr oc, ctx, w) \<and>
       \<not> denied oc \<and>
       set (upstream_lines (effects (handle_tool_call raw) g)) = {encode (e_lib (g_env g)) (outbound_message raw ctx)})"
proof -
  obtain d h oc ctx w where "call_passes (g_env g) pe (g_sequence g) hs (call_start raw g) (g_world g) d h"
    "on_request (g_env g) hs h d ((call_start raw g)\<lparr>cx_decision := Some d\<rparr>) (g_world g) = (Inr oc, ctx, w)"
    "\<not> denied oc"
    "set (upstream_lines (effects (handle_tool_call raw) g)) = {encode (e_lib (g_env g)) (outbound_message raw ctx)}"
    using forwarded_gates [OF assms] by blast
  then show ?thesis by (auto simp: call_passes_def check_constraints_None_iff)
qed

theorem forwarded_call_passed_every_gate_witness:
  "\<not> s_suspended (g_session sample_gateway) \<and> sequence_check sample_sequence ''db.query'' sample_session = None"
proof -
  have "upstream_lines (effects (handle_tool_call query_call) sample_gateway) \<noteq> []" by code_simp
  then have "\<not> s_suspended (g_session sample_gateway) \<and>
      sequence_check (g_sequence sample_gateway) (call_tool query_call) (g_session sample_gateway) = None"
    using forwarded_call_passed_every_gate [OF sample_standard sample_closed, of query_call] by blast
  then show ?thesis
    by (simp add: sample_gateway_def query_call_def sample_call_def call_tool_def tool_call_parts_def msg_params_def
        dget_none_def dget_default_def dget_def)
qed

text \<open>
  C4 (suspended_session_gets_nothing). From the moment a session is suspended, no tool call is
  forwarded for it again, through any sequence of later client and upstream lines and under
  every failure posture.
\<close>

theorem suspended_session_gets_nothing:
  assumes "gateway_run g tr g'" and "standard g pe hs" and "s_suspended (g_session g)"
    and "(ClientLine line, es) \<in> set tr" and "calls g line raw"
  shows "s_suspended (g_session g') \<and> upstream_lines es = []"
proof -
  have "evolves g g'" using run_evolves [OF assms(1,2)] .
  then have "s_suspended (g_session g')" using assms(3) by (simp add: evolves_def session_grows_def)
  with suspended_run [OF assms] show ?thesis by blast
qed

theorem suspended_session_gets_nothing_witness:
  "upstream_lines (effects (handle_input (ClientLine (encode sample_lib query_call))) suspended_gateway) = []"
proof -
  let ?l = "encode sample_lib query_call" and ?g = suspended_gateway
  have "gateway_run ?g [(ClientLine ?l, effects (handle_input (ClientLine ?l)) ?g)] (after (handle_input (ClientLine ?l)) ?g)"
    by (rule gateway_step [OF gateway_done])
  moreover have "standard ?g sample_engine sample_handlers"
    using sample_standard by (simp add: suspended_gateway_def standard_def)
  moreover have "s_suspended (g_session ?g)" by (simp add: suspended_gateway_def)
  moreover have "calls ?g ?l query_call" by code_simp
  ultimately show ?thesis using suspended_session_gets_nothing by fastforce
qed

text \<open>
  C5 (taint_source_blocks_later_sinks). Once a call to a taint source was forwarded, no later
  call to a taint sink is forwarded in the same run, whatever traffic lies between the two
  (closed posture).
\<close>

theorem taint_source_blocks_later_sinks:
  assumes "gateway_run g (tr1 @ (ClientLine l1, es1) # tr2) g'" and "standard g pe hs"
    and "fp_pipeline (g_posture g) = CLOSED"
    and "calls g l1 raw1" and "is_taint_source (g_sequence g) (call_tool raw1)" and "upstream_lines es1 \<noteq> []"
    and "(ClientLine l2, es2) \<in> set tr2" and "calls g l2 raw2"
    and "matches_any (call_tool raw2) (sp_taint_sinks (g_sequence g))"
  shows "upstream_lines es2 = []"
  using assms by (rule taint_run)

theorem taint_source_blocks_later_sinks_witness:
  "upstream_lines (effects (handle_input (ClientLine mail_line))
     (after (handle_input (ClientLine web_line)) sample_gateway)) = []"
proof -
  let ?g1 = "after (handle_input (ClientLine web_line)) sample_gateway"
  let ?es1 = "effects (handle_input (ClientLine web_line)) sample_gateway"
  let ?es2 = "effects (handle_input (ClientLine mail_line)) ?g1"
  have run: "gateway_run sample_gateway ([] @ (ClientLine web_line, ?es1) # [(ClientLine mail_line, ?es2)])
      (after (handle_input (ClientLine mail_line)) ?g1)"
    unfolding append_Nil by (intro gateway_step gateway_done)
  have up: "upstream_lines ?es1 \<noteq> []" by code_simp
  have calls: "calls sample_gateway web_line web_call" "calls sample_gateway mail_line mail_call" by code_simp+
  have seq: "is_taint_source (g_sequence sample_gateway) (call_tool web_call)"
    "matches_any (call_tool mail_call) (sp_taint_sinks (g_sequence sample_gateway))" by code_simp+
  show ?thesis
    by (rule taint_source_blocks_later_sinks [OF run sample_standard sample_closed calls(1) seq(1) up _ calls(2) seq(2)]) simp
qed

text \<open>
  C6 (four_refusals_suspend). With the default risk weights and thresholds, in every state a
  fresh session can reach, four scored refusals (blocked tool, constraint, sequence or approval)
  are enough to have suspended it, and the score is always the sum of the recorded weights.
\<close>

theorem four_refusals_suspend:
  assumes "gateway_run g tr g'" and "standard g pe hs" and "g_risk g = default_risk_engine"
    and "g_session g = session_new sid now"
  shows "s_risk_score (g_session g') = sum_list (map re_weight (s_risk_events (g_session g'))) \<and>
    (4 \<le> blocked_count (g_session g') \<longrightarrow> s_suspended (g_session g'))"
proof -
  have e: "evolves g g'" using run_evolves [OF assms(1,2)] .
  then have "g_risk g' = default_risk_engine" using assms(3) by (simp add: evolves_def static_def)
  moreover have "risk_inv (g_risk g) (g_session g)" using assms(4) risk_inv_new by simp
  ultimately have inv: "risk_inv default_risk_engine (g_session g')" using e by (simp add: evolves_def)
  then show ?thesis using four_denials_suspend [OF inv] by (simp add: risk_inv_def blocked_count_def denial_count_def)
qed

theorem four_refusals_suspend_witness:
  "s_suspended (g_session (snd (run_inputs (replicate 4 (ClientLine drop_line)) quiet_gateway)))"
proof -
  let ?is = "replicate 4 (ClientLine drop_line)"
  have run: "gateway_run quiet_gateway (fst (run_inputs ?is quiet_gateway)) (snd (run_inputs ?is quiet_gateway))"
    by (rule run_inputs_run)
  have std: "standard quiet_gateway sample_engine sample_handlers"
    using sample_standard by (simp add: quiet_gateway_def standard_def)
  have fields: "g_risk quiet_gateway = default_risk_engine" "g_session quiet_gateway = session_new ''s1'' ''t0''"
    by (simp_all add: quiet_gateway_def sample_gateway_def sample_session_def)
  have "4 \<le> blocked_count (g_session (snd (run_inputs ?is quiet_gateway)))" by code_simp
  then show ?thesis using four_refusals_suspend [OF run std fields] by blast
qed

text \<open>
  C7 (tool_call_answered_once). A tool call that is handled without an exception is answered
  exactly once: either one line goes upstream or one line goes back to the client, never both
  and never neither, for every pipeline and posture.
\<close>

theorem tool_call_answered_once:
  assumes "calls g line raw" and "raised (handle_input (ClientLine line)) g = None"
  shows "length (upstream_lines (effects (handle_input (ClientLine line)) g)) +
    length (client_lines (effects (handle_input (ClientLine line)) g)) = 1"
  using tool_call_one [of raw g] assms(2) unfolding call_effects [OF assms(1)] by blast

theorem tool_call_answered_once_witness:
  "length (upstream_lines (effects (handle_input (ClientLine web_line)) sample_gateway)) +
    length (client_lines (effects (handle_input (ClientLine web_line)) sample_gateway)) = 1"
proof -
  have "calls sample_gateway web_line web_call" by code_simp
  moreover have "raised (handle_input (ClientLine web_line)) sample_gateway = None" by code_simp
  ultimately show ?thesis by (rule tool_call_answered_once)
qed

text \<open>
  C8 (client_traffic_audited_first). Every client line, whatever it is, is on the audit trail
  before anything is sent on its account: the effects of handling it name one of the enforcement
  or passthrough events before the first line to either side.
\<close>

theorem client_traffic_audited_first: "audited_first CLIENT_EVENTS (effects (on_client_line line) g)"
  by (rule client_line_audited)

section \<open>The response path and tools/list\<close>

text \<open>
  C9 (quarantined_result_is_withheld). For a call with the quarantine disposition, what the
  client receives does not depend on the result: any two results that are not errors lead to the
  same line, which carries the notice and nothing of the result, and neither result is sent
  upstream.
\<close>

theorem quarantined_result_is_withheld:
  assumes "pc_disposition p = DQuarantine"
    and "\<not> result_is_error (dput ''result'' x raw)" and "\<not> result_is_error (dput ''result'' y raw)"
  shows "client_lines (effects (deliver_tool_result (dput ''result'' x raw) p) g) =
      client_lines (effects (deliver_tool_result (dput ''result'' y raw) p) g) \<and>
    client_lines (effects (deliver_tool_result (dput ''result'' x raw) p) g) =
      [encode (e_lib (g_env g)) (dput ''result'' (text_result (QUARANTINE_NOTICE (pc_tool p))) raw)] \<and>
    upstream_lines (effects (deliver_tool_result (dput ''result'' x raw) p) g) = [] \<and>
    upstream_lines (effects (deliver_tool_result (dput ''result'' y raw) p) g) = []"
  using assms deliver_tool_result_facts [of "dput ''result'' x raw" p g]
    deliver_tool_result_facts [of "dput ''result'' y raw" p g] by (simp add: result_line_def)

theorem quarantined_result_is_withheld_witness:
  "client_lines (effects (deliver_tool_result (dput ''result'' (PStr ''secret'') (sample_result 1 [])) quarantined) sample_gateway) =
   client_lines (effects (deliver_tool_result (dput ''result'' (PStr ''other'') (sample_result 1 [])) quarantined) sample_gateway) \<and>
   upstream_lines (effects (deliver_tool_result (dput ''result'' (PStr ''secret'') (sample_result 1 [])) quarantined) sample_gateway) = []"
proof -
  have "pc_disposition quarantined = DQuarantine" by (simp add: quarantined_def)
  moreover have "\<not> result_is_error (dput ''result'' (PStr ''secret'') (sample_result 1 []))" by code_simp
  moreover have "\<not> result_is_error (dput ''result'' (PStr ''other'') (sample_result 1 []))" by code_simp
  ultimately show ?thesis using quarantined_result_is_withheld by blast
qed



text \<open>
  C11 (hidden_tools_are_denied). tools/list visibility agrees with enforcement: a tool the
  filter hides, because its action can only deny with the handlers actually wired, is one every
  call to which is refused (closed posture).
\<close>

theorem hidden_tools_are_denied:
  assumes "standard g pe hs" and "fp_pipeline (g_posture g) = CLOSED"
    and "is_visible pe (denying_actions hs) (call_tool raw) (first_role (g_principal g)) = Inr False"
  shows "upstream_lines (effects (handle_tool_call raw) g) = []"
  using assms by (rule hidden_tool_denied)

theorem hidden_tools_are_denied_witness:
  "upstream_lines (effects (handle_tool_call (sample_call 5 ''shell.run'' [])) sample_gateway) = []"
proof (rule hidden_tools_are_denied [OF sample_standard sample_closed])
  show "is_visible sample_engine (denying_actions sample_handlers) (call_tool (sample_call 5 ''shell.run'' []))
      (first_role (g_principal sample_gateway)) = Inr False" by code_simp
qed

text \<open>
  C12 (tools_list_is_filtered). The filtered tools/list response keeps, in order, exactly the
  entries that are visible or carry no string name, reports the names of the hidden ones, and
  shown and hidden add up to the number of tools.
\<close>

theorem tools_list_is_filtered:
  assumes "g_policy g = Some pe" and "dget raw ''result'' = Some (PDict result)"
    and "dget result ''tools'' = Some (PList tools)"
    and "filter_tools_list raw g = Inr (out, hidden, n)"
  defines "visible \<equiv> \<lambda>e. case entry_name e of None \<Rightarrow> True
    | Some m \<Rightarrow> is_visible pe (pipeline_denying (g_pipeline g)) m (first_role (g_principal g)) = Inr True"
  shows "n = length tools \<and> length (filter visible tools) + length hidden = n \<and>
    (\<exists>r'. dget out ''result'' = Some (PDict r') \<and> dget r' ''tools'' = Some (PList (filter visible tools))) \<and>
    set hidden = {m. \<exists>e \<in> set tools. entry_name e = Some m \<and>
       is_visible pe (pipeline_denying (g_pipeline g)) m (first_role (g_principal g)) = Inr False}"
proof -
  from assms(1-4) obtain shown hid where s: "split_visible pe (pipeline_denying (g_pipeline g)) (first_role (g_principal g)) tools
      = Inr (shown, hid)"
    and out: "(out, hidden, n) = (if hid \<noteq> [] then (dput ''result'' (PDict (dput ''tools'' (PList shown) result)) raw, hid, length tools)
      else (raw, [], length tools))"
    by (auto simp: filter_tools_list_def dget_none_def dget_default_def ebind_eq_Inr split: if_splits)
  note spec = split_visible_spec [OF s]
  have shown: "shown = filter visible tools" using spec(1) unfolding visible_def .
  show ?thesis
  proof (cases "hid = []")
    case True
    then have "shown = tools" using spec(3) shown by (metis add.right_neutral length_filter_less list.size(3) nat_neq_iff filter_id_conv)
    with True out spec shown assms(2,3) show ?thesis by auto
  next
    case False
    with out spec shown show ?thesis by auto
  qed
qed

theorem tools_list_is_filtered_witness:
  "set [''shell.run''] = {m. \<exists>e \<in> set [tool_entry ''web.get'', tool_entry ''shell.run'']. entry_name e = Some m \<and>
     is_visible sample_engine (pipeline_denying (g_pipeline sample_gateway)) m (first_role (g_principal sample_gateway)) = Inr False}"
proof -
  have "g_policy sample_gateway = Some sample_engine" by (simp add: sample_gateway_def)
  moreover have "dget tools_response ''result'' = Some (PDict [(PStr ''tools'', PList [tool_entry ''web.get'', tool_entry ''shell.run''])])"
    by code_simp
  moreover have "dget [(PStr ''tools'', PList [tool_entry ''web.get'', tool_entry ''shell.run''])] ''tools'' =
      Some (PList [tool_entry ''web.get'', tool_entry ''shell.run''])" by code_simp
  moreover have "filter_tools_list tools_response sample_gateway =
      Inr (dput ''result'' (PDict [(PStr ''tools'', PList [tool_entry ''web.get''])]) tools_response, [''shell.run''], 2)"
    by code_simp
  ultimately show ?thesis using tools_list_is_filtered by blast
qed

section \<open>Approval, default deny and policy semantics\<close>

text \<open>
  C13 (approval_is_required). Under the closed posture of the pipeline, a call whose rule
  demands approval is forwarded only if the broker resolved this very request as approved;
  without a broker it never is.
\<close>

theorem approval_is_required:
  assumes "standard g pe hs" and "fp_pipeline (g_posture g) = CLOSED"
    and "upstream_lines (effects (handle_tool_call raw) g) \<noteq> []"
    and "evaluate pe (call_tool raw) (first_role (g_principal g)) = Inr d"
    and "d_action d = PStr a" and "map_of hs a = Some (RequireApproval br)"
  shows "\<exists>b. br = Some b \<and> rn_approved (broker_request (e_lib (g_env g)) (e_post (g_env g)) (w_asked (g_world g)) b
    (approval_request_of (call_start raw g) d))"
  using assms by (rule forwarded_needs_approval)

theorem approval_is_required_witness:
  "\<exists>b. Some sample_broker = Some b \<and> rn_approved (broker_request sample_lib sample_post 0 b
     (approval_request_of (call_start admin_call sample_gateway) (projr (evaluate sample_engine ''admin.reset'' None))))"
proof -
  have up: "upstream_lines (effects (handle_tool_call admin_call) sample_gateway) \<noteq> []" by code_simp
  have e: "evaluate sample_engine (call_tool admin_call) (first_role (g_principal sample_gateway)) =
      Inr (projr (evaluate sample_engine ''admin.reset'' None))" by code_simp
  have a: "d_action (projr (evaluate sample_engine ''admin.reset'' None)) = PStr ''require_approval''" by code_simp
  have m: "map_of sample_handlers ''require_approval'' = Some (RequireApproval (Some sample_broker))"
    by (simp add: sample_handlers_def build_action_handlers_def)
  show ?thesis using approval_is_required [OF sample_standard sample_closed up e a m]
    by (simp add: sample_gateway_def sample_env_def sample_world_def)
qed

text \<open>
  C14 (only_an_approver_can_release). From the gateway to the human and back: when a gateway
  asks the console (the HTTP channel, fail-closed), a call whose rule demands approval is
  forwarded only if this very request was submitted to the console and resolved there as
  approved by a request carrying a valid session cookie of a user with the approver role; no
  interleaving of submissions, resolutions, timeouts and answers gives another way.
\<close>

theorem only_an_approver_can_release:
  assumes "standard g pe hs" and "fp_pipeline (g_posture g) = CLOSED"
    and "upstream_lines (effects (handle_tool_call raw) g) \<noteq> []"
    and "evaluate pe (call_tool raw) (first_role (g_principal g)) = Inr d"
    and "d_action d = PStr act" and "map_of hs act = Some (RequireApproval (Some b))"
    and "br_channel b = HttpChannel url" and "\<not> br_fail_open b"
    and "console_run app tr q" and "served_by tr (e_post (g_env g))"
  shows "\<exists>uid a cookie now u. Submitted uid (to_wire (approval_request_of (call_start raw g) d)) \<in> set tr \<and>
    Resolved uid cookie now u a \<in> set tr \<and> rn_approved a \<and> rn_approver a = us_name u \<and> us_role u = ''approver'' \<and>
    cookie_verify (ca_lib app) (ca_signer app) now cookie = Inr (Some u)"
  using forwarded_call_was_approved [OF assms] unfolding approver_resolved_def can_approve_def by blast

theorem only_an_approver_can_release_witness:
  "\<exists>uid a cookie now u. Resolved uid cookie now u a \<in> set console_trace \<and> rn_approved a \<and> us_role u = ''approver''"
proof -
  let ?d = "projr (evaluate sample_engine ''admin.reset'' None)"
  have up: "upstream_lines (effects (handle_tool_call admin_call) console_gateway) \<noteq> []" by code_simp
  have e: "evaluate sample_engine (call_tool admin_call) (first_role (g_principal console_gateway)) = Inr ?d" by code_simp
  have a: "d_action ?d = PStr ''require_approval''" by code_simp
  have m: "map_of sample_handlers ''require_approval'' = Some (RequireApproval (Some sample_broker))"
    by (simp add: sample_handlers_def build_action_handlers_def)
  have b: "br_channel sample_broker = HttpChannel ''http://console/api/approvals''" "\<not> br_fail_open sample_broker"
    by (simp_all add: sample_broker_def)
  from only_an_approver_can_release [OF console_standard console_closed up e a m b console_trace_runs console_serves]
  show ?thesis by blast
qed

text \<open>
  C15 (unmatched_tools_are_denied). Default deny end to end: an engine built from layers none of
  which sets a default action blocks every tool that no rule matches, so a default gateway over
  it, under the closed posture of the pipeline, forwards no call to such a tool.
\<close>

theorem unmatched_tools_are_denied:
  assumes "make_engine lib ls = Inr pe" and "\<forall>l \<in> set ls. pl_default_action l = None"
    and "match_rule (pe_matcher pe) (call_tool raw) = None"
    and "standard g pe (build_action_handlers r br)" and "fp_pipeline (g_posture g) = CLOSED"
  shows "upstream_lines (effects (handle_tool_call raw) g) = []"
proof -
  obtain m where m: "merge_layers ls = Inr m" "pe_default_action pe = mp_default_action m"
    using assms(1) by (rule make_engine_Inr)
  have "pe_default_action pe = ''block''" using merge_layers_default [OF m(1)] m(2) assms(2) by auto
  then show ?thesis using default_block_denied [OF assms(4,5,3)] by blast
qed

theorem unmatched_tools_are_denied_witness:
  "upstream_lines (effects (handle_tool_call (sample_call 7 ''shell.run'' [])) sample_gateway) = []"
proof -
  have "\<forall>l \<in> set [sample_layer]. pl_default_action l = None" by code_simp
  moreover have "match_rule (pe_matcher sample_engine) (call_tool (sample_call 7 ''shell.run'' [])) = None" by code_simp
  moreover have "standard sample_gateway sample_engine (build_action_handlers True (Some sample_broker))"
    using sample_standard by (simp add: sample_handlers_def)
  ultimately show ?thesis using unmatched_tools_are_denied [OF sample_engine_built] sample_closed by blast
qed

text \<open>
  C16 (matcher_picks_the_best_pattern). The indexed matcher implements its specification over
  the plain pattern list: a literal rule for the tool wins; otherwise the matching glob of
  highest specificity, the later one on a tie; and no match exactly when nothing matches.
\<close>

theorem matcher_picks_the_best_pattern:
  "match_rule (build_matcher ps) tool = Some p \<longleftrightarrow>
     (if tool \<in> set ps \<and> \<not> is_glob tool then p = tool else glob_winner ps tool p)"
  by (rule match_rule_spec)

text \<open>
  C17 (evaluation_is_total). Evaluation on an engine that was built never raises: every pattern
  the matcher can return has its compiled rule, for every tool and role.
\<close>

theorem evaluation_is_total:
  assumes "make_engine lib ls = Inr pe"
  shows "\<exists>d. evaluate pe tool role = Inr d"
  using assms by (rule evaluate_total)

theorem evaluation_is_total_witness: "\<exists>d. evaluate sample_engine ''anything'' (Some ''dba'') = Inr d"
  using evaluation_is_total [OF sample_engine_built] by blast

section \<open>Identity, shared state, audit and policy bundles\<close>

text \<open>
  C18 (identity_is_proved). A resolver loaded from an identity configuration names a principal
  only for a proven credential: either the header carries a bearer token whose algorithm is in
  the configured set, whose key id names a key the configured endpoint published, and whose
  claims the JWT library returned after checking that key, those algorithms, the audience and
  the issuer; or it carries an API key whose SHA-256 is that of a configured record.
\<close>

theorem identity_is_proved:
  assumes "load_identity_config lib path document = Inr (ir, jp0)" and "cache_ok p jp"
    and "resolve p ir authorization jp = (Inr pr, jp')"
  shows "\<exists>a scheme rest. authorization = Some a \<and> split_scheme a = Some (scheme, rest) \<and>
    (lower scheme = ''bearer'' \<and> token_proves p ir jp (strip rest) pr \<or>
     lower scheme = ''apikey'' \<and> key_proves p ir (strip rest) pr)"
proof -
  have "ir_anonymous ir = None" using load_identity_Inr [OF assms(1)] by blast
  from resolve_proves [OF assms(2,3) this] show ?thesis by metis
qed

theorem identity_is_proved_witness:
  "token_proves sample_idp (fst sample_loaded) (the (snd sample_loaded)) ''tok''
     \<lparr>pn_id = ''alice'', pn_roles = [''admin'', ''developer'']\<rparr>"
proof -
  let ?jp = "the (snd sample_loaded)" and ?pr = "\<lparr>pn_id = ''alice'', pn_roles = [''admin'', ''developer'']\<rparr>"
  have jp: "snd sample_loaded = Some ?jp" by code_simp
  have "cache_ok sample_idp ?jp" using load_identity_Inr [OF sample_identity_loads, of sample_idp] jp by blast
  moreover have "resolve sample_idp (fst sample_loaded) (Some ''Bearer tok'') ?jp =
      (Inr ?pr, snd (resolve sample_idp (fst sample_loaded) (Some ''Bearer tok'') ?jp))" by code_simp
  ultimately have "\<exists>a scheme rest. Some ''Bearer tok'' = Some a \<and> split_scheme a = Some (scheme, rest) \<and>
    (lower scheme = ''bearer'' \<and> token_proves sample_idp (fst sample_loaded) ?jp (strip rest) ?pr \<or>
     lower scheme = ''apikey'' \<and> key_proves sample_idp (fst sample_loaded) (strip rest) ?pr)"
    by (rule identity_is_proved [OF sample_identity_loads])
  moreover have "split_scheme ''Bearer tok'' = Some (''Bearer'', ''tok'')" "strip ''tok'' = ''tok''" "lower ''Bearer'' \<noteq> ''apikey''"
    by code_simp+
  ultimately show ?thesis by auto
qed

text \<open>
  C19 (replicas_share_suspension). Central mode over Redis: once one replica has saved a
  suspended session, any replica that binds the same id later, before the expiry of that save
  (24 hours unless configured otherwise; never when no ttl is set), whatever other sessions were
  saved in between, gets the same suspension, taint, score and history, and forwards no tool
  call for it through any sequence of traffic. After the expiry the id is bound to a fresh
  session, which is the documented behaviour of the store.
\<close>

theorem replicas_share_suspension:
  assumes "client_ok (rd_client rs)" and "s_id s \<noteq> []" and "s_suspended s"
    and "\<forall>(u, x) \<in> set later. u \<le> t1 \<and> s_id x \<noteq> s_id s"
    and "t0 \<le> t1" and "\<forall>ttl. rd_ttl rs = Some ttl \<longrightarrow> ttl = 0 \<or> t1 < t0 + of_nat ttl"
    and "redis_get_or_create lib rs fresh (fold (\<lambda>(u, x) r. redis_save lib rs r u x) later (redis_save lib rs r t0 s))
      t1 (s_id s) now = Inr (g_session g, r')"
    and "standard g pe hs" and "gateway_run g tr g'" and "(ClientLine line, es) \<in> set tr" and "calls g line raw"
  shows "s_suspended (g_session g) \<and> s_tainted (g_session g) = s_tainted s \<and> s_risk_score (g_session g) = s_risk_score s \<and>
    s_history (g_session g) = s_history s \<and> upstream_lines es = []"
proof -
  note store = redis_store_laws [OF assms(1), of lib fresh]
  have keeps: "session_store.keeps (redis_save lib rs) (redis_save lib rs r t0 s) later =
      fold (\<lambda>(u, x) r. redis_save lib rs r u x) later (redis_save lib rs r t0 s)"
    by (rule session_store.keeps_def [OF store])
  have "redis_lasts rs t0 t1" using assms(6) by (simp add: redis_lasts_def)
  then have "durable (g_session g) = durable s"
    using session_store.bind_after_keep [OF store assms(4,2,5), of r now] assms(7) by (auto simp: keeps)
  note same = durable_eqD [OF this]
  with assms(3) have "s_suspended (g_session g)" by simp
  with same suspended_run [OF assms(9,8) _ assms(10,11)] show ?thesis by blast
qed

theorem replicas_share_suspension_witness:
  "s_suspended (durable (g_session suspended_gateway)) \<and>
   upstream_lines (effects (handle_input (ClientLine (encode sample_lib query_call)))
     (sample_gateway\<lparr>g_session := durable (g_session suspended_gateway)\<rparr>)) = []"
proof -
  let ?s = "g_session suspended_gateway" and ?l = "encode sample_lib query_call"
  let ?g = "sample_gateway\<lparr>g_session := durable ?s\<rparr>"
  have ok: "client_ok (rd_client plain_redis)" by (simp add: plain_redis_def plain_client_ok)
  have lasting: "\<forall>ttl. rd_ttl plain_redis = Some ttl \<longrightarrow> ttl = 0 \<or> 3600 < 0 + rat_of_nat ttl"
    by (simp add: plain_redis_def DEFAULT_TTL_SECONDS_def)
  then have "redis_lasts plain_redis 0 3600" by (simp add: redis_lasts_def)
  then have bind: "redis_get_or_create sample_lib plain_redis [] (fold (\<lambda>(u, x) r. redis_save sample_lib plain_redis r u x) []
      (redis_save sample_lib plain_redis [] 0 ?s)) 3600 (s_id ?s) [] = Inr (g_session ?g, redis_save sample_lib plain_redis [] 0 ?s)"
    by (simp add: redis_get_or_create_def redis_get_save_same [OF ok])
  have "gateway_run ?g [(ClientLine ?l, effects (handle_input (ClientLine ?l)) ?g)] (after (handle_input (ClientLine ?l)) ?g)"
    by (rule gateway_step [OF gateway_done])
  moreover have "standard ?g sample_engine sample_handlers"
    using sample_standard by (simp add: standard_def)
  moreover have "calls ?g ?l query_call" by code_simp
  moreover have "s_id ?s \<noteq> []" "s_suspended ?s" by code_simp+
  ultimately show ?thesis using replicas_share_suspension [OF ok _ _ _ _ lasting bind] by auto
qed

text \<open>
  C20 (central_lines_are_owned). Central mode end to end, from the configuration file to the
  upstream server: in a service assembled from a configuration with an identity file, through
  any interleaving of requests, upstream lines, timeouts and closings on all its hubs, every
  line an upstream ever received was sent by a default gateway over the policy files configured
  for that upstream, acting for the principal that opened the session on that very hub, for the
  body of a request whose credential proved a principal with the id of that owner; a session has
  one owner for good.
\<close>

theorem central_lines_are_owned:
  assumes "load_gateway_config lib file beside content = Inr cfg" and "gc_identity_path cfg = Some path" and "path \<noteq> []"
    and "build_central_app st cfg = Inr (c0 :: 'k central)" and "central_run p c0 tr c"
    and "map_of (cn_hubs c) name = Some hb" and "map_of (hb_objects hb) sid = Some s" and "l \<in> set (hs_sent s)"
  shows "distinct (map uc_name (gc_upstreams cfg)) \<and>
    (\<exists>up engine r q. up \<in> set (gc_upstreams cfg) \<and> uc_name up = name \<and>
     engine_load (e_lib (st_env st)) (map (st_policy_file st) (uc_policy up)) = Inr engine \<and>
     load_identity_config (e_lib (st_env st)) path (st_identity st path) = Inr (r, q :: 'k jwks_provider option) \<and>
     (\<exists>owner rq0 rq pr jp1 raw did h. (name, Opened sid rq0 (Some owner)) \<in> set tr \<and>
        (\<forall>rq' who'. (name, Opened sid rq' who') \<in> set tr \<longrightarrow> who' = Some owner) \<and>
        (name, Delivered sid rq (Some pr) raw did) \<in> set tr \<and>
        credential_proves p r jp1 rq pr \<and> pn_id pr = pn_id owner \<and> rq_body rq = Some (PDict raw) \<and>
        g_principal h = owner \<and> standard h engine (build_action_handlers True (Some deny_broker)) \<and>
        l \<in> set (upstream_lines (effects (on_client_line (encode (e_lib (st_env st)) raw)) h))))"
  using load_gateway_config_ok [OF assms(1)] central_line_owned [OF assms(2-8)] unfolding config_ok_def by (intro conjI) blast+

theorem central_lines_are_owned_witness:
  "\<exists>s l owner rq0. map_of (hb_objects hub2) ''h1'' = Some s \<and> l \<in> set (hs_sent s) \<and>
     (''crm'', Opened ''h1'' rq0 (Some owner)) \<in> set (map (Pair ''crm'') http_trace)"
proof -
  obtain s l where s: "map_of (hb_objects hub2) ''h1'' = Some s" "l \<in> set (hs_sent s)" using sample_hub_sent by blast
  have "gc_identity_path crm_config = Some ''/etc/identity.yaml''" "''/etc/identity.yaml'' \<noteq> []"
    "map_of (cn_hubs central2) ''crm'' = Some hub2" by (simp_all add: crm_config_def central2_def)
  from central_lines_are_owned [OF crm_config_loads this(1,2) central0_built sample_central_runs this(3) s] s
  show ?thesis by blast
qed

text \<open>
  C21 (clients_hear_only_their_gateway). Nothing reaches an HTTP client around the gateway:
  through any interleaving on a hub, the body of a reply to a POST is the timeout error for its
  id, or a line that the gateway of that very session said and that is a response with an id
  equal to the one the POST asked with; every frame of an event stream is a line the gateway of
  its own session said. A line is said in a step of the run: it is among the client lines
  carried out when the gateway the session had in the hub at that step (or the one just built,
  for the request that opens the session) handled the body of a request delivered to the session
  or a line read from its upstream.
\<close>

theorem clients_hear_only_their_gateway:
  assumes "hub_run p hb0 jp0 tr hb jp" and "hb_objects hb0 = []" and "cache_ok p jp0"
  shows "(Framed sid l \<in> set tr \<longrightarrow> gateway_said p hb0 jp0 tr hb jp sid l) \<and>
    (Replied sid i body \<in> set tr \<longrightarrow> body = timeout_line (sp_lib (hb_parts hb0)) i \<or>
       gateway_said p hb0 jp0 tr hb jp sid body \<and> (\<exists>k. py_key i = Some k \<and> answers (sp_lib (hb_parts hb0)) body k))"
  using assms by (rule client_hears_its_gateway)

theorem clients_hear_only_their_gateway_witness:
  "\<exists>tr hb body. hub_run sample_idp hub0 jwks0 tr hb jwks0 \<and> Replied ''h1'' (PInt 3) body \<in> set tr \<and>
     (body = timeout_line sample_lib (PInt 3) \<or> gateway_said sample_idp hub0 jwks0 tr hb jwks0 ''h1'' body)"
proof -
  obtain tr hb body where run: "hub_run sample_idp hub0 jwks0 tr hb jwks0" and r: "Replied ''h1'' (PInt 3) body \<in> set tr"
    using sample_hub_replies by blast
  from clients_hear_only_their_gateway [OF run sample_hub_start(1,2)] r
  have "body = timeout_line (sp_lib (hb_parts hub0)) (PInt 3) \<or> gateway_said sample_idp hub0 jwks0 tr hb jwks0 ''h1'' body" by blast
  moreover have "sp_lib (hb_parts hub0) = sample_lib" by (simp add: hub0_def hub_parts_def sample_env_def)
  ultimately show ?thesis using run r by metis
qed

text \<open>
  C22 (stdio_lines_stay_whole). The sidecar is its gateway and nothing more: a session over
  pipes that ends without an exception is a run of the gateway on the stripped, decoded, non-
  blank lines both peers wrote, up to the first pump that ends; splitting what either pipe
  carries at newlines gives exactly the lines the gateway sent to that side, so no peer can
  smuggle a second message into a line.
\<close>

theorem stdio_lines_stay_whole:
  assumes "start_stdio command g = Inr st" and "pump_both repair rds st = ((None, ended), st', did)"
    and "standard g pe hs" and "plain_floats (e_lib (g_env g))" and "repair_ok repair" and "reads_lines rds"
  shows "\<exists>tr. gateway_run g tr (io_gateway st') \<and> map fst tr = inputs_of repair rds \<and>
    split_on (CHR 10) (io_to_client st') = map utf8_encode (client_lines (concat (map snd tr))) @ [[]] \<and>
    split_on (CHR 10) (io_to_upstream st') = map utf8_encode (upstream_lines (concat (map snd tr))) @ [[]]"
  using assms by (rule stdio_session)

theorem stdio_lines_stay_whole_witness:
  "\<exists>st st' did tr. start_stdio [''server''] sample_gateway = Inr st \<and>
     pump_both id sample_reads st = ((None, True), st', did) \<and>
     map fst tr = [ClientLine drop_line, ClientLine web_line, UpstreamLine ''ready''] \<and>
     split_on (CHR 10) (io_to_upstream st') = map utf8_encode (upstream_lines (concat (map snd tr))) @ [[]]"
proof -
  obtain st where st: "start_stdio [''server''] sample_gateway = Inr st" by (simp add: start_stdio_def)
  obtain st' did where run: "pump_both id sample_reads st = ((None, True), st', did)"
    using sample_reads_pumped [OF st] by blast
  have "plain_floats (e_lib (g_env sample_gateway))" "repair_ok id" "reads_lines sample_reads"
    using sample_floats sample_reads_lines by (simp_all add: repair_ok_def sample_gateway_def sample_env_def)
  from stdio_lines_stay_whole [OF st run sample_standard this] st run sample_reads_inputs show ?thesis by metis
qed

text \<open>
  C23 (truncated_spool_is_a_prefix). The spool is crash tolerant: when the file is cut at any
  byte, the reader returns a prefix of the events written, in order and unchanged, every event
  whose line lies before the cut is among them, and no line is counted as corrupt.
\<close>

theorem truncated_spool_is_a_prefix:
  assumes "plain_floats lib" and "\<forall>d \<in> set evs. json_ok lib (PDict d)"
  shows "\<exists>rs torn. read_lines lib 0 (take k (concat (map (spool_line lib) evs))) = Inr (rs, 0, torn) \<and>
    prefix (map sr_event rs) evs \<and>
    (\<forall>i \<le> length evs. length (concat (map (spool_line lib) (take i evs))) \<le> k \<longrightarrow> i \<le> length rs)"
  using truncated_spool_reads_prefix [OF assms, of k] by metis

theorem truncated_spool_is_a_prefix_witness:
  "\<exists>rs torn. read_lines sample_lib 0 (take 70 sample_spool) = Inr (rs, 0, torn) \<and> prefix (map sr_event rs) sample_events"
  using truncated_spool_is_a_prefix [OF sample_floats sample_events_ok, of 70] by (auto simp: sample_spool_def)

text \<open>
  C24 (polling_equals_rebuild). Both audit indexes (SQLite and Postgres) are caches of the
  spool: catching up after each of any number of growths of the file, however the growth cuts
  the lines, gives exactly the index that a rebuild from the final file gives.
\<close>

theorem polling_equals_rebuild:
  assumes "chunks \<noteq> []" and "sq_rebuild lib (Some (concat chunks)) ix0 = Inr (rep, ix)"
    and "pg_rebuild lib (Some (concat chunks)) iy0 = Inr (rep', iy)"
  shows "polls (sq_catch_up lib) [] chunks empty_index = Inr ix \<and> polls (pg_catch_up lib) [] chunks empty_index = Inr iy"
proof -
  have clear: "x\<lparr>ix_events := [], ix_sessions := [], ix_meta := None\<rparr> = empty_index" for x
    by (simp add: empty_index_def)
  have zero: "sq_next_offset empty_index = 0" "pg_next_offset empty_index = 0"
    by (simp_all add: empty_index_def sq_next_offset_def pg_next_offset_def)
  have "sq_catch_up lib (Some ([] @ concat chunks)) empty_index = Inr (rep, ix)"
    "pg_catch_up lib (Some ([] @ concat chunks)) empty_index = Inr (rep', iy)"
    using assms(2,3) by (simp_all add: sq_rebuild_def pg_rebuild_def clear)
  with sq.polls_catch_up pg.polls_catch_up assms(1) zero show ?thesis by (metis le0)
qed

theorem polling_equals_rebuild_witness:
  "polls (sq_catch_up sample_lib) [] [take 20 sample_spool, drop 20 sample_spool] empty_index = Inr sample_index"
proof -
  have "sq_rebuild sample_lib (Some (concat [take 20 sample_spool, drop 20 sample_spool])) empty_index =
      Inr (fst (projr (sq_rebuild sample_lib (Some sample_spool) empty_index)), sample_index)"
    using sample_rebuilt by simp
  moreover obtain rep' iy where "pg_rebuild sample_lib (Some (concat [take 20 sample_spool, drop 20 sample_spool])) empty_index = Inr (rep', iy)"
  proof -
    have "isOk (pg_rebuild sample_lib (Some sample_spool) empty_index)" by code_simp
    then show thesis using that by (auto simp: isOk_def split: sum.splits)
  qed
  ultimately show ?thesis using polling_equals_rebuild by blast
qed

text \<open>
  C25 (index_reflects_spool). What the console reads of a session is what the spool says: after
  a rebuild, the row of a session counts its events, its allowed and its blocked calls, and is
  marked tainted or suspended exactly when the spool holds such an event for it; a session
  without events has no row that claims any.
\<close>

theorem index_reflects_spool:
  assumes "sq_rebuild lib (Some b) ix0 = Inr (rep, ix)" and "read_lines lib 0 b = Inr (rs, bad, torn)" and "sid \<noteq> []"
  shows "case map_of (ix_sessions ix) sid of
      None \<Rightarrow> session_events sid (kept_events rs) = []
    | Some row \<Rightarrow>
        sn_event_count row = int (length (session_events sid (kept_events rs))) \<and>
        sn_allowed_count row = int (length (named [ALLOWED] (session_events sid (kept_events rs)))) \<and>
        sn_blocked_count row = int (length (named [BLOCKED, BLOCKED_SUSPENDED] (session_events sid (kept_events rs)))) \<and>
        sn_tainted row = (named [TAINTED] (session_events sid (kept_events rs)) \<noteq> []) \<and>
        sn_suspended row = (named [SUSPENDED] (session_events sid (kept_events rs)) \<noteq> [])"
  using sq_rebuild_reflects [OF assms(1,2)] assms(3) unfolding rollup_ok_def row_reflects_def by blast

theorem index_reflects_spool_witness:
  "\<exists>row. map_of (ix_sessions sample_index) ''s1'' = Some row \<and> sn_suspended row \<and> sn_event_count row = 3"
proof -
  have row: "map_of (ix_sessions sample_index) ''s1'' = Some (the (map_of (ix_sessions sample_index) ''s1''))" by code_simp
  have "kept_events sample_records = sample_events"
    using sample_spool_reads(2) by (simp add: kept_events_def) (simp add: sample_events_def named_event_def dget_def)
  moreover have "length (session_events ''s1'' sample_events) = 3" "named [SUSPENDED] (session_events ''s1'' sample_events) \<noteq> []"
    by code_simp+
  ultimately show ?thesis
    using index_reflects_spool [OF sample_rebuilt sample_spool_reads(1), of "''s1''"] row
    by (intro exI [of _ "the (map_of (ix_sessions sample_index) ''s1'')"]) (simp split: option.splits)
qed

text \<open>
  C26 (forwarder_loses_nothing). At-least-once forwarding: through any sequence of appends to
  the spool, pumps, refusals of the sink, failures reported in doubt for a batch that did land,
  and deaths of the process, every event before the watermark has been accepted by the sink in
  its mapped form; and unless the process died between an acceptance and its watermark or a sink
  raised after the batch had landed, the sink has accepted exactly those, each once and in
  order.
\<close>

theorem forwarder_loses_nothing:
  assumes "forward_run lib fw b exact st" and "1 \<le> fw_batch_size fw"
  shows "\<exists>rs bad torn k acc. read_lines lib 0 b = Inr (rs, bad, torn) \<and>
    watermark_load lib (fs_watermark st) = Inr (int (next_offset_of 0 (take k rs))) \<and>
    map_batch fw (take k rs) = Inr acc \<and> set acc \<subseteq> set (fs_accepted st) \<and> (exact \<longrightarrow> fs_accepted st = acc)"
proof -
  obtain k where "forwarded_upto lib fw b exact st k" using forward_run_upto [OF assms] by blast
  then show ?thesis by (auto simp: forwarded_upto_def split: sum.splits prod.splits)
qed

theorem forwarder_loses_nothing_witness:
  "\<exists>rs bad torn k acc. read_lines sample_lib 0 sample_spool = Inr (rs, bad, torn) \<and>
    map_batch sample_forwarder (take k rs) = Inr acc \<and> fs_accepted idle = acc"
proof -
  have "1 \<le> fw_batch_size sample_forwarder" by (simp add: sample_forwarder_def make_forwarder_def)
  from forwarder_loses_nothing [OF sample_forward_run this] show ?thesis by blast
qed

text \<open>
  C27 (drain_delivers_everything). A recovered sink gets the whole backlog: from any state a
  forwarder can reach, with one of the shipped mappers, over a spool whose records carry a
  string as their event name when the mapper is not the raw one (the recorder writes no others;
  the ecs mapper raises on one, which is recorded as a finding), draining with a sink that
  accepts terminates within one more pump than the spool has records, reports success, and
  leaves every event of the spool accepted.
\<close>

theorem drain_delivers_everything:
  assumes "forward_run lib fw b exact st" and "1 \<le> fw_batch_size fw"
    and "map_of (MAPPERS lib version) name = Some (fw_mapper fw)" and "read_lines lib 0 b = Inr (rs, bad, torn)"
    and "name \<noteq> ''raw'' \<Longrightarrow> \<forall>r \<in> set rs. is_str (dget_default (sr_event r) ''event'' (PStr ''unknown''))"
  shows "\<exists>res st' acc. drain lib fw (Some b) (replicate (Suc (length rs)) Accepted) st = Inr (Some res, st') \<and> fr_ok res \<and>
    map_batch fw rs = Inr acc \<and> length acc = length rs \<and> set acc \<subseteq> set (fs_accepted st')"
proof -
  obtain k where k: "forwarded_upto lib fw b exact st k" using forward_run_upto [OF assms(1,2)] by blast
  have keep: "keeps_all fw rs" using mappers_keep_all [OF assms(3) refl assms(5)] .
  obtain res st' where "drain lib fw (Some b) (replicate (Suc (length rs)) Accepted) st = Inr (Some res, st')" "fr_ok res"
    "forwarded_upto lib fw b exact st' (length rs)" using drain_complete [OF assms(2,4) keep k] by blast
  moreover obtain acc where "map_batch fw rs = Inr acc" "length acc = length rs" using keeps_all_batch [OF keep] by blast
  ultimately show ?thesis using assms(4) by (auto simp: forwarded_upto_def)
qed

theorem drain_delivers_everything_witness:
  "\<exists>res st'. drain sample_lib sample_forwarder (Some sample_spool) (replicate 4 Accepted) idle = Inr (Some res, st') \<and>
    fr_ok res \<and> set sample_events \<subseteq> set (fs_accepted st')"
proof -
  have batch: "1 \<le> fw_batch_size sample_forwarder" by (simp add: sample_forwarder_def make_forwarder_def)
  have mapper: "map_of (MAPPERS sample_lib ''0.1.0'') ''raw'' = Some (fw_mapper sample_forwarder)"
    by (simp add: MAPPERS_def sample_forwarder_def make_forwarder_def)
  have len: "length sample_records = 3" using sample_spool_reads(2) by (metis length_map sample_events_def list.size(3,4) One_nat_def add.commute add_Suc numeral_3_eq_3 plus_1_eq_Suc)
  have "map_batch sample_forwarder sample_records = Inr sample_events"
    using sample_spool_reads(2) emap_all_Inr [of sample_records "\<lambda>r. Inr (Some (sr_event r))" "Some \<circ> sr_event"]
    by (simp add: map_batch_def sample_forwarder_def make_forwarder_def comp_def)
  with drain_delivers_everything [OF sample_forward_run batch mapper sample_spool_reads(1)] show ?thesis
    by (auto simp: len eval_nat_numeral)
qed

text \<open>
  C28 (wrap_enforces_only_released_policy). The chain of trust from the release key to the wire:
  if the key in the given file verifies only the manifests of released bundles (whose hashes are
  their own) and no other payload has the hash of a released one, then a sidecar started from a
  bundle file or a bundle store, whatever is on disk, sends nothing to either side and runs no
  session unless a released bundle compiles; every line it sends is then sent by a standard
  gateway enforcing exactly that bundle.
\<close>

theorem wrap_enforces_only_released_policy:
  assumes "bundle_mode a" and "trusted_releases ho a released"
    and "sent_lines (wr_effects (run_wrap ho a repair rds rc)) \<noteq> {} \<or> wr_session (run_wrap ho a repair rds rc) \<noteq> None"
  shows "\<exists>r \<in> released. \<exists>pe g br x st es. engine_from_bundle (ho_lib ho) (ho_yaml ho) r = Inr pe \<and>
    wrap_gateway ho a pe = Inr (g, br) \<and> standard g pe (build_action_handlers True (Some br)) \<and>
    run_stdio repair (upstream_command (wa_upstream_cmd a)) rds rc g = Inr (x, st, es) \<and>
    sent_lines (wr_effects (run_wrap ho a repair rds rc)) = sent_lines es \<and> wr_session (run_wrap ho a repair rds rc) = Some st"
  using wrap_enforces_released [OF assms(1,2)] assms(3) unfolding silent_def by blast

theorem wrap_enforces_only_released_policy_witness:
  "\<exists>pe g br st. engine_from_bundle (ho_lib wrap_host) (ho_yaml wrap_host) wrap_unsigned = Inr pe \<and>
     standard g pe (build_action_handlers True (Some br)) \<and>
     wr_session (run_wrap wrap_host wrap_options id sample_reads (PInt 0)) = Some st"
  using wrap_enforces_only_released_policy [OF wrap_options_bundle wrap_releases disjI2 [OF wrap_session_runs]] by blast

text \<open>
  C29 (store_never_goes_dark). A push cannot take a gateway to no policy: whatever bundle is
  offered to the store, accepted or refused, for this pack or another, a pack that resolved to a
  verified bundle before, from its current pointer or from its last known good one, resolves to
  a verified bundle afterwards. When a bundle is accepted for this very pack, its version is
  either new to the store, or the file stored under it verifies, or that file at least decodes
  and the pack was not served from the fallback (or its current pointer names that version
  already); outside that, a damaged file of an already stored version does take a pack on the
  fallback dark, which is recorded as a finding.
\<close>

theorem store_never_goes_dark:
  assumes "current lib cr vk dk name = Inr (Some r0)" and "install lib cr vk now b dk = Inr (res, dk')" and "bundle_wf b"
    and "in_accepted res \<Longrightarrow> name = pb_name b \<Longrightarrow>
      dk (bundle_path name (pb_version b)) = None \<or>
      (\<exists>c. bundle_for dk name (pb_version b) = Inr (Some c) \<and> verify_ok (verify_bundle lib cr c (Some vk))) \<or>
      isOk (bundle_for dk name (pb_version b)) \<and> (\<not> rv_fell_back r0 \<or> current_version dk name = Inr (Some (pb_version b)))"
  shows "\<exists>r. current lib cr vk dk' name = Inr (Some r) \<and> verify_ok (verify_bundle lib cr (rv_bundle r) (Some vk))"
proof -
  obtain r where "current lib cr vk dk' name = Inr (Some r)" using install_keeps_service [OF assms] by blast
  with current_is_verified [OF this] show ?thesis by blast
qed

theorem store_never_goes_dark_witness:
  "\<exists>dk' r. current sample_lib sample_crypto ''release'' dk' ''github'' = Inr (Some r)"
proof -
  let ?i = "install sample_lib sample_crypto ''release'' ''now''"
  obtain r1 dk1 where one: "?i (sample_bundle ''v1'') (\<lambda>p. None) = Inr (r1, dk1)"
    by (rule install_succeeds [OF sample_bundle_ok, of "\<lambda>p. None" _ None]) (simp_all add: read_pointer_def)
  obtain r0 where cur: "current sample_lib sample_crypto ''release'' dk1 ''github'' = Inr (Some r0)"
    using install_then_current [OF sample_bundle_ok sample_bundle_wf _ one] by simp
  obtain ptr where ptr: "read_pointer dk1 ''github'' CURRENT = Inr (Some ptr)" "isOk (pointer_version ptr)"
    using install_accepted(1) [OF sample_bundle_ok one] by (simp add: read_pointer_def)
  obtain r2 dk2 where two: "?i (sample_bundle ''v2'') dk1 = Inr (r2, dk2)"
    by (rule install_succeeds [OF sample_bundle_ok, of dk1 _ "Some ptr"]) (use ptr in simp_all)
  have "bundle_path ''github'' ''v2'' \<noteq> bundle_path ''github'' ''v1''" by code_simp
  then have fresh: "dk1 (bundle_path ''github'' (pb_version (sample_bundle ''v2''))) = None"
    using install_accepted(2) [OF sample_bundle_ok one] by simp
  have wf: "bundle_wf (sample_bundle ''v2'')" by (rule sample_bundle_wf) simp
  show ?thesis using store_never_goes_dark [OF cur two wf] fresh by blast
qed

section \<open>Policy packs and the offline tools\<close>

text \<open>
  C30 (golden_cases_are_enforced). A golden case that passes is a statement about enforcement:
  for the same tool, arguments and effective role, the five-stage pipeline of a gateway (with
  any approver, any sequence policy and any session that is not suspended and not gated by a
  sequence rule) reaches the outcome the case expects, provided the rule does not ask for
  approval, which the harness answers with nobody.
\<close>

theorem golden_cases_are_enforced:
  assumes "run_case ev sid now pe (build_action_handlers True None) i (PDict c) w = Inr (r, w')" and "gr_passed r"
    and "dget c ''expect'' = Some (PDict expect)" and "dget expect ''outcome'' = Some (PStr word)"
    and "dget c ''tool'' = Some (PStr tool)" and "dget_default c ''arguments'' (PDict []) = PDict args"
    and "case_roles (dget_none c ''role'') = Inr roles" and "first_role p = (if roles = [] then None else Some (hd roles))"
    and "evaluate pe tool (first_role p) = Inr d" and "d_action d \<noteq> PStr ''require_approval''"
    and "\<not> s_suspended s" and "sequence_check sq tool s = None"
  shows "outcome_word (fst (run_stages (default_stages ev pe sq (build_action_handlers True br))
           (make_call_context s raw tool args p) w)) = word"
  using assms by (rule golden_case_enforced)

theorem golden_cases_are_enforced_witness:
  "outcome_word (fst (run_stages (default_stages sample_env demo_engine sample_sequence
      (build_action_handlers True (Some sample_broker)))
      (make_call_context sample_session [] ''db.drop'' [] default_principal) sample_world)) = ''deny''"
proof -
  let ?run = "run_case sample_env ''s'' ''t0'' demo_engine (build_action_handlers True None) 0 (PDict demo_case) sample_world"
  have "case ?run of Inl _ \<Rightarrow> False | Inr (r, _) \<Rightarrow> gr_passed r" by code_simp
  then obtain r w' where run: "?run = Inr (r, w')" "gr_passed r" by (auto split: sum.splits)
  have "case evaluate demo_engine ''db.drop'' None of Inl _ \<Rightarrow> False | Inr d \<Rightarrow> d_action d = PStr ''block''" by code_simp
  then obtain d where d: "evaluate demo_engine ''db.drop'' None = Inr d" "d_action d = PStr ''block''" by (auto split: sum.splits)
  have na: "d_action d \<noteq> PStr ''require_approval''" using d(2) by simp
  have e: "dget demo_case ''expect'' = Some (PDict [(PStr ''outcome'', PStr ''deny'')])" by code_simp
  have o': "dget [(PStr ''outcome'', PStr ''deny'')] ''outcome'' = Some (PStr ''deny'')" by code_simp
  have t: "dget demo_case ''tool'' = Some (PStr ''db.drop'')" by code_simp
  have a: "dget_default demo_case ''arguments'' (PDict []) = PDict []" by code_simp
  have rl: "case_roles (dget_none demo_case ''role'') = Inr []" by code_simp
  have fr: "first_role default_principal = None" by code_simp
  have ss: "\<not> s_suspended sample_session" by code_simp
  have sq: "sequence_check sample_sequence ''db.drop'' sample_session = None" by code_simp
  show ?thesis
    by (rule golden_cases_are_enforced [OF run e o' t a rl _ _ na ss sq]) (simp_all add: fr d(1))
qed

text \<open>
  C31 (green_ci_verifies_every_pack). When the policy CI run over a repository is green, every
  pack directory of it (none is skipped except hidden ones) loads, its layers compile together,
  the golden suite in its own directory runs on those layers with at least the required number
  of cases and every case passes, and every tool of its inventory is matched by a rule of its
  own rather than by the default action.
\<close>

theorem green_ci_verifies_every_pack:
  assumes "run_policy_ci ce m bt [] r = Inr ps" and "ci_ok ps"
    and "rp_connectors r = Some ds" and "d \<in> set ds" and "\<not> hidden_dir d"
  shows "\<exists>c pe path tests rs tools. load_connector d = Inr c \<and> engine_load (e_lib (ci_env ce)) (policy_layers c) = Inr pe \<and>
    tests_named d = Some (path, tests) \<and>
    run_policy_tests (ci_env ce) (ci_sid ce) (ci_now ce) (ci_world ce) (policy_layers c) path (Some tests) = Inr rs \<and>
    list_all gr_passed rs \<and> m \<le> length rs \<and> connector_tools c = Inr tools \<and>
    (\<forall>tool \<in> set tools. match_rule (pe_matcher pe) tool \<noteq> None)"
  using green_run_verifies [OF assms] unfolding pack_verified_def .

theorem green_ci_verifies_every_pack_witness:
  "\<exists>c pe. load_connector demo_pack = Inr c \<and> engine_load sample_lib (policy_layers c) = Inr pe \<and>
     (\<exists>path tests rs. tests_named demo_pack = Some (path, tests) \<and>
        run_policy_tests (ci_env demo_env) (ci_sid demo_env) (ci_now demo_env) (ci_world demo_env) (policy_layers c) path (Some tests) = Inr rs \<and>
        list_all gr_passed rs \<and> 1 \<le> length rs) \<and>
     (\<exists>tools. connector_tools c = Inr tools \<and> (\<forall>tool \<in> set tools. match_rule (pe_matcher pe) tool \<noteq> None))"
proof -
  obtain ps where ps: "run_policy_ci demo_env 1 True [] demo_repo = Inr ps" "ci_ok ps" using demo_ci_green by blast
  have "rp_connectors demo_repo = Some [demo_pack]" "demo_pack \<in> set [demo_pack]" "\<not> hidden_dir demo_pack"
    by (simp_all add: demo_repo_def demo_pack_def hidden_dir_def)
  note v = green_ci_verifies_every_pack [OF ps this]
  have "e_lib (ci_env demo_env) = sample_lib" by (simp add: demo_env_def sample_env_def)
  with v show ?thesis by metis
qed

text \<open>
  C32 (clean_diff_changes_no_decision). When the policy diff reports a pack as unchanged, both
  revisions compile and decide the same action for every tool on the surface (which holds every
  literal rule of both sides) under every role, declared or not.
\<close>

theorem clean_diff_changes_no_decision:
  assumes "diff_pack lib name (Some t) (Some u) = Inr p" and "pd_state p = UNCHANGED"
    and "layers_wf lib (tg_layers t)" and "layers_wf lib (tg_layers u)"
  shows "\<exists>b h tools. engine_load lib (tg_layers t) = Inr b \<and> engine_load lib (tg_layers u) = Inr h \<and>
    surface (Some t) (Some u) (Some b) (Some h) = Inr tools \<and>
    (\<forall>rule \<in> fst ` set (pe_rules b) \<union> fst ` set (pe_rules h). rule \<noteq> [] \<and> \<not> is_glob rule \<longrightarrow> rule \<in> set tools) \<and>
    (\<forall>tool \<in> set tools. \<forall>role. action_of b (tool, role) = action_of h (tool, role))"
proof -
  obtain b h tools where e: "engine_load lib (tg_layers t) = Inr b" "engine_load lib (tg_layers u) = Inr h"
    and s: "surface (Some t) (Some u) (Some b) (Some h) = Inr tools"
    and c: "compare_pack name b h tools (role_views (Some b) (Some h)) = Inr p"
    by (rule unchanged_diff_compared [OF assms(1,2)]) auto
  note plain = engine_load_plain [OF e(1) assms(3)] engine_load_plain [OF e(2) assms(4)]
  from e s surface_literals [OF s] unchanged_pack_agrees [OF c assms(2) plain] show ?thesis by blast
qed

theorem clean_diff_changes_no_decision_witness:
  "\<exists>b h tools. engine_load sample_lib (tg_layers (glob_target ''block'')) = Inr b \<and>
     engine_load sample_lib (tg_layers (glob_target ''allow'')) = Inr h \<and>
     surface (Some (glob_target ''block'')) (Some (glob_target ''allow'')) (Some b) (Some h) = Inr tools \<and>
     (\<forall>tool \<in> set tools. \<forall>role. action_of b (tool, role) = action_of h (tool, role))"
proof -
  obtain p where p: "diff_pack sample_lib ''p'' (Some (glob_target ''block'')) (Some (glob_target ''allow'')) = Inr p"
    "pd_state p = UNCHANGED" using glob_loosening_is_invisible(1) by blast
  from clean_diff_changes_no_decision [OF p glob_layers_wf(1) glob_layers_wf(2)] show ?thesis by blast
qed

text \<open>
  C33 (policy_replay_is_stable). Replaying the recorded decisions of a policy through the same
  policy shows no difference: for every loaded engine and every list of tools and roles, the
  synthetic spool is written, every one of its events is read back as a decided call, and the
  report lists no change, whatever actions count as denials.
\<close>

theorem policy_replay_is_stable:
  assumes "plain_floats lib" and "engine_load lib fs = Inr pe" and "layers_wf lib fs"
  shows "\<exists>bytes r. write_synthetic_spool lib pe tools roles deny_set = Inr bytes \<and>
    backtest_policy lib (Some bytes) pe deny_set = Inr r \<and>
    bt_calls_examined r = length tools * length roles \<and> bt_changed r = [] \<and> bt_bad_lines r = 0"
proof -
  have plain: "plain_engine pe" using assms(2,3) by (rule engine_load_plain)
  have "\<exists>d. evaluate pe tool role = Inr d" for tool role
    using assms(2) by (auto simp: engine_load_def ebind_eq_Inr intro: evaluate_total)
  then obtain bytes where "write_synthetic_spool lib pe tools roles deny_set = Inr bytes"
    using write_synthetic_total [OF _ plain] by blast
  with synthetic_replay [OF assms(1) plain] show ?thesis by blast
qed

theorem policy_replay_is_stable_witness:
  "\<exists>bytes r. write_synthetic_spool sample_lib (glob_engine ''allow'') [''x_a'', ''x_b''] [None, Some ''ops''] effective_deny_set = Inr bytes \<and>
    backtest_policy sample_lib (Some bytes) (glob_engine ''allow'') effective_deny_set = Inr r \<and>
    bt_calls_examined r = 4 \<and> bt_changed r = []"
  using policy_replay_is_stable [OF sample_floats glob_engine_loads(2) glob_layers_wf(2),
      of "[''x_a'', ''x_b'']" "[None, Some ''ops'']" effective_deny_set] by auto

section \<open>Console and observability\<close>

text \<open>
  C34 (live_feed_resumes_exactly). The live feed over a spool that only grows sends exactly the
  records one reading of its final contents would give, in order, however the file grew between
  polls and also when it was empty at the first one; and a client that reconnects with the id of
  the last event it has, an event that is in the file when it reconnects, gets exactly the
  events behind it, none lost and none repeated.
\<close>

theorem live_feed_resumes_exactly:
  assumes "bs \<noteq> []" and "sorted_wrt prefix bs"
    and "read_lines lib 0 (last bs) = Inr (rs, bad, torn)"
  shows "event_stream lib None (map Some bs) = Inr rs \<and>
    (\<forall>xs r zs bad0 torn0. read_lines lib 0 (hd bs) = Inr (xs @ r # zs, bad0, torn0) \<longrightarrow>
       (\<exists>ys. rs = xs @ r # ys \<and> event_stream lib (Some (sr_offset r)) (map Some bs) = Inr ys))"
  using feed_complete [OF assms] feed_resumes [OF assms(1,2) _ assms(3)] by blast

theorem live_feed_resumes_exactly_witness:
  "\<exists>xs r ys rs. event_stream sample_lib None [Some feed_one, Some feed_all] = Inr rs \<and> length rs = 3 \<and>
     rs = xs @ r # ys \<and> length ys = 1 \<and> event_stream sample_lib (Some (sr_offset r)) [Some feed_one, Some feed_all] = Inr ys"
proof -
  let ?bs = "[feed_one, feed_all]"
  have "case read_lines sample_lib 0 feed_one of Inl _ \<Rightarrow> False | Inr (rs, _) \<Rightarrow> length rs = 2" by code_simp
  then obtain rs0 bad0 torn0 where "read_lines sample_lib 0 feed_one = Inr (rs0, bad0, torn0)" "length rs0 = 2" by (auto split: sum.splits)
  then obtain x r where one: "read_lines sample_lib 0 (hd ?bs) = Inr ([x] @ r # [], bad0, torn0)"
    by (auto simp: numeral_2_eq_2 length_Suc_conv)
  have "case read_lines sample_lib 0 feed_all of Inl _ \<Rightarrow> False | Inr (rs, _) \<Rightarrow> length rs = 3" by code_simp
  then obtain rs bad torn where all: "read_lines sample_lib 0 (last ?bs) = Inr (rs, bad, torn)" "length rs = 3" by (auto split: sum.splits)
  have pre: "sorted_wrt prefix ?bs" by (simp add: feed_all_def)
  have ne: "?bs \<noteq> []" by simp
  obtain ys where ys: "rs = [x] @ r # ys" "event_stream sample_lib (Some (sr_offset r)) (map Some ?bs) = Inr ys"
    and none: "event_stream sample_lib None (map Some ?bs) = Inr rs"
    using live_feed_resumes_exactly [OF ne pre all(1)] one by blast
  then have "length ys = 1" using all(2) by simp
  with ys none all(2) show ?thesis by (intro exI [of _ "[x]"] exI [of _ r] exI [of _ ys] exI [of _ rs]) simp
qed

text \<open>
  C35 (session_cookies_roundtrip). The cookie a login sets names the user who logged in, with
  the same role, until it expires: the password verifies against its own hash, and base64, JSON,
  signing and parsing undo each other for every user name, secret and keyed hash; and any cookie
  that is accepted carries the signature of its body and a known role.
\<close>

theorem session_cookies_roundtrip:
  assumes "us_role u \<in> set USER_ROLES" and "t \<le> of_int \<lfloor>now + of_int (sg_ttl sg)\<rfloor>"
  shows "verify_password kdf password (hash_password kdf salt password) = Inr True \<and>
    cookie_verify lib sg t (mint lib sg u now) = Inr (Some u) \<and>
    (cookie_verify lib sg t token = Inr (Some v) \<longrightarrow>
       us_role v \<in> set USER_ROLES \<and> (\<exists>body. token = body @ ''.'' @ cookie_sign sg body))"
  using hash_verifies minted_cookie_verifies [OF assms] accepted_cookie_signed by blast

theorem session_cookies_roundtrip_witness:
  "cookie_verify sample_lib console_signer 5 (mint sample_lib console_signer console_alice 0) = Inr (Some console_alice)"
proof -
  have "us_role console_alice \<in> set USER_ROLES" by (simp add: console_alice_def USER_ROLES_def)
  moreover have "(5::rat) \<le> of_int \<lfloor>0 + of_int (sg_ttl console_signer)\<rfloor>" by (simp add: console_signer_def)
  ultimately show ?thesis using session_cookies_roundtrip by blast
qed

section \<open>Redaction\<close>

text \<open>
  C36 (builtin_detectors_are_total). On every text and every context the two built-in detectors
  return (they never raise), each claim is a non-empty range inside the text with a confidence
  between 0 and 1 and carries exactly the text it covers, and allowlisted text is never claimed.
\<close>

theorem builtin_detectors_are_total:
  "\<exists>pii sec. regex_pii_detect t ctx = Inr pii \<and> secrets_detect so t ctx = Inr sec \<and>
     (\<forall>s. s \<in> set pii \<union> set sec \<longrightarrow> sp_start s < sp_end s \<and> sp_end s \<le> length t \<and>
        0 \<le> sp_confidence s \<and> sp_confidence s \<le> 1 \<and>
        sp_text s = slice t (sp_start s) (sp_end s) \<and> sp_text s \<notin> set (dc_allowlist ctx))"
proof -
  obtain pii where pii: "regex_pii_detect t ctx = Inr pii" by (rule regex_pii_total)
  obtain sec where sec: "secrets_detect so t ctx = Inr sec" by (rule isOkE [OF secrets_total])
  show ?thesis
    using regex_pii_of_text [OF pii] secrets_of_text [OF sec] allowlisted_not_reported(1) [OF pii] allowlisted_not_reported(2) [OF sec]
      regex_pii_confident [OF pii] secrets_confident [OF sec]
    by (intro exI [of _ pii] exI [of _ sec]) (auto simp: pii sec spans_of_text_def)
qed

theorem builtin_detectors_are_total_witness:
  "\<exists>pii sec. regex_pii_detect ''ssn 123-45-6789'' (make_context [] [] []) = Inr pii \<and>
     secrets_detect default_secrets ''ssn 123-45-6789'' (make_context [] [] []) = Inr sec \<and>
     (\<forall>s. s \<in> set pii \<union> set sec \<longrightarrow> sp_end s \<le> 15 \<and> sp_confidence s \<le> 1)"
  using builtin_detectors_are_total [of "''ssn 123-45-6789''" "make_context [] [] []" default_secrets] by fastforce

text \<open>
  C37 (ssn_is_always_reported). A structurally valid US social security number (an issued area,
  a non-zero group and serial) that stands at word boundaries is reported by the PII detector at
  its exact place with confidence 0.95, whatever text surrounds it and whatever else the
  detector finds, unless the policy allowlists that very text.
\<close>

theorem ssn_is_always_reported:
  assumes "p + 11 \<le> length t" and "\<forall>i \<in> {0, 1, 2, 4, 5, 7, 8, 9, 10}. is_decimal (t ! (p + i))"
    and "t ! (p + 3) = CHR ''-''" and "t ! (p + 6) = CHR ''-''" and "word_boundary t p" and "word_boundary t (p + 11)"
    and "ssn_valid (digits_val (slice t p (p + 3))) (digits_val (slice t (p + 4) (p + 6))) (digits_val (slice t (p + 7) (p + 11)))"
    and "slice t p (p + 11) \<notin> set (dc_allowlist ctx)"
  shows "\<exists>ss. regex_pii_detect t ctx = Inr ss \<and>
    \<lparr>sp_entity = ''SSN'', sp_start = p, sp_end = p + 11, sp_confidence = 95 / 100, sp_detector = ''regex_pii'',
      sp_text = slice t p (p + 11)\<rparr> \<in> set ss"
proof -
  have "ssn_at t p" using assms(1-6) by (simp add: ssn_at_def)
  then show ?thesis using assms(7,8) by (rule ssn_reported)
qed

theorem ssn_is_always_reported_witness:
  "\<exists>ss. regex_pii_detect ''id 123-45-6789.'' (make_context [] [] []) = Inr ss \<and>
    \<lparr>sp_entity = ''SSN'', sp_start = 3, sp_end = 14, sp_confidence = 95 / 100, sp_detector = ''regex_pii'',
      sp_text = ''123-45-6789''\<rparr> \<in> set ss"
proof -
  let ?t = "''id 123-45-6789.''"
  have slice: "slice ?t 3 14 = ''123-45-6789''" by code_simp
  have "\<forall>i \<in> {0, 1, 2, 4, 5, 7, 8, 9, 10}. is_decimal (?t ! (3 + i))" by code_simp
  moreover have "word_boundary ?t 3" "word_boundary ?t (3 + 11)" by code_simp+
  moreover have "ssn_valid (digits_val (slice ?t 3 (3 + 3))) (digits_val (slice ?t (3 + 4) (3 + 6))) (digits_val (slice ?t (3 + 7) (3 + 11)))"
    by code_simp
  moreover have "slice ?t 3 (3 + 11) \<notin> set (dc_allowlist (make_context [] [] []))" by (simp add: make_context_def)
  moreover have "3 + 11 \<le> length ?t" "?t ! (3 + 3) = CHR ''-''" "?t ! (3 + 6) = CHR ''-''" by code_simp+
  ultimately have "\<exists>ss. regex_pii_detect ?t (make_context [] [] []) = Inr ss \<and>
    \<lparr>sp_entity = ''SSN'', sp_start = 3, sp_end = 3 + 11, sp_confidence = 95 / 100, sp_detector = ''regex_pii'',
      sp_text = slice ?t 3 (3 + 11)\<rparr> \<in> set ss" by (intro ssn_is_always_reported)
  then show ?thesis by (simp add: slice)
qed

text \<open>
  C38 (masked_text_hides_spans). Under an engine that masks, two texts with detections of the
  same entities in the same places that agree outside them become the same text: nothing of a
  detected value can be told from the output.
\<close>

theorem masked_text_hides_spans:
  assumes "masks_everything en" and "\<forall>d \<in> set (en_detectors en). detector_ok d"
    and "detect_spans en a ctx = Inr ca" and "detect_spans en b ctx = Inr cb"
    and "map sp_start ca = map sp_start cb" and "map sp_end ca = map sp_end cb"
    and "map sp_entity ca = map sp_entity cb" and "agree_outside ca a b"
  shows "\<exists>out ra rb. fst (redact_text en a ctx v) = Inr (out, ra) \<and> fst (redact_text en b ctx w) = Inr (out, rb)"
  by (rule mask_noninterference [OF assms(1,3,4) detect_spans_in [OF assms(2,3)] detect_spans_in [OF assms(2,4)] assms(5-8)])

theorem masked_text_hides_spans_witness:
  "\<exists>out ra rb. fst (redact_text term_redactor ''pw hunter2'' two_terms sample_vault) = Inr (out, ra) \<and>
     fst (redact_text term_redactor ''pw letme1n'' two_terms sample_vault) = Inr (out, rb)"
proof -
  let ?ca = "projr (detect_spans term_redactor ''pw hunter2'' two_terms)"
  let ?cb = "projr (detect_spans term_redactor ''pw letme1n'' two_terms)"
  have a: "detect_spans term_redactor ''pw hunter2'' two_terms = Inr ?ca" by code_simp
  have b: "detect_spans term_redactor ''pw letme1n'' two_terms = Inr ?cb" by code_simp
  have m: "masks_everything term_redactor" by code_simp
  have d: "\<forall>d \<in> set (en_detectors term_redactor). detector_ok d" by (simp add: term_redactor_def)
  have s: "map sp_start ?ca = map sp_start ?cb" "map sp_end ?ca = map sp_end ?cb" "map sp_entity ?ca = map sp_entity ?cb"
    by code_simp+
  have o: "agree_outside ?ca ''pw hunter2'' ''pw letme1n''" by code_simp
  show ?thesis by (rule masked_text_hides_spans [OF m d a b s o])
qed

section \<open>Limits of the request and response paths\<close>

text \<open>
  C39 (reused_id_releases_results). A limit of the response path: when a call whose result must
  be redacted is in flight and another call without a disposition is tracked under the same
  request id, the entry of the first is lost, and both responses under that id, in whichever
  order the server sends them, reach the client as they came.
\<close>

theorem reused_id_releases_results:
  assumes "track_pending i t1 a1 DRedact spec s = Inr s1" and "track_pending i t2 a2 DNone None s1 = Inr (g_session g)"
    and "py_key i = Some k" and "k \<notin> set (g_pending_tools_list g)"
    and "decode_line (e_lib (g_env g)) line = Inr (Some raw)" and "is_response raw" and "msg_id raw = i"
    and "decode_line (e_lib (g_env g)) line' = Inr (Some raw')" and "is_response raw'" and "msg_id raw' = i"
  shows "client_lines (effects (on_upstream_line line) g) = [encode (e_lib (g_env g)) raw] \<and>
    client_lines (effects (on_upstream_line line') (after (on_upstream_line line) g)) = [encode (e_lib (g_env g)) raw']"
proof -
  obtain s' where first: "resolve_pending i (g_session g) =
      Inr (Some \<lparr>pc_tool = t2, pc_action = a2, pc_disposition = DNone, pc_redaction = None\<rparr>, s')"
    using resolve_after_track [OF assms(2)] by blast
  obtain s'' where second: "resolve_pending i s' = Inr (None, s'')" using resolve_resolve [OF first] by blast
  note plain = plain_response_released [OF assms(5,6) first [folded assms(7)]]
  have "client_lines (effects (on_upstream_line line') (g\<lparr>g_session := s'\<rparr>)) = [encode (e_lib (g_env g)) raw']"
    using untracked_response_released [of "g\<lparr>g_session := s'\<rparr>" line' raw' s'' k] second assms(3,4,8-10) by simp
  with plain show ?thesis by simp
qed

theorem reused_id_releases_results_witness:
  "client_lines (effects (on_upstream_line (encode sample_lib (sample_result 7 ''hunter2'')))
     (sample_gateway\<lparr>g_session := projr (track_pending (PInt 7) ''web.get'' (PStr ''allow'') DNone None
        (projr (track_pending (PInt 7) ''crm.get'' (PStr ''redact'') DRedact (Some default_spec) sample_session)))\<rparr>)) =
   [encode sample_lib (sample_result 7 ''hunter2'')]"
proof -
  let ?s1 = "projr (track_pending (PInt 7) ''crm.get'' (PStr ''redact'') DRedact (Some default_spec) sample_session)"
  let ?s2 = "projr (track_pending (PInt 7) ''web.get'' (PStr ''allow'') DNone None ?s1)"
  let ?g = "sample_gateway\<lparr>g_session := ?s2\<rparr>" and ?l = "encode sample_lib (sample_result 7 ''hunter2'')"
  have env: "e_lib (g_env ?g) = sample_lib" by (simp add: sample_gateway_def sample_env_def)
  have one: "track_pending (PInt 7) ''crm.get'' (PStr ''redact'') DRedact (Some default_spec) sample_session = Inr ?s1"
    and two: "track_pending (PInt 7) ''web.get'' (PStr ''allow'') DNone None ?s1 = Inr (g_session ?g)"
    by (simp_all add: track_pending_def)
  have line: "decode_line (e_lib (g_env ?g)) ?l = Inr (Some (sample_result 7 ''hunter2''))" unfolding env by code_simp
  have resp: "is_response (sample_result 7 ''hunter2'')" and id: "msg_id (sample_result 7 ''hunter2'') = PInt 7" by code_simp+
  have fresh: "the (py_key (PInt 7)) \<notin> set (g_pending_tools_list ?g)" by (simp add: sample_gateway_def)
  have key: "py_key (PInt 7) = Some (the (py_key (PInt 7)))" by simp
  from reused_id_releases_results [OF one two key fresh line resp id line resp id] show ?thesis
    unfolding env by (rule conjunct1)
qed

text \<open>
  C40 (notifications_bypass_policy). A client message without an id (or with a null one) is
  forwarded upstream as it is by every gateway, also when its method is tools/call: only
  requests go through the pipeline.
\<close>

theorem notifications_bypass_policy:
  assumes "decode_line (e_lib (g_env g)) line = Inr (Some raw)" and "msg_id raw = PNone"
  shows "upstream_lines (effects (handle_input (ClientLine line)) g) = [encode (e_lib (g_env g)) raw]"
  using assms by (rule notification_passes)

theorem notifications_bypass_policy_witness:
  "upstream_lines (effects (handle_input (ClientLine (encode sample_lib notify_call))) sample_gateway) =
     [encode sample_lib notify_call] \<and> msg_method notify_call = Some METHOD_TOOLS_CALL"
proof
  have "decode_line (e_lib (g_env sample_gateway)) (encode sample_lib notify_call) = Inr (Some notify_call)" by code_simp
  moreover have "msg_id notify_call = PNone" by code_simp
  ultimately show "upstream_lines (effects (handle_input (ClientLine (encode sample_lib notify_call))) sample_gateway) =
      [encode sample_lib notify_call]"
    using notifications_bypass_policy by (fastforce simp: sample_gateway_def sample_env_def)
  show "msg_method notify_call = Some METHOD_TOOLS_CALL" by code_simp
qed

end
